(* ===== verification/Prelude.thy ===== *)
theory Prelude
  imports Main "HOL-Library.Word"
begin

text \<open>
  Shared material of the development: the machine types of the x86_64 kernel, the page
  arithmetic every memory component uses, little-endian encodings, and a few facts on
  lists that stand for Rust arrays and vectors. The kernel is built in release mode
  without overflow checks (\<^verbatim>\<open>run_tests.sh\<close>), so \<^verbatim>\<open>u64\<close> arithmetic is word arithmetic.
\<close>

unbundle bit_operations_syntax

type_synonym u8 = "8 word"
type_synonym u16 = "16 word"
type_synonym u32 = "32 word"
type_synonym u64 = "64 word"

named_theorems page_arith

abbreviation U64_MAX :: u64 where "U64_MAX \<equiv> - 1"

lemma unat_u64_lt [simp, intro]: "unat (x :: u64) < 18446744073709551616"
proof -
  have "unat x < 2 ^ LENGTH(64)" by (rule unsigned_less)
  then show ?thesis by simp
qed

lemma unat_u32_lt [simp, intro]: "unat (x :: u32) < 4294967296"
proof -
  have "unat x < 2 ^ LENGTH(32)" by (rule unsigned_less)
  then show ?thesis by simp
qed

lemma unat_u16_lt [simp, intro]: "unat (x :: u16) < 65536"
proof -
  have "unat x < 2 ^ LENGTH(16)" by (rule unsigned_less)
  then show ?thesis by simp
qed

lemma unat_u8_lt [simp, intro]: "unat (x :: u8) < 256"
proof -
  have "unat x < 2 ^ LENGTH(8)" by (rule unsigned_less)
  then show ?thesis by simp
qed

subsection \<open>Page arithmetic\<close>

definition align_down :: "u64 \<Rightarrow> u64" where
  "align_down x = x AND NOT 0xFFF"

definition align_up :: "u64 \<Rightarrow> u64" where
  "align_up x = (x + 0xFFF) AND NOT 0xFFF"

definition page_aligned :: "u64 \<Rightarrow> bool" where
  "page_aligned x \<longleftrightarrow> x AND 0xFFF = 0"

lemma mask12: "(0xFFF :: u64) = mask 12"
  by (simp add: mask_eq_exp_minus_1)

lemma unat_and_mask12 [page_arith]: "unat (x AND 0xFFF :: u64) = unat x mod 4096"
proof -
  have "x AND 0xFFF = take_bit 12 x"
    by (simp only: mask12 take_bit_eq_mask)
  then show ?thesis
    by (simp only: unsigned_take_bit_eq) (simp add: take_bit_eq_mod)
qed

lemma align_down_plus_offset: "align_down x + (x AND 0xFFF) = x"
  unfolding align_down_def
  by (subst disjunctive_add) (auto simp: bit_simps intro!: bit_word_eqI)

lemma unat_align_down [page_arith]: "unat (align_down x) = unat x - unat x mod 4096"
proof -
  have "align_down x = x - (x AND 0xFFF)"
    using align_down_plus_offset [of x] by (simp add: algebra_simps)
  moreover have "x AND 0xFFF \<le> x"
    by (simp add: word_le_nat_alt unat_and_mask12)
  ultimately show ?thesis
    by (simp add: unat_sub unat_and_mask12)
qed

lemma align_up_eq: "align_up x = align_down (x + 0xFFF)"
  by (simp add: align_up_def align_down_def)

lemma unat_align_up [page_arith]:
  "unat x + 4095 < 2 ^ 64 \<Longrightarrow> unat (align_up x) = (unat x + 4095) - (unat x + 4095) mod 4096"
  by (simp add: align_up_eq unat_align_down unat_word_ariths)

lemma page_aligned_nat: "page_aligned x \<longleftrightarrow> unat x mod 4096 = 0"
  unfolding page_aligned_def
  by (metis unat_and_mask12 unat_eq_zero)

lemma page_aligned_align_down [simp, intro]: "page_aligned (align_down x)"
  by (simp add: page_aligned_nat unat_align_down)

lemma page_aligned_align_up [simp, intro]: "page_aligned (align_up x)"
  by (simp add: align_up_eq)

lemma align_down_aligned [simp]: "page_aligned x \<Longrightarrow> align_down x = x"
  using align_down_plus_offset [of x] by (simp add: page_aligned_def)

lemma align_up_aligned [simp]:
  "page_aligned x \<Longrightarrow> align_up x = x"
proof -
  assume "page_aligned x"
  then have "unat x mod 4096 = 0" by (simp add: page_aligned_nat)
  then obtain k where k: "unat x = 4096 * k" by (metis mod_0_imp_dvd dvdE)
  moreover have "unat x < 18446744073709551616" by simp
  ultimately have "unat x + 4095 < 2 ^ 64" by simp
  then have "unat (align_up x) = (4096 * k + 4095) - (4096 * k + 4095) mod 4096"
    by (simp only: unat_align_up k)
  also have "(4096 * k + 4095) mod 4096 = 4095"
    by (simp only: mod_mult_self4) simp
  finally have "unat (align_up x) = unat x" by (simp add: k)
  then show ?thesis by (simp only: word_unat_eq_iff)
qed

subsection \<open>Little-endian byte strings\<close>

text \<open>
  Rust's \<^verbatim>\<open>to_le_bytes\<close> and the field reads through packed structs. \<open>le_bytes n x\<close> is the
  \<open>n\<close> low bytes of \<open>x\<close>, \<open>le_word\<close> reads a byte string back, \<open>field\<close> and \<open>put\<close> are a read
  and a \<^verbatim>\<open>copy_from_slice\<close> at an offset of a buffer.
\<close>

primrec le_bytes :: "nat \<Rightarrow> 'a::len word \<Rightarrow> u8 list" where
  "le_bytes 0 x = []"
| "le_bytes (Suc n) x = ucast x # le_bytes n (drop_bit 8 x)"

primrec le_word :: "u8 list \<Rightarrow> 'a::len word" where
  "le_word [] = 0"
| "le_word (b # bs) = ucast b OR push_bit 8 (le_word bs)"

definition field :: "u8 list \<Rightarrow> nat \<Rightarrow> nat \<Rightarrow> 'a::len word" where
  "field bs off n = le_word (take n (drop off bs))"

definition put :: "u8 list \<Rightarrow> nat \<Rightarrow> u8 list \<Rightarrow> u8 list" where
  "put bs off new = take off bs @ new @ drop (off + length new) bs"

lemma length_le_bytes [simp]: "length (le_bytes n x) = n"
  by (induction n arbitrary: x) simp_all

lemma le_word_le_bytes: "le_word (le_bytes n x) = take_bit (8 * n) (x :: 'a::len word)"
proof (induction n arbitrary: x)
  case 0
  then show ?case by simp
next
  case (Suc n)
  show ?case
    by (rule bit_word_eqI) (auto simp: Suc bit_simps)
qed

lemma le_word_le_bytes_full [simp]:
  "LENGTH('a) \<le> 8 * n \<Longrightarrow> le_word (le_bytes n x) = (x :: 'a::len word)"
  by (simp add: le_word_le_bytes take_bit_word_eq_self)

lemma length_put [simp]: "off + length new \<le> length bs \<Longrightarrow> length (put bs off new) = length bs"
  by (simp add: put_def)

lemma take_drop_put_same [simp]:
  "off + length new \<le> length bs \<Longrightarrow> n = length new \<Longrightarrow> take n (drop off (put bs off new)) = new"
  by (simp add: put_def)

lemma take_drop_put_before:
  "i + n \<le> off \<Longrightarrow> off + length new \<le> length bs \<Longrightarrow>
   take n (drop i (put bs off new)) = take n (drop i bs)"
  by (simp add: put_def take_drop min_absorb1)

lemma take_drop_put_after:
  "off + length new \<le> i \<Longrightarrow> off + length new \<le> length bs \<Longrightarrow>
   take n (drop i (put bs off new)) = take n (drop i bs)"
  by (simp add: put_def min_absorb2)

lemma nth_put_before: "i < off \<Longrightarrow> off \<le> length bs \<Longrightarrow> put bs off new ! i = bs ! i"
  by (simp add: put_def nth_append)

lemma nth_put_after:
  "off + length new \<le> i \<Longrightarrow> off + length new \<le> length bs \<Longrightarrow> put bs off new ! i = bs ! i"
  by (auto simp: put_def nth_append min_absorb2)

lemmas put_frame = take_drop_put_before take_drop_put_after

text \<open>Byte strings: the literals \<^verbatim>\<open>b"..."\<close> of the source.\<close>

definition ascii :: "string \<Rightarrow> u8 list" where
  "ascii s = map (\<lambda>c. of_nat (of_char c)) s"

lemma length_ascii [simp]: "length (ascii s) = length s"
  by (simp add: ascii_def)

subsection \<open>Searches over index ranges\<close>

lemma find_range_Some:
  "find P [m..<n] = Some i \<longleftrightarrow> m \<le> i \<and> i < n \<and> P i \<and> (\<forall>j. m \<le> j \<longrightarrow> j < i \<longrightarrow> \<not> P j)"
proof -
  have "find P [m..<n] = Some i \<longleftrightarrow> (\<exists>k<n - m. P (m + k) \<and> i = m + k \<and> (\<forall>j<k. \<not> P (m + j)))"
    unfolding find_Some_iff by (auto simp del: upt_rec_numeral intro!: exI [of _ "i - m"])
  also have "\<dots> \<longleftrightarrow> m \<le> i \<and> i < n \<and> P i \<and> (\<forall>j. m \<le> j \<longrightarrow> j < i \<longrightarrow> \<not> P j)" (is "?l \<longleftrightarrow> ?r")
  proof
    assume ?l
    then show ?r by (metis le_add1 le_add_diff_inverse less_diff_conv add.commute nat_add_left_cancel_less)
  next
    assume r: ?r
    then show ?l by (intro exI [of _ "i - m"]) auto
  qed
  finally show ?thesis .
qed

lemma find_range_None: "find P [m..<n] = None \<longleftrightarrow> (\<forall>i. m \<le> i \<longrightarrow> i < n \<longrightarrow> \<not> P i)"
  by (auto simp: find_None_iff)

end
