(* ===== verification/Frame.thy ===== *)
theory Frame
  imports Prelude
begin

text \<open>
  The physical frame allocator, \<^verbatim>\<open>kernel/src/memory/frame.rs\<close>: a bitmap with one bit per
  4 KiB frame (1 = used) and two counters. The fixed-size array \<^verbatim>\<open>[u8; BITMAP_SIZE]\<close> is a
  function on indices; every access of the code is guarded by \<^verbatim>\<open>byte < BITMAP_SIZE\<close>. The
  abstract view is the set of free frames; the lemmas show that allocation takes its least
  element, that deallocation puts a frame back once, and that the counters agree with it.
\<close>

section \<open>State and operations\<close>

abbreviation PAGE_SIZE :: nat where "PAGE_SIZE \<equiv> 4096"
abbreviation BITMAP_SIZE :: nat where "BITMAP_SIZE \<equiv> 131072"
abbreviation MAX_FRAMES :: nat where "MAX_FRAMES \<equiv> 1048576"

record frame_allocator =
  bitmap :: "nat \<Rightarrow> u8"
  total_frames :: nat
  used_frames :: nat

definition frame_allocator_new :: frame_allocator where
  "frame_allocator_new = \<lparr>bitmap = (\<lambda>_. 0xFF), total_frames = 0, used_frames = 0\<rparr>"

definition mark_free :: "nat \<Rightarrow> frame_allocator \<Rightarrow> frame_allocator" where
  "mark_free frame a =
     (let byte = frame div 8; b = frame mod 8
      in if byte < BITMAP_SIZE
         then a\<lparr>bitmap := (bitmap a)(byte := bitmap a byte AND NOT (push_bit b 1))\<rparr>
         else a)"

definition mark_used :: "nat \<Rightarrow> frame_allocator \<Rightarrow> frame_allocator" where
  "mark_used frame a =
     (let byte = frame div 8; b = frame mod 8
      in if byte < BITMAP_SIZE
         then a\<lparr>bitmap := (bitmap a)(byte := bitmap a byte OR push_bit b 1)\<rparr>
         else a)"

definition is_free :: "frame_allocator \<Rightarrow> nat \<Rightarrow> bool" where
  "is_free a frame =
     (let byte = frame div 8; b = frame mod 8
      in if byte < BITMAP_SIZE then bitmap a byte AND push_bit b 1 = 0 else False)"

text \<open>The two nested loops of \<^verbatim>\<open>alloc\<close>: bytes from \<open>byte_idx\<close> up, bits 0 to 7 within a byte.\<close>

function alloc_scan :: "frame_allocator \<Rightarrow> nat \<Rightarrow> (u64 \<times> frame_allocator) option" where
  "alloc_scan a byte_idx =
     (if byte_idx < BITMAP_SIZE then
        if bitmap a byte_idx \<noteq> 0xFF then
          case find (\<lambda>b. is_free a (byte_idx * 8 + b)) [0..<8] of
            Some b \<Rightarrow>
              (let frame = byte_idx * 8 + b; a' = mark_used frame a
               in Some (of_nat frame * of_nat PAGE_SIZE, a'\<lparr>used_frames := used_frames a' + 1\<rparr>))
          | None \<Rightarrow> alloc_scan a (byte_idx + 1)
        else alloc_scan a (byte_idx + 1)
      else None)"
  by pat_completeness auto
termination
  by (relation "measure (\<lambda>(a, i). BITMAP_SIZE - i)") auto

declare alloc_scan.simps [simp del]

definition frame_alloc :: "frame_allocator \<Rightarrow> (u64 \<times> frame_allocator) option" where
  "frame_alloc a = alloc_scan a 0"

definition frame_dealloc :: "u64 \<Rightarrow> frame_allocator \<Rightarrow> frame_allocator" where
  "frame_dealloc phys_addr a =
     (let frame = unat (phys_addr div of_nat PAGE_SIZE)
      in if frame < MAX_FRAMES \<and> \<not> is_free a frame then
           let a' = mark_free frame a
           in if used_frames a' > 0 then a'\<lparr>used_frames := used_frames a' - 1\<rparr> else a'
         else a)"

text \<open>
  Boot: the loop over the boot loader's memory map. An entry is its base, its length and
  whether its type is \<^verbatim>\<open>USABLE\<close>; the additions wrap as in the code.
\<close>

record mmap_entry =
  me_base :: u64
  me_length :: u64
  me_usable :: bool

definition entry_frames :: "mmap_entry \<Rightarrow> nat list" where
  "entry_frames e =
     [max (unat ((me_base e + of_nat PAGE_SIZE - 1) div of_nat PAGE_SIZE)) 256 ..<
      unat ((me_base e + me_length e) div of_nat PAGE_SIZE)]"

fun init_frames :: "nat list \<Rightarrow> frame_allocator \<times> nat \<Rightarrow> frame_allocator \<times> nat" where
  "init_frames [] st = st"
| "init_frames (f # fs) (a, free_count) =
     init_frames fs (if f < MAX_FRAMES then (mark_free f a, free_count + 1) else (a, free_count))"

fun init_entries :: "mmap_entry list \<Rightarrow> frame_allocator \<times> nat \<Rightarrow> frame_allocator \<times> nat" where
  "init_entries [] st = st"
| "init_entries (e # es) st =
     init_entries es (if me_usable e then init_frames (entry_frames e) st else st)"

definition frame_init :: "mmap_entry list \<Rightarrow> frame_allocator \<Rightarrow> frame_allocator" where
  "frame_init es a =
     (let (a', free_count) = init_entries es (a, 0)
      in a'\<lparr>total_frames := free_count, used_frames := 0\<rparr>)"

definition frame_stats :: "frame_allocator \<Rightarrow> nat \<times> nat \<times> nat" where
  "frame_stats a = (total_frames a, used_frames a, total_frames a - used_frames a)"

section \<open>The set of free frames\<close>

definition free_frames :: "frame_allocator \<Rightarrow> nat set" where
  "free_frames a = {f. is_free a f}"

lemma is_free_bit: "is_free a f \<longleftrightarrow> f < MAX_FRAMES \<and> \<not> bit (bitmap a (f div 8)) (f mod 8)"
proof -
  have "f div 8 < BITMAP_SIZE \<longleftrightarrow> f < MAX_FRAMES" by auto
  then show ?thesis by (simp add: is_free_def Let_def bit_iff_and_push_bit_not_eq_0)
qed

lemma byte_not_full: "(w :: u8) \<noteq> 0xFF \<longleftrightarrow> (\<exists>b<8. \<not> bit w b)"
proof -
  have "(0xFF :: u8) = mask 8" by (simp add: mask_eq_exp_minus_1)
  then have "w = 0xFF \<longleftrightarrow> (\<forall>b<8. bit w b)"
    by (simp only:) (auto simp: bit_eq_iff bit_simps)
  then show ?thesis by blast
qed

lemma div_mod_8_eq: "f div 8 = g div 8 \<Longrightarrow> f mod 8 = g mod 8 \<Longrightarrow> f = (g :: nat)"
  by (metis div_mult_mod_eq)

lemma is_free_mark_used: "is_free (mark_used f a) g \<longleftrightarrow> is_free a g \<and> g \<noteq> f"
  by (cases "f div 8 = g div 8")
     (auto simp: is_free_bit mark_used_def Let_def bit_simps dest: div_mod_8_eq)

lemma is_free_mark_free: "is_free (mark_free f a) g \<longleftrightarrow> is_free a g \<or> (g = f \<and> f < MAX_FRAMES)"
  by (cases "f div 8 = g div 8")
     (auto simp: is_free_bit mark_free_def Let_def bit_simps dest: div_mod_8_eq)

lemma counters_mark [simp]:
  "total_frames (mark_used f a) = total_frames a" "used_frames (mark_used f a) = used_frames a"
  "total_frames (mark_free f a) = total_frames a" "used_frames (mark_free f a) = used_frames a"
  by (simp_all add: mark_used_def mark_free_def Let_def)

lemma is_free_counters [simp]:
  "is_free (a\<lparr>used_frames := n\<rparr>) = is_free a" "is_free (a\<lparr>total_frames := n\<rparr>) = is_free a"
  by (simp_all add: fun_eq_iff is_free_bit)

lemma free_frames_bounded: "f \<in> free_frames a \<Longrightarrow> f < MAX_FRAMES"
  by (simp add: free_frames_def is_free_bit)

lemma finite_free_frames [simp, intro]: "finite (free_frames a)"
  by (rule finite_subset [of _ "{..<MAX_FRAMES}"]) (auto dest: free_frames_bounded)

lemma free_frames_simps:
  "free_frames (mark_used f a) = free_frames a - {f}"
  "f < MAX_FRAMES \<Longrightarrow> free_frames (mark_free f a) = insert f (free_frames a)"
  "free_frames (a\<lparr>used_frames := n\<rparr>) = free_frames a"
  "free_frames (a\<lparr>total_frames := n\<rparr>) = free_frames a"
  by (auto simp: free_frames_def is_free_mark_used is_free_mark_free)

section \<open>Allocation\<close>

definition lowest_free :: "frame_allocator \<Rightarrow> nat" where
  "lowest_free a = Min (free_frames a)"

definition take_frame :: "nat \<Rightarrow> frame_allocator \<Rightarrow> frame_allocator" where
  "take_frame f a = (mark_used f a)\<lparr>used_frames := used_frames a + 1\<rparr>"

lemma find_upt_Some_iff:
  "find P [0..<n] = Some b \<longleftrightarrow> b < n \<and> P b \<and> (\<forall>j<b. \<not> P j)"
  by (auto simp: find_Some_iff nth_append)

lemma full_byte_not_free: "bitmap a i = 0xFF \<Longrightarrow> b < 8 \<Longrightarrow> \<not> is_free a (i * 8 + b)"
  using byte_not_full [of "bitmap a i"] by (simp add: is_free_bit)

lemma alloc_scan_step:
  "alloc_scan a i =
     (if i < BITMAP_SIZE then
        case find (\<lambda>b. is_free a (i * 8 + b)) [0..<8] of
          Some b \<Rightarrow> Some (of_nat (i * 8 + b) * of_nat PAGE_SIZE, take_frame (i * 8 + b) a)
        | None \<Rightarrow> alloc_scan a (i + 1)
      else None)"
proof (cases "bitmap a i = 0xFF")
  case True
  then have "find (\<lambda>b. is_free a (i * 8 + b)) [0..<8] = None"
    by (auto simp: find_None_iff full_byte_not_free)
  with True show ?thesis by (subst alloc_scan.simps) simp
next
  case False
  then show ?thesis
    by (subst alloc_scan.simps) (simp add: take_frame_def Let_def split: option.split)
qed

lemma lowest_free_eq:
  "is_free a f \<Longrightarrow> (\<And>g. is_free a g \<Longrightarrow> f \<le> g) \<Longrightarrow> lowest_free a = f"
  unfolding lowest_free_def by (rule Min_eqI) (simp_all add: finite_free_frames, simp_all add: free_frames_def)

lemma alloc_scan_free:
  "(\<And>f. is_free a f \<Longrightarrow> i * 8 \<le> f) \<Longrightarrow>
   alloc_scan a i =
     (if free_frames a = {} then None
      else Some (of_nat (lowest_free a) * of_nat PAGE_SIZE, take_frame (lowest_free a) a))"
proof (induction "BITMAP_SIZE - i" arbitrary: i)
  case 0
  then have "free_frames a = {}"
    using free_frames_bounded [of _ a] by (fastforce simp: free_frames_def)
  with 0 show ?case by (subst alloc_scan_step) simp
next
  case (Suc n)
  have lt: "i < BITMAP_SIZE" using Suc.hyps(2) by simp
  show ?case
  proof (cases "find (\<lambda>b. is_free a (i * 8 + b)) [0..<8]")
    case None
    then have none: "\<not> is_free a (i * 8 + b)" if "b < 8" for b
      using that by (simp add: find_None_iff)
    have "(i + 1) * 8 \<le> f" if f: "is_free a f" for f
      using Suc.prems [OF f] none [of "f - i * 8"] f by (cases "f - i * 8 < 8") auto
    moreover have "n = BITMAP_SIZE - (i + 1)" using Suc.hyps(2) by simp
    ultimately have "alloc_scan a (i + 1) = (if free_frames a = {} then None
      else Some (of_nat (lowest_free a) * of_nat PAGE_SIZE, take_frame (lowest_free a) a))"
      by (intro Suc.hyps(1))
    with None lt show ?thesis by (subst alloc_scan_step) simp
  next
    case (Some b)
    then have b: "b < 8" "is_free a (i * 8 + b)" "\<And>j. j < b \<Longrightarrow> \<not> is_free a (i * 8 + j)"
      by (auto simp: find_upt_Some_iff)
    have "i * 8 + b \<le> f" if f: "is_free a f" for f
      using Suc.prems [OF f] b(3) [of "f - i * 8"] f by (cases "f - i * 8 < b") auto
    then have "lowest_free a = i * 8 + b" by (rule lowest_free_eq [OF b(2)])
    moreover have "free_frames a \<noteq> {}" using b(2) by (auto simp: free_frames_def)
    ultimately show ?thesis
      using Some lt by (subst alloc_scan_step) simp
  qed
qed

lemma frame_alloc_eq:
  "frame_alloc a =
     (if free_frames a = {} then None
      else Some (of_nat (lowest_free a) * of_nat PAGE_SIZE, take_frame (lowest_free a) a))"
  unfolding frame_alloc_def by (rule alloc_scan_free) simp

lemma lowest_free_in: "free_frames a \<noteq> {} \<Longrightarrow> lowest_free a \<in> free_frames a"
  unfolding lowest_free_def by (rule Min_in) auto

lemma lowest_free_le: "f \<in> free_frames a \<Longrightarrow> lowest_free a \<le> f"
  unfolding lowest_free_def by (rule Min_le) auto

lemma free_frames_take_frame [simp]: "free_frames (take_frame f a) = free_frames a - {f}"
  by (simp add: take_frame_def free_frames_simps)

lemma take_frame_counters [simp]:
  "used_frames (take_frame f a) = used_frames a + 1"
  "total_frames (take_frame f a) = total_frames a"
  by (simp_all add: take_frame_def)

subsection \<open>Addresses of frames\<close>

definition frame_addr :: "nat \<Rightarrow> u64" where
  "frame_addr f = of_nat f * of_nat PAGE_SIZE"

definition avail_frames :: "frame_allocator \<Rightarrow> u64 set" where
  "avail_frames a = frame_addr ` free_frames a"

lemma unat_frame_addr: "f < MAX_FRAMES \<Longrightarrow> unat (frame_addr f) = f * PAGE_SIZE"
  by (simp add: frame_addr_def unat_word_ariths unat_of_nat)

lemma frame_addr_inj: "f < MAX_FRAMES \<Longrightarrow> g < MAX_FRAMES \<Longrightarrow> frame_addr f = frame_addr g \<Longrightarrow> f = g"
  by (metis unat_frame_addr mult_cancel2 zero_neq_numeral)

lemma frame_addr_aligned: "f < MAX_FRAMES \<Longrightarrow> page_aligned (frame_addr f)"
  by (simp add: page_aligned_nat unat_frame_addr)

lemma frame_of_addr: "f < MAX_FRAMES \<Longrightarrow> unat (frame_addr f div of_nat PAGE_SIZE) = f"
  by (simp add: unat_div unat_frame_addr)

lemma avail_frames_valid:
  "p \<in> avail_frames a \<Longrightarrow> page_aligned p \<and> unat p < MAX_FRAMES * PAGE_SIZE"
  by (auto simp: avail_frames_def frame_addr_aligned unat_frame_addr dest!: free_frames_bounded)

lemma frame_alloc_None: "frame_alloc a = None \<longleftrightarrow> avail_frames a = {}"
  by (simp add: frame_alloc_eq avail_frames_def)

lemma frame_alloc_Some:
  assumes "frame_alloc a = Some (p, a')"
  shows "p \<in> avail_frames a" "avail_frames a' = avail_frames a - {p}"
    "used_frames a' = used_frames a + 1" "total_frames a' = total_frames a"
proof -
  from assms have ne: "free_frames a \<noteq> {}" and p: "p = frame_addr (lowest_free a)"
    and a': "a' = take_frame (lowest_free a) a"
    by (auto simp: frame_alloc_eq frame_addr_def split: if_splits)
  show "p \<in> avail_frames a" using lowest_free_in [OF ne] p by (simp add: avail_frames_def)
  have "inj_on frame_addr (free_frames a)"
    by (rule inj_onI) (blast dest: free_frames_bounded frame_addr_inj)
  then show "avail_frames a' = avail_frames a - {p}"
    using lowest_free_in [OF ne]
    by (simp add: avail_frames_def a' p inj_on_image_set_diff [of _ "free_frames a"])
qed (use assms in \<open>auto simp: frame_alloc_eq split: if_splits\<close>)

lemma frame_dealloc_free_frames:
  "free_frames (frame_dealloc p a) =
     (if unat p div PAGE_SIZE < MAX_FRAMES then insert (unat p div PAGE_SIZE) (free_frames a)
      else free_frames a)"
  by (auto simp: frame_dealloc_def Let_def free_frames_simps unat_div)
     (auto simp: free_frames_def)

lemma avail_frames_dealloc:
  assumes "page_aligned p" "unat p < MAX_FRAMES * PAGE_SIZE"
  shows "avail_frames (frame_dealloc p a) = insert p (avail_frames a)"
proof -
  have lt: "unat p div PAGE_SIZE < MAX_FRAMES" using assms(2) by (simp add: less_mult_imp_div_less)
  have "unat (frame_addr (unat p div PAGE_SIZE)) = unat p"
    using assms(1) by (simp only: unat_frame_addr [OF lt] page_aligned_nat)
      (metis dvd_div_mult_self mod_0_imp_dvd)
  then have "frame_addr (unat p div PAGE_SIZE) = p" by (simp only: word_unat_eq_iff)
  with lt show ?thesis by (simp add: avail_frames_def frame_dealloc_free_frames)
qed

section \<open>Accounting\<close>

definition frames_accounted :: "frame_allocator \<Rightarrow> bool" where
  "frames_accounted a \<longleftrightarrow> used_frames a + card (free_frames a) = total_frames a"

lemma frame_alloc_accounted:
  assumes "frames_accounted a" "frame_alloc a = Some (p, a')"
  shows "frames_accounted a'"
proof -
  from assms(2) have ne: "free_frames a \<noteq> {}" and a': "a' = take_frame (lowest_free a) a"
    by (auto simp: frame_alloc_eq split: if_splits)
  have "card (free_frames a) > 0" using ne by (simp add: card_gt_0_iff)
  then show ?thesis
    using assms(1) lowest_free_in [OF ne] by (simp add: frames_accounted_def a')
qed

lemma frame_dealloc_counters:
  "total_frames (frame_dealloc p a) = total_frames a"
  "unat p div PAGE_SIZE < MAX_FRAMES \<Longrightarrow> unat p div PAGE_SIZE \<notin> free_frames a \<Longrightarrow>
   used_frames (frame_dealloc p a) = used_frames a - 1"
  "unat p div PAGE_SIZE \<in> free_frames a \<Longrightarrow> frame_dealloc p a = a"
  by (simp_all add: frame_dealloc_def Let_def free_frames_def unat_div)

lemma frame_dealloc_accounted:
  assumes "frames_accounted a" "used_frames a > 0"
  shows "frames_accounted (frame_dealloc p a)"
proof (cases "unat p div PAGE_SIZE < MAX_FRAMES \<and> unat p div PAGE_SIZE \<notin> free_frames a")
  case True
  with assms show ?thesis
    by (simp add: frames_accounted_def frame_dealloc_counters frame_dealloc_free_frames)
next
  case False
  then have "frame_dealloc p a = a"
    by (auto simp: frame_dealloc_def Let_def free_frames_def unat_div)
  with assms show ?thesis by simp
qed

subsection \<open>Boot\<close>

lemma init_frames_spec:
  "init_frames fs (a, n) = (a', n') \<Longrightarrow>
   free_frames a' = free_frames a \<union> {f \<in> set fs. f < MAX_FRAMES} \<and>
   n' = n + length (filter (\<lambda>f. f < MAX_FRAMES) fs)"
proof (induction fs arbitrary: a n)
  case Nil
  then show ?case by simp
next
  case (Cons f fs)
  show ?case
  proof (cases "f < MAX_FRAMES")
    case True
    with Cons.prems have "init_frames fs (mark_free f a, n + 1) = (a', n')" by simp
    from Cons.IH [OF this] True show ?thesis by (auto simp: free_frames_simps)
  next
    case False
    with Cons.prems have "init_frames fs (a, n) = (a', n')" by simp
    from Cons.IH [OF this] False show ?thesis by auto
  qed
qed

definition usable_frames :: "mmap_entry list \<Rightarrow> nat list" where
  "usable_frames es = concat (map entry_frames (filter me_usable es))"

lemma init_entries_spec:
  "init_entries es (a, n) = (a', n') \<Longrightarrow>
   free_frames a' = free_frames a \<union> {f \<in> set (usable_frames es). f < MAX_FRAMES} \<and>
   n' = n + length (filter (\<lambda>f. f < MAX_FRAMES) (usable_frames es))"
proof (induction es arbitrary: a n)
  case Nil
  then show ?case by (simp add: usable_frames_def)
next
  case (Cons e es)
  show ?case
  proof (cases "me_usable e")
    case True
    obtain a1 n1 where st: "init_frames (entry_frames e) (a, n) = (a1, n1)" by (metis surj_pair)
    with True Cons.prems have "init_entries es (a1, n1) = (a', n')" by simp
    from Cons.IH [OF this] init_frames_spec [OF st] True show ?thesis
      by (auto simp: usable_frames_def)
  next
    case False
    with Cons show ?thesis by (auto simp: usable_frames_def)
  qed
qed

lemma free_frames_new [simp]: "free_frames frame_allocator_new = {}"
  using byte_not_full [of "0xFF"] by (auto simp: free_frames_def is_free_bit frame_allocator_new_def)

lemma frame_init_free:
  "free_frames (frame_init es frame_allocator_new) = {f \<in> set (usable_frames es). f < MAX_FRAMES}"
  using init_entries_spec [of es frame_allocator_new 0]
  by (auto simp: frame_init_def free_frames_simps split: prod.split)

lemma frame_init_accounted:
  assumes "distinct (usable_frames es)"
  shows "frames_accounted (frame_init es frame_allocator_new)"
proof -
  obtain a' n' where st: "init_entries es (frame_allocator_new, 0) = (a', n')" by (metis surj_pair)
  have "card {f \<in> set (usable_frames es). f < MAX_FRAMES}
      = length (filter (\<lambda>f. f < MAX_FRAMES) (usable_frames es))"
    using assms by (metis distinct_card distinct_filter set_filter)
  with init_entries_spec [OF st] st show ?thesis
    by (simp add: frames_accounted_def frame_init_def free_frames_simps)
qed

lemma frame_init_above_1MiB:
  "f \<in> free_frames (frame_init es frame_allocator_new) \<Longrightarrow> 256 \<le> f"
  by (auto simp: frame_init_free usable_frames_def entry_frames_def)

section \<open>The allocator's contract\<close>

lemma frame_addr_le:
  "f \<in> free_frames a \<Longrightarrow> frame_addr (lowest_free a) \<le> frame_addr f"
proof -
  assume f: "f \<in> free_frames a"
  then have "lowest_free a \<in> free_frames a" by (intro lowest_free_in) auto
  from free_frames_bounded [OF this] free_frames_bounded [OF f] lowest_free_le [OF f]
  show ?thesis by (simp add: word_le_nat_alt unat_frame_addr)
qed

lemma frame_alloc_Min:
  assumes "avail_frames a \<noteq> {}"
  shows "frame_addr (lowest_free a) = Min (avail_frames a)"
proof (rule Min_eqI [symmetric])
  have ne: "free_frames a \<noteq> {}" using assms by (auto simp: avail_frames_def)
  show "finite (avail_frames a)" by (simp add: avail_frames_def)
  show "frame_addr (lowest_free a) \<in> avail_frames a"
    using lowest_free_in [OF ne] by (simp add: avail_frames_def)
  show "frame_addr (lowest_free a) \<le> q" if "q \<in> avail_frames a" for q
    using that frame_addr_le by (auto simp: avail_frames_def)
qed

text \<open>
  C33: allocation fails exactly when no frame is free; otherwise it returns the address of the
  lowest free frame, takes that frame and no other out of the free set, and counts it.
\<close>

theorem frame_alloc_lowest:
  "case frame_alloc a of
     None \<Rightarrow> avail_frames a = {}
   | Some (p, a') \<Rightarrow>
       p = Min (avail_frames a) \<and> p \<in> avail_frames a \<and> page_aligned p \<and>
       avail_frames a' = avail_frames a - {p} \<and>
       used_frames a' = used_frames a + 1 \<and> total_frames a' = total_frames a"
proof (cases "frame_alloc a")
  case None
  then have "avail_frames a = {}" by (simp only: frame_alloc_None)
  then show ?thesis by (simp only: None option.case)
next
  case (Some r)
  obtain p a' where r: "r = (p, a')" by fastforce
  note sp = frame_alloc_Some [OF Some [unfolded r]]
  have "p = frame_addr (lowest_free a)"
    using Some r by (auto simp: frame_alloc_eq frame_addr_def split: if_splits)
  then show ?thesis using Some r sp frame_alloc_Min [of a] avail_frames_valid by auto
qed

text \<open>
  C12: giving a frame back keeps the counters equal to the number of free frames, makes
  exactly that frame free, and giving it back a second time changes nothing.
\<close>

theorem frame_dealloc_once:
  assumes "frames_accounted a" "used_frames a > 0"
    and "page_aligned p" "unat p < MAX_FRAMES * PAGE_SIZE"
  shows "frames_accounted (frame_dealloc p a) \<and>
    avail_frames (frame_dealloc p a) = insert p (avail_frames a) \<and>
    frame_dealloc p (frame_dealloc p a) = frame_dealloc p a"
proof -
  have "unat p div PAGE_SIZE < MAX_FRAMES" using assms(4) by (simp add: less_mult_imp_div_less)
  then have "frame_dealloc p (frame_dealloc p a) = frame_dealloc p a"
    by (intro frame_dealloc_counters(3)) (simp add: frame_dealloc_free_frames)
  with frame_dealloc_accounted [OF assms(1,2)] avail_frames_dealloc [OF assms(3,4)]
  show ?thesis by blast
qed

definition full_allocator :: frame_allocator where
  "full_allocator = \<lparr>bitmap = (\<lambda>_. 0xFF), total_frames = 1, used_frames = 1\<rparr>"

lemma free_frames_full_allocator: "free_frames full_allocator = {}"
  using byte_not_full [of "0xFF"] by (auto simp: free_frames_def is_free_bit full_allocator_def)

lemma frame_dealloc_once_witness:
  "avail_frames (frame_dealloc 0x5000 full_allocator) = {0x5000} \<and>
   frame_dealloc 0x5000 (frame_dealloc 0x5000 full_allocator) = frame_dealloc 0x5000 full_allocator"
  using frame_dealloc_once [of full_allocator "0x5000"]
  by (simp add: frames_accounted_def free_frames_full_allocator full_allocator_def [symmetric]
      page_aligned_nat avail_frames_def) (simp add: full_allocator_def)

text \<open>
  after boot the free frames are the whole usable frames of the memory map below the
  bitmap's limit, none of them below 1 MiB, and the free count is exact when the usable
  regions do not overlap.
\<close>

theorem frame_init_usable:
  assumes "distinct (usable_frames es)"
  shows "free_frames (frame_init es frame_allocator_new) =
      {f \<in> set (usable_frames es). 256 \<le> f \<and> f < MAX_FRAMES} \<and>
    (case frame_stats (frame_init es frame_allocator_new) of (tot, usd, fr) \<Rightarrow>
      usd = 0 \<and> fr = tot \<and> fr = card (free_frames (frame_init es frame_allocator_new)))"
proof -
  have used: "used_frames (frame_init es frame_allocator_new) = 0"
    by (simp add: frame_init_def split: prod.split)
  then have "total_frames (frame_init es frame_allocator_new)
      = card (free_frames (frame_init es frame_allocator_new))"
    using frame_init_accounted [OF assms] by (simp add: frames_accounted_def)
  moreover have "free_frames (frame_init es frame_allocator_new) =
      {f \<in> set (usable_frames es). 256 \<le> f \<and> f < MAX_FRAMES}"
    using frame_init_above_1MiB [of _ es] frame_init_free [of es] by auto
  ultimately show ?thesis using used by (simp add: frame_stats_def)
qed

definition boot_map :: "mmap_entry list" where
  "boot_map = [\<lparr>me_base = 0, me_length = 0x9FC00, me_usable = True\<rparr>,
               \<lparr>me_base = 0x100000, me_length = 0x3000, me_usable = True\<rparr>,
               \<lparr>me_base = 0x103000, me_length = 0x1000, me_usable = False\<rparr>]"

lemma usable_boot_map: "usable_frames boot_map = [256, 257, 258]"
proof -
  have "entry_frames \<lparr>me_base = 0, me_length = 0x9FC00, me_usable = True\<rparr> = []"
    by (simp add: entry_frames_def)
  moreover have "entry_frames \<lparr>me_base = 0x100000, me_length = 0x3000, me_usable = True\<rparr> = [256, 257, 258]"
    by (simp add: entry_frames_def upt_conv_Cons)
  ultimately show ?thesis by (simp add: usable_frames_def boot_map_def)
qed

lemma frame_init_usable_witness:
  "free_frames (frame_init boot_map frame_allocator_new) = {256, 257, 258}"
proof -
  have "distinct (usable_frames boot_map)" unfolding usable_boot_map by simp
  from conjunct1 [OF frame_init_usable [OF this]]
  have "free_frames (frame_init boot_map frame_allocator_new) =
      {f \<in> set [256, 257, 258]. 256 \<le> f \<and> f < MAX_FRAMES}"
    unfolding usable_boot_map .
  also have "\<dots> = {256, 257, 258}" by auto
  finally show ?thesis .
qed

end
