(* ===== verification/Machine.thy ===== *)
theory Machine
  imports Frame
begin

text \<open>
  The machine the kernel runs on, as far as its memory code sees it: physical memory, the
  frame allocator and the page-table root register. The kernel reaches physical memory
  through the boot loader's direct map (\<^verbatim>\<open>phys_to_virt\<close>), which maps all of it, so an access
  through \<^verbatim>\<open>phys_to_virt(p)\<close> is an access to physical address \<open>p\<close>. Memory is kept as 64-bit
  little-endian cells: page-table entries are whole cells, bytes are slices of them.
  The theory also states the interface between the allocator and its clients: a provider of
  frames, and what its clients' loops (take \<open>n\<close> frames, give a list back) do with it.
\<close>

section \<open>Physical memory\<close>

record machine =
  frames :: frame_allocator
  mem :: "u64 \<Rightarrow> u64"
  cr3 :: u64

definition cell :: "u64 \<Rightarrow> u64" where
  "cell a = drop_bit 3 a"

definition read64 :: "machine \<Rightarrow> u64 \<Rightarrow> u64" where
  "read64 m a = mem m (cell a)"

definition write64 :: "u64 \<Rightarrow> u64 \<Rightarrow> machine \<Rightarrow> machine" where
  "write64 a v m = m\<lparr>mem := (mem m)(cell a := v)\<rparr>"

definition byte_shift :: "u64 \<Rightarrow> nat" where
  "byte_shift a = 8 * unat (a AND 7)"

definition read8 :: "machine \<Rightarrow> u64 \<Rightarrow> u8" where
  "read8 m a = ucast (drop_bit (byte_shift a) (mem m (cell a)))"

definition write8 :: "u64 \<Rightarrow> u8 \<Rightarrow> machine \<Rightarrow> machine" where
  "write8 a b m =
     m\<lparr>mem := (mem m)(cell a := (mem m (cell a) AND NOT (push_bit (byte_shift a) 0xFF))
                                OR push_bit (byte_shift a) (ucast b))\<rparr>"

text \<open>\<^verbatim>\<open>write_bytes(phys_to_virt(frame), 0, PAGE_SIZE)\<close> on a page-aligned frame.\<close>

definition zero_page :: "u64 \<Rightarrow> machine \<Rightarrow> machine" where
  "zero_page p m = m\<lparr>mem := (\<lambda>c. if drop_bit 9 c = drop_bit 12 p then 0 else mem m c)\<rparr>"

lemma machine_fields [simp]:
  "frames (write64 a v m) = frames m" "cr3 (write64 a v m) = cr3 m"
  "frames (write8 a b m) = frames m" "cr3 (write8 a b m) = cr3 m"
  "frames (zero_page p m) = frames m" "cr3 (zero_page p m) = cr3 m"
  by (simp_all add: write64_def write8_def zero_page_def)

lemma read64_write64: "read64 (write64 a v m) a' = (if cell a' = cell a then v else read64 m a')"
  by (simp add: read64_def write64_def)

lemma byte_offset_lt: "unat (a AND 7 :: u64) < 8"
proof -
  have "(a AND 7 :: u64) = take_bit 3 a"
    by (simp add: take_bit_eq_mask mask_eq_exp_minus_1)
  then show ?thesis by (simp only: unsigned_take_bit_eq) (simp add: take_bit_eq_mod)
qed

lemma address_split: "cell a = cell a' \<Longrightarrow> a AND 7 = a' AND 7 \<Longrightarrow> a = (a' :: u64)"
proof -
  assume c: "cell a = cell a'" and o: "a AND 7 = a' AND 7"
  have m: "x AND 7 = take_bit 3 x" for x :: u64
    by (simp add: take_bit_eq_mask mask_eq_exp_minus_1)
  from c o show "a = a'" unfolding cell_def m by (metis bits_ident)
qed

lemma ff_mask: "(0xFF :: u64) = mask 8"
  by (simp add: mask_eq_exp_minus_1)

lemma byte_slice_same:
  "s + 8 \<le> 64 \<Longrightarrow>
   (ucast (drop_bit s ((c AND NOT (push_bit s (mask 8))) OR push_bit s (ucast b :: u64))) :: u8) = b"
  by (rule bit_word_eqI) (auto simp: bit_simps)

lemma byte_slice_other:
  "s + 8 \<le> 64 \<Longrightarrow> t + 8 \<le> 64 \<Longrightarrow> s + 8 \<le> t \<or> t + 8 \<le> s \<Longrightarrow>
   (ucast (drop_bit t ((c AND NOT (push_bit s (mask 8))) OR push_bit s (ucast (b :: u8) :: u64))) :: u8)
   = ucast (drop_bit t c)"
  by (rule bit_word_eqI) (auto simp: bit_simps dest: bit_imp_le_length)

lemma mem_write8:
  "mem (write8 a b m) = (mem m)(cell a := (mem m (cell a) AND NOT (push_bit (byte_shift a) (mask 8)))
                                OR push_bit (byte_shift a) (ucast b))"
  by (simp add: write8_def ff_mask)

lemma read8_write8: "read8 (write8 a b m) a' = (if a' = a then b else read8 m a')"
proof (cases "cell a' = cell a")
  case False
  then show ?thesis by (auto simp: read8_def write8_def)
next
  case True
  show ?thesis
  proof (cases "a' = a")
    case True
    moreover have "byte_shift a + 8 \<le> 64" using byte_offset_lt [of a] by (simp add: byte_shift_def)
    ultimately show ?thesis
      by (simp only: read8_def mem_write8 fun_upd_same byte_slice_same simp_thms if_True)
  next
    case False
    then have "a' AND 7 \<noteq> a AND 7" using \<open>cell a' = cell a\<close> address_split by blast
    then have "unat (a' AND 7) \<noteq> unat (a AND 7)" by (simp only: word_unat_eq_iff not_False_eq_True)
    then have "byte_shift a + 8 \<le> byte_shift a' \<or> byte_shift a' + 8 \<le> byte_shift a"
      by (simp add: byte_shift_def) arith
    moreover have "byte_shift a + 8 \<le> 64" "byte_shift a' + 8 \<le> 64"
      using byte_offset_lt [of a] byte_offset_lt [of a'] by (simp_all add: byte_shift_def)
    ultimately show ?thesis
      using False \<open>cell a' = cell a\<close>
      by (simp only: read8_def mem_write8 fun_upd_same byte_slice_other if_False)
  qed
qed

section \<open>Runs of bytes\<close>

text \<open>\<^verbatim>\<open>copy_nonoverlapping\<close> from and to physical memory.\<close>

definition read_bytes :: "machine \<Rightarrow> u64 \<Rightarrow> nat \<Rightarrow> u8 list" where
  "read_bytes m a n = map (\<lambda>i. read8 m (a + of_nat i)) [0..<n]"

fun write_bytes :: "u64 \<Rightarrow> u8 list \<Rightarrow> machine \<Rightarrow> machine" where
  "write_bytes a [] m = m"
| "write_bytes a (b # bs) m = write_bytes (a + 1) bs (write8 a b m)"

lemma length_read_bytes [simp]: "length (read_bytes m a n) = n"
  by (simp add: read_bytes_def)

lemma write_bytes_fields [simp]:
  "frames (write_bytes a bs m) = frames m" "cr3 (write_bytes a bs m) = cr3 m"
  by (induction bs arbitrary: a m) simp_all

lemma of_nat_u64_inj:
  "i < 2 ^ 64 \<Longrightarrow> j < 2 ^ 64 \<Longrightarrow> (a :: u64) + of_nat i = a + of_nat j \<longleftrightarrow> i = j"
  by (auto dest!: arg_cong [of "of_nat i" _ "unat :: u64 \<Rightarrow> nat"] simp: unat_of_nat)

lemma read8_write_bytes_other:
  "(\<And>i. i < length bs \<Longrightarrow> x \<noteq> a + of_nat i) \<Longrightarrow> read8 (write_bytes a bs m) x = read8 m x"
proof (induction bs arbitrary: a m)
  case (Cons b bs)
  have "x \<noteq> a" using Cons.prems [of 0] by simp
  moreover have "x \<noteq> a + 1 + of_nat i" if "i < length bs" for i
    using Cons.prems [of "Suc i"] that by (simp add: algebra_simps)
  ultimately show ?case using Cons.IH [of "a + 1"] by (simp add: read8_write8)
qed simp

lemma read8_write_bytes:
  "length bs \<le> 2 ^ 64 \<Longrightarrow> i < length bs \<Longrightarrow> read8 (write_bytes a bs m) (a + of_nat i) = bs ! i"
proof (induction bs arbitrary: a m i)
  case (Cons b bs)
  show ?case
  proof (cases i)
    case 0
    have "a \<noteq> a + 1 + of_nat k" if "k < length bs" for k
      using of_nat_u64_inj [of 0 "Suc k" a] Cons.prems that by (simp add: algebra_simps)
    with 0 show ?thesis by (simp add: read8_write_bytes_other read8_write8)
  next
    case (Suc k)
    with Cons.IH [of k "a + 1"] Cons.prems show ?thesis by (simp add: algebra_simps)
  qed
qed simp

lemma read_write_bytes [simp]:
  "length bs \<le> 2 ^ 64 \<Longrightarrow> read_bytes (write_bytes a bs m) a (length bs) = bs"
  by (auto simp: read_bytes_def read8_write_bytes intro!: nth_equalityI)

section \<open>Frames as the clients see them\<close>

definition m_avail :: "machine \<Rightarrow> u64 set" where
  "m_avail m = avail_frames (frames m)"

definition m_alloc :: "machine \<Rightarrow> (u64 \<times> machine) option" where
  "m_alloc m = (case frame_alloc (frames m) of
     None \<Rightarrow> None
   | Some (f, a) \<Rightarrow> Some (f, m\<lparr>frames := a\<rparr>))"

definition m_dealloc :: "u64 \<Rightarrow> machine \<Rightarrow> machine" where
  "m_dealloc p m = m\<lparr>frames := frame_dealloc p (frames m)\<rparr>"

text \<open>A frame taken and cleared, as every client but the ELF loader takes it.\<close>

definition m_alloc_zeroed :: "machine \<Rightarrow> (u64 \<times> machine) option" where
  "m_alloc_zeroed m = (case m_alloc m of
     None \<Rightarrow> None
   | Some (f, m') \<Rightarrow> Some (f, zero_page f m'))"

definition valid_frame :: "u64 \<Rightarrow> bool" where
  "valid_frame p \<longleftrightarrow> page_aligned p \<and> unat p < MAX_FRAMES * PAGE_SIZE"

text \<open>
  The loops of the clients over a provider \<open>acq\<close>/\<open>rel\<close>: \<open>acquire_many\<close> takes \<open>n\<close> frames and
  stops at the first failure, reporting whether it got them all; \<open>release_many\<close> gives a
  list back in order.
\<close>

primrec acquire_many :: "('s \<Rightarrow> (u64 \<times> 's) option) \<Rightarrow> nat \<Rightarrow> 's \<Rightarrow> bool \<times> u64 list \<times> 's" where
  "acquire_many acq 0 s = (True, [], s)"
| "acquire_many acq (Suc n) s =
     (case acq s of
        None \<Rightarrow> (False, [], s)
      | Some (f, s') \<Rightarrow> (let (ok, fs, s'') = acquire_many acq n s' in (ok, f # fs, s'')))"

primrec release_many :: "(u64 \<Rightarrow> 's \<Rightarrow> 's) \<Rightarrow> u64 list \<Rightarrow> 's \<Rightarrow> 's" where
  "release_many rel [] s = s"
| "release_many rel (f # fs) s = release_many rel fs (rel f s)"

locale frame_provider =
  fixes acq :: "'s \<Rightarrow> (u64 \<times> 's) option"
    and rel :: "u64 \<Rightarrow> 's \<Rightarrow> 's"
    and avail :: "'s \<Rightarrow> u64 set"
  assumes acq_None: "acq s = None \<longleftrightarrow> avail s = {}"
    and acq_Some: "acq s = Some (f, s') \<Longrightarrow> f \<in> avail s \<and> avail s' = avail s - {f}"
    and rel_avail: "valid_frame f \<Longrightarrow> avail (rel f s) = insert f (avail s)"
    and avail_valid: "f \<in> avail s \<Longrightarrow> valid_frame f"
    and avail_finite: "finite (avail s)"
begin

lemma acquire_many_frames:
  "acquire_many acq n s = (ok, fs, s') \<Longrightarrow>
   distinct fs \<and> set fs \<subseteq> avail s \<and> avail s' = avail s - set fs"
proof (induction n arbitrary: s ok fs s')
  case 0
  then show ?case by simp
next
  case (Suc n)
  show ?case
  proof (cases "acq s")
    case None
    with Suc.prems show ?thesis by simp
  next
    case (Some a)
    obtain f t where a: "a = (f, t)" by fastforce
    obtain ok' gs u where rest: "acquire_many acq n t = (ok', gs, u)" by (metis prod_cases3)
    have eq: "fs = f # gs" "s' = u" using Suc.prems Some a rest by auto
    have f: "f \<in> avail s" "avail t = avail s - {f}" using acq_Some [of s f t] Some a by auto
    have "distinct gs" "set gs \<subseteq> avail t" "avail u = avail t - set gs"
      using Suc.IH [OF rest] by auto
    with f show ?thesis unfolding eq by auto
  qed
qed

lemma acquire_many_ok:
  "acquire_many acq n s = (ok, fs, s') \<Longrightarrow>
   (ok \<longleftrightarrow> n \<le> card (avail s)) \<and> length fs = min n (card (avail s))"
proof (induction n arbitrary: s ok fs s')
  case 0
  then show ?case by simp
next
  case (Suc n)
  show ?case
  proof (cases "acq s")
    case None
    with Suc.prems acq_None [of s] show ?thesis by simp
  next
    case (Some a)
    obtain f t where a: "a = (f, t)" by fastforce
    obtain ok' gs u where rest: "acquire_many acq n t = (ok', gs, u)" by (metis prod_cases3)
    from acq_Some [of s f t] Some a have f: "f \<in> avail s" "avail t = avail s - {f}" by auto
    then have "card (avail s) = Suc (card (avail t))"
      using avail_finite [of s] by (metis card_Suc_Diff1)
    with Suc.IH [OF rest] Some a Suc.prems rest show ?thesis by auto
  qed
qed

lemma release_many_avail:
  "(\<And>f. f \<in> set fs \<Longrightarrow> valid_frame f) \<Longrightarrow> avail (release_many rel fs s) = avail s \<union> set fs"
  by (induction fs arbitrary: s) (auto simp: rel_avail)

lemma acquire_release:
  assumes "acquire_many acq n s = (ok, fs, s')"
  shows "avail (release_many rel fs s') = avail s"
proof -
  from acquire_many_frames [OF assms] have fs: "set fs \<subseteq> avail s" "avail s' = avail s - set fs"
    by auto
  then have "avail (release_many rel fs s') = avail s' \<union> set fs"
    by (intro release_many_avail) (auto dest: avail_valid)
  with fs show ?thesis by auto
qed

end

lemma m_alloc_laws:
  "m_alloc m = None \<longleftrightarrow> m_avail m = {}"
  "m_alloc m = Some (f, m') \<Longrightarrow> f \<in> m_avail m \<and> m_avail m' = m_avail m - {f}"
  by (auto simp: m_alloc_def m_avail_def frame_alloc_None split: option.splits
      dest: frame_alloc_Some(1,2))

lemma m_avail_zero_page [simp]: "m_avail (zero_page p m) = m_avail m"
  by (simp add: m_avail_def)

lemma m_dealloc_avail: "valid_frame f \<Longrightarrow> m_avail (m_dealloc f m) = insert f (m_avail m)"
  by (simp add: m_avail_def m_dealloc_def valid_frame_def avail_frames_dealloc)

lemma m_avail_valid: "f \<in> m_avail m \<Longrightarrow> valid_frame f"
  using avail_frames_valid by (simp add: m_avail_def valid_frame_def)

lemma finite_m_avail: "finite (m_avail m)"
  by (simp add: m_avail_def avail_frames_def)

interpretation fp: frame_provider m_alloc m_dealloc m_avail
  by unfold_locales
    (auto simp: m_alloc_laws(1) m_dealloc_avail finite_m_avail dest: m_alloc_laws(2) m_avail_valid)

interpretation zp: frame_provider m_alloc_zeroed m_dealloc m_avail
  by unfold_locales
    (auto simp: m_alloc_zeroed_def m_alloc_laws(1) m_dealloc_avail finite_m_avail split: option.splits
      dest: m_alloc_laws(2) m_avail_valid)

lemma m_alloc_frame:
  "m_alloc m = Some (f, m') \<Longrightarrow> mem m' = mem m \<and> cr3 m' = cr3 m"
  by (auto simp: m_alloc_def split: option.splits)

lemma m_alloc_zeroed_mem:
  "m_alloc_zeroed m = Some (f, m') \<Longrightarrow>
   mem m' = (\<lambda>c. if drop_bit 9 c = drop_bit 12 f then 0 else mem m c) \<and> cr3 m' = cr3 m"
  by (auto simp: m_alloc_zeroed_def zero_page_def split: option.splits dest!: m_alloc_frame)

end
