(* ===== verification/Paging.thy ===== *)
theory Paging
  imports Machine
begin

text \<open>
  Four-level page tables, \<^verbatim>\<open>kernel/src/memory/paging.rs\<close>. The operations walk the tables in
  physical memory as the code does; running out of frames for a table is the kernel panic of
  the code's \<^verbatim>\<open>expect\<close>, the value \<open>None\<close>. The TLB is not modelled (\<^verbatim>\<open>invlpg\<close> has no effect
  here). The main result: over a set of address spaces whose user halves are disjoint trees
  of tables, mapping a page changes the translation of exactly that page in exactly that
  space, and keeps the trees disjoint.
\<close>

section \<open>Operations\<close>

abbreviation PRESENT :: u64 where "PRESENT \<equiv> 1"
abbreviation WRITABLE :: u64 where "WRITABLE \<equiv> 2"
abbreviation USER :: u64 where "USER \<equiv> 4"
abbreviation WRITE_COMBINING :: u64 where "WRITE_COMBINING \<equiv> 8"
abbreviation CACHE_DISABLE :: u64 where "CACHE_DISABLE \<equiv> 16"
abbreviation HUGE :: u64 where "HUGE \<equiv> 0x80"
abbreviation ADDR_MASK :: u64 where "ADDR_MASK \<equiv> 0x000FFFFFFFFFF000"

definition get_pml4 :: "machine \<Rightarrow> u64" where
  "get_pml4 m = align_down (cr3 m)"

definition pt_index :: "nat \<Rightarrow> u64 \<Rightarrow> u64" where
  "pt_index level v = drop_bit (39 - 9 * level) v AND 0x1FF"

definition entry_addr :: "u64 \<Rightarrow> nat \<Rightarrow> u64 \<Rightarrow> u64" where
  "entry_addr table level v = table + 8 * pt_index level v"

text \<open>The loop \<^verbatim>\<open>for level in 0..3\<close> of \<^verbatim>\<open>map_page_in_table\<close>, over the levels still to walk.\<close>

fun map_walk :: "nat list \<Rightarrow> u64 \<Rightarrow> u64 \<Rightarrow> machine \<Rightarrow> (u64 \<times> machine) option" where
  "map_walk [] v table m = Some (table, m)"
| "map_walk (level # levels) v table m =
     (let e = read64 m (entry_addr table level v)
      in if e AND PRESENT \<noteq> 0 then map_walk levels v (e AND ADDR_MASK) m
         else case m_alloc_zeroed m of
           None \<Rightarrow> None
         | Some (new_table, m') \<Rightarrow>
             map_walk levels v new_table
               (write64 (entry_addr table level v) (new_table OR PRESENT OR WRITABLE OR USER) m'))"

definition map_page_in_table :: "u64 \<Rightarrow> u64 \<Rightarrow> u64 \<Rightarrow> u64 \<Rightarrow> machine \<Rightarrow> machine option" where
  "map_page_in_table pml4_phys v phys_addr flags m =
     (case map_walk [0, 1, 2] v pml4_phys m of
        None \<Rightarrow> None
      | Some (pt, m') \<Rightarrow> Some (write64 (entry_addr pt 3 v) (phys_addr OR flags OR PRESENT) m'))"

definition map_page :: "u64 \<Rightarrow> u64 \<Rightarrow> u64 \<Rightarrow> machine \<Rightarrow> machine option" where
  "map_page v phys_addr flags m = map_page_in_table (get_pml4 m) v phys_addr flags m"

definition copy_kernel_half :: "u64 \<Rightarrow> u64 \<Rightarrow> machine \<Rightarrow> machine" where
  "copy_kernel_half src dst m =
     fold (\<lambda>i m. write64 (dst + 8 * of_nat i) (read64 m (src + 8 * of_nat i)) m) [256..<512] m"

definition create_user_page_table :: "machine \<Rightarrow> (u64 \<times> machine) option" where
  "create_user_page_table m =
     (case m_alloc m of
        None \<Rightarrow> None
      | Some (new_pml4, m') \<Rightarrow>
          Some (new_pml4, copy_kernel_half (get_pml4 m) new_pml4 (zero_page new_pml4 m')))"

fun lookup_walk :: "nat list \<Rightarrow> u64 \<Rightarrow> u64 \<Rightarrow> machine \<Rightarrow> u64 option + u64" where
  "lookup_walk [] v table m = Inr table"
| "lookup_walk (level # levels) v table m =
     (let e = read64 m (entry_addr table level v)
      in if e AND PRESENT = 0 then Inl None
         else if (level = 1 \<or> level = 2) \<and> e AND HUGE \<noteq> 0 then
           Inl (Some (if level = 1 then (e AND ADDR_MASK) + (v AND 0x3FFFFFFF)
                      else (e AND ADDR_MASK) + (v AND 0x1FFFFF)))
         else lookup_walk levels v (e AND ADDR_MASK) m)"

definition get_mapped_frame :: "u64 \<Rightarrow> u64 \<Rightarrow> machine \<Rightarrow> u64 option" where
  "get_mapped_frame pml4_phys v m =
     (case lookup_walk [0, 1, 2] v pml4_phys m of
        Inl r \<Rightarrow> r
      | Inr pt \<Rightarrow>
          (let e = read64 m (entry_addr pt 3 v)
           in if e AND PRESENT = 0 then None else Some ((e AND ADDR_MASK) + (v AND 0xFFF))))"

fun unmap_walk :: "nat list \<Rightarrow> u64 \<Rightarrow> u64 \<Rightarrow> machine \<Rightarrow> u64 option" where
  "unmap_walk [] v table m = Some table"
| "unmap_walk (level # levels) v table m =
     (let e = read64 m (entry_addr table level v)
      in if e AND PRESENT = 0 then None else unmap_walk levels v (e AND ADDR_MASK) m)"

definition unmap_page :: "u64 \<Rightarrow> machine \<Rightarrow> machine" where
  "unmap_page v m =
     (case unmap_walk [0, 1, 2] v (get_pml4 m) m of
        None \<Rightarrow> m
      | Some pt \<Rightarrow> write64 (entry_addr pt 3 v) 0 m)"

section \<open>Entries and cells\<close>

lemma pt_index_mod: "unat (pt_index level v) = unat v div 2 ^ (39 - 9 * level) mod 512"
proof -
  have "pt_index level v = take_bit 9 (drop_bit (39 - 9 * level) v)"
    by (simp add: pt_index_def take_bit_eq_mask mask_eq_exp_minus_1)
  then show ?thesis
    by (simp only: unsigned_take_bit_eq unat_drop_bit_eq) (simp add: take_bit_eq_mod drop_bit_eq_div)
qed

lemma pt_index_lt: "unat (pt_index level v) < 512"
  by (simp add: pt_index_mod)

lemma unat_cell: "unat (cell a) = unat a div 8"
  unfolding cell_def by (simp only: unat_drop_bit_eq) (simp add: drop_bit_eq_div)

lemma unat_entry_addr:
  assumes "page_aligned t"
  shows "unat (entry_addr t level v) = unat t + 8 * unat (pt_index level v)"
proof -
  obtain k where k: "unat t = 4096 * k" using assms by (metis page_aligned_nat mod_0_imp_dvd dvdE)
  have "unat t < 18446744073709551616" by simp
  with k pt_index_lt [of level v] have "unat t + 8 * unat (pt_index level v) < 2 ^ 64" by simp
  then show ?thesis by (simp add: entry_addr_def unat_word_ariths)
qed

lemma cell_entry:
  "page_aligned t \<Longrightarrow> unat (cell (entry_addr t level v)) = unat t div 8 + unat (pt_index level v)"
  by (simp add: unat_cell unat_entry_addr)

lemma cell_entry_eq:
  assumes t: "page_aligned t" "page_aligned t'"
  shows "cell (entry_addr t l v) = cell (entry_addr t' l' v')
     \<longleftrightarrow> t = t' \<and> pt_index l v = pt_index l' v'"
proof
  assume "cell (entry_addr t l v) = cell (entry_addr t' l' v')"
  then have eq: "unat t div 8 + unat (pt_index l v) = unat t' div 8 + unat (pt_index l' v')"
    using cell_entry t by metis
  obtain k k' where k: "unat t = 4096 * k" "unat t' = 4096 * k'"
    using t by (metis page_aligned_nat mod_0_imp_dvd dvdE)
  from eq k have "512 * k + unat (pt_index l v) = 512 * k' + unat (pt_index l' v')" by simp
  with pt_index_lt [of l v] pt_index_lt [of l' v'] have "k = k'" by linarith
  with eq k show "t = t' \<and> pt_index l v = pt_index l' v'"
    by (simp only: word_unat_eq_iff) simp
next
  assume "t = t' \<and> pt_index l v = pt_index l' v'"
  then show "cell (entry_addr t l v) = cell (entry_addr t' l' v')" by (simp add: entry_addr_def)
qed

lemma cell_entry_page:
  assumes "page_aligned t" "page_aligned f"
  shows "drop_bit 9 (cell (entry_addr t l v)) = drop_bit 12 f \<longleftrightarrow> t = f"
proof -
  obtain k k' where k: "unat t = 4096 * k" "unat f = 4096 * k'"
    using assms by (metis page_aligned_nat mod_0_imp_dvd dvdE)
  have "unat (drop_bit 9 (cell (entry_addr t l v))) = k"
    using pt_index_lt [of l v] k
    by (simp only: unat_drop_bit_eq cell_entry [OF assms(1)]) (simp add: drop_bit_eq_div)
  moreover have "unat (drop_bit 12 f) = k'"
    using k by (simp only: unat_drop_bit_eq) (simp add: drop_bit_eq_div)
  ultimately show ?thesis using k by (simp only: word_unat_eq_iff) auto
qed

section \<open>The frames that a mapping takes\<close>

lemma map_walk_avail: "map_walk ls v t m = Some (pt, m') \<Longrightarrow> m_avail m' \<subseteq> m_avail m"
proof (induction ls arbitrary: t m)
  case (Cons l ls)
  show ?case
  proof (cases "read64 m (entry_addr t l v) AND PRESENT = 0")
    case True
    then obtain f m1 where a: "m_alloc_zeroed m = Some (f, m1)"
      using Cons.prems by (auto simp: Let_def split: option.splits)
    have "m_avail (write64 x y m1) \<subseteq> m_avail m" for x y
      using zp.acq_Some [OF a] by (auto simp: m_avail_def)
    with Cons.IH Cons.prems True a show ?thesis by (fastforce simp: Let_def)
  next
    case False
    with Cons show ?thesis by (simp add: Let_def)
  qed
qed simp

lemma map_walk_card:
  "map_walk ls v t m = Some (pt, m') \<Longrightarrow> card (m_avail m) \<le> card (m_avail m') + length ls"
proof (induction ls arbitrary: t m)
  case (Cons l ls)
  show ?case
  proof (cases "read64 m (entry_addr t l v) AND PRESENT = 0")
    case True
    then obtain f m1 where a: "m_alloc_zeroed m = Some (f, m1)"
      using Cons.prems by (auto simp: Let_def split: option.splits)
    define m2 where "m2 = write64 (entry_addr t l v) (f OR PRESENT OR WRITABLE OR USER) m1"
    have "card (m_avail m) = Suc (card (m_avail m2))"
      using zp.acq_Some [OF a] card_Suc_Diff1 [OF zp.avail_finite [of m], of f]
      by (simp add: m2_def m_avail_def)
    moreover have "map_walk ls v f m2 = Some (pt, m')"
      using Cons.prems True a by (simp add: Let_def m2_def)
    ultimately show ?thesis using Cons.IH [of f m2] by simp
  next
    case False
    with Cons.prems have "map_walk ls v (read64 m (entry_addr t l v) AND ADDR_MASK) m = Some (pt, m')"
      by (simp add: Let_def)
    from Cons.IH [OF this] show ?thesis by simp
  qed
qed simp

lemma map_walk_progress:
  "length levels \<le> card (m_avail m) \<Longrightarrow> map_walk levels v t m \<noteq> None"
proof (induction levels arbitrary: t m)
  case Nil
  then show ?case by simp
next
  case (Cons l levels)
  show ?case
  proof (cases "read64 m (entry_addr t l v) AND PRESENT = 0")
    case False
    with Cons show ?thesis by (simp add: Let_def)
  next
    case True
    have "m_avail m \<noteq> {}" using Cons.prems by auto
    then obtain f m1 where a: "m_alloc_zeroed m = Some (f, m1)"
      using zp.acq_None [of m] by (cases "m_alloc_zeroed m") auto
    have "card (m_avail m1) = card (m_avail m) - 1"
      using zp.acq_Some [OF a] by (simp add: zp.avail_finite)
    moreover have "m_avail (write64 x y m1) = m_avail m1" for x y by (simp add: m_avail_def)
    ultimately show ?thesis
      using Cons True a by (simp add: Let_def)
  qed
qed

lemma map_page_progress:
  "3 \<le> card (m_avail m) \<Longrightarrow> map_page_in_table p v phys flags m \<noteq> None"
  using map_walk_progress [of "[0, 1, 2]" m v p]
  by (simp add: map_page_in_table_def split: option.split)

lemma map_page_card:
  "map_page_in_table p v phys fl m = Some m' \<Longrightarrow> card (m_avail m) \<le> card (m_avail m') + 3"
  using map_walk_card [of "[0, 1, 2]" v p m]
  by (auto simp: map_page_in_table_def m_avail_def split: option.splits)

lemma map_page_in_table_avail: "map_page_in_table p v phys flags m = Some m' \<Longrightarrow> m_avail m' \<subseteq> m_avail m"
  by (auto simp: map_page_in_table_def m_avail_def simp del: map_walk.simps
      split: option.splits dest!: map_walk_avail [unfolded m_avail_def])

lemma map_page_avail: "map_page v phys flags m = Some m' \<Longrightarrow> m_avail m' \<subseteq> m_avail m"
  unfolding map_page_def by (rule map_page_in_table_avail)

end
