(* ===== verification/Address_Space.thy ===== *)
theory Address_Space
  imports Paging
begin

text \<open>
  What the page-table code promises. \<open>tbl m p l v\<close> is the table that the walk of address \<open>v\<close>
  from root \<open>p\<close> reaches at level \<open>l\<close>. A \<open>user_forest\<close> is a set of roots whose user halves are
  disjoint trees of allocated tables without huge pages; creating an address space and mapping
  a page keep it, and a mapping changes one translation of one space only.
\<close>

section \<open>Tables reached by a walk\<close>

fun tbl :: "machine \<Rightarrow> u64 \<Rightarrow> nat \<Rightarrow> u64 \<Rightarrow> u64 option" where
  "tbl m p 0 v = Some p"
| "tbl m p (Suc l) v =
     (case tbl m p l v of
        None \<Rightarrow> None
      | Some t \<Rightarrow> (let e = read64 m (entry_addr t l v)
                   in if e AND PRESENT = 0 then None else Some (e AND ADDR_MASK)))"

definition same_path :: "nat \<Rightarrow> u64 \<Rightarrow> u64 \<Rightarrow> bool" where
  "same_path l v w \<longleftrightarrow> (\<forall>k<l. pt_index k v = pt_index k w)"

definition user_addr :: "u64 \<Rightarrow> bool" where
  "user_addr v \<longleftrightarrow> unat (pt_index 0 v) < 256"

definition user_forest :: "u64 set \<Rightarrow> machine \<Rightarrow> bool" where
  "user_forest R m \<longleftrightarrow>
     (\<forall>p\<in>R. \<forall>v l t. user_addr v \<longrightarrow> l \<le> 3 \<longrightarrow> tbl m p l v = Some t \<longrightarrow>
        page_aligned t \<and> t \<notin> m_avail m \<and>
        (l = 1 \<or> l = 2 \<longrightarrow> read64 m (entry_addr t l v) AND PRESENT \<noteq> 0 \<longrightarrow>
           read64 m (entry_addr t l v) AND HUGE = 0) \<and>
        (\<forall>q\<in>R. \<forall>w k. user_addr w \<longrightarrow> k \<le> 3 \<longrightarrow> tbl m q k w = Some t \<longrightarrow>
           p = q \<and> l = k \<and> same_path l v w))"

lemma user_forestD:
  assumes "user_forest R m" "p \<in> R" "user_addr v" "l \<le> 3" "tbl m p l v = Some t"
  shows "page_aligned t" "t \<notin> m_avail m"
    "l = 1 \<or> l = 2 \<Longrightarrow> read64 m (entry_addr t l v) AND PRESENT \<noteq> 0 \<Longrightarrow>
       read64 m (entry_addr t l v) AND HUGE = 0"
    "q \<in> R \<Longrightarrow> user_addr w \<Longrightarrow> k \<le> 3 \<Longrightarrow> tbl m q k w = Some t \<Longrightarrow>
       p = q \<and> l = k \<and> same_path l v w"
  using assms unfolding user_forest_def by blast+

lemma same_path_refl [simp]: "same_path l v v"
  by (simp add: same_path_def)

lemma same_path_sym: "same_path l v w \<Longrightarrow> same_path l w v"
  by (simp add: same_path_def)

lemma same_path_Suc: "same_path (Suc l) v w \<longleftrightarrow> same_path l v w \<and> pt_index l v = pt_index l w"
  by (auto simp: same_path_def less_Suc_eq)

lemma same_path_mono: "same_path l v w \<Longrightarrow> k \<le> l \<Longrightarrow> same_path k v w"
  by (simp add: same_path_def)

lemma entry_addr_index: "pt_index l v = pt_index l w \<Longrightarrow> entry_addr t l v = entry_addr t l w"
  by (simp add: entry_addr_def)

lemma tbl_same_path: "same_path l v w \<Longrightarrow> tbl m p l v = tbl m p l w"
proof (induction l)
  case 0
  then show ?case by simp
next
  case (Suc l)
  then have "tbl m p l v = tbl m p l w" "pt_index l v = pt_index l w" by (simp_all add: same_path_Suc)
  then show ?case by (cases "tbl m p l w") (simp_all add: entry_addr_def)
qed

section \<open>Present entries\<close>

lemma present_bit: "(e :: u64) AND PRESENT \<noteq> 0 \<longleftrightarrow> bit e 0"
  using bit_iff_and_push_bit_not_eq_0 [of e 0] by simp

lemma entry_flags [simp]:
  "(x OR flags OR PRESENT) AND PRESENT \<noteq> 0" "(x OR PRESENT OR y) AND PRESENT \<noteq> 0"
  by (simp_all only: present_bit) (simp_all add: bit_or_iff bit_1_iff)

lemma addr_mask_bits: "bit ADDR_MASK n \<longleftrightarrow> 12 \<le> n \<and> n < 52"
proof -
  have "ADDR_MASK = mask 52 AND NOT (mask 12)"
    by (simp add: mask_eq_exp_minus_1)
  then show ?thesis by (simp only: bit_and_iff bit_not_iff bit_mask_iff) auto
qed

lemma page_aligned_bits: "page_aligned x \<longleftrightarrow> (\<forall>n<12. \<not> bit x n)"
proof
  assume "page_aligned x"
  then have z: "x AND mask 12 = 0" by (simp only: page_aligned_def mask12)
  show "\<forall>n<12. \<not> bit x n"
  proof (intro allI impI notI)
    fix n :: nat
    assume "n < 12" "bit x n"
    then have "bit (x AND mask 12) n" by (simp only: bit_and_iff bit_mask_iff) simp
    with z show False by simp
  qed
next
  assume "\<forall>n<12. \<not> bit x n"
  then have "x AND mask 12 = 0" by (intro bit_word_eqI) (auto simp: bit_and_iff bit_mask_iff)
  then show "page_aligned x" by (simp only: page_aligned_def mask12)
qed

lemma page_aligned_addr_mask [simp, intro]: "page_aligned (x AND ADDR_MASK)"
  by (simp only: page_aligned_bits bit_and_iff addr_mask_bits) auto

lemma bit_lt_exp: "unat (x :: u64) < 2 ^ k \<Longrightarrow> bit x n \<Longrightarrow> n < k"
proof (rule ccontr)
  assume lt: "unat x < 2 ^ k" and b: "bit x n" and "\<not> n < k"
  then have "take_bit k x = x"
    by (simp only: word_unat_eq_iff unsigned_take_bit_eq) (simp add: take_bit_nat_eq_self)
  with b \<open>\<not> n < k\<close> show False by (metis bit_take_bit_iff)
qed

lemma valid_frame_addr_mask:
  "valid_frame f \<Longrightarrow> (\<And>n. bit flags n \<Longrightarrow> n < 12 \<or> 52 \<le> n) \<Longrightarrow> (f OR flags) AND ADDR_MASK = f"
proof (rule bit_word_eqI)
  fix n
  assume f: "valid_frame f" and fl: "\<And>n. bit flags n \<Longrightarrow> n < 12 \<or> 52 \<le> n"
  have "bit f n \<Longrightarrow> 12 \<le> n \<and> n < 52"
    using f page_aligned_bits [of f] bit_lt_exp [of f 32 n]
    by (auto simp: valid_frame_def not_less [symmetric])
  with fl [of n] show "bit ((f OR flags) AND ADDR_MASK) n = bit f n"
    by (simp only: bit_and_iff bit_or_iff addr_mask_bits) auto
qed

lemma table_entry_addr [simp]: "valid_frame f \<Longrightarrow> (f OR 7) AND ADDR_MASK = f"
proof -
  have "(7 :: u64) = mask 3" by (simp add: mask_eq_exp_minus_1)
  then show "valid_frame f \<Longrightarrow> ?thesis"
    by (intro valid_frame_addr_mask) (auto simp only: bit_mask_iff)
qed

lemma table_entry_present [simp]: "(f OR 7) AND PRESENT \<noteq> 0"
proof -
  have "(7 :: u64) = mask 3" by (simp add: mask_eq_exp_minus_1)
  then show ?thesis by (simp only: present_bit bit_or_iff bit_mask_iff) simp
qed

lemma table_entry_not_huge [simp]: "valid_frame f \<Longrightarrow> (f OR 7) AND HUGE = 0"
proof -
  assume f: "valid_frame f"
  have "(7 :: u64) = mask 3" by (simp add: mask_eq_exp_minus_1)
  moreover have "\<not> bit f 7" using f by (simp add: valid_frame_def page_aligned_bits)
  ultimately have "\<not> bit (f OR 7) 7" by (simp only: bit_or_iff bit_mask_iff) simp
  then show ?thesis using bit_iff_and_push_bit_not_eq_0 [of "f OR 7" 7] by simp
qed

section \<open>The translation of a user address\<close>

definition leaf :: "machine \<Rightarrow> u64 \<Rightarrow> u64 \<Rightarrow> u64 option" where
  "leaf m p v =
     (case tbl m p 3 v of
        None \<Rightarrow> None
      | Some pt \<Rightarrow> (let e = read64 m (entry_addr pt 3 v) in if e AND PRESENT = 0 then None else Some e))"

declare tbl.simps(2) [simp del] lookup_walk.simps(2) [simp del]

lemma tbl_numerals:
  "tbl m p 1 v = (let e = read64 m (entry_addr p 0 v) in if e AND PRESENT = 0 then None else Some (e AND ADDR_MASK))"
  "tbl m p 2 v = (case tbl m p 1 v of None \<Rightarrow> None | Some t \<Rightarrow>
     (let e = read64 m (entry_addr t 1 v) in if e AND PRESENT = 0 then None else Some (e AND ADDR_MASK)))"
  "tbl m p 3 v = (case tbl m p 2 v of None \<Rightarrow> None | Some t \<Rightarrow>
     (let e = read64 m (entry_addr t 2 v) in if e AND PRESENT = 0 then None else Some (e AND ADDR_MASK)))"
  using tbl.simps(2) [of m p 0 v] tbl.simps(2) [of m p 1 v] tbl.simps(2) [of m p 2 v]
  by (simp_all only: One_nat_def numeral_2_eq_2 numeral_3_eq_3 tbl.simps(1) option.case)

lemma lookup_step:
  assumes "user_forest R m" "p \<in> R" "user_addr v" "tbl m p l v = Some t" "l < 3"
  shows "lookup_walk (l # ls) v t m =
    (case tbl m p (Suc l) v of None \<Rightarrow> Inl None | Some t' \<Rightarrow> lookup_walk ls v t' m)"
  using user_forestD(3) [OF assms(1-3) _ assms(4)] assms(4,5)
  by (auto simp: Let_def tbl.simps(2) lookup_walk.simps(2))

lemma lookup_walk_leaf:
  assumes "user_forest R m" "p \<in> R" "user_addr v"
  shows "get_mapped_frame p v m = map_option (\<lambda>e. (e AND ADDR_MASK) + (v AND 0xFFF)) (leaf m p v)"
proof -
  note step = lookup_step [OF assms]
  have walk: "lookup_walk [0, 1, 2] v p m =
    (case tbl m p 1 v of None \<Rightarrow> Inl None | Some t \<Rightarrow> lookup_walk [1, 2] v t m)"
    using step [of 0 p "[1, 2]"] by simp
  have walk1: "lookup_walk [1, 2] v t m =
    (case tbl m p 2 v of None \<Rightarrow> Inl None | Some t \<Rightarrow> lookup_walk [2] v t m)"
    if "tbl m p 1 v = Some t" for t
    using step [of 1 t "[2]", OF that] by (simp only: Suc_1 one_less_numeral_iff) simp
  have walk2: "lookup_walk [2] v t m =
    (case tbl m p 3 v of None \<Rightarrow> Inl None | Some t \<Rightarrow> Inr t)"
    if "tbl m p 2 v = Some t" for t
    using step [of 2 t "[]", OF that] by (simp add: numeral_3_eq_3 numeral_2_eq_2 split: option.split)
  have "lookup_walk [0, 1, 2] v p m = (case tbl m p 3 v of None \<Rightarrow> Inl None | Some t \<Rightarrow> Inr t)"
  proof (cases "tbl m p 1 v")
    case None
    then have "tbl m p 2 v = None" by (simp only: tbl_numerals(2) option.case)
    then have "tbl m p 3 v = None" by (simp only: tbl_numerals(3) option.case)
    then show ?thesis by (simp only: walk None option.case)
  next
    case t1: (Some t1)
    show ?thesis
    proof (cases "tbl m p 2 v")
      case None
      then have "tbl m p 3 v = None" by (simp only: tbl_numerals(3) option.case)
      then show ?thesis by (simp only: walk walk1 [OF t1] t1 None option.case)
    next
      case (Some t2)
      then show ?thesis by (simp only: walk walk1 [OF t1] walk2 [OF Some] t1 option.case)
    qed
  qed
  then show ?thesis
    by (simp only: get_mapped_frame_def leaf_def Let_def) (simp split: option.split)
qed

section \<open>Adding a table\<close>

text \<open>
  The situation of \<^verbatim>\<open>map_page_in_table\<close> when an entry is absent: a cleared frame \<open>f\<close> becomes
  the table below entry \<open>v\<close> of table \<open>t\<close> at level \<open>l\<close>.
\<close>

definition grown :: "u64 set \<Rightarrow> u64 \<Rightarrow> u64 \<Rightarrow> nat \<Rightarrow> u64 \<Rightarrow> u64 \<Rightarrow> machine \<Rightarrow> machine \<Rightarrow> bool" where
  "grown R p v l t f m m' \<longleftrightarrow>
     user_forest R m \<and> p \<in> R \<and> user_addr v \<and> l < 3 \<and> tbl m p l v = Some t \<and>
     read64 m (entry_addr t l v) AND PRESENT = 0 \<and>
     (\<exists>m1. m_alloc_zeroed m = Some (f, m1) \<and>
        m' = write64 (entry_addr t l v) (f OR PRESENT OR WRITABLE OR USER) m1)"

lemma grown_alloc:
  assumes "grown R p v l t f m m'"
  shows "f \<in> m_avail m" "m_avail m' = m_avail m - {f}" "valid_frame f" "page_aligned f"
proof -
  from assms obtain m1 where a: "m_alloc_zeroed m = Some (f, m1)"
    and m': "m' = write64 (entry_addr t l v) (f OR PRESENT OR WRITABLE OR USER) m1"
    unfolding grown_def by blast
  have "m_avail m' = m_avail m1" by (simp only: m' m_avail_def machine_fields)
  with zp.acq_Some [OF a] show f: "f \<in> m_avail m" "m_avail m' = m_avail m - {f}"
    by simp_all
  from f(1) show "valid_frame f" "page_aligned f" by (auto dest: zp.avail_valid simp: valid_frame_def)
qed

lemma grown_read:
  assumes g: "grown R p v l t f m m'" and u: "page_aligned u"
  shows "read64 m' (entry_addr u k w) =
     (if u = t \<and> pt_index k w = pt_index l v then f OR PRESENT OR WRITABLE OR USER
      else if u = f then 0 else read64 m (entry_addr u k w))"
proof -
  from g obtain m1 where a: "m_alloc_zeroed m = Some (f, m1)"
    and m': "m' = write64 (entry_addr t l v) (f OR PRESENT OR WRITABLE OR USER) m1"
    and t: "page_aligned t"
    unfolding grown_def by (metis less_imp_le_nat user_forestD(1))
  have "read64 m1 (entry_addr u k w) = (if u = f then 0 else read64 m (entry_addr u k w))"
    by (simp only: read64_def m_alloc_zeroed_mem [OF a] cell_entry_page [OF u grown_alloc(4) [OF g]])
  then show ?thesis by (simp only: m' read64_write64 cell_entry_eq [OF u t])
qed

lemma grown_entry:
  assumes g: "grown R p v l t f m m'" and q: "q \<in> R" "user_addr w" "k \<le> 3" "tbl m q k w = Some u"
  shows "read64 m' (entry_addr u k w) =
     (if q = p \<and> k = l \<and> same_path (Suc l) v w then f OR PRESENT OR WRITABLE OR USER
      else read64 m (entry_addr u k w))"
proof -
  have fo: "user_forest R m" "p \<in> R" "user_addr v" "l \<le> 3" "tbl m p l v = Some t"
    using g by (auto simp: grown_def)
  note u = user_forestD(1,2) [OF fo(1) q]
  have "u \<noteq> f" using u(2) grown_alloc(1) [OF g] by auto
  moreover have "u = t \<and> pt_index k w = pt_index l v \<longleftrightarrow> q = p \<and> k = l \<and> same_path (Suc l) v w"
    using user_forestD(4) [OF fo q(1-3)] q(4) fo(5) tbl_same_path [of l v w m p]
    by (auto simp: same_path_Suc)
  ultimately show ?thesis by (simp only: grown_read [OF g u(1)] if_False)
qed

lemma grown_tbl:
  assumes g: "grown R p v l t f m m'" and q: "q \<in> R" "user_addr w"
  shows "k \<le> 3 \<Longrightarrow> tbl m' q k w =
     (if q = p \<and> same_path (Suc l) v w \<and> l < k then (if k = Suc l then Some f else None)
      else tbl m q k w)"
proof (induction k)
  case 0
  then show ?case by simp
next
  case (Suc k)
  show ?case
  proof (cases "q = p \<and> same_path (Suc l) v w \<and> l \<le> k")
    case False
    show ?thesis
    proof (cases "tbl m q k w")
      case None
      with Suc False show ?thesis by (auto simp: tbl.simps(2))
    next
      case (Some u)
      with grown_entry [OF g q _ Some] Suc False show ?thesis by (auto simp: tbl.simps(2))
    qed
  next
    case True
    then have t: "tbl m q l w = Some t" using g tbl_same_path [of l v w m p]
      by (auto simp: grown_def same_path_Suc)
    consider "k = l" | "k = Suc l" | "k > Suc l" using True by linarith
    then show ?thesis
    proof cases
      case 1
      with Suc True t grown_entry [OF g q _ t] grown_alloc(3) [OF g] show ?thesis
        by (simp add: table_entry_addr tbl.simps(2))
    next
      case 2
      have "f \<noteq> t" using grown_alloc(1) [OF g] user_forestD(2) [of R m p v l t] g
        by (auto simp: grown_def)
      with 2 Suc True grown_read [OF g grown_alloc(4) [OF g], of k w] show ?thesis by (simp add: tbl.simps(2))
    next
      case 3
      with Suc True show ?thesis by (simp add: tbl.simps(2))
    qed
  qed
qed

lemma grown_forest:
  assumes g: "grown R p v l t f m m'"
  shows "user_forest R m'"
proof -
  have fo: "user_forest R m" "p \<in> R" using g by (auto simp: grown_def)
  have owner: "if u = f then q = p \<and> k = Suc l \<and> same_path (Suc l) v w
      else tbl m q k w = Some u \<and> u \<notin> m_avail m \<and> page_aligned u"
    if "q \<in> R" "user_addr w" "k \<le> 3" "tbl m' q k w = Some u" for q w k u
    using grown_tbl [OF g that(1,2,3)] that(4) grown_alloc(1) [OF g]
      user_forestD(1,2) [OF fo(1) that(1-3)]
    by (auto split: if_splits)
  show ?thesis unfolding user_forest_def
  proof (intro ballI allI impI conjI)
    fix q w k u
    assume q: "q \<in> R" "user_addr w" "k \<le> 3" "tbl m' q k w = Some u"
    show al: "page_aligned u"
      using owner [OF q] grown_alloc(4) [OF g] by (cases "u = f") auto
    show "u \<notin> m_avail m'"
      using owner [OF q] grown_alloc(2) [OF g] by (cases "u = f") auto
    show "read64 m' (entry_addr u k w) AND HUGE = 0"
      if k: "k = 1 \<or> k = 2" and pr: "read64 m' (entry_addr u k w) AND PRESENT \<noteq> 0"
    proof (cases "u = f")
      case True
      have "f \<noteq> t" using grown_alloc(1) [OF g] user_forestD(2) [of R m p v l t] g
        by (auto simp: grown_def)
      with True show ?thesis using grown_read [OF g al, of k w] pr by simp
    next
      case False
      then have old: "tbl m q k w = Some u" using owner [OF q] by simp
      show ?thesis
        using grown_entry [OF g q(1-3) old] user_forestD(3) [OF fo(1) q(1-3) old k] pr
          grown_alloc(3) [OF g]
        by (auto split: if_splits)
    qed
    fix q' w' k'
    assume q': "q' \<in> R" "user_addr w'" "k' \<le> 3" "tbl m' q' k' w' = Some u"
    have "q = q' \<and> k = k' \<and> same_path k w w'"
    proof (cases "u = f")
      case True
      then show ?thesis using owner [OF q] owner [OF q'] by (auto simp: same_path_def)
    next
      case False
      then show ?thesis
        using owner [OF q] owner [OF q'] user_forestD(4) [OF fo(1) q(1-3) _ q'(1-3)] by auto
    qed
    then show "q = q'" "k = k'" "same_path k w w'" by auto
  qed
qed

lemma grown_leaf:
  assumes g: "grown R p v l t f m m'" and q: "q \<in> R" "user_addr w"
  shows "leaf m' q w = leaf m q w"
proof (cases "q = p \<and> same_path (Suc l) v w")
  case False
  then have same: "tbl m' q 3 w = tbl m q 3 w" using grown_tbl [OF g q, of 3] by (auto split: if_splits)
  show ?thesis
  proof (cases "tbl m q 3 w")
    case None
    with same show ?thesis by (simp add: leaf_def)
  next
    case (Some u)
    with grown_entry [OF g q _ Some] False same g show ?thesis
      by (auto simp: leaf_def grown_def)
  qed
next
  case True
  have "tbl m p (Suc l) v = None" using g by (simp add: grown_def tbl.simps(2))
  then have gone: "tbl m q (Suc l) w = None" using True tbl_same_path by metis
  have "l < 3" using g by (simp add: grown_def)
  then consider "l = 0" | "l = 1" | "l = 2" by linarith
  then have "tbl m q 3 w = None"
    using gone by cases (simp_all add: tbl_numerals numeral_2_eq_2 numeral_3_eq_3 tbl.simps(2))
  moreover have "leaf m' q w = None"
  proof (cases "l = 2")
    case l2: True
    have "f \<noteq> t" using grown_alloc(1) [OF g] user_forestD(2) [of R m p v l t] g
      by (auto simp: grown_def)
    with l2 True \<open>l < 3\<close> grown_tbl [OF g q, of 3] grown_read [OF g grown_alloc(4) [OF g], of 3 w]
    show ?thesis by (simp add: leaf_def)
  next
    case False
    with True \<open>l < 3\<close> grown_tbl [OF g q, of 3] show ?thesis by (simp add: leaf_def)
  qed
  ultimately show ?thesis by (simp add: leaf_def)
qed

section \<open>Mapping a page\<close>

lemma map_walk_spec:
  assumes "user_forest R m" "p \<in> R" "user_addr v" "l \<le> 3" "tbl m p l v = Some t"
    and "map_walk [l..<3] v t m = Some (pt, m')"
  shows "user_forest R m' \<and> tbl m' p 3 v = Some pt \<and> m_avail m' \<subseteq> m_avail m \<and>
    (\<forall>q w. q \<in> R \<longrightarrow> user_addr w \<longrightarrow> leaf m' q w = leaf m q w)"
  using assms
proof (induction "3 - l" arbitrary: l t m)
  case 0
  then show ?case by simp
next
  case (Suc n)
  then have l: "l < 3" and next_l: "[l..<3] = l # [Suc l..<3]" "n = 3 - Suc l"
    by (simp_all add: upt_conv_Cons)
  let ?e = "read64 m (entry_addr t l v)"
  show ?case
  proof (cases "?e AND PRESENT = 0")
    case False
    have "map_walk [Suc l..<3] v (?e AND ADDR_MASK) m = Some (pt, m')"
      using Suc.prems(6) False unfolding next_l(1) by (simp add: Let_def)
    moreover have "tbl m p (Suc l) v = Some (?e AND ADDR_MASK)"
      using Suc.prems(5) False by (simp add: tbl.simps(2))
    ultimately show ?thesis
      using Suc.hyps(1) [OF next_l(2) Suc.prems(1-3)] l by simp
  next
    case True
    then obtain f m1 where a: "m_alloc_zeroed m = Some (f, m1)"
      using Suc.prems(6) unfolding next_l(1) by (auto simp: Let_def split: option.splits)
    define m2 where "m2 = write64 (entry_addr t l v) (f OR PRESENT OR WRITABLE OR USER) m1"
    have g: "grown R p v l t f m m2"
      unfolding grown_def m2_def using Suc.prems(1-3,5) l True a by blast
    have "map_walk [Suc l..<3] v f m2 = Some (pt, m')"
      using Suc.prems(6) True a unfolding next_l(1) m2_def by (simp add: Let_def)
    moreover have "tbl m2 p (Suc l) v = Some f"
      using grown_tbl [OF g Suc.prems(2,3), of "Suc l"] l by simp
    ultimately have "user_forest R m' \<and> tbl m' p 3 v = Some pt \<and> m_avail m' \<subseteq> m_avail m2 \<and>
      (\<forall>q w. q \<in> R \<longrightarrow> user_addr w \<longrightarrow> leaf m' q w = leaf m2 q w)"
      using Suc.hyps(1) [OF next_l(2) grown_forest [OF g] Suc.prems(2,3)] l by simp
    then show ?thesis
      using grown_leaf [OF g] grown_alloc(2) [OF g] by auto
  qed
qed

lemma leaf_write:
  assumes fo: "user_forest R m" and p: "p \<in> R" "user_addr v" "tbl m p 3 v = Some pt"
    and m': "m' = write64 (entry_addr pt 3 v) e m"
  shows "user_forest R m'"
    and "\<And>q w. q \<in> R \<Longrightarrow> user_addr w \<Longrightarrow> leaf m' q w =
      (if q = p \<and> same_path 4 v w then (if e AND PRESENT = 0 then None else Some e) else leaf m q w)"
proof -
  have pt: "page_aligned pt" using user_forestD(1) [OF fo p(1,2) _ p(3)] by simp
  have entry: "read64 m' (entry_addr u k w) =
      (if q = p \<and> k = 3 \<and> same_path 4 v w then e else read64 m (entry_addr u k w))"
    if q: "q \<in> R" "user_addr w" "k \<le> 3" "tbl m q k w = Some u" for q w k u
  proof -
    have "same_path 4 v w \<longleftrightarrow> same_path 3 v w \<and> pt_index 3 v = pt_index 3 w"
      using same_path_Suc [of 3] by (simp add: numeral_eq_Suc)
    moreover have "u = pt \<and> pt_index k w = pt_index 3 v \<longleftrightarrow>
        q = p \<and> k = 3 \<and> same_path 3 v w \<and> pt_index 3 v = pt_index 3 w"
      using user_forestD(4) [OF fo p(1,2) _ p(3) q(1-3)] q(4) p(3) tbl_same_path [of 3 v w m p]
      by auto
    ultimately show ?thesis
      by (simp add: m' read64_write64 cell_entry_eq [OF user_forestD(1) [OF fo q] pt])
  qed
  have tbl: "tbl m' q k w = tbl m q k w" if "q \<in> R" "user_addr w" "k \<le> 3" for q w k
    using that(3)
  proof (induction k)
    case (Suc k)
    show ?case
    proof (cases "tbl m q k w")
      case (Some u)
      with entry [OF that(1,2) _ Some] Suc show ?thesis by (simp add: tbl.simps(2))
    qed (use Suc in \<open>simp add: tbl.simps(2)\<close>)
  qed simp
  show "user_forest R m'" unfolding user_forest_def
  proof (intro ballI allI impI)
    fix q w k u
    assume q: "q \<in> R" "user_addr w" "k \<le> 3" "tbl m' q k w = Some u"
    then have old: "tbl m q k w = Some u" by (simp add: tbl)
    have av: "m_avail m' = m_avail m" by (simp add: m' m_avail_def)
    show "page_aligned u \<and> u \<notin> m_avail m' \<and>
        (k = 1 \<or> k = 2 \<longrightarrow> read64 m' (entry_addr u k w) AND PRESENT \<noteq> 0 \<longrightarrow>
          read64 m' (entry_addr u k w) AND HUGE = 0) \<and>
        (\<forall>q'\<in>R. \<forall>w' k'. user_addr w' \<longrightarrow> k' \<le> 3 \<longrightarrow> tbl m' q' k' w' = Some u \<longrightarrow>
          q = q' \<and> k = k' \<and> same_path k w w')"
      using user_forestD [OF fo q(1-3) old] entry [OF q(1-3) old] av tbl by auto
  qed
  fix q w assume q: "q \<in> R" "user_addr w"
  have "same_path 4 v w \<Longrightarrow> tbl m p 3 w = Some pt"
    using p(3) tbl_same_path [of 3 v w m p] same_path_mono [of 4 v w 3] by simp
  then show "leaf m' q w =
      (if q = p \<and> same_path 4 v w then (if e AND PRESENT = 0 then None else Some e) else leaf m q w)"
    using tbl [OF q, of 3] entry [OF q, of 3]
    by (cases "tbl m q 3 w") (auto simp: leaf_def)
qed

text \<open>Physical pages and flags a mapping can carry: an aligned 52-bit address, flag bits outside it.\<close>

definition mappable :: "u64 \<Rightarrow> u64 \<Rightarrow> bool" where
  "mappable phys flags \<longleftrightarrow> phys AND NOT ADDR_MASK = 0 \<and> flags AND ADDR_MASK = 0"

lemma addr_mask_identity: "x AND NOT ADDR_MASK = 0 \<Longrightarrow> x AND ADDR_MASK = (x :: u64)"
proof -
  assume z: "x AND NOT ADDR_MASK = 0"
  have "x = (x AND ADDR_MASK) OR (x AND NOT ADDR_MASK)"
    by (simp only: bit.conj_disj_distrib [symmetric] bit.disj_cancel_right bit.conj_one_right)
  with z show ?thesis by simp
qed

lemma mapped_entry_addr:
  "mappable phys flags \<Longrightarrow> (phys OR flags OR PRESENT) AND ADDR_MASK = phys"
proof -
  assume "mappable phys flags"
  then have "phys AND ADDR_MASK = phys" "flags AND ADDR_MASK = 0"
    unfolding mappable_def using addr_mask_identity by blast+
  moreover have "(1 :: u64) AND ADDR_MASK = 0" by simp
  ultimately show ?thesis by (simp only: bit.conj_disj_distrib2 or.right_neutral)
qed

lemma map_page_leaf:
  assumes "user_forest R m" "p \<in> R" "user_addr v"
    and "map_page_in_table p v phys flags m = Some m'"
  shows "user_forest R m'" "m_avail m' \<subseteq> m_avail m"
    "q \<in> R \<Longrightarrow> user_addr w \<Longrightarrow> leaf m' q w =
       (if q = p \<and> same_path 4 v w then Some (phys OR flags OR PRESENT) else leaf m q w)"
proof -
  from assms(4) obtain pt m1 where w: "map_walk [0..<3] v p m = Some (pt, m1)"
    and m': "m' = write64 (entry_addr pt 3 v) (phys OR flags OR PRESENT) m1"
    by (auto simp: map_page_in_table_def upt_rec numeral_2_eq_2 split: option.splits)
  from map_walk_spec [OF assms(1-3) _ _ w]
  have spec: "user_forest R m1" "tbl m1 p 3 v = Some pt" "m_avail m1 \<subseteq> m_avail m"
    "\<And>q w. q \<in> R \<Longrightarrow> user_addr w \<Longrightarrow> leaf m1 q w = leaf m q w" by simp_all
  note wr = leaf_write [OF spec(1) assms(2,3) spec(2) m']
  show "user_forest R m'" by (rule wr(1))
  show "m_avail m' \<subseteq> m_avail m" using spec(3) by (simp add: m' m_avail_def)
  show "leaf m' q w = (if q = p \<and> same_path 4 v w then Some (phys OR flags OR PRESENT) else leaf m q w)"
    if "q \<in> R" "user_addr w"
    using wr(2) [OF that] spec(4) [OF that] by (simp only: entry_flags if_False if_cancel)
qed

lemma map_page_translation:
  assumes "user_forest R m" "p \<in> R" "user_addr v" "mappable phys flags"
    and "map_page_in_table p v phys flags m = Some m'" and "q \<in> R" "user_addr w"
  shows "get_mapped_frame q w m' =
      (if q = p \<and> same_path 4 v w then Some (phys + (w AND 0xFFF)) else get_mapped_frame q w m) \<and>
    user_forest R m'"
proof -
  note ml = map_page_leaf [OF assms(1-3,5)]
  have lf: "get_mapped_frame q w m' =
      map_option (\<lambda>e. (e AND ADDR_MASK) + (w AND 0xFFF)) (leaf m' q w)"
    by (rule lookup_walk_leaf [OF ml(1) assms(6,7)])
  show ?thesis
  proof (cases "q = p \<and> same_path 4 v w")
    case True
    have "leaf m' q w = Some (phys OR flags OR PRESENT)"
      by (subst ml(3) [OF assms(6,7)]) (simp only: True if_True simp_thms)
    then show ?thesis
      using True ml(1) lf by (simp only: option.map mapped_entry_addr [OF assms(4)] if_True simp_thms)
  next
    case False
    then have "leaf m' q w = leaf m q w"
      by (subst ml(3) [OF assms(6,7)]) (simp only: if_False)
    then show ?thesis
      using ml(1) lf lookup_walk_leaf [OF assms(1,6,7)] by (simp only: if_not_P [OF False] simp_thms)
  qed
qed

lemma map_page_isolation_at:
  assumes "user_forest R m" "p \<in> R" "user_addr v" "mappable phys flags"
    and "map_page_in_table p v phys flags m = Some m'"
  shows "get_mapped_frame p v m' = Some (phys + (v AND 0xFFF))"
  using conjunct1 [OF map_page_translation [OF assms assms(2,3)]] by simp

text \<open>
  C2: mapping a page of one address space changes the translation of exactly that page of
  that space to the given frame (with the page offset added), leaves every other translation
  of every address space as it was, and keeps the page tables disjoint trees.
\<close>

theorem map_page_isolation:
  assumes "user_forest R m" "p \<in> R" "user_addr v" "mappable phys flags"
    and "map_page_in_table p v phys flags m = Some m'" and "q \<in> R" "user_addr w"
  shows "get_mapped_frame q w m' =
      (if q = p \<and> same_path 4 v w then Some (phys + (w AND 0xFFF)) else get_mapped_frame q w m) \<and>
    user_forest R m'"
  by (rule map_page_translation [OF assms])

section \<open>Unmapping\<close>

lemma unmap_walk_tbl:
  assumes "tbl m p l v = Some t" "l \<le> 3"
  shows "unmap_walk [l..<3] v t m = tbl m p 3 v"
  using assms
proof (induction "3 - l" arbitrary: l t)
  case 0
  then show ?case by simp
next
  case (Suc n)
  then have l: "l < 3" "[l..<3] = l # [Suc l..<3]" "n = 3 - Suc l"
    by (simp_all add: upt_conv_Cons)
  show ?case
  proof (cases "tbl m p (Suc l) v")
    case None
    have "l = 0 \<or> l = 1 \<or> l = 2" using l(1) by linarith
    then have "tbl m p 3 v = None"
      using None by (elim disjE) (simp_all add: tbl_numerals numeral_2_eq_2 numeral_3_eq_3 tbl.simps(2))
    moreover have "read64 m (entry_addr t l v) AND PRESENT = 0"
      using None Suc.prems(1) by (auto simp: tbl.simps(2) Let_def split: if_splits)
    ultimately show ?thesis unfolding l(2) by (simp add: Let_def)
  next
    case (Some u)
    then have "read64 m (entry_addr t l v) AND PRESENT \<noteq> 0" "u = read64 m (entry_addr t l v) AND ADDR_MASK"
      using Suc.prems(1) by (auto simp: tbl.simps(2) Let_def split: if_splits)
    with Suc.hyps(1) [OF l(3) Some] l(1) show ?thesis unfolding l(2) by (simp add: Let_def)
  qed
qed

text \<open>
  C31: unmapping removes the translation of exactly one page of the active address space,
  and the tables stay disjoint trees.
\<close>

theorem unmap_page_isolation:
  assumes "user_forest R m" "get_pml4 m \<in> R" "user_addr v" "q \<in> R" "user_addr w"
  shows "get_mapped_frame q w (unmap_page v m) =
      (if q = get_pml4 m \<and> same_path 4 v w then None else get_mapped_frame q w m) \<and>
    user_forest R (unmap_page v m)"
proof -
  let ?p = "get_pml4 m"
  have walk: "unmap_walk [0, 1, 2] v ?p m = tbl m ?p 3 v"
    using unmap_walk_tbl [of m ?p 0 v ?p] by (simp add: upt_rec numeral_2_eq_2)
  show ?thesis
  proof (cases "tbl m ?p 3 v")
    case None
    have "leaf m q w = None" if "q = ?p" "same_path 4 v w"
      using None that tbl_same_path [of 3 v w m ?p] same_path_mono [of 4 v w 3]
      by (simp add: leaf_def)
    then show ?thesis
      using None walk assms(1) lookup_walk_leaf [OF assms(1,4,5)]
      by (simp add: unmap_page_def)
  next
    case (Some pt)
    have m': "unmap_page v m = write64 (entry_addr pt 3 v) 0 m"
      by (simp only: unmap_page_def walk Some option.case)
    note wr = leaf_write [OF assms(1-3) Some m']
    show ?thesis
      using wr(1) wr(2) [OF assms(4,5)] lookup_walk_leaf [OF wr(1) assms(4,5)]
        lookup_walk_leaf [OF assms(1,4,5)]
      by simp
  qed
qed

section \<open>New address spaces\<close>

lemma copy_kernel_half_cells:
  assumes "page_aligned dst"
  shows "set is \<subseteq> {256..<512} \<Longrightarrow>
    let m' = fold (\<lambda>i m. write64 (dst + 8 * of_nat i) (read64 m (src + 8 * of_nat i)) m) is m
    in m_avail m' = m_avail m \<and> cr3 m' = cr3 m \<and>
       (\<forall>u k w. page_aligned u \<longrightarrow> (u \<noteq> dst \<or> unat (pt_index k w) < 256) \<longrightarrow>
          read64 m' (entry_addr u k w) = read64 m (entry_addr u k w))"
proof (induction "is" arbitrary: m)
  case Nil
  then show ?case by simp
next
  case (Cons i "is")
  let ?m1 = "write64 (dst + 8 * of_nat i) (read64 m (src + 8 * of_nat i)) m"
  obtain d where d: "unat dst = 4096 * d" using assms by (metis page_aligned_nat mod_0_imp_dvd dvdE)
  have i: "i < 512" "256 \<le> i" using Cons.prems by auto
  have "unat dst < 18446744073709551616" by simp
  with d i have "unat (dst + 8 * of_nat i) = unat dst + 8 * i"
    by (simp add: unat_word_ariths unat_of_nat)
  then have c: "unat (cell (dst + 8 * of_nat i)) = 512 * d + i" by (simp add: unat_cell d)
  have "read64 ?m1 (entry_addr u k w) = read64 m (entry_addr u k w)"
    if u: "page_aligned u" "u \<noteq> dst \<or> unat (pt_index k w) < 256" for u k w
  proof -
    obtain e where e: "unat u = 4096 * e" using u(1) by (metis page_aligned_nat mod_0_imp_dvd dvdE)
    have "cell (entry_addr u k w) \<noteq> cell (dst + 8 * of_nat i)"
    proof
      assume "cell (entry_addr u k w) = cell (dst + 8 * of_nat i)"
      then have eq: "512 * e + unat (pt_index k w) = 512 * d + i"
        using c cell_entry [OF u(1), of k w] e by simp
      with pt_index_lt [of k w] i(1) have "e = d" by linarith
      with eq e d i u(2) show False by (auto simp: word_unat_eq_iff)
    qed
    then show ?thesis by (simp add: read64_write64)
  qed
  moreover have "m_avail ?m1 = m_avail m" by (simp add: m_avail_def)
  ultimately show ?case using Cons.IH [of ?m1] Cons.prems by (simp add: Let_def)
qed

lemma new_space_fresh:
  assumes fo: "user_forest R m" and c: "create_user_page_table m = Some (p, m')"
  shows "user_forest (insert p R) m' \<and> p \<notin> R \<and>
    (\<forall>w. user_addr w \<longrightarrow> get_mapped_frame p w m' = None \<and>
      (\<forall>q. q \<in> R \<longrightarrow> get_mapped_frame q w m' = get_mapped_frame q w m))"
proof -
  from c obtain m1 where a: "m_alloc m = Some (p, m1)"
    and m': "m' = copy_kernel_half (get_pml4 m) p (zero_page p m1)"
    by (auto simp: create_user_page_table_def split: option.splits)
  have p: "p \<in> m_avail m" "m_avail m1 = m_avail m - {p}" using fp.acq_Some [OF a] by auto
  have pa: "page_aligned p" using fp.avail_valid [OF p(1)] by (simp add: valid_frame_def)
  have user0: "\<exists>w. user_addr w" by (rule exI [of _ 0]) (simp add: user_addr_def pt_index_def)
  have notin: "p \<notin> R"
    using user0 user_forestD(2) [OF fo, of p _ 0 p] p(1) by auto
  have copy: "m_avail m' = m_avail m - {p}"
    "\<And>u k w. page_aligned u \<Longrightarrow> u \<noteq> p \<or> unat (pt_index k w) < 256 \<Longrightarrow>
       read64 m' (entry_addr u k w) = read64 (zero_page p m1) (entry_addr u k w)"
    using copy_kernel_half_cells [OF pa, of "[256..<512]" "get_pml4 m" "zero_page p m1"]
    unfolding m' copy_kernel_half_def p(2) [symmetric] Let_def by (simp_all only: set_upt order_refl m_avail_zero_page)
  have zero_mem: "mem (zero_page p m1) = (\<lambda>c. if drop_bit 9 c = drop_bit 12 p then 0 else mem m c)"
    using m_alloc_frame [OF a] by (auto simp: zero_page_def fun_eq_iff)
  have entry: "read64 m' (entry_addr u k w) = (if u = p then 0 else read64 m (entry_addr u k w))"
    if "page_aligned u" "u \<noteq> p \<or> unat (pt_index k w) < 256" for u k w
    unfolding copy(2) [OF that] by (simp only: read64_def zero_mem cell_entry_page [OF that(1) pa])
  have root: "tbl m' p (Suc k) w = None" if w: "user_addr w" for k w
  proof (induction k)
    case 0
    show ?case using w entry [OF pa, of 0 w] by (simp add: tbl.simps(2) user_addr_def)
  qed (simp add: tbl.simps(2))
  have old: "tbl m' q k w = tbl m q k w \<and> (\<forall>u. tbl m q k w = Some u \<longrightarrow>
      u \<noteq> p \<and> (\<forall>j x. read64 m' (entry_addr u j x) = read64 m (entry_addr u j x)))"
    if q: "q \<in> R" "user_addr w" "k \<le> 3" for q w k
  proof -
    have own: "u \<noteq> p \<and> (\<forall>j x. read64 m' (entry_addr u j x) = read64 m (entry_addr u j x))"
      if "j \<le> 3" "tbl m q j w = Some u" for u j
    proof -
      have "page_aligned u" "u \<noteq> p" using user_forestD(1,2) [OF fo q(1,2) that] p(1) by auto
      with entry [of u] show ?thesis by (simp only: if_False simp_thms)
    qed
    have "tbl m' q k w = tbl m q k w" using q(3)
    proof (induction k)
      case (Suc k)
      then show ?case using own [of k] by (cases "tbl m q k w") (simp_all add: tbl.simps(2))
    qed simp
    with own q(3) show ?thesis by blast
  qed
  have fo': "user_forest (insert p R) m'"
    unfolding user_forest_def
  proof (intro ballI allI impI)
    fix q w k u
    assume q: "q \<in> insert p R" "user_addr w" "k \<le> 3" "tbl m' q k w = Some u"
    have tp: "tbl m' p j x = Some y \<longleftrightarrow> j = 0 \<and> y = p" if "user_addr x" for j x y
      using root [OF that] by (cases j) auto
    show "page_aligned u \<and> u \<notin> m_avail m' \<and>
        (k = 1 \<or> k = 2 \<longrightarrow> read64 m' (entry_addr u k w) AND PRESENT \<noteq> 0 \<longrightarrow>
          read64 m' (entry_addr u k w) AND HUGE = 0) \<and>
        (\<forall>q'\<in>insert p R. \<forall>w' k'. user_addr w' \<longrightarrow> k' \<le> 3 \<longrightarrow> tbl m' q' k' w' = Some u \<longrightarrow>
          q = q' \<and> k = k' \<and> same_path k w w')"
    proof (cases "q = p")
      case True
      with q tp have u: "k = 0" "u = p" by auto
      have "\<not> (q' \<in> R \<and> user_addr w' \<and> k' \<le> 3 \<and> tbl m' q' k' w' = Some p)" for q' w' k'
        using old [of q' w' k'] by auto
      with u True tp pa copy(1) show ?thesis by (auto simp: same_path_def)
    next
      case False
      then have qR: "q \<in> R" using q(1) by simp
      from old [OF qR q(2,3)] q(4) have t: "tbl m q k w = Some u" "u \<noteq> p"
        "\<forall>j x. read64 m' (entry_addr u j x) = read64 m (entry_addr u j x)" by auto
      have "q = q' \<and> k = k' \<and> same_path k w w'"
        if "q' \<in> insert p R" "user_addr w'" "k' \<le> 3" "tbl m' q' k' w' = Some u" for q' w' k'
        using that tp [of w' k' u] t(2) old [of q' w' k']
          user_forestD(4) [OF fo qR q(2,3) t(1), of q' w' k'] by auto
      then have sep: "\<forall>q'\<in>insert p R. \<forall>w' k'. user_addr w' \<longrightarrow> k' \<le> 3 \<longrightarrow> tbl m' q' k' w' = Some u \<longrightarrow>
          q = q' \<and> k = k' \<and> same_path k w w'" by blast
      have "u \<notin> m_avail m'" using user_forestD(2) [OF fo qR q(2,3) t(1)] copy(1) by simp
      moreover have "k = 1 \<or> k = 2 \<longrightarrow> read64 m' (entry_addr u k w) AND PRESENT \<noteq> 0 \<longrightarrow>
          read64 m' (entry_addr u k w) AND HUGE = 0"
        using user_forestD(3) [OF fo qR q(2,3) t(1)] t(3) by metis
      ultimately show ?thesis
        using user_forestD(1) [OF fo qR q(2,3) t(1)] sep by blast
    qed
  qed
  have "leaf m' p w = None" if "user_addr w" for w
    using root [OF that, of 2] by (simp add: leaf_def numeral_3_eq_3 numeral_2_eq_2)
  moreover have "leaf m' q w = leaf m q w" if "user_addr w" "q \<in> R" for q w
    using old [OF that(2,1), of 3] by (cases "tbl m q 3 w") (auto simp: leaf_def)
  ultimately show ?thesis
    using fo' notin lookup_walk_leaf [OF fo'] lookup_walk_leaf [OF fo] by simp
qed

text \<open>
  C32: a new address space has no user mapping, does not disturb any existing one, and its
  root is a frame no other space uses.
\<close>

theorem create_user_page_table_fresh:
  assumes "user_forest R m" "create_user_page_table m = Some (p, m')"
  shows "user_forest (insert p R) m' \<and> p \<notin> R \<and>
    (\<forall>w. user_addr w \<longrightarrow> get_mapped_frame p w m' = None \<and>
      (\<forall>q. q \<in> R \<longrightarrow> get_mapped_frame q w m' = get_mapped_frame q w m))"
  by (rule new_space_fresh [OF assms])

section \<open>Frames taken for other uses\<close>

lemma tbl_mem_cong: "mem m' = mem m \<Longrightarrow> tbl m' p l v = tbl m p l v"
  by (induction l) (simp_all add: tbl.simps(2) read64_def split: option.split)

lemma get_mapped_frame_mem_cong: "mem m' = mem m \<Longrightarrow> get_mapped_frame p v m' = get_mapped_frame p v m"
proof -
  assume "mem m' = mem m"
  then have r: "read64 m' a = read64 m a" for a by (simp add: read64_def)
  have "lookup_walk ls v t m' = lookup_walk ls v t m" for ls t
    by (induction ls arbitrary: t) (simp_all add: lookup_walk.simps(2) r Let_def)
  with r show ?thesis by (simp add: get_mapped_frame_def split: sum.split)
qed

lemma alloc_keeps_spaces:
  assumes fo: "user_forest R m" and a: "m_alloc_zeroed m = Some (f, m1)"
  shows "user_forest R m1" and "\<And>q w. q \<in> R \<Longrightarrow> user_addr w \<Longrightarrow> leaf m1 q w = leaf m q w"
proof -
  have f: "f \<in> m_avail m" "m_avail m1 = m_avail m - {f}" using zp.acq_Some [OF a] by auto
  have fa: "page_aligned f" using zp.avail_valid [OF f(1)] by (simp add: valid_frame_def)
  have entry: "read64 m1 (entry_addr u k w) = read64 m (entry_addr u k w)"
    if "q \<in> R" "user_addr x" "j \<le> 3" "tbl m q j x = Some u" for q x j u k w
  proof -
    have "page_aligned u" "u \<noteq> f" using user_forestD(1,2) [OF fo that] f(1) by auto
    then show ?thesis
      by (simp only: read64_def m_alloc_zeroed_mem [OF a] cell_entry_page [OF _ fa] if_False)
  qed
  have tbl: "tbl m1 q k w = tbl m q k w" if q: "q \<in> R" "user_addr w" "k \<le> 3" for q w k
    using q(3)
  proof (induction k)
    case (Suc k)
    show ?case
    proof (cases "tbl m q k w")
      case (Some u)
      have "read64 m1 (entry_addr u k w) = read64 m (entry_addr u k w)"
        using Suc.prems by (intro entry [OF q(1,2) _ Some]) simp
      with Suc Some show ?thesis by (simp add: tbl.simps(2))
    qed (use Suc in \<open>simp add: tbl.simps(2)\<close>)
  qed simp
  show "user_forest R m1" unfolding user_forest_def
  proof (intro ballI allI impI)
    fix q w k u
    assume q: "q \<in> R" "user_addr w" "k \<le> 3" "tbl m1 q k w = Some u"
    then have old: "tbl m q k w = Some u" by (simp add: tbl)
    show "page_aligned u \<and> u \<notin> m_avail m1 \<and>
        (k = 1 \<or> k = 2 \<longrightarrow> read64 m1 (entry_addr u k w) AND PRESENT \<noteq> 0 \<longrightarrow>
          read64 m1 (entry_addr u k w) AND HUGE = 0) \<and>
        (\<forall>q'\<in>R. \<forall>w' k'. user_addr w' \<longrightarrow> k' \<le> 3 \<longrightarrow> tbl m1 q' k' w' = Some u \<longrightarrow>
          q = q' \<and> k = k' \<and> same_path k w w')"
      using user_forestD [OF fo q(1-3) old] entry [OF q(1-3) old] f(2) tbl by auto
  qed
  fix q w assume q: "q \<in> R" "user_addr w"
  show "leaf m1 q w = leaf m q w"
    using tbl [OF q, of 3] entry [OF q, of 3] by (cases "tbl m q 3 w") (auto simp: leaf_def)
qed

lemma valid_frame_mappable: "valid_frame f \<Longrightarrow> flags = WRITABLE OR USER \<Longrightarrow> mappable f flags"
proof -
  assume f: "valid_frame f" and fl: "flags = WRITABLE OR USER"
  have "f AND NOT ADDR_MASK = 0"
  proof (rule bit_word_eqI)
    fix n
    have "bit f n \<Longrightarrow> 12 \<le> n \<and> n < 52"
      using f page_aligned_bits [of f] bit_lt_exp [of f 32 n]
      by (auto simp: valid_frame_def not_less [symmetric])
    then show "bit (f AND NOT ADDR_MASK) n = bit (0 :: u64) n"
      by (simp only: bit_and_iff bit_not_iff addr_mask_bits) auto
  qed
  moreover have "flags AND ADDR_MASK = 0" by (simp add: fl)
  ultimately show ?thesis by (simp add: mappable_def)
qed

section \<open>A concrete machine\<close>

text \<open>Eight free frames from 0 up, an empty root table at the frame of \<open>cr3\<close>, which is in use.\<close>

definition small_machine :: machine where
  "small_machine =
     \<lparr>frames = \<lparr>bitmap = (\<lambda>i. if i = 0 then 0 else 0xFF), total_frames = 8, used_frames = 0\<rparr>,
      mem = (\<lambda>_. 0), cr3 = 0x100000\<rparr>"

lemma forest_single:
  assumes "page_aligned p" "p \<notin> m_avail m" "\<And>w. user_addr w \<Longrightarrow> read64 m (entry_addr p 0 w) = 0"
  shows "user_forest {p} m"
proof -
  have t: "tbl m p (Suc k) w = None" if "user_addr w" for k w
    using assms(3) [OF that] by (induction k) (simp_all add: tbl.simps(2))
  have "tbl m p l w = Some u \<longleftrightarrow> l = 0 \<and> u = p" if "user_addr w" for l w u
    using t [OF that] by (cases l) auto
  with assms(1,2) show ?thesis by (auto simp: user_forest_def same_path_def)
qed

lemma small_machine_avail: "m_avail small_machine = frame_addr ` {..<8}"
proof -
  have "is_free (frames small_machine) f \<longleftrightarrow> f < 8" for f
    using byte_not_full [of "0xFF"]
    by (cases "f div 8 = 0") (auto simp: is_free_bit small_machine_def)
  then show ?thesis by (auto simp: m_avail_def avail_frames_def free_frames_def)
qed

lemma small_machine_root: "page_aligned 0x100000" "(0x100000 :: u64) \<notin> m_avail small_machine"
  by (auto simp: page_aligned_nat small_machine_avail frame_addr_def dest!: arg_cong [of _ _ unat])
    (simp add: unat_word_ariths unat_of_nat)

lemma small_machine_forest: "user_forest {0x100000} small_machine" "user_forest {} small_machine"
proof -
  show "user_forest {0x100000} small_machine"
    by (rule forest_single [OF small_machine_root]) (simp add: read64_def small_machine_def)
  show "user_forest {} small_machine" by (simp only: user_forest_def ball_empty)
qed

lemma card_small_machine: "card (m_avail small_machine) = 8"
proof -
  have "inj_on frame_addr {..<8}" by (intro inj_onI) (simp add: frame_addr_inj)
  then show ?thesis by (simp add: small_machine_avail card_image)
qed

lemma small_machine_maps:
  "\<exists>m'. map_page_in_table 0x100000 0x400000 0x5000 6 small_machine = Some m'"
proof -
  show ?thesis
    using card_small_machine map_page_progress [of small_machine "0x100000" "0x400000" "0x5000" 6] by simp
qed

lemma map_page_isolation_witness:
  "\<exists>m'. map_page_in_table 0x100000 0x400000 0x5000 6 small_machine = Some m' \<and>
     get_mapped_frame 0x100000 0x400123 m' = Some 0x5123 \<and>
     get_mapped_frame 0x100000 0x401123 m' = get_mapped_frame 0x100000 0x401123 small_machine"
proof -
  obtain m' where m': "map_page_in_table 0x100000 0x400000 0x5000 6 small_machine = Some m'"
    using small_machine_maps by blast
  have "user_addr 0x400000" "user_addr 0x400123" "user_addr 0x401123" "mappable 0x5000 6"
    "same_path 4 0x400000 0x400123" "\<not> same_path 4 0x400000 0x401123"
    by code_simp+
  with map_page_isolation [OF small_machine_forest(1) _ _ _ m', of "0x100000" "0x400123"]
    map_page_isolation [OF small_machine_forest(1) _ _ _ m', of "0x100000" "0x401123"] m'
  show ?thesis by simp
qed

lemma unmap_page_isolation_witness:
  "get_mapped_frame 0x100000 0x400123 (unmap_page 0x400000 small_machine) = None"
proof -
  have "user_addr 0x400000" "user_addr 0x400123" "same_path 4 0x400000 0x400123"
    "get_pml4 small_machine = 0x100000"
    by code_simp+
  with unmap_page_isolation [OF small_machine_forest(1), of "0x400000" "0x100000" "0x400123"]
  show ?thesis by simp
qed

lemma create_user_page_table_fresh_witness:
  "\<exists>p m'. create_user_page_table small_machine = Some (p, m') \<and> get_mapped_frame p 0x400000 m' = None"
proof -
  have "m_alloc small_machine \<noteq> None"
    by (simp add: m_alloc_laws(1) small_machine_avail lessThan_empty_iff)
  then obtain p m' where c: "create_user_page_table small_machine = Some (p, m')"
    by (auto simp: create_user_page_table_def)
  have "user_addr 0x400000" by code_simp
  with create_user_page_table_fresh [OF small_machine_forest(2) c] c show ?thesis by blast
qed

end
