(* ===== verification/Vma.thy ===== *)
theory Vma
  imports Prelude
begin

text \<open>
  Virtual memory areas, \<^verbatim>\<open>kernel/src/vma.rs\<close>. A region list is searched for the region of an
  address and for a gap. The search for a gap is a loop that restarts after every conflict; it
  is a partial function, and the main result is that it returns on the region lists the kernel
  builds, with the first gap that fits at or above the hint.
\<close>

section \<open>Regions\<close>

abbreviation VMA_READ :: u64 where "VMA_READ \<equiv> 1"
abbreviation VMA_WRITE :: u64 where "VMA_WRITE \<equiv> 2"
abbreviation VMA_EXEC :: u64 where "VMA_EXEC \<equiv> 4"
abbreviation VMA_USER :: u64 where "VMA_USER \<equiv> 8"
abbreviation VMA_SHARED :: u64 where "VMA_SHARED \<equiv> 16"

definition flags_contain :: "u64 \<Rightarrow> u64 \<Rightarrow> bool" where
  "flags_contain f other \<longleftrightarrow> f AND other = other"

datatype vma_backing =
    Anonymous
  | ElfSegment "u8 list" nat nat
  | PhysicalMap u64

record vma =
  vma_start :: u64
  vma_end :: u64
  vma_flags :: u64
  vma_backing :: vma_backing

definition vma_contains :: "vma \<Rightarrow> u64 \<Rightarrow> bool" where
  "vma_contains v addr \<longleftrightarrow> addr \<ge> vma_start v \<and> addr < vma_end v"

text \<open>\<^verbatim>\<open>USER\<close> is bit 2 and \<^verbatim>\<open>WRITABLE\<close> bit 1 of a page-table entry.\<close>

definition page_flags :: "vma \<Rightarrow> u64" where
  "page_flags v = (if flags_contain (vma_flags v) VMA_WRITE then 4 OR 2 else 4)"

type_synonym vma_list = "vma list"

definition vma_add :: "vma \<Rightarrow> vma_list \<Rightarrow> vma_list" where
  "vma_add v regions = regions @ [v]"

definition vma_find :: "vma_list \<Rightarrow> u64 \<Rightarrow> vma option" where
  "vma_find regions addr = find (\<lambda>v. vma_contains v addr) regions"

definition vma_clear :: "vma_list \<Rightarrow> vma_list" where
  "vma_clear regions = []"

section \<open>The search for a free region\<close>

abbreviation MAX_USER_ADDR :: u64 where "MAX_USER_ADDR \<equiv> 0x00007FFF00000000"

definition conflicts :: "u64 \<Rightarrow> u64 \<Rightarrow> vma \<Rightarrow> bool" where
  "conflicts candidate sz v \<longleftrightarrow> candidate < vma_end v \<and> candidate + sz > vma_start v"

partial_function (option) free_region_loop :: "vma_list \<Rightarrow> u64 \<Rightarrow> u64 \<Rightarrow> u64 option option" where
  "free_region_loop regions aligned_size candidate =
     (if candidate + aligned_size > MAX_USER_ADDR then Some None
      else case find (conflicts candidate aligned_size) regions of
        None \<Rightarrow> Some (Some candidate)
      | Some v \<Rightarrow> free_region_loop regions aligned_size (align_up (vma_end v)))"

definition find_free_region :: "vma_list \<Rightarrow> u64 \<Rightarrow> u64 \<Rightarrow> u64 option option" where
  "find_free_region regions hint sz =
     free_region_loop regions (align_up sz) (align_up hint)"

text \<open>
  The regions the kernel builds end on a page boundary of the lower half; the spaces between
  and around them are the gaps. \<open>fits\<close> is the specification of a gap, in unbounded arithmetic.
\<close>

definition vma_ends_ok :: "vma_list \<Rightarrow> bool" where
  "vma_ends_ok regions \<longleftrightarrow> list_all (\<lambda>v. page_aligned (vma_end v) \<and> unat (vma_end v) < 2 ^ 63) regions"

definition fits :: "vma_list \<Rightarrow> nat \<Rightarrow> nat \<Rightarrow> bool" where
  "fits regions sz c \<longleftrightarrow>
     c + sz \<le> unat MAX_USER_ADDR \<and>
     list_all (\<lambda>v. unat (vma_end v) \<le> c \<or> c + sz \<le> unat (vma_start v)) regions"

definition first_fit :: "vma_list \<Rightarrow> nat \<Rightarrow> nat \<Rightarrow> u64 option \<Rightarrow> bool" where
  "first_fit regions sz hint r \<longleftrightarrow>
     (case r of
        None \<Rightarrow> (\<forall>c. hint \<le> c \<longrightarrow> \<not> fits regions sz c)
      | Some a \<Rightarrow> hint \<le> unat a \<and> page_aligned a \<and> fits regions sz (unat a) \<and>
          (\<forall>c. hint \<le> c \<and> c < unat a \<longrightarrow> \<not> fits regions sz c))"

lemma no_fit_below_end:
  assumes "v \<in> set regions" "unat cand < unat (vma_end v)" "unat cand + sz > unat (vma_start v)"
    and "unat cand \<le> c" "c < unat (vma_end v)"
  shows "\<not> fits regions sz c"
  using assms by (fastforce simp: fits_def list_all_iff)

lemma free_region_loop_first_fit:
  assumes "vma_ends_ok regions" "unat sz \<le> 2 ^ 62"
    and "page_aligned cand" "unat cand < 2 ^ 63" "hint \<le> unat cand"
    and "\<And>c. hint \<le> c \<Longrightarrow> c < unat cand \<Longrightarrow> \<not> fits regions (unat sz) c"
  shows "\<exists>r. free_region_loop regions sz cand = Some r \<and> first_fit regions (unat sz) hint r"
  using assms(3-6)
proof (induction "2 ^ 64 - unat cand" arbitrary: cand rule: less_induct)
  case less
  have sum: "unat (cand + sz) = unat cand + unat sz"
    using less.prems(2) assms(2) by (simp add: unat_word_ariths)
  show ?case
  proof (cases "cand + sz > MAX_USER_ADDR")
    case True
    have "\<not> fits regions (unat sz) c" if "hint \<le> c" for c
    proof (cases "c < unat cand")
      case False
      with True show ?thesis by (simp add: fits_def word_less_nat_alt sum)
    qed (use less.prems(4) that in blast)
    then show ?thesis
      by (subst free_region_loop.simps) (simp add: True first_fit_def)
  next
    case small: False
    show ?thesis
    proof (cases "find (conflicts cand sz) regions")
      case None
      have "list_all (\<lambda>v. unat (vma_end v) \<le> unat cand \<or> unat cand + unat sz \<le> unat (vma_start v)) regions"
        using None by (auto simp: find_None_iff list_all_iff conflicts_def word_less_nat_alt sum not_less)
      then have "fits regions (unat sz) (unat cand)"
        using small by (simp add: fits_def word_less_nat_alt sum not_less)
      with less.prems None small show ?thesis
        by (subst free_region_loop.simps) (auto simp: first_fit_def)
    next
      case (Some v)
      then have v: "v \<in> set regions" "conflicts cand sz v"
        by (auto simp: find_Some_iff)
      have e: "page_aligned (vma_end v)" "unat (vma_end v) < 2 ^ 63"
        using assms(1) v(1) by (auto simp: vma_ends_ok_def list_all_iff)
      have lt: "unat cand < unat (vma_end v)" "unat cand + unat sz > unat (vma_start v)"
        using v(2) by (simp_all add: conflicts_def word_less_nat_alt sum)
      have "\<exists>r. free_region_loop regions sz (vma_end v) = Some r \<and> first_fit regions (unat sz) hint r"
      proof (rule less.hyps)
        show "2 ^ 64 - unat (vma_end v) < 2 ^ 64 - unat cand" using lt(1) e(2) by simp
        show "\<not> fits regions (unat sz) c" if "hint \<le> c" "c < unat (vma_end v)" for c
          using no_fit_below_end [OF v(1) lt, of c] less.prems(4) [of c] that by (cases "c < unat cand") auto
      qed (use e lt less.prems(3) in auto)
      with Some small e(1) show ?thesis by (subst free_region_loop.simps) simp
    qed
  qed
qed

lemma first_fit_found:
  assumes "vma_ends_ok regions" "unat sz \<le> 2 ^ 61" "unat hint \<le> 2 ^ 61"
  shows "\<exists>r. find_free_region regions hint sz = Some r \<and>
    first_fit regions (unat (align_up sz)) (unat (align_up hint)) r"
proof -
  have "unat (align_up x) \<le> unat x + 4095" if "unat x \<le> 2 ^ 61" for x :: u64
    using that by (subst unat_align_up) auto
  with assms(2,3) have "unat (align_up sz) \<le> 2 ^ 62" "unat (align_up hint) < 2 ^ 63"
    by fastforce+
  then show ?thesis
    unfolding find_free_region_def
    by (intro free_region_loop_first_fit [OF assms(1)]) auto
qed

text \<open>The search returns on every list of regions that end on a page boundary, of any size.\<close>

lemma free_region_loop_returns:
  assumes "\<forall>v\<in>set regions. page_aligned (vma_end v)" "page_aligned cand"
  shows "\<exists>r. free_region_loop regions sz cand = Some r \<and> (\<forall>a. r = Some a \<longrightarrow> page_aligned a)"
  using assms(2)
proof (induction "2 ^ 64 - unat cand" arbitrary: cand rule: less_induct)
  case less
  show ?case
  proof (cases "cand + sz > MAX_USER_ADDR")
    case True
    then show ?thesis by (subst free_region_loop.simps) simp
  next
    case small: False
    show ?thesis
    proof (cases "find (conflicts cand sz) regions")
      case None
      with small less.prems show ?thesis by (subst free_region_loop.simps) simp
    next
      case (Some v)
      then have v: "v \<in> set regions" "conflicts cand sz v" by (auto simp: find_Some_iff)
      then have "unat cand < unat (vma_end v)" by (simp add: conflicts_def word_less_nat_alt)
      moreover have "unat (vma_end v) < 2 ^ 64" using unat_u64_lt [of "vma_end v"] by simp
      ultimately have "2 ^ 64 - unat (vma_end v) < 2 ^ 64 - unat cand" by linarith
      moreover have "page_aligned (vma_end v)" using assms(1) v(1) by blast
      ultimately have "\<exists>r. free_region_loop regions sz (vma_end v) = Some r \<and> (\<forall>a. r = Some a \<longrightarrow> page_aligned a)"
        using less.hyps by blast
      with Some small \<open>page_aligned (vma_end v)\<close> show ?thesis by (subst free_region_loop.simps) simp
    qed
  qed
qed

text \<open>
  C28: on every region list whose ends are page aligned the search returns, and its answer is
  the first page-aligned gap at or above the rounded hint that holds the rounded size below
  the user limit, or \<open>None\<close> when there is none.
\<close>

theorem find_free_region_first_fit:
  assumes "vma_ends_ok regions" "unat sz \<le> 2 ^ 61" "unat hint \<le> 2 ^ 61"
  shows "\<exists>r. find_free_region regions hint sz = Some r \<and>
    first_fit regions (unat (align_up sz)) (unat (align_up hint)) r"
  by (rule first_fit_found [OF assms])

definition two_regions :: vma_list where
  "two_regions =
     [\<lparr>vma_start = 0x500000, vma_end = 0x600000, vma_flags = 3, vma_backing = Anonymous\<rparr>,
      \<lparr>vma_start = 0x400000, vma_end = 0x500000, vma_flags = 3, vma_backing = Anonymous\<rparr>]"

lemma find_free_region_first_fit_witness:
  "\<exists>r. find_free_region two_regions 0x400001 0x2000 = Some r \<and> first_fit two_regions 0x2000 0x401000 r"
proof -
  have "vma_ends_ok two_regions" by (simp add: vma_ends_ok_def two_regions_def page_aligned_def)
  moreover have "unat (align_up 0x2000) = 0x2000" "unat (align_up 0x400001) = 0x401000"
    by (simp_all add: unat_align_up)
  ultimately show ?thesis
    using find_free_region_first_fit [of two_regions "0x2000" "0x400001"] by simp
qed

lemma find_free_region_example:
  "find_free_region two_regions 0x400001 0x2000 = Some (Some 0x600000)"
  by (simp add: find_free_region_def two_regions_def free_region_loop.simps conflicts_def align_up_def)

text \<open>
  A size within a page of \<open>2 ^ 64\<close> wraps in \<^verbatim>\<open>candidate + aligned_size\<close>: the search accepts the
  hint, and the region built from the answer ends below its start.
\<close>

lemma find_free_region_wraps:
  "find_free_region [] 0x10000000 (- 0x1000) = Some (Some 0x10000000)"
  "(0x10000000 :: u64) + align_up (- 0x1000) < 0x10000000"
  by (simp_all add: find_free_region_def free_region_loop.simps align_up_def)

section \<open>Regions of an address\<close>

lemma vma_find_add:
  "vma_find (vma_add v regions) addr =
     (case vma_find regions addr of
        Some w \<Rightarrow> Some w
      | None \<Rightarrow> if vma_contains v addr then Some v else None)"
  by (induction regions) (auto simp: vma_find_def vma_add_def)

lemma vma_find_Some:
  "vma_find regions addr = Some v \<Longrightarrow> v \<in> set regions \<and> vma_contains v addr"
  by (auto simp: vma_find_def find_Some_iff)

definition vmas_disjoint :: "vma_list \<Rightarrow> bool" where
  "vmas_disjoint regions \<longleftrightarrow>
     sorted_wrt (\<lambda>v w. vma_end v \<le> vma_start w \<or> vma_end w \<le> vma_start v) regions"

text \<open>A region placed where the search says keeps the list pairwise disjoint.\<close>

lemma mapped_region_disjoint:
  assumes "vma_ends_ok regions" "vmas_disjoint regions" "unat sz \<le> 2 ^ 61" "unat hint \<le> 2 ^ 61"
    and "find_free_region regions hint sz = Some (Some a)"
    and "vma_start v = a" "vma_end v = a + align_up sz"
  shows "vmas_disjoint (vma_add v regions) \<and> vma_ends_ok (vma_add v regions)"
proof -
  have "first_fit regions (unat (align_up sz)) (unat (align_up hint)) (Some a)"
    using first_fit_found [OF assms(1,3,4)] assms(5) by simp
  then have f: "fits regions (unat (align_up sz)) (unat a)" "page_aligned a"
    by (simp_all add: first_fit_def)
  have sum: "unat (vma_end v) = unat a + unat (align_up sz)"
    using f(1) by (simp add: assms(7) fits_def unat_word_ariths)
  have "page_aligned (vma_end v)"
    using f(2) page_aligned_align_up [of sz] sum by (auto simp: page_aligned_nat)
  then show ?thesis
    using assms(1,2) f(1) sum
    by (auto simp: vma_add_def vmas_disjoint_def vma_ends_ok_def sorted_wrt_append fits_def list_all_iff
        word_le_nat_alt assms(6))
qed

end
