(* ===== verification/Ipc.thy ===== *)
theory Ipc
  imports Prelude
begin

text \<open>
  Message queues, \<^verbatim>\<open>kernel/src/ipc.rs\<close>: a ring buffer of 64 slots per process. The interface
  \<open>mailbox\<close> states what a queue promises (a bounded FIFO that replaces the newest message when
  it and the new one are mouse moves of one sender); the ring buffer is an interpretation.
  \<^verbatim>\<open>send\<close> and \<^verbatim>\<open>try_receive\<close>, which also read and wake processes, are in the theory Scheduler.
\<close>

section \<open>The ring buffer\<close>

abbreviation QUEUE_SIZE :: nat where "QUEUE_SIZE \<equiv> 64"
abbreviation MSG_MOUSE_MOVE :: u64 where "MSG_MOUSE_MOVE \<equiv> 0x41"

record message =
  sender :: nat
  msg_type :: u64
  arg1 :: u64
  arg2 :: u64
  arg3 :: u64
  arg4 :: u64
  arg5 :: u64
  arg6 :: u64

definition message_empty :: message where
  "message_empty = \<lparr>sender = 0, msg_type = 0, arg1 = 0, arg2 = 0, arg3 = 0, arg4 = 0, arg5 = 0, arg6 = 0\<rparr>"

record message_queue =
  messages :: "message option list"
  q_head :: nat
  q_tail :: nat
  q_count :: nat

definition message_queue_new :: message_queue where
  "message_queue_new = \<lparr>messages = replicate QUEUE_SIZE None, q_head = 0, q_tail = 0, q_count = 0\<rparr>"

definition last_idx :: "message_queue \<Rightarrow> nat" where
  "last_idx q = (q_tail q + QUEUE_SIZE - 1) mod QUEUE_SIZE"

definition queue_coalesces :: "message_queue \<Rightarrow> message \<Rightarrow> bool" where
  "queue_coalesces q msg \<longleftrightarrow>
     msg_type msg = MSG_MOUSE_MOVE \<and> q_count q > 0 \<and>
     (case messages q ! last_idx q of
        None \<Rightarrow> False
      | Some last_msg \<Rightarrow> msg_type last_msg = MSG_MOUSE_MOVE \<and> sender last_msg = sender msg)"

definition queue_push :: "message \<Rightarrow> message_queue \<Rightarrow> bool \<times> message_queue" where
  "queue_push msg q =
     (if queue_coalesces q msg then (True, q\<lparr>messages := (messages q)[last_idx q := Some msg]\<rparr>)
      else if q_count q \<ge> QUEUE_SIZE then (False, q)
      else (True, q\<lparr>messages := (messages q)[q_tail q := Some msg],
                    q_tail := (q_tail q + 1) mod QUEUE_SIZE,
                    q_count := q_count q + 1\<rparr>))"

definition queue_pop :: "message_queue \<Rightarrow> message option \<times> message_queue" where
  "queue_pop q =
     (if q_count q = 0 then (None, q)
      else (messages q ! q_head q,
            q\<lparr>messages := (messages q)[q_head q := None],
              q_head := (q_head q + 1) mod QUEUE_SIZE,
              q_count := q_count q - 1\<rparr>))"

section \<open>What a mailbox promises\<close>

definition same_stream :: "message \<Rightarrow> message \<Rightarrow> bool" where
  "same_stream a b \<longleftrightarrow>
     msg_type a = MSG_MOUSE_MOVE \<and> msg_type b = MSG_MOUSE_MOVE \<and> sender a = sender b"

definition spec_push :: "message \<Rightarrow> message list \<Rightarrow> bool \<times> message list" where
  "spec_push m xs =
     (if xs \<noteq> [] \<and> same_stream (last xs) m then (True, butlast xs @ [m])
      else if length xs < QUEUE_SIZE then (True, xs @ [m])
      else (False, xs))"

definition spec_pop :: "message list \<Rightarrow> message option \<times> message list" where
  "spec_pop xs = (case xs of [] \<Rightarrow> (None, []) | x # xs' \<Rightarrow> (Some x, xs'))"

text \<open>A burst of messages offered one after the other, with the accepted ones.\<close>

primrec push_all :: "(message \<Rightarrow> 'q \<Rightarrow> bool \<times> 'q) \<Rightarrow> message list \<Rightarrow> 'q \<Rightarrow> message list \<times> 'q" where
  "push_all push [] q = ([], q)"
| "push_all push (m # ms) q =
     (let (ok, q') = push m q; (acc, q'') = push_all push ms q' in ((if ok then m # acc else acc), q''))"

abbreviation not_moves :: "message list \<Rightarrow> message list" where
  "not_moves \<equiv> filter (\<lambda>x. msg_type x \<noteq> MSG_MOUSE_MOVE)"

locale mailbox =
  fixes push :: "message \<Rightarrow> 'q \<Rightarrow> bool \<times> 'q"
    and pop :: "'q \<Rightarrow> message option \<times> 'q"
    and contents :: "'q \<Rightarrow> message list"
    and inv :: "'q \<Rightarrow> bool"
  assumes push_spec: "inv q \<Longrightarrow> push m q = (ok, q') \<Longrightarrow>
      inv q' \<and> (ok, contents q') = spec_push m (contents q)"
    and pop_spec: "inv q \<Longrightarrow> pop q = (r, q') \<Longrightarrow>
      inv q' \<and> (r, contents q') = spec_pop (contents q)"
begin

text \<open>Messages of other types than mouse moves are appended once when accepted, and stay put otherwise.\<close>

lemma push_others:
  assumes "inv q" "push m q = (ok, q')"
  shows "filter (\<lambda>x. msg_type x \<noteq> MSG_MOUSE_MOVE) (contents q') =
    filter (\<lambda>x. msg_type x \<noteq> MSG_MOUSE_MOVE) (contents q) @
    (if ok \<and> msg_type m \<noteq> MSG_MOUSE_MOVE then [m] else [])"
proof -
  have s: "(ok, contents q') = spec_push m (contents q)" using push_spec [OF assms] by simp
  show ?thesis
  proof (cases "contents q \<noteq> [] \<and> same_stream (last (contents q)) m")
    case True
    then have "filter (\<lambda>x. msg_type x \<noteq> MSG_MOUSE_MOVE) (contents q) =
        filter (\<lambda>x. msg_type x \<noteq> MSG_MOUSE_MOVE) (butlast (contents q) @ [last (contents q)])"
      by (metis append_butlast_last_id)
    also have "\<dots> = filter (\<lambda>x. msg_type x \<noteq> MSG_MOUSE_MOVE) (butlast (contents q))"
      using True by (simp only: filter_append filter.simps same_stream_def) simp
    finally have "filter (\<lambda>x. msg_type x \<noteq> MSG_MOUSE_MOVE) (contents q) =
        filter (\<lambda>x. msg_type x \<noteq> MSG_MOUSE_MOVE) (butlast (contents q))" .
    with True s show ?thesis by (simp add: spec_push_def same_stream_def)
  qed (use s in \<open>auto simp: spec_push_def split: if_splits\<close>)
qed

lemma push_all_others:
  "inv q \<Longrightarrow> push_all push ms q = (acc, q') \<Longrightarrow>
   inv q' \<and> not_moves (contents q') = not_moves (contents q) @ not_moves acc"
proof (induction ms arbitrary: q acc q')
  case (Cons m ms)
  obtain ok q1 where p: "push m q = (ok, q1)" by fastforce
  obtain acc' q2 where r: "push_all push ms q1 = (acc', q2)" by fastforce
  have "inv q1" using push_spec [OF Cons.prems(1) p] by simp
  from Cons.IH [OF this r] push_others [OF Cons.prems(1) p] Cons.prems(2) p r
  show ?case by auto
qed simp

lemma push_room: "inv q \<Longrightarrow> length (contents q) < QUEUE_SIZE \<Longrightarrow> fst (push m q)"
  using push_spec [of q m "fst (push m q)" "snd (push m q)"] by (auto simp: spec_push_def split: if_splits)

primrec drain :: "nat \<Rightarrow> 'q \<Rightarrow> message list" where
  "drain 0 q = []"
| "drain (Suc n) q = (case pop q of (None, q') \<Rightarrow> [] | (Some m, q') \<Rightarrow> m # drain n q')"

lemma drain_contents: "inv q \<Longrightarrow> drain n q = take n (contents q)"
proof (induction n arbitrary: q)
  case (Suc n)
  obtain r q' where r: "pop q = (r, q')" by fastforce
  from pop_spec [OF Suc.prems r] Suc.IH [of q'] r show ?case
    by (auto simp: spec_pop_def split: list.splits)
qed simp

end

section \<open>The ring buffer is a mailbox\<close>

definition queue_contents :: "message_queue \<Rightarrow> message list" where
  "queue_contents q =
     map (\<lambda>i. the (messages q ! ((q_head q + i) mod QUEUE_SIZE))) [0..<q_count q]"

definition queue_inv :: "message_queue \<Rightarrow> bool" where
  "queue_inv q \<longleftrightarrow>
     length (messages q) = QUEUE_SIZE \<and> q_head q < QUEUE_SIZE \<and> q_count q \<le> QUEUE_SIZE \<and>
     q_tail q = (q_head q + q_count q) mod QUEUE_SIZE \<and>
     (\<forall>i<q_count q. messages q ! ((q_head q + i) mod QUEUE_SIZE) \<noteq> None)"

lemma ring_distinct:
  "h < QUEUE_SIZE \<Longrightarrow> i < QUEUE_SIZE \<Longrightarrow> j < QUEUE_SIZE \<Longrightarrow>
   (h + i) mod QUEUE_SIZE = (h + j) mod QUEUE_SIZE \<longleftrightarrow> i = j"
  by (auto simp: mod_if split: if_splits)

lemma last_idx_ring:
  "queue_inv q \<Longrightarrow> q_count q > 0 \<Longrightarrow> last_idx q = (q_head q + (q_count q - 1)) mod QUEUE_SIZE"
proof -
  assume inv: "queue_inv q" and pos: "q_count q > 0"
  have "last_idx q = ((q_head q + q_count q) mod QUEUE_SIZE + 63) mod QUEUE_SIZE"
    using inv by (simp add: last_idx_def queue_inv_def add.commute)
  also have "\<dots> = (q_head q + q_count q + 63) mod QUEUE_SIZE" by (rule mod_add_left_eq)
  also have "q_head q + q_count q + 63 = q_head q + (q_count q - 1) + 64" using pos by simp
  finally show ?thesis by simp
qed

lemma queue_contents_last:
  "queue_inv q \<Longrightarrow> q_count q > 0 \<Longrightarrow>
   queue_contents q = map (\<lambda>i. the (messages q ! ((q_head q + i) mod QUEUE_SIZE))) [0..<q_count q - 1] @
     [the (messages q ! last_idx q)]"
  using last_idx_ring [of q] by (cases "q_count q") (simp_all add: queue_contents_def)

lemma queue_coalesces_iff:
  assumes "queue_inv q"
  shows "queue_coalesces q m \<longleftrightarrow>
    queue_contents q \<noteq> [] \<and> same_stream (last (queue_contents q)) m"
proof (cases "q_count q > 0")
  case True
  then have "messages q ! last_idx q \<noteq> None"
    unfolding last_idx_ring [OF assms True] using assms True unfolding queue_inv_def
    by (metis diff_less zero_less_one)
  with True show ?thesis
    using queue_contents_last [OF assms True]
    by (auto simp: queue_coalesces_def same_stream_def split: option.splits)
qed (simp add: queue_coalesces_def queue_contents_def)

lemma queue_push_spec:
  assumes inv: "queue_inv q" and push: "queue_push m q = (ok, q')"
  shows "queue_inv q' \<and> (ok, queue_contents q') = spec_push m (queue_contents q)"
proof -
  have len: "length (queue_contents q) = q_count q" by (simp add: queue_contents_def)
  have h: "q_head q < QUEUE_SIZE" "length (messages q) = QUEUE_SIZE" "q_count q \<le> QUEUE_SIZE"
    using inv by (simp_all add: queue_inv_def)
  consider (merge) "queue_coalesces q m" | (full) "\<not> queue_coalesces q m" "q_count q \<ge> QUEUE_SIZE"
    | (room) "\<not> queue_coalesces q m" "q_count q < QUEUE_SIZE" by linarith
  then show ?thesis
  proof cases
    case merge
    then have pos: "q_count q > 0" by (simp add: queue_coalesces_def)
    have q': "ok" "q' = q\<lparr>messages := (messages q)[last_idx q := Some m]\<rparr>"
      using push merge by (auto simp: queue_push_def)
    have slot: "messages q' ! j = (if j = last_idx q then Some m else messages q ! j)" for j
      using h by (simp add: q'(2) last_idx_def)
    have inv': "queue_inv q'"
      using inv slot by (auto simp: queue_inv_def q'(2))
    have "(q_head q + i) mod QUEUE_SIZE \<noteq> last_idx q" if "i < q_count q - 1" for i
      using that h pos ring_distinct [of "q_head q" i "q_count q - 1"] last_idx_ring [OF inv pos] by simp
    then have "queue_contents q' = butlast (queue_contents q) @ [m]"
      using queue_contents_last [OF inv'] queue_contents_last [OF inv pos] pos slot
      by (simp add: q'(2) last_idx_def)
    with inv' q' merge show ?thesis by (simp add: spec_push_def queue_coalesces_iff [OF inv])
  next
    case full
    then show ?thesis using push inv len
      by (auto simp: queue_push_def spec_push_def queue_coalesces_iff [OF inv])
  next
    case room
    then have q': "ok" "q' = q\<lparr>messages := (messages q)[q_tail q := Some m],
        q_tail := (q_tail q + 1) mod QUEUE_SIZE, q_count := q_count q + 1\<rparr>"
      using push by (auto simp: queue_push_def)
    have tail: "q_tail q = (q_head q + q_count q) mod QUEUE_SIZE" using inv by (simp add: queue_inv_def)
    have other: "(q_head q + i) mod QUEUE_SIZE \<noteq> q_tail q" if "i < q_count q" for i
      using that h(1) room(2) ring_distinct [of "q_head q" i "q_count q"] tail by simp
    have slot: "messages q' ! ((q_head q + i) mod QUEUE_SIZE) =
        (if i = q_count q then Some m else messages q ! ((q_head q + i) mod QUEUE_SIZE))"
      if "i \<le> q_count q" for i
      using that other [of i] h tail by (auto simp: q'(2) nth_list_update)
    have "queue_inv q'"
      using inv slot room(2) by (auto simp: queue_inv_def q'(2) less_Suc_eq mod_simps)
    moreover have "queue_contents q' = queue_contents q @ [m]"
      using slot by (simp add: queue_contents_def q'(2))
    ultimately show ?thesis
      using q' room(2) len room(1) [unfolded queue_coalesces_iff [OF inv]]
      by (simp only: spec_push_def if_False if_True)
  qed
qed

lemma queue_pop_spec:
  assumes inv: "queue_inv q" and pop: "queue_pop q = (r, q')"
  shows "queue_inv q' \<and> (r, queue_contents q') = spec_pop (queue_contents q)"
proof (cases "q_count q = 0")
  case True
  with pop inv show ?thesis by (simp add: queue_pop_def spec_pop_def queue_contents_def)
next
  case False
  then obtain n where n: "q_count q = Suc n" by (cases "q_count q") auto
  have h: "q_head q < QUEUE_SIZE" "length (messages q) = QUEUE_SIZE" "n < QUEUE_SIZE"
    using inv n by (simp_all add: queue_inv_def)
  have q': "r = messages q ! q_head q"
    "q' = q\<lparr>messages := (messages q)[q_head q := None], q_head := (q_head q + 1) mod QUEUE_SIZE, q_count := n\<rparr>"
    using pop n by (auto simp: queue_pop_def)
  have nxt: "((q_head q + 1) mod QUEUE_SIZE + i) mod QUEUE_SIZE = (q_head q + Suc i) mod QUEUE_SIZE" for i
    by (simp add: mod_add_left_eq)
  have slot: "messages q' ! ((q_head q + Suc i) mod QUEUE_SIZE) = messages q ! ((q_head q + Suc i) mod QUEUE_SIZE)"
    if "i < n" for i
    using that h ring_distinct [of "q_head q" "Suc i" 0] by (auto simp: q'(2) nth_list_update)
  have "messages q ! ((q_head q + 0) mod QUEUE_SIZE) \<noteq> None"
    using inv n by (simp only: queue_inv_def) blast
  then have r: "r = Some (the (messages q ! q_head q))" using h(1) q'(1) by auto
  have "queue_inv q'"
    using inv n slot h nxt by (auto simp: queue_inv_def q'(2) mod_simps)
  moreover have "queue_contents q = the (messages q ! q_head q) # queue_contents q'"
  proof -
    have "[0..<Suc n] = 0 # map Suc [0..<n]" by (simp add: map_Suc_upt upt_conv_Cons)
    then show ?thesis using slot h nxt by (simp add: queue_contents_def n q'(2) o_def)
  qed
  ultimately show ?thesis using r by (simp add: spec_pop_def)
qed

interpretation ring: mailbox queue_push queue_pop queue_contents queue_inv
  by unfold_locales (auto dest: queue_push_spec queue_pop_spec)

lemma queue_inv_new [simp]: "queue_inv message_queue_new" "queue_contents message_queue_new = []"
  by (simp_all add: queue_inv_def message_queue_new_def queue_contents_def)

text \<open>
  C9: the ring buffer is a bounded queue: on every well-formed ring a push appends the message,
  or replaces the newest one when both are mouse moves of one sender, or is refused with the
  ring unchanged when 64 messages wait; a pop returns the oldest message; the ring stays
  well formed.
\<close>

theorem ring_is_fifo:
  assumes "queue_inv q"
  shows "(case queue_push m q of (ok, q') \<Rightarrow>
      queue_inv q' \<and> (ok, queue_contents q') = spec_push m (queue_contents q)) \<and>
    (case queue_pop q of (r, q') \<Rightarrow>
      queue_inv q' \<and> (r, queue_contents q') = spec_pop (queue_contents q))"
  using ring.push_spec [OF assms] ring.pop_spec [OF assms] by (simp split: prod.split)

definition key_message :: message where
  "key_message = message_empty\<lparr>sender := 3, msg_type := 0x20, arg1 := 97\<rparr>"

lemma ring_is_fifo_witness:
  "(True, queue_contents (snd (queue_push key_message message_queue_new))) = (True, [key_message])"
  using ring_is_fifo [of message_queue_new key_message]
  by (simp add: spec_push_def split: prod.splits)

text \<open>
  a burst of messages is received in order and without loss: of a burst pushed on an empty
  ring, receiving \<open>n\<close> times for any \<open>n\<close> as large as the number waiting yields, mouse moves
  aside, exactly the accepted messages in the order they were sent, however many mouse moves
  were sent in between.
\<close>

theorem burst_received_in_order:
  assumes "push_all queue_push ms message_queue_new = (acc, q)"
    and "length (queue_contents q) \<le> n"
  shows "not_moves (ring.drain n q) = not_moves acc"
  using ring.push_all_others [OF queue_inv_new(1) assms(1)] ring.drain_contents [of q n] assms(2)
  by simp

definition move_message :: "u64 \<Rightarrow> message" where
  "move_message x = message_empty\<lparr>sender := 4, msg_type := MSG_MOUSE_MOVE, arg1 := x\<rparr>"

lemma burst_received_in_order_witness:
  "\<exists>acc q. push_all queue_push [move_message 1, move_message 2, key_message] message_queue_new = (acc, q) \<and>
     not_moves (ring.drain 64 q) = not_moves acc"
proof -
  obtain acc q where b: "push_all queue_push [move_message 1, move_message 2, key_message]
      message_queue_new = (acc, q)" by fastforce
  have "queue_inv q" using ring.push_all_others [OF queue_inv_new(1) b] by simp
  then have "length (queue_contents q) \<le> 64" by (simp add: queue_inv_def queue_contents_def)
  from burst_received_in_order [OF b this] b show ?thesis by blast
qed

end
