(* ===== verification/Vfs.thy ===== *)
theory Vfs
  imports Prelude
begin

text \<open>
  File descriptors, \<^verbatim>\<open>kernel/src/vfs.rs\<close>: a table of 16 slots per process, each an open file
  with its whole contents, an offset and a dirty flag. A file is read from storage on open and
  written back on close. Storage is the interface \<open>file_storage\<close>; the theory Fat32 provides it.
\<close>

section \<open>The descriptor table\<close>

abbreviation MAX_FDS :: nat where "MAX_FDS \<equiv> 16"

type_synonym bytes = "u8 list"

record file_descriptor =
  fd_filename :: bytes
  fd_data :: bytes
  fd_offset :: nat
  fd_writable :: bool
  fd_dirty :: bool

type_synonym fd_table = "file_descriptor option list"

definition fd_table_new :: fd_table where
  "fd_table_new = replicate MAX_FDS None"

definition alloc_fd :: "fd_table \<Rightarrow> nat option" where
  "alloc_fd fds = find (\<lambda>i. fds ! i = None) [3..<MAX_FDS]"

text \<open>
  \<open>open\<close> takes the storage and the lookup \<^verbatim>\<open>fat32::read_file\<close> as arguments; a lookup may change
  the state of the storage (the disk driver) or panic, the value \<open>None\<close>. Names and contents are
  byte strings.
\<close>

definition fd_open ::
  "(bytes \<Rightarrow> 's \<Rightarrow> (bytes option \<times> 's) option) \<Rightarrow> bytes \<Rightarrow> u64 \<Rightarrow> fd_table \<Rightarrow> 's \<Rightarrow>
   (nat option \<times> fd_table \<times> 's) option" where
  "fd_open lookup filename flags fds s =
     (case alloc_fd fds of
        None \<Rightarrow> Some (None, fds, s)
      | Some fd \<Rightarrow>
          (let writable = (flags AND 1 \<noteq> 0)
           in case (if writable then Some (Some [], s) else lookup filename s) of
                None \<Rightarrow> None
              | Some (None, s') \<Rightarrow> Some (None, fds, s')
              | Some (Some content, s') \<Rightarrow>
                  Some (Some fd,
                   fds[fd := Some \<lparr>fd_filename = filename, fd_data = content, fd_offset = 0,
                                   fd_writable = writable, fd_dirty = writable\<rparr>],
                   s')))"

text \<open>
  A read copies into a buffer of \<open>buf_len\<close> bytes; a longer copy is the panic of the slice index,
  the value \<open>None\<close>. Otherwise the bytes copied, whose number is the result, and the new table.
\<close>

definition fd_read :: "nat \<Rightarrow> nat \<Rightarrow> nat \<Rightarrow> fd_table \<Rightarrow> (bytes \<times> fd_table) option" where
  "fd_read fd buf_len count fds =
     (if fd \<ge> MAX_FDS then Some ([], fds)
      else case fds ! fd of
        None \<Rightarrow> Some ([], fds)
      | Some file \<Rightarrow>
          (let remaining = length (fd_data file) - fd_offset file;
               to_read = min count remaining
           in if to_read > 0 then
                if to_read > buf_len then None
                else Some (take to_read (drop (fd_offset file) (fd_data file)),
                           fds[fd := Some (file\<lparr>fd_offset := fd_offset file + to_read\<rparr>)])
              else Some ([], fds)))"

definition resize :: "bytes \<Rightarrow> nat \<Rightarrow> bytes" where
  "resize bs n = (if n \<le> length bs then take n bs else bs @ replicate (n - length bs) 0)"

definition fd_write :: "nat \<Rightarrow> bytes \<Rightarrow> nat \<Rightarrow> fd_table \<Rightarrow> nat \<times> fd_table" where
  "fd_write fd buf count fds =
     (if fd \<ge> MAX_FDS then (0, fds)
      else case fds ! fd of
        None \<Rightarrow> (0, fds)
      | Some file \<Rightarrow>
          if \<not> fd_writable file then (0, fds)
          else
            (let to_write = min count (length buf);
                 needed = fd_offset file + to_write;
                 content = (if needed > length (fd_data file) then resize (fd_data file) needed
                            else fd_data file)
             in (to_write,
                 fds[fd := Some (file\<lparr>fd_data := put content (fd_offset file) (take to_write buf),
                                      fd_offset := fd_offset file + to_write,
                                      fd_dirty := True\<rparr>)])))"

text \<open>\<open>close\<close> takes \<^verbatim>\<open>fat32::write_file\<close> as an argument and returns the new storage.\<close>

definition fd_close :: "(bytes \<Rightarrow> bytes \<Rightarrow> 's \<Rightarrow> 's) \<Rightarrow> nat \<Rightarrow> fd_table \<Rightarrow> 's \<Rightarrow> bool \<times> fd_table \<times> 's" where
  "fd_close store fd fds s =
     (if fd \<ge> MAX_FDS then (False, fds, s)
      else case fds ! fd of
        None \<Rightarrow> (False, fds, s)
      | Some file \<Rightarrow>
          (True, fds[fd := None],
           if fd_writable file \<and> fd_dirty file then store (fd_filename file) (fd_data file) s else s))"

definition fd_stat :: "nat \<Rightarrow> fd_table \<Rightarrow> u64" where
  "fd_stat fd fds =
     (if fd \<ge> MAX_FDS then U64_MAX
      else case fds ! fd of None \<Rightarrow> U64_MAX | Some file \<Rightarrow> of_nat (length (fd_data file)))"

section \<open>Invariant\<close>

definition file_ok :: "file_descriptor \<Rightarrow> bool" where
  "file_ok file \<longleftrightarrow>
     fd_offset file \<le> length (fd_data file) \<and> (fd_dirty file \<longleftrightarrow> fd_writable file)"

definition fds_ok :: "fd_table \<Rightarrow> bool" where
  "fds_ok fds \<longleftrightarrow>
     length fds = MAX_FDS \<and> (\<forall>i<3. fds ! i = None) \<and>
     (\<forall>i file. i < MAX_FDS \<longrightarrow> fds ! i = Some file \<longrightarrow> file_ok file)"

lemma fds_okD:
  "fds_ok fds \<Longrightarrow> i < MAX_FDS \<Longrightarrow> fds ! i = Some file \<Longrightarrow> file_ok file"
  "fds_ok fds \<Longrightarrow> i < MAX_FDS \<Longrightarrow> fds ! i = Some file \<Longrightarrow> 3 \<le> i"
  "fds_ok fds \<Longrightarrow> length fds = MAX_FDS"
  by (auto simp: fds_ok_def not_le [symmetric])

lemma fds_ok_update:
  "fds_ok fds \<Longrightarrow> 3 \<le> i \<Longrightarrow> (\<And>file. entry = Some file \<Longrightarrow> file_ok file) \<Longrightarrow> fds_ok (fds[i := entry])"
  by (cases "i < MAX_FDS") (auto simp: fds_ok_def nth_list_update)

lemma fds_ok_replace:
  assumes "fds_ok fds" "\<not> MAX_FDS \<le> i" "fds ! i = Some old" "\<And>file. entry = Some file \<Longrightarrow> file_ok file"
  shows "fds_ok (fds[i := entry])"
  using assms fds_okD(2) [of fds i old] by (intro fds_ok_update) auto

lemma alloc_fd_Some:
  "alloc_fd fds = Some i \<Longrightarrow> 3 \<le> i \<and> i < MAX_FDS \<and> fds ! i = None \<and> (\<forall>j. 3 \<le> j \<longrightarrow> j < i \<longrightarrow> fds ! j \<noteq> None)"
  unfolding alloc_fd_def find_range_Some by blast

lemma alloc_fd_None: "alloc_fd fds = None \<longleftrightarrow> (\<forall>i. 3 \<le> i \<longrightarrow> i < MAX_FDS \<longrightarrow> fds ! i \<noteq> None)"
  unfolding alloc_fd_def find_range_None by blast

lemma length_resize [simp]: "length (resize bs n) = n"
  by (simp add: resize_def)

lemma fd_open_ok: "fds_ok fds \<Longrightarrow> fd_open lookup name flags fds s = Some (r, fds', s') \<Longrightarrow> fds_ok fds'"
proof (cases "alloc_fd fds")
  case (Some i)
  then show "fds_ok fds \<Longrightarrow> fd_open lookup name flags fds s = Some (r, fds', s') \<Longrightarrow> ?thesis"
    using alloc_fd_Some [OF Some]
    by (auto simp: fd_open_def Let_def file_ok_def split: option.splits if_splits prod.splits
        intro!: fds_ok_update)
qed (simp add: fd_open_def)

lemma fd_open_alloc: "fd_open lookup name flags fds s = Some (Some fd, fds1, s1) \<Longrightarrow> alloc_fd fds = Some fd"
  by (auto simp: fd_open_def Let_def split: option.splits prod.splits if_splits)

lemma fd_read_ok:
  assumes "fds_ok fds" "fd_read fd bl n fds = Some (r, fds')"
  shows "fds_ok fds'"
proof (cases "MAX_FDS \<le> fd \<or> fds ! fd = None")
  case True
  with assms show ?thesis by (auto simp: fd_read_def split: option.splits)
next
  case False
  then obtain x where x: "\<not> MAX_FDS \<le> fd" "fds ! fd = Some x" by auto
  with assms(1) have "file_ok x" by (intro fds_okD(1)) auto
  with assms x show ?thesis
    by (auto simp: fd_read_def Let_def file_ok_def split: if_splits intro!: fds_ok_replace [OF assms(1) x])
qed

lemma fd_write_ok:
  assumes "fds_ok fds" "fd_write fd buf n fds = (r, fds')"
  shows "fds_ok fds'"
proof (cases "MAX_FDS \<le> fd \<or> fds ! fd = None")
  case True
  with assms show ?thesis by (auto simp: fd_write_def split: option.splits)
next
  case False
  then obtain x where x: "\<not> MAX_FDS \<le> fd" "fds ! fd = Some x" by auto
  with assms(1) have "file_ok x" by (intro fds_okD(1)) auto
  with assms x show ?thesis
    by (auto simp: fd_write_def Let_def file_ok_def split: if_splits intro!: fds_ok_replace [OF assms(1) x])
qed

lemma fd_close_ok: "fds_ok fds \<Longrightarrow> fd_close store fd fds s = (r, fds', s') \<Longrightarrow> fds_ok fds'"
  by (auto simp: fd_close_def split: option.splits if_splits elim!: fds_ok_replace)

section \<open>Reading and writing in chunks\<close>

primrec read_chunks :: "nat \<Rightarrow> nat list \<Rightarrow> fd_table \<Rightarrow> (bytes \<times> fd_table) option" where
  "read_chunks fd [] fds = Some ([], fds)"
| "read_chunks fd (n # ns) fds =
     (case fd_read fd n n fds of
        None \<Rightarrow> None
      | Some (bs, fds') \<Rightarrow>
          (case read_chunks fd ns fds' of None \<Rightarrow> None | Some (rest, fds'') \<Rightarrow> Some (bs @ rest, fds'')))"

primrec write_chunks :: "nat \<Rightarrow> bytes list \<Rightarrow> fd_table \<Rightarrow> fd_table" where
  "write_chunks fd [] fds = fds"
| "write_chunks fd (c # cs) fds = write_chunks fd cs (snd (fd_write fd c (length c) fds))"

lemma fd_read_open:
  assumes "fds_ok fds" "fd < MAX_FDS" "fds ! fd = Some fl" "n \<le> bl"
  shows "fd_read fd bl n fds =
    Some (take n (drop (fd_offset fl) (fd_data fl)),
          fds[fd := Some (fl\<lparr>fd_offset := fd_offset fl + min n (length (fd_data fl) - fd_offset fl)\<rparr>)])"
  using assms by (auto simp: fd_read_def Let_def min_def)
    (metis fds_okD(3) list_update_same_conv)+

lemma read_chunks_open:
  assumes "fds_ok fds" "fd < MAX_FDS" "fds ! fd = Some fl"
  shows "\<exists>fds'. read_chunks fd ns fds =
    Some (take (sum_list ns) (drop (fd_offset fl) (fd_data fl)), fds')"
  using assms
proof (induction ns arbitrary: fds fl)
  case (Cons n ns)
  let ?fl = "fl\<lparr>fd_offset := fd_offset fl + min n (length (fd_data fl) - fd_offset fl)\<rparr>"
  let ?fds = "fds[fd := Some ?fl]"
  note r = fd_read_open [OF Cons.prems order_refl, of n]
  have "fds_ok ?fds" using fd_read_ok [OF Cons.prems(1) r] .
  moreover have "?fds ! fd = Some ?fl" using Cons.prems by (simp add: fds_ok_def)
  ultimately obtain fds' where rest: "read_chunks fd ns ?fds =
      Some (take (sum_list ns) (drop (fd_offset ?fl) (fd_data ?fl)), fds')"
    using Cons.IH [OF _ Cons.prems(2)] by blast
  have "take n xs @ take k (drop (min n (length xs)) xs) = take (n + k) xs" for xs :: bytes and k
    by (simp add: min_def take_add)
  from this [of "drop (fd_offset fl) (fd_data fl)" "sum_list ns"]
  show ?case using r rest by (simp add: add.commute)
qed simp

lemma fd_write_append:
  assumes "fds_ok fds" "fd < MAX_FDS" "fds ! fd = Some fl" "fd_writable fl"
    and "fd_offset fl = length (fd_data fl)"
  shows "fd_write fd c (length c) fds =
    (length c, fds[fd := Some (fl\<lparr>fd_data := fd_data fl @ c,
       fd_offset := length (fd_data fl @ c), fd_dirty := True\<rparr>)])"
  using assms by (auto simp: fd_write_def Let_def put_def resize_def)

lemma write_chunks_append:
  assumes "fds_ok fds" "fd < MAX_FDS" "fds ! fd = Some fl" "fd_writable fl"
    and "fd_offset fl = length (fd_data fl)"
  shows "fds_ok (write_chunks fd cs fds) \<and>
    (\<exists>fl'. write_chunks fd cs fds ! fd = Some fl' \<and> fd_data fl' = fd_data fl @ concat cs \<and>
       fd_filename fl' = fd_filename fl \<and> fd_writable fl' \<and> fd_dirty fl') \<and>
    (\<forall>i. i \<noteq> fd \<longrightarrow> write_chunks fd cs fds ! i = fds ! i)"
  using assms
proof (induction cs arbitrary: fds fl)
  case Nil
  then show ?case using fds_okD(1) [of fds fd fl] by (auto simp: file_ok_def)
next
  case (Cons c cs)
  let ?fl = "fl\<lparr>fd_data := fd_data fl @ c, fd_offset := length (fd_data fl @ c), fd_dirty := True\<rparr>"
  let ?fds = "fds[fd := Some ?fl]"
  note w = fd_write_append [OF Cons.prems, of c]
  have "fds_ok ?fds" using fd_write_ok [OF Cons.prems(1) w] .
  moreover have "?fds ! fd = Some ?fl" using Cons.prems by (simp add: fds_ok_def)
  ultimately show ?case
    using Cons.IH [of ?fds ?fl] Cons.prems w by auto
qed

section \<open>Storage\<close>

text \<open>
  What the descriptors rely on: \<open>lookup\<close> finds what \<open>store\<close> put under a name of the same key,
  and storing leaves the other files as they are, on the storages \<open>usable\<close> holds of.
\<close>

locale file_storage =
  fixes lookup :: "bytes \<Rightarrow> 's \<Rightarrow> (bytes option \<times> 's) option"
    and store :: "bytes \<Rightarrow> bytes \<Rightarrow> 's \<Rightarrow> 's"
    and key :: "bytes \<Rightarrow> bytes"
    and usable :: "'s \<Rightarrow> bool"
  assumes lookup_store: "key m = key n \<Longrightarrow> map_option fst (lookup m (store n d s)) = Some (Some d)"
    and lookup_other: "usable s \<Longrightarrow> key m \<noteq> key n \<Longrightarrow>
      map_option fst (lookup m (store n d s)) = map_option fst (lookup m s)"
    and usable_store: "usable s \<Longrightarrow> usable (store n d s)"
begin

lemma write_close:
  assumes "fds_ok fds" "flags AND 1 \<noteq> 0" "fd_open lookup name flags fds s = Some (Some fd, fds1, s1)"
    and "fd_close store fd (write_chunks fd cs fds1) s1 = (r, fds2, s2)"
  shows "r \<and> s2 = store name (concat cs) s \<and> fds_ok fds2 \<and> fds2 ! fd = None"
proof -
  have fd: "3 \<le> fd" "fd < MAX_FDS" "fds ! fd = None" and s1: "s1 = s"
    and fds1: "fds1 = fds[fd := Some \<lparr>fd_filename = name, fd_data = [], fd_offset = 0,
      fd_writable = True, fd_dirty = True\<rparr>]"
    using assms(2,3) alloc_fd_Some [OF fd_open_alloc [OF assms(3)]] fd_open_alloc [OF assms(3)]
    by (auto simp: fd_open_def)
  note ok1 = fd_open_ok [OF assms(1,3)]
  have "fds1 ! fd = Some \<lparr>fd_filename = name, fd_data = [], fd_offset = 0,
      fd_writable = True, fd_dirty = True\<rparr>"
    using fd assms(1) by (simp add: fds1 fds_ok_def)
  from write_chunks_append [OF ok1 fd(2) this, of cs] obtain fl' where
    w: "fds_ok (write_chunks fd cs fds1)" "write_chunks fd cs fds1 ! fd = Some fl'"
      "fd_data fl' = concat cs" "fd_filename fl' = name" "fd_writable fl'" "fd_dirty fl'"
    by auto
  have "fds2 = (write_chunks fd cs fds1)[fd := None]" "r" "s2 = store name (concat cs) s"
    using assms(4) w fd(2) by (auto simp: fd_close_def s1)
  with fd w(1) show ?thesis
    using fd_close_ok [OF w(1) assms(4)] by (simp add: fds_ok_def)
qed

lemma write_read:
  assumes "fds_ok fds" "flags AND 1 \<noteq> 0" "fd_open lookup name flags fds s = Some (Some fd, fds1, s1)"
    and "fd_close store fd (write_chunks fd cs fds1) s1 = (r, fds2, s2)"
    and "key name' = key name" "flags' AND 1 = 0"
    and "fd_open lookup name' flags' fds2 s2 = Some (r', fds3, s3)"
  shows "\<exists>fd' fds4. r' = Some fd' \<and>
    read_chunks fd' ns fds3 = Some (take (sum_list ns) (concat cs), fds4)"
proof -
  note w = write_close [OF assms(1-4)]
  have l: "map_option fst (lookup name' s2) = Some (Some (concat cs))"
    using w lookup_store [OF assms(5)] by simp
  have "fd \<ge> 3" "fd < MAX_FDS"
    using alloc_fd_Some [OF fd_open_alloc [OF assms(3)]] by simp_all
  then have "alloc_fd fds2 \<noteq> None" using w alloc_fd_None [of fds2] by blast
  then obtain fd' where a: "alloc_fd fds2 = Some fd'" by auto
  note fd' = alloc_fd_Some [OF a]
  have fds3: "r' = Some fd'" "fds3 = fds2[fd' := Some \<lparr>fd_filename = name', fd_data = concat cs, fd_offset = 0,
      fd_writable = False, fd_dirty = False\<rparr>]"
    using assms(6,7) l a by (auto simp: fd_open_def split: option.splits prod.splits)
  have ok3: "fds_ok fds3" using fd_open_ok [OF _ assms(7)] w by blast
  have "fds3 ! fd' = Some \<lparr>fd_filename = name', fd_data = concat cs, fd_offset = 0,
      fd_writable = False, fd_dirty = False\<rparr>"
    using w fd' by (simp add: fds3 fds_ok_def)
  from read_chunks_open [OF ok3 _ this, of ns] fd' fds3(1) show ?thesis by simp
qed

end

text \<open>
  every operation on descriptors keeps the table well formed: 16 slots, the three standard
  descriptors never used, offsets within the file, and only writable files dirty; a new
  descriptor is the lowest free one and closing frees it.
\<close>

theorem fd_operations_invariant:
  assumes "fds_ok fds"
  shows "(case fd_open lookup name flags fds s of
      None \<Rightarrow> lookup name s = None
    | Some (r, fds', s') \<Rightarrow> fds_ok fds' \<and> (r = None \<or> r = alloc_fd fds)) \<and>
    (case fd_read fd bl n fds of None \<Rightarrow> bl < n | Some (bs, fds') \<Rightarrow> fds_ok fds' \<and> length bs \<le> n) \<and>
    (case fd_write fd buf n fds of (k, fds') \<Rightarrow> fds_ok fds' \<and> k \<le> n \<and> k \<le> length buf) \<and>
    (case fd_close store fd fds s of (r, fds', s') \<Rightarrow>
      fds_ok fds' \<and> (r \<longleftrightarrow> fd < MAX_FDS \<and> fds ! fd \<noteq> None) \<and> (fd < MAX_FDS \<longrightarrow> fds' ! fd = None))"
proof (intro conjI)
  show "case fd_open lookup name flags fds s of
      None \<Rightarrow> lookup name s = None
    | Some (r, fds', s') \<Rightarrow> fds_ok fds' \<and> (r = None \<or> r = alloc_fd fds)"
    using fd_open_ok [OF assms, of lookup name flags s]
    by (cases "fd_open lookup name flags fds s") (auto simp: fd_open_def Let_def split: option.splits prod.splits if_splits)
  show "case fd_read fd bl n fds of None \<Rightarrow> bl < n | Some (bs, fds') \<Rightarrow> fds_ok fds' \<and> length bs \<le> n"
    using fd_read_ok [OF assms, of fd bl n]
    by (cases "fd_read fd bl n fds") (auto simp: fd_read_def Let_def split: option.splits if_splits)
  show "case fd_write fd buf n fds of (k, fds') \<Rightarrow> fds_ok fds' \<and> k \<le> n \<and> k \<le> length buf"
    using fd_write_ok [OF assms, of fd buf n]
    by (cases "fd_write fd buf n fds") (auto simp: fd_write_def Let_def split: option.splits if_splits)
  show "case fd_close store fd fds s of (r, fds', s') \<Rightarrow>
      fds_ok fds' \<and> (r \<longleftrightarrow> fd < MAX_FDS \<and> fds ! fd \<noteq> None) \<and> (fd < MAX_FDS \<longrightarrow> fds' ! fd = None)"
    using fd_close_ok [OF assms, of store fd s] fds_okD(3) [OF assms]
    by (cases "fd_close store fd fds s") (auto simp: fd_close_def split: option.splits if_splits)
qed

lemma fds_ok_new [simp]: "fds_ok fd_table_new"
  by (simp add: fds_ok_def fd_table_new_def)

lemma fd_operations_invariant_witness:
  "case fd_open (\<lambda>n s. Some (None, s)) [65] 1 fd_table_new () of
     None \<Rightarrow> False | Some (r, fds', s') \<Rightarrow> fds_ok fds'"
  using conjunct1 [OF fd_operations_invariant [OF fds_ok_new, where lookup = "\<lambda>n s. Some (None, s)"
      and s = "()" and name = "[65]" and flags = 1]]
  by (auto split: option.splits)

end
