(* ===== verification/Disk.thy ===== *)
theory Disk
  imports Prelude
begin

text \<open>
  The block layer and the GPT engine, \<^verbatim>\<open>kernel/src/gpt.rs\<close>. The three disk drivers (NVMe, AHCI,
  ATA) are records of operations on a state of their own; the theories Nvme, Ahci and Ata model
  them. Sectors are lists of 512 bytes.
\<close>

section \<open>Drivers and routing\<close>

type_synonym sector = "u8 list"

record ('lba, 's) disk_driver =
  dd_available :: "'s \<Rightarrow> bool"
  dd_read :: "'lba \<Rightarrow> 's \<Rightarrow> sector option \<times> 's"
  dd_write :: "'lba \<Rightarrow> sector \<Rightarrow> 's \<Rightarrow> bool \<times> 's"

record 's disks =
  nvme :: "(u64, 's) disk_driver"
  ahci :: "(u64, 's) disk_driver"
  ata :: "(u32, 's) disk_driver"

abbreviation ESP_PART_START_LBA :: u64 where "ESP_PART_START_LBA \<equiv> 64"
abbreviation ESP_PART_SECTORS :: u64 where "ESP_PART_SECTORS \<equiv> 1984"
abbreviation HUSEYNOS_PART_START_LBA :: u64 where "HUSEYNOS_PART_START_LBA \<equiv> 2048"

definition has_physical_disk :: "'s disks \<Rightarrow> 's \<Rightarrow> bool" where
  "has_physical_disk D s \<longleftrightarrow>
     dd_available (nvme D) s \<or> dd_available (ahci D) s \<or> dd_available (ata D) s"

text \<open>A failed attempt of one driver falls through to the next; its buffer is then unchanged.\<close>

definition read_disk_sector :: "'s disks \<Rightarrow> u64 \<Rightarrow> 's \<Rightarrow> sector option \<times> 's" where
  "read_disk_sector D lba s0 =
     (let (r1, s1) = (if dd_available (nvme D) s0 then dd_read (nvme D) lba s0 else (None, s0))
      in if r1 \<noteq> None then (r1, s1)
         else let (r2, s2) = (if dd_available (ahci D) s1 then dd_read (ahci D) lba s1 else (None, s1))
         in if r2 \<noteq> None then (r2, s2)
            else if lba \<le> 0x0FFFFFFF \<and> dd_available (ata D) s2 then dd_read (ata D) (ucast lba) s2
            else (None, s2))"

definition write_disk_sector :: "'s disks \<Rightarrow> u64 \<Rightarrow> sector \<Rightarrow> 's \<Rightarrow> bool \<times> 's" where
  "write_disk_sector D lba buf s0 =
     (let (r1, s1) = (if dd_available (nvme D) s0 then dd_write (nvme D) lba buf s0 else (False, s0))
      in if r1 then (True, s1)
         else let (r2, s2) = (if dd_available (ahci D) s1 then dd_write (ahci D) lba buf s1 else (False, s1))
         in if r2 then (True, s2)
            else if lba \<le> 0x0FFFFFFF \<and> dd_available (ata D) s2 then dd_write (ata D) (ucast lba) buf s2
            else (False, s2))"

definition is_gpt_installed :: "'s disks \<Rightarrow> 's \<Rightarrow> bool \<times> 's" where
  "is_gpt_installed D s =
     (if \<not> has_physical_disk D s then (False, s)
      else case read_disk_sector D 1 s of
        (None, s') \<Rightarrow> (False, s')
      | (Some sec, s') \<Rightarrow>
          (take 8 sec = ascii ''EFI PART'' \<and> take 8 (drop 56 sec) = ascii ''HUSEYNOS'', s'))"

section \<open>The partition layout\<close>

definition zero_sector :: sector where
  "zero_sector = replicate 512 0"

text \<open>\<open>put_fields\<close> writes a list of (offset, bytes) pairs into a sector, in order.\<close>

definition put_fields :: "(nat \<times> u8 list) list \<Rightarrow> sector \<Rightarrow> sector" where
  "put_fields fs sec = fold (\<lambda>(off, bs) sec. put sec off bs) fs sec"

definition gpt_mbr :: sector where
  "gpt_mbr = put_fields
     [(446 + 4, [0xEE]),
      (446 + 8, le_bytes 4 (1 :: u32)),
      (446 + 12, le_bytes 4 (8191 :: u32)),
      (510, [0x55]), (511, [0xAA])] zero_sector"

definition gpt_header :: sector where
  "gpt_header = put_fields
     [(0, ascii ''EFI PART''),
      (8, le_bytes 4 (0x00010000 :: u32)),
      (12, le_bytes 4 (92 :: u32)),
      (24, le_bytes 8 (1 :: u64)),
      (32, le_bytes 8 (8191 :: u64)),
      (40, le_bytes 8 (64 :: u64)),
      (48, le_bytes 8 (8150 :: u64)),
      (56, ascii ''HUSEYNOS''),
      (64, ascii ''-MONOLIT''),
      (72, le_bytes 8 (2 :: u64)),
      (80, le_bytes 4 (2 :: u32)),
      (84, le_bytes 4 (128 :: u32))] zero_sector"

definition esp_guid :: "u8 list" where
  "esp_guid = [0x28, 0x73, 0x2A, 0xC1, 0x1F, 0xF8, 0xD2, 0x11,
               0xBA, 0x4B, 0x00, 0xA0, 0xC9, 0x3E, 0xC9, 0x3B]"

definition root_guid :: "u8 list" where
  "root_guid = [0xAF, 0x3D, 0xC6, 0x0F, 0x83, 0x84, 0x72, 0x47,
                0x8E, 0x79, 0x3D, 0x69, 0xD8, 0x47, 0x7D, 0xE4]"

definition gpt_entries :: sector where
  "gpt_entries = put_fields
     [(0, esp_guid),
      (16, ascii ''ESP-GUID''),
      (32, le_bytes 8 ESP_PART_START_LBA),
      (40, le_bytes 8 (ESP_PART_START_LBA + ESP_PART_SECTORS - 1)),
      (128, root_guid),
      (144, ascii ''HUSEYNFS''),
      (160, le_bytes 8 HUSEYNOS_PART_START_LBA),
      (168, le_bytes 8 (5120 :: u64))] zero_sector"

definition esp_bpb :: sector where
  "esp_bpb = put_fields
     [(0, [0xEB, 0x3C, 0x90]),
      (3, ascii ''HUSEFI16''),
      (11, le_bytes 2 (512 :: u16)),
      (13, [1]),
      (14, le_bytes 2 (1 :: u16)),
      (16, [2]),
      (17, le_bytes 2 (64 :: u16)),
      (19, le_bytes 2 (ucast ESP_PART_SECTORS :: u16)),
      (21, [0xF8]),
      (22, le_bytes 2 (6 :: u16)),
      (36, [0x80]),
      (38, [0x29]),
      (39, le_bytes 4 (0x12345678 :: u32)),
      (43, ascii ''EFI SYSTEM ''),
      (54, ascii ''FAT16   ''),
      (510, [0x55]), (511, [0xAA])] zero_sector"

definition esp_fat :: sector where
  "esp_fat = put_fields [(0, [0xF8, 0xFF, 0xFF, 0xFF])] zero_sector"

definition esp_root_dir :: sector where
  "esp_root_dir = put_fields
     [(0, ascii ''EFI SYSTEM ''),
      (11, [0x08]),
      (32, ascii ''EFI        ''),
      (32 + 11, [0x10]),
      (32 + 26, le_bytes 2 (2 :: u16)),
      (64, ascii ''BOOT       ''),
      (64 + 11, [0x10]),
      (64 + 26, le_bytes 2 (3 :: u16))] zero_sector"

definition format_esp_partition :: "'s disks \<Rightarrow> 's \<Rightarrow> bool \<times> 's" where
  "format_esp_partition D s =
     (let (ok, s1) = write_disk_sector D ESP_PART_START_LBA esp_bpb s
      in if \<not> ok then (False, s1)
         else let (_, s2) = write_disk_sector D (ESP_PART_START_LBA + 1) esp_fat s1;
                  (_, s3) = write_disk_sector D (ESP_PART_START_LBA + 7) esp_fat s2
              in write_disk_sector D (ESP_PART_START_LBA + 13) esp_root_dir s3)"

definition write_gpt_layout :: "'s disks \<Rightarrow> 's \<Rightarrow> bool \<times> 's" where
  "write_gpt_layout D s =
     (if \<not> has_physical_disk D s then (False, s)
      else let (ok, s1) = write_disk_sector D 0 gpt_mbr s
      in if \<not> ok then (False, s1)
         else let (ok, s2) = write_disk_sector D 1 gpt_header s1
         in if \<not> ok then (False, s2)
            else let (ok, s3) = write_disk_sector D 2 gpt_entries s2
            in if \<not> ok then (False, s3)
               else format_esp_partition D s3)"

section \<open>Sector contents\<close>

definition fields_ok :: "nat \<Rightarrow> (nat \<times> u8 list) list \<Rightarrow> bool" where
  "fields_ok n fs \<longleftrightarrow> list_all (\<lambda>(off, bs). off + length bs \<le> n) fs"

lemma length_fields: "fields_ok (length sec) fs \<Longrightarrow> length (put_fields fs sec) = length sec"
proof (induction fs arbitrary: sec)
  case (Cons f fs)
  obtain off bs where f: "f = (off, bs)" by fastforce
  from Cons.prems have "off + length bs \<le> length sec" "fields_ok (length sec) fs"
    by (simp_all add: fields_ok_def f)
  with Cons.IH [of "put sec off bs"] show ?case by (simp add: put_fields_def f)
qed (simp add: put_fields_def)

lemma fields_untouched:
  "fields_ok (length sec) fs \<Longrightarrow> list_all (\<lambda>(off, bs). i + n \<le> off \<or> off + length bs \<le> i) fs \<Longrightarrow>
   take n (drop i (put_fields fs sec)) = take n (drop i sec)"
proof (induction fs arbitrary: sec)
  case (Cons f fs)
  obtain off bs where f: "f = (off, bs)" by fastforce
  from Cons.prems have f': "off + length bs \<le> length sec" "fields_ok (length sec) fs"
    "i + n \<le> off \<or> off + length bs \<le> i"
    by (simp_all add: fields_ok_def f)
  have "take n (drop i (put sec off bs)) = take n (drop i sec)"
    using f' take_drop_put_before [of i n off bs sec] take_drop_put_after [of off bs i sec n] by blast
  with Cons.IH [of "put sec off bs"] Cons.prems f' show ?case by (simp add: put_fields_def f)
qed (simp add: put_fields_def)

lemma field_found:
  assumes "fields_ok (length sec) (fs @ (off, bs) # gs)"
    and "list_all (\<lambda>(off', bs'). off + length bs \<le> off' \<or> off' + length bs' \<le> off) gs"
  shows "take (length bs) (drop off (put_fields (fs @ (off, bs) # gs) sec)) = bs"
proof -
  have ok: "fields_ok (length sec) fs" "off + length bs \<le> length sec" "fields_ok (length sec) gs"
    using assms(1) by (simp_all add: fields_ok_def)
  have l: "length (put_fields fs sec) = length sec" by (rule length_fields [OF ok(1)])
  have "put_fields (fs @ (off, bs) # gs) sec = put_fields gs (put (put_fields fs sec) off bs)"
    by (simp add: put_fields_def)
  then show ?thesis
    using fields_untouched [of "put (put_fields fs sec) off bs" gs off "length bs"] assms(2) ok l by simp
qed

lemma field_at:
  assumes "fields_ok (length sec) fl" "k < length fl" "fl ! k = (off, bs)" "n = length bs"
    and "list_all (\<lambda>(off', bs'). off + n \<le> off' \<or> off' + length bs' \<le> off) (drop (Suc k) fl)"
  shows "take n (drop off (put_fields fl sec)) = bs"
  using field_found [of sec "take k fl" off bs "drop (Suc k) fl"] assms id_take_nth_drop [OF assms(2)]
  by simp

lemma length_zero_sector [simp]: "length zero_sector = 512"
  by (simp add: zero_sector_def)

lemmas sector_defs = gpt_mbr_def gpt_header_def gpt_entries_def esp_bpb_def esp_fat_def esp_root_dir_def

lemma fields_zero_sector: "fields_ok 512 fl \<Longrightarrow> length (put_fields fl zero_sector) = 512"
  using length_fields [of zero_sector fl] by simp

lemma length_gpt_sectors [simp]:
  "length gpt_mbr = 512" "length gpt_header = 512" "length gpt_entries = 512"
  "length esp_bpb = 512" "length esp_fat = 512" "length esp_root_dir = 512"
  unfolding sector_defs
  by (rule fields_zero_sector; simp add: fields_ok_def esp_guid_def root_guid_def)+

lemma gpt_header_marks:
  "take 8 gpt_header = ascii ''EFI PART''" "take 8 (drop 56 gpt_header) = ascii ''HUSEYNOS''"
proof -
  have "take 8 (drop 0 gpt_header) = ascii ''EFI PART''"
    unfolding gpt_header_def by (rule field_at [where k = 0]) (simp_all add: fields_ok_def)
  then show "take 8 gpt_header = ascii ''EFI PART''" by simp
  show "take 8 (drop 56 gpt_header) = ascii ''HUSEYNOS''"
    unfolding gpt_header_def by (rule field_at [where k = 7]) (simp_all add: fields_ok_def)
qed

section \<open>Installing\<close>

text \<open>
  The interface that the installer and the file storage rely on: in a good state every sector below
  a limit can be read, and a write of a whole sector succeeds and changes that sector only. The
  theory Ata shows that the ATA driver provides it.
\<close>

locale sector_store =
  fixes D :: "'s disks" and good :: "'s \<Rightarrow> bool" and limit :: u64 and sectors :: "'s \<Rightarrow> u64 \<Rightarrow> sector"
  assumes read_law: "good s \<Longrightarrow> lba < limit \<Longrightarrow>
      \<exists>s'. read_disk_sector D lba s = (Some (sectors s lba), s') \<and> good s' \<and> sectors s' = sectors s"
    and write_law: "good s \<Longrightarrow> lba < limit \<Longrightarrow> length buf = 512 \<Longrightarrow>
      \<exists>s'. write_disk_sector D lba buf s = (True, s') \<and> good s' \<and> sectors s' = (sectors s)(lba := buf)"
    and disk_law: "good s \<Longrightarrow> has_physical_disk D s"
begin

lemma layout_written:
  assumes "good s" "78 \<le> limit"
  shows "\<exists>s'. write_gpt_layout D s = (True, s') \<and> good s' \<and>
    sectors s' = (sectors s)(0 := gpt_mbr, 1 := gpt_header, 2 := gpt_entries,
      64 := esp_bpb, 65 := esp_fat, 71 := esp_fat, 77 := esp_root_dir)"
proof -
  have w: "\<exists>s'. write_disk_sector D lba buf s = (True, s') \<and> good s' \<and> sectors s' = (sectors s)(lba := buf)"
    if "good s" "lba < 78" "length buf = 512" for lba buf s
    using write_law [OF that(1) _ that(3)] that(2) assms(2) by (meson order_less_le_trans)
  obtain s1 where s1: "write_disk_sector D 0 gpt_mbr s = (True, s1)" "good s1" "sectors s1 = (sectors s)(0 := gpt_mbr)"
    using w [of s 0 gpt_mbr] assms(1) by auto
  obtain s2 where s2: "write_disk_sector D 1 gpt_header s1 = (True, s2)" "good s2" "sectors s2 = (sectors s1)(1 := gpt_header)"
    using w [of s1 1 gpt_header] s1(2) by auto
  obtain s3 where s3: "write_disk_sector D 2 gpt_entries s2 = (True, s3)" "good s3" "sectors s3 = (sectors s2)(2 := gpt_entries)"
    using w [of s2 2 gpt_entries] s2(2) by auto
  obtain s4 where s4: "write_disk_sector D 64 esp_bpb s3 = (True, s4)" "good s4" "sectors s4 = (sectors s3)(64 := esp_bpb)"
    using w [of s3 64 esp_bpb] s3(2) by auto
  obtain s5 where s5: "write_disk_sector D 65 esp_fat s4 = (True, s5)" "good s5" "sectors s5 = (sectors s4)(65 := esp_fat)"
    using w [of s4 65 esp_fat] s4(2) by auto
  obtain s6 where s6: "write_disk_sector D 71 esp_fat s5 = (True, s6)" "good s6" "sectors s6 = (sectors s5)(71 := esp_fat)"
    using w [of s5 71 esp_fat] s5(2) by auto
  obtain s7 where s7: "write_disk_sector D 77 esp_root_dir s6 = (True, s7)" "good s7" "sectors s7 = (sectors s6)(77 := esp_root_dir)"
    using w [of s6 77 esp_root_dir] s6(2) by auto
  have "write_gpt_layout D s = (True, s7)"
    by (simp add: write_gpt_layout_def format_esp_partition_def disk_law assms(1) s1 s2 s3 s4 s5 s6 s7)
  with s7(2) show ?thesis by (simp add: s1 s2 s3 s4 s5 s6 s7)
qed

lemma layout_detected:
  assumes "good s" "1 < limit" "sectors s 1 = gpt_header"
  shows "fst (is_gpt_installed D s)"
proof -
  obtain s' where "read_disk_sector D 1 s = (Some gpt_header, s')" using read_law [OF assms(1,2)] assms(3) by auto
  then show ?thesis using gpt_header_marks disk_law [OF assms(1)] by (simp add: is_gpt_installed_def)
qed

end

text \<open>
  on a working disk the installer's layout is recognised at the next boot: writing it
  succeeds, changes exactly seven sectors (protective MBR, header, entries, and the boot
  sector, two FAT copies and root directory of the EFI partition), and the disk is then
  detected as installed.
\<close>

theorem gpt_layout_detected:
  assumes "sector_store D good limit sectors" "78 \<le> limit" "good s" "write_gpt_layout D s = (ok, s')"
  shows "ok \<and> fst (is_gpt_installed D s') \<and>
    sectors s' = (sectors s)(0 := gpt_mbr, 1 := gpt_header, 2 := gpt_entries,
      64 := esp_bpb, 65 := esp_fat, 71 := esp_fat, 77 := esp_root_dir)"
proof -
  have r: "ok" "good s'" "sectors s' = (sectors s)(0 := gpt_mbr, 1 := gpt_header, 2 := gpt_entries,
      64 := esp_bpb, 65 := esp_fat, 71 := esp_fat, 77 := esp_root_dir)"
    using sector_store.layout_written [OF assms(1,3,2)] assms(4) by auto
  have "1 < limit" using assms(2) by (rule order_less_le_trans [rotated]) simp
  with sector_store.layout_detected [OF assms(1) r(2)] r show ?thesis by simp
qed

text \<open>A disk in memory behind the ATA entry, as an instance of the laws.\<close>

definition memory_driver :: "(u64, u64 \<Rightarrow> sector) disk_driver" where
  "memory_driver = \<lparr>dd_available = (\<lambda>s. True), dd_read = (\<lambda>lba s. (Some (s lba), s)),
     dd_write = (\<lambda>lba buf s. (True, s(lba := buf)))\<rparr>"

definition no_driver :: "('lba, 's) disk_driver" where
  "no_driver = \<lparr>dd_available = (\<lambda>s. False), dd_read = (\<lambda>lba s. (None, s)), dd_write = (\<lambda>lba buf s. (False, s))\<rparr>"

definition memory_disks :: "(u64 \<Rightarrow> sector) disks" where
  "memory_disks = \<lparr>nvme = no_driver, ahci = memory_driver, ata = no_driver\<rparr>"

interpretation memory: sector_store memory_disks "\<lambda>s. True" U64_MAX "\<lambda>s. s"
  by unfold_locales (simp_all add: memory_disks_def no_driver_def memory_driver_def
      read_disk_sector_def write_disk_sector_def has_physical_disk_def)

lemma gpt_layout_detected_witness:
  "fst (is_gpt_installed memory_disks (snd (write_gpt_layout memory_disks (\<lambda>_. zero_sector))))"
  using gpt_layout_detected [OF memory.sector_store_axioms, of "\<lambda>_. zero_sector"]
  by (cases "write_gpt_layout memory_disks (\<lambda>_. zero_sector)") auto

end
