(* ===== verification/Format.thy ===== *)
theory Format
  imports Vfs
begin

text \<open>
  The text formats that the status reports of the kernel use: decimal and hexadecimal numbers,
  padding, and the debug format of lists and options, as Rust's \<^verbatim>\<open>write!\<close> prints them.
\<close>

section \<open>Numbers\<close>

fun digits :: "nat \<Rightarrow> nat \<Rightarrow> bytes" where
  "digits 0 n = []"
| "digits (Suc k) n = (if n < 10 then [0x30 + of_nat n] else digits k (n div 10) @ [0x30 + of_nat (n mod 10)])"

text \<open>Decimal text of a 64-bit number: 20 digits are enough.\<close>

definition decimal :: "nat \<Rightarrow> bytes" where
  "decimal n = digits 20 n"

text \<open>A digit above 9 is a letter, \<open>a\<close> being the code of the first one.\<close>

definition hex_digit :: "nat \<Rightarrow> nat \<Rightarrow> u8" where
  "hex_digit a n = (if n < 10 then of_nat (0x30 + n) else of_nat (a + (n - 10)))"

fun hex_digits :: "nat \<Rightarrow> nat \<Rightarrow> nat \<Rightarrow> bytes" where
  "hex_digits a 0 n = []"
| "hex_digits a (Suc k) n =
     (if n < 16 then [hex_digit a n] else hex_digits a k (n div 16) @ [hex_digit a (n mod 16)])"

definition pad_zero :: "nat \<Rightarrow> bytes \<Rightarrow> bytes" where
  "pad_zero w bs = replicate (w - length bs) 0x30 @ bs"

text \<open>\<^verbatim>\<open>{:0wX}\<close> and \<^verbatim>\<open>{:0wx}\<close>: at least \<open>w\<close> digits; 16 are enough for 64 bits.\<close>

definition hex_upper :: "nat \<Rightarrow> nat \<Rightarrow> bytes" where
  "hex_upper w n = pad_zero w (hex_digits 0x41 16 n)"

definition hex_lower :: "nat \<Rightarrow> nat \<Rightarrow> bytes" where
  "hex_lower w n = pad_zero w (hex_digits 0x61 16 n)"

text \<open>\<^verbatim>\<open>{:#X}\<close>, and \<^verbatim>\<open>{:#010X}\<close> with eight digits.\<close>

definition hex_prefixed :: "nat \<Rightarrow> nat \<Rightarrow> bytes" where
  "hex_prefixed w n = ascii ''0x'' @ hex_upper w n"

section \<open>Padding and debug output\<close>

definition pad_right :: "nat \<Rightarrow> bytes \<Rightarrow> bytes" where
  "pad_right w bs = bs @ replicate (w - length bs) 0x20"

definition newline :: bytes where
  "newline = [0x0A]"

text \<open>\<^verbatim>\<open>{:?}\<close> of a vector and of an option of numbers.\<close>

fun separated :: "bytes list \<Rightarrow> bytes" where
  "separated [] = []"
| "separated [x] = x"
| "separated (x # y # xs) = x @ ascii '', '' @ separated (y # xs)"

definition debug_list :: "nat list \<Rightarrow> bytes" where
  "debug_list ns = ascii ''['' @ separated (map decimal ns) @ ascii '']''"

definition debug_option :: "nat option \<Rightarrow> bytes" where
  "debug_option x = (case x of None \<Rightarrow> ascii ''None'' | Some n \<Rightarrow> ascii ''Some('' @ decimal n @ ascii '')'')"

section \<open>Reading numbers back\<close>

text \<open>The number that a text of decimal digits denotes.\<close>

definition digit_value :: "u8 \<Rightarrow> nat" where
  "digit_value b = unat (b - 0x30)"

definition number_of :: "bytes \<Rightarrow> nat" where
  "number_of bs = foldl (\<lambda>n b. n * 10 + digit_value b) 0 bs"

lemma digit_value_digit [simp]: "n < 10 \<Longrightarrow> digit_value (0x30 + of_nat n) = n"
  by (simp add: digit_value_def unat_of_nat)

lemma number_of_digits: "n < 10 ^ k \<Longrightarrow> number_of (digits k n) = n"
proof (induction k arbitrary: n)
  case (Suc k)
  then have "n div 10 < 10 ^ k" by (simp add: less_mult_imp_div_less mult.commute)
  with Suc.IH show ?case by (simp add: number_of_def)
qed (simp add: number_of_def)

lemma number_of_decimal: "n < 2 ^ 64 \<Longrightarrow> number_of (decimal n) = n"
  unfolding decimal_def by (rule number_of_digits) simp

lemma decimal_inj: "n < 2 ^ 64 \<Longrightarrow> m < 2 ^ 64 \<Longrightarrow> decimal n = decimal m \<longleftrightarrow> n = m"
  by (metis number_of_decimal)

end
