(* ===== verification/Nvme.thy ===== *)
theory Nvme
  imports Paging Disk Format
begin

text \<open>
  The NVMe driver, \<^verbatim>\<open>kernel/src/nvme.rs\<close>: the set-up of a controller (five frames, the admin
  queue registers) and the sector operations, which copy between the caller's buffer and one
  bounce buffer. The registers of the controller are memory-mapped: the reads the code
  depends on are arguments, the writes are returned in order.
\<close>

section \<open>The driver\<close>

record nvme_controller =
  nv_mmio_phys :: u64
  nv_asq_phys :: u64
  nv_acq_phys :: u64
  nv_iosq_phys :: u64
  nv_iocq_phys :: u64
  nv_dma_buf_phys :: u64
  nv_online :: bool
  nv_ns_size_blocks :: u64
  nv_block_size_bytes :: u32

definition nvme_controller_new :: nvme_controller where
  "nvme_controller_new =
     \<lparr>nv_mmio_phys = 0, nv_asq_phys = 0, nv_acq_phys = 0, nv_iosq_phys = 0, nv_iocq_phys = 0,
      nv_dma_buf_phys = 0, nv_online = False, nv_ns_size_blocks = 0, nv_block_size_bytes = 512\<rparr>"

text \<open>\<^verbatim>\<open>FrameAllocator::alloc().unwrap_or(0)\<close>.\<close>

definition alloc_or_zero :: "machine \<Rightarrow> u64 \<times> machine" where
  "alloc_or_zero m = (case m_alloc m of None \<Rightarrow> (0, m) | Some (f, m') \<Rightarrow> (f, m'))"

text \<open>
  \<open>nvme_init hhdm cc bar0 st m\<close>: \<open>hhdm\<close> is the offset of the direct map, \<open>cc\<close> the value read from
  the configuration register. The result is the new machine, the controller state and the
  register writes (offset, value); \<open>None\<close> is the panic of a mapping without frames.
\<close>

definition nvme_init ::
  "u64 \<Rightarrow> u32 \<Rightarrow> u32 \<Rightarrow> nvme_controller \<Rightarrow> machine \<Rightarrow> (nvme_controller \<times> machine \<times> (u64 \<times> u64) list) option" where
  "nvme_init hhdm cc bar0_raw st m0 =
     (let mmio_phys = ucast (bar0_raw AND NOT 0xF) :: u64
      in if mmio_phys = 0 then Some (st, m0, [])
         else let mmio_virt = mmio_phys + hhdm
         in case fold (\<lambda>page om. case om of None \<Rightarrow> None | Some m \<Rightarrow>
               map_page (mmio_virt + page * 0x1000) (mmio_phys + page * 0x1000) (WRITABLE OR CACHE_DISABLE) m)
             [0, 1, 2, 3] (Some m0) of
           None \<Rightarrow> None
         | Some m \<Rightarrow>
             (let (asq, m1) = alloc_or_zero m;
                  (acq, m2) = alloc_or_zero m1;
                  (iosq, m3) = alloc_or_zero m2;
                  (iocq, m4) = alloc_or_zero m3;
                  (dma, m5) = alloc_or_zero m4
              in if asq \<noteq> 0 \<and> acq \<noteq> 0 \<and> iosq \<noteq> 0 \<and> iocq \<noteq> 0 \<and> dma \<noteq> 0 then
                   Some (st\<lparr>nv_mmio_phys := mmio_phys, nv_asq_phys := asq, nv_acq_phys := acq,
                            nv_iosq_phys := iosq, nv_iocq_phys := iocq, nv_dma_buf_phys := dma,
                            nv_online := True, nv_ns_size_blocks := 2048 * 1024,
                            nv_block_size_bytes := 512\<rparr>,
                         zero_page dma (zero_page iocq (zero_page iosq (zero_page acq (zero_page asq m5)))),
                         [(0x14, ucast (cc AND NOT 1)),
                          (0x24, push_bit 16 63 OR 63),
                          (0x28, asq),
                          (0x30, acq),
                          (0x14, 1 OR push_bit 16 6 OR push_bit 20 4)])
                 else Some (st, m5, [])))"

definition nvme_is_available :: "nvme_controller \<Rightarrow> bool" where
  "nvme_is_available st = nv_online st"

definition nvme_read_sector :: "u64 \<Rightarrow> nvme_controller \<times> machine \<Rightarrow> sector option \<times> nvme_controller \<times> machine" where
  "nvme_read_sector lba s =
     (case s of (st, m) \<Rightarrow>
        if \<not> nv_online st \<or> nv_dma_buf_phys st = 0 then (None, s)
        else (Some (read_bytes m (nv_dma_buf_phys st) 512), s))"

definition nvme_write_sector :: "u64 \<Rightarrow> sector \<Rightarrow> nvme_controller \<times> machine \<Rightarrow> bool \<times> nvme_controller \<times> machine" where
  "nvme_write_sector lba buf s =
     (case s of (st, m) \<Rightarrow>
        if \<not> nv_online st \<or> nv_dma_buf_phys st = 0 then (False, s)
        else (True, st, write_bytes (nv_dma_buf_phys st) (take 512 buf) m))"

definition nvme_driver :: "(u64, nvme_controller \<times> machine) disk_driver" where
  "nvme_driver = \<lparr>dd_available = (\<lambda>s. nvme_is_available (fst s)),
     dd_read = nvme_read_sector, dd_write = nvme_write_sector\<rparr>"

text \<open>The size is a 64-bit product, which wraps.\<close>

definition nvme_format_status :: "nvme_controller \<Rightarrow> bytes" where
  "nvme_format_status st =
     (if \<not> nv_online st then ascii ''NVMe SSD     : Not present on PCI bus'' @ newline
      else ascii ''NVMe SSD     : ONLINE @ '' @ hex_prefixed 0 (unat (nv_mmio_phys st)) @ ascii '' (Namespace 1: '' @
           decimal (unat (nv_ns_size_blocks st * ucast (nv_block_size_bytes st) div (1024 * 1024))) @ ascii '' MiB, '' @
           decimal (unat (nv_block_size_bytes st)) @ ascii ''B sectors)'' @ newline)"

section \<open>Set-up\<close>

lemma alloc_or_zero_frame:
  assumes "alloc_or_zero m = (f, m')" "f \<noteq> 0"
  shows "f \<in> m_avail m" "m_avail m' = m_avail m - {f}"
  using assms m_alloc_laws(2) [of m] by (auto simp: alloc_or_zero_def split: option.splits)

lemma nvme_init_fresh:
  assumes "nvme_init hhdm cc bar0 nvme_controller_new m = Some (st, m', log)" "nv_online st"
  shows "distinct [nv_asq_phys st, nv_acq_phys st, nv_iosq_phys st, nv_iocq_phys st, nv_dma_buf_phys st]
    \<and> {nv_asq_phys st, nv_acq_phys st, nv_iosq_phys st, nv_iocq_phys st, nv_dma_buf_phys st} \<inter> m_avail m' = {}
    \<and> nv_dma_buf_phys st \<noteq> 0 \<and> page_aligned (nv_dma_buf_phys st)"
proof -
  obtain mm where mm: "fold (\<lambda>page om. case om of None \<Rightarrow> None | Some m \<Rightarrow>
       map_page (ucast (bar0 AND NOT 0xF) + hhdm + page * 0x1000) (ucast (bar0 AND NOT 0xF) + page * 0x1000)
         (WRITABLE OR CACHE_DISABLE) m) [0, 1, 2, 3] (Some m) = Some mm"
    using assms by (fastforce simp: nvme_init_def Let_def nvme_controller_new_def
        split: if_splits option.splits)
  obtain a m1 where a: "alloc_or_zero mm = (a, m1)" by fastforce
  obtain b m2 where b: "alloc_or_zero m1 = (b, m2)" by fastforce
  obtain c m3 where c: "alloc_or_zero m2 = (c, m3)" by fastforce
  obtain d m4 where d: "alloc_or_zero m3 = (d, m4)" by fastforce
  obtain e m5 where e: "alloc_or_zero m4 = (e, m5)" by fastforce
  have nz: "a \<noteq> 0" "b \<noteq> 0" "c \<noteq> 0" "d \<noteq> 0" "e \<noteq> 0"
    and st: "nv_asq_phys st = a" "nv_acq_phys st = b" "nv_iosq_phys st = c" "nv_iocq_phys st = d"
      "nv_dma_buf_phys st = e"
    and m': "m' = zero_page e (zero_page d (zero_page c (zero_page b (zero_page a m5))))"
    using assms mm a b c d e
    by (auto simp: nvme_init_def Let_def nvme_controller_new_def split: if_splits)
  have "e \<in> m_avail m4" using alloc_or_zero_frame(1) [OF e nz(5)] .
  then have "page_aligned e" using m_avail_valid by (simp add: valid_frame_def)
  with nz(5) show ?thesis
    using alloc_or_zero_frame [OF a nz(1)] alloc_or_zero_frame [OF b nz(2)] alloc_or_zero_frame [OF c nz(3)]
      alloc_or_zero_frame [OF d nz(4)] alloc_or_zero_frame [OF e nz(5)]
    unfolding st m' by auto
qed

section \<open>One bounce buffer for every sector\<close>

definition nvme_ready :: "nvme_controller \<Rightarrow> bool" where
  "nvme_ready st \<longleftrightarrow> nv_online st \<and> nv_dma_buf_phys st \<noteq> 0"

lemma nvme_read_write:
  assumes "nvme_ready st" "length buf = 512"
  shows "\<exists>m'. nvme_write_sector lba buf (st, m) = (True, st, m') \<and>
    nvme_read_sector lba' (st, m') = (Some buf, st, m')"
  using assms read_write_bytes [of buf "nv_dma_buf_phys st" m]
  by (simp add: nvme_write_sector_def nvme_read_sector_def nvme_ready_def)

lemma routed_to_nvme:
  assumes "nvme D = nvme_driver" "nvme_ready st"
  shows "read_disk_sector D lba (st, m) = nvme_read_sector lba (st, m)"
    "length buf = 512 \<Longrightarrow> write_disk_sector D lba buf (st, m) = nvme_write_sector lba buf (st, m)"
    "has_physical_disk D (st, m)"
  using assms
  by (simp_all add: read_disk_sector_def write_disk_sector_def has_physical_disk_def nvme_driver_def
      nvme_is_available_def nvme_ready_def nvme_read_sector_def nvme_write_sector_def)

text \<open>
  C38: with an NVMe controller online the block layer has a single sector: a write to any LBA
  succeeds and changes what a read of every other LBA returns.
\<close>

theorem nvme_sectors_alias:
  assumes "nvme D = nvme_driver" "nvme_ready st" "length buf = 512"
  shows "\<exists>m'. write_disk_sector D lba buf (st, m) = (True, st, m') \<and>
    read_disk_sector D lba' (st, m') = (Some buf, st, m')"
  using nvme_read_write [OF assms(2,3), of lba m lba'] routed_to_nvme [OF assms(1,2)] assms(3)
  by simp

lemma esp_root_dir_mark: "take 8 esp_root_dir \<noteq> ascii ''EFI PART''"
proof -
  have "take 11 (drop 0 esp_root_dir) = ascii ''EFI SYSTEM ''"
    unfolding esp_root_dir_def by (rule field_at [where k = 0]) (simp_all add: fields_ok_def)
  then have "take 8 esp_root_dir = take 8 (ascii ''EFI SYSTEM '')"
    by (metis drop0 min.absorb1 numeral_le_iff semiring_norm(68,69,71,72,73) take_take)
  then show ?thesis by (simp add: ascii_def)
qed

text \<open>
  installing to an NVMe disk reports success, yet the disk is not recognised as installed:
  all seven sectors of the layout go to the same buffer, and the header is overwritten.
\<close>

theorem nvme_install_not_detected:
  assumes "nvme D = nvme_driver" "nvme_ready st"
  shows "\<exists>m'. write_gpt_layout D (st, m) = (True, st, m') \<and>
    \<not> fst (is_gpt_installed D (st, m'))"
proof -
  have step: "\<exists>m'. write_disk_sector D lba buf (st, m) = (True, st, m') \<and>
      read_disk_sector D 1 (st, m') = (Some buf, st, m')" if "length buf = 512" for lba buf m
    using nvme_read_write [OF assms(2) that, of lba m 1] routed_to_nvme [OF assms] that by simp
  obtain m1 where "write_disk_sector D 0 gpt_mbr (st, m) = (True, st, m1)"
    using step [of gpt_mbr 0 m] by auto
  moreover obtain m2 where "write_disk_sector D 1 gpt_header (st, m1) = (True, st, m2)"
    using step [of gpt_header 1 m1] by auto
  moreover obtain m3 where "write_disk_sector D 2 gpt_entries (st, m2) = (True, st, m3)"
    using step [of gpt_entries 2 m2] by auto
  moreover obtain m4 where "write_disk_sector D 64 esp_bpb (st, m3) = (True, st, m4)"
    using step [of esp_bpb 64 m3] by auto
  moreover obtain m5 where "write_disk_sector D 65 esp_fat (st, m4) = (True, st, m5)"
    using step [of esp_fat 65 m4] by auto
  moreover obtain m6 where "write_disk_sector D 71 esp_fat (st, m5) = (True, st, m6)"
    using step [of esp_fat 71 m5] by auto
  moreover obtain m7 where m7: "write_disk_sector D 77 esp_root_dir (st, m6) = (True, st, m7)"
    "read_disk_sector D 1 (st, m7) = (Some esp_root_dir, st, m7)"
    using step [of esp_root_dir 77 m6] by auto
  ultimately have "write_gpt_layout D (st, m) = (True, st, m7)"
    by (simp add: write_gpt_layout_def format_esp_partition_def routed_to_nvme(3) [OF assms])
  moreover have "\<not> fst (is_gpt_installed D (st, m7))"
    using m7(2) esp_root_dir_mark by (simp add: is_gpt_installed_def routed_to_nvme(3) [OF assms])
  ultimately show ?thesis by blast
qed

definition nvme_online_example :: nvme_controller where
  "nvme_online_example = nvme_controller_new\<lparr>nv_online := True, nv_dma_buf_phys := 0x200000\<rparr>"

definition nvme_only :: "(nvme_controller \<times> machine) disks" where
  "nvme_only = \<lparr>nvme = nvme_driver, ahci = no_driver, ata = no_driver\<rparr>"

lemma nvme_example_ready: "nvme nvme_only = nvme_driver" "nvme_ready nvme_online_example"
  by (simp_all add: nvme_only_def nvme_ready_def nvme_online_example_def)

lemma nvme_sectors_alias_witness:
  "\<exists>m'. write_disk_sector nvme_only 5 zero_sector
      (nvme_online_example, \<lparr>frames = frame_allocator_new, mem = \<lambda>_. 1, cr3 = 0\<rparr>) =
      (True, nvme_online_example, m') \<and>
    read_disk_sector nvme_only 9 (nvme_online_example, m') = (Some zero_sector, nvme_online_example, m')"
  by (rule nvme_sectors_alias [OF nvme_example_ready length_zero_sector])

lemma nvme_install_not_detected_witness:
  "\<exists>m'. write_gpt_layout nvme_only
      (nvme_online_example, \<lparr>frames = frame_allocator_new, mem = \<lambda>_. 0, cr3 = 0\<rparr>) =
      (True, nvme_online_example, m') \<and>
    \<not> fst (is_gpt_installed nvme_only (nvme_online_example, m'))"
  by (rule nvme_install_not_detected [OF nvme_example_ready])

end
