(* ===== verification/Fat32.thy ===== *)
theory Fat32
  imports Disk Vfs Format
begin

text \<open>
  File storage, \<^verbatim>\<open>kernel/src/fat32.rs\<close>: a FAT image in memory, an overlay of files written since
  boot, a list of deleted names, and the FAT partition at LBA 2048 of a physical disk. Names
  and contents are byte strings; \<open>to_uppercase\<close> and \<open>trim\<close> are those of ASCII text. Sectors are
  read and written through the block layer of the theory Disk, whose drivers \<open>D\<close> are an argument.
\<close>

section \<open>Text\<close>

definition to_upper :: "u8 \<Rightarrow> u8" where
  "to_upper b = (if 0x61 \<le> b \<and> b \<le> 0x7A then b - 0x20 else b)"

definition to_uppercase :: "bytes \<Rightarrow> bytes" where
  "to_uppercase = map to_upper"

definition is_space :: "u8 \<Rightarrow> bool" where
  "is_space b \<longleftrightarrow> b = 0x20 \<or> (0x09 \<le> b \<and> b \<le> 0x0D)"

definition trim :: "bytes \<Rightarrow> bytes" where
  "trim bs = rev (dropWhile is_space (rev (dropWhile is_space bs)))"

fun split_at :: "u8 \<Rightarrow> bytes \<Rightarrow> bytes list" where
  "split_at d [] = [[]]"
| "split_at d (b # bs) =
     (if b = d then [] # split_at d bs
      else case split_at d bs of [] \<Rightarrow> [[b]] | p # ps \<Rightarrow> (b # p) # ps)"

definition dot :: u8 where
  "dot = 0x2E"

text \<open>\<^verbatim>\<open>core::str::from_utf8\<close>, with the well-formed byte sequences of UTF-8.\<close>

definition cont_byte :: "u8 \<Rightarrow> bool" where
  "cont_byte b \<longleftrightarrow> 0x80 \<le> b \<and> b \<le> 0xBF"

fun valid_utf8 :: "bytes \<Rightarrow> bool" where
  "valid_utf8 [] = True"
| "valid_utf8 (a # bs) =
     (if a < 0x80 then valid_utf8 bs
      else if 0xC2 \<le> a \<and> a \<le> 0xDF then
        (case bs of b # r \<Rightarrow> cont_byte b \<and> valid_utf8 r | _ \<Rightarrow> False)
      else if 0xE0 \<le> a \<and> a \<le> 0xEF then
        (case bs of b # c # r \<Rightarrow>
            cont_byte b \<and> (a = 0xE0 \<longrightarrow> 0xA0 \<le> b) \<and> (a = 0xED \<longrightarrow> b \<le> 0x9F) \<and> cont_byte c \<and> valid_utf8 r
         | _ \<Rightarrow> False)
      else if 0xF0 \<le> a \<and> a \<le> 0xF4 then
        (case bs of b # c # d # r \<Rightarrow>
            cont_byte b \<and> (a = 0xF0 \<longrightarrow> 0x90 \<le> b) \<and> (a = 0xF4 \<longrightarrow> b \<le> 0x8F) \<and> cont_byte c \<and> cont_byte d \<and> valid_utf8 r
         | _ \<Rightarrow> False)
      else False)"

definition utf8_or_empty :: "bytes \<Rightarrow> bytes" where
  "utf8_or_empty bs = (if valid_utf8 bs then bs else [])"

section \<open>On-disk records\<close>

record boot_sector =
  bytes_per_sector :: u16
  sectors_per_cluster :: u8
  reserved_sectors :: u16
  num_fats :: u8
  root_entries :: u16
  sectors_per_fat_16 :: u16

text \<open>\<open>at n bs\<close> is byte \<open>n\<close> of a packed structure read through a pointer.\<close>

definition boot_sector_of :: "(nat \<Rightarrow> u8) \<Rightarrow> boot_sector" where
  "boot_sector_of at =
     \<lparr>bytes_per_sector = le_word [at 11, at 12],
      sectors_per_cluster = at 13,
      reserved_sectors = le_word [at 14, at 15],
      num_fats = at 16,
      root_entries = le_word [at 17, at 18],
      sectors_per_fat_16 = le_word [at 22, at 23]\<rparr>"

record dir_entry =
  de_name :: bytes
  de_attr :: u8
  de_low_cluster :: u16
  de_file_size :: u32

definition dir_entry_of :: "(nat \<Rightarrow> u8) \<Rightarrow> nat \<Rightarrow> dir_entry" where
  "dir_entry_of at off =
     \<lparr>de_name = map (\<lambda>i. at (off + i)) [0..<11],
      de_attr = at (off + 11),
      de_low_cluster = le_word [at (off + 26), at (off + 27)],
      de_file_size = le_word [at (off + 28), at (off + 29), at (off + 30), at (off + 31)]\<rparr>"

definition entry_hidden :: "dir_entry \<Rightarrow> bool" where
  "entry_hidden e \<longleftrightarrow> de_name e ! 0 = 0xE5 \<or> de_attr e AND 0x08 \<noteq> 0 \<or> de_attr e AND 0x10 \<noteq> 0"

definition join_name :: "bytes \<Rightarrow> bytes \<Rightarrow> bytes" where
  "join_name base ext = (if ext = [] then base else base @ [dot] @ ext)"

definition disk_entry_name :: "dir_entry \<Rightarrow> bytes" where
  "disk_entry_name e =
     join_name (trim (utf8_or_empty (take 8 (de_name e)))) (trim (utf8_or_empty (drop 8 (de_name e))))"

definition image_entry_name :: "dir_entry \<Rightarrow> bytes" where
  "image_entry_name e = join_name (trim (take 8 (de_name e))) (trim (drop 8 (de_name e)))"

text \<open>The 11-byte name of \<^verbatim>\<open>write_file_to_disk_partition\<close>: first part cut at 8, second at 3.\<close>

definition name_83 :: "bytes \<Rightarrow> bytes" where
  "name_83 filename =
     (let parts = split_at dot (to_uppercase filename);
          blank = replicate 11 0x20;
          with_base = put blank 0 (take 8 (parts ! 0))
      in if length parts > 1 then put with_base 8 (take 3 (parts ! 1)) else with_base)"

section \<open>State\<close>

record 's storage =
  fs_base :: "(nat \<Rightarrow> u8) option"
  fs_size :: nat
  disk_boot :: bool
  overlay :: "(bytes \<times> bytes) list"
  deleted :: "bytes list"
  disk :: 's

definition root_dir_lba :: "boot_sector \<Rightarrow> u64" where
  "root_dir_lba b =
     HUSEYNOS_PART_START_LBA + ucast (reserved_sectors b) + ucast (num_fats b) * ucast (sectors_per_fat_16 b)"

definition first_data_lba :: "boot_sector \<Rightarrow> u64" where
  "first_data_lba b = root_dir_lba b + of_nat ((unat (root_entries b) * 32 + 511) div 512)"

section \<open>Writing to the disk partition\<close>

text \<open>
  The search for the directory slot: an entry of the same name, else the first free one; it
  ends at an entry that was never used. \<open>dir_sec\<close> is the directory sector read last.
\<close>

fun find_slot ::
  "'s disks \<Rightarrow> u64 \<Rightarrow> bytes \<Rightarrow> nat list \<Rightarrow> sector \<Rightarrow> (u64 \<times> nat) option \<Rightarrow> 's \<Rightarrow> (u64 \<times> nat) option \<times> 's"
where
  "find_slot D root_lba name [] dir_sec slot s = (slot, s)"
| "find_slot D root_lba name (i # is) dir_sec slot s =
     (let lba = root_lba + of_nat (i div 16); idx = i mod 16;
          (r, s') = (if idx = 0 then read_disk_sector D lba s else (Some dir_sec, s))
      in case r of
           None \<Rightarrow> (slot, s')
         | Some sec \<Rightarrow>
             (let e = dir_entry_of ((!) sec) (idx * 32)
              in if de_name e ! 0 = 0x00 \<or> de_name e ! 0 = 0xE5 then
                   (let slot' = (if slot = None then Some (lba, idx) else slot)
                    in if de_name e ! 0 = 0x00 then (slot', s')
                       else find_slot D root_lba name is sec slot' s')
                 else if de_name e = name then (Some (lba, idx), s')
                 else find_slot D root_lba name is sec slot s'))"

definition START_CLUSTER :: u16 where
  "START_CLUSTER = 100"

definition cluster_buf :: "bytes \<Rightarrow> nat \<Rightarrow> sector" where
  "cluster_buf content c = put zero_sector 0 (take 512 (drop (c * 512) content))"

fun write_clusters :: "'s disks \<Rightarrow> u64 \<Rightarrow> u64 \<Rightarrow> bytes \<Rightarrow> nat list \<Rightarrow> 's \<Rightarrow> 's" where
  "write_clusters D data_lba spc content [] s = s"
| "write_clusters D data_lba spc content (c # cs) s =
     write_clusters D data_lba spc content cs
       (snd (write_disk_sector D (data_lba + (ucast START_CLUSTER + of_nat c - 2) * spc)
          (cluster_buf content c) s))"

definition new_dir_entry :: "bytes \<Rightarrow> bytes \<Rightarrow> nat \<Rightarrow> sector \<Rightarrow> sector" where
  "new_dir_entry name content idx sec =
     put_fields [(idx * 32, name), (idx * 32 + 11, [0x20]), (idx * 32 + 26, le_bytes 2 START_CLUSTER),
             (idx * 32 + 28, le_bytes 4 (of_nat (length content) :: u32))] sec"

definition write_file_to_disk_partition :: "'s disks \<Rightarrow> bytes \<Rightarrow> bytes \<Rightarrow> 's \<Rightarrow> bool \<times> 's" where
  "write_file_to_disk_partition D filename content s0 =
     (if \<not> has_physical_disk D s0 then (False, s0)
      else case read_disk_sector D HUSEYNOS_PART_START_LBA s0 of
        (None, s1) \<Rightarrow> (False, s1)
      | (Some bpb_sec, s1) \<Rightarrow>
          (let b = boot_sector_of ((!) bpb_sec)
           in if bytes_per_sector b \<noteq> 512 then (False, s1)
              else case find_slot D (root_dir_lba b) (name_83 filename)
                  [0..<unat (root_entries b)] zero_sector None s1 of
                (None, s2) \<Rightarrow> (False, s2)
              | (Some (slot_lba, slot_idx), s2) \<Rightarrow>
                  (let needed = max ((length content + 511) div 512) 1;
                       s3 = write_clusters D (first_data_lba b) (ucast (sectors_per_cluster b)) content
                              [0..<needed] s2
                   in case read_disk_sector D slot_lba s3 of
                        (None, s4) \<Rightarrow> (False, s4)
                      | (Some sec, s4) \<Rightarrow>
                          write_disk_sector D slot_lba
                            (new_dir_entry (name_83 filename) content slot_idx sec) s4)))"

section \<open>Reading the disk partition\<close>

fun list_disk_entries :: "'s disks \<Rightarrow> u64 \<Rightarrow> nat list \<Rightarrow> sector \<Rightarrow> 's \<Rightarrow> (bytes \<times> u32) list \<times> 's" where
  "list_disk_entries D root_lba [] dir_sec s = ([], s)"
| "list_disk_entries D root_lba (i # is) dir_sec s =
     (let (r, s') = (if i mod 16 = 0 then read_disk_sector D (root_lba + of_nat (i div 16)) s
                     else (Some dir_sec, s))
      in case r of
           None \<Rightarrow> ([], s')
         | Some sec \<Rightarrow>
             (let e = dir_entry_of ((!) sec) (i mod 16 * 32)
              in if de_name e ! 0 = 0x00 then ([], s')
                 else if entry_hidden e then list_disk_entries D root_lba is sec s'
                 else let (rest, s'') = list_disk_entries D root_lba is sec s'
                      in ((disk_entry_name e, de_file_size e) # rest, s'')))"

definition list_files_from_disk_partition :: "'s disks \<Rightarrow> 's \<Rightarrow> (bytes \<times> u32) list \<times> 's" where
  "list_files_from_disk_partition D s =
     (case read_disk_sector D HUSEYNOS_PART_START_LBA s of
        (None, s') \<Rightarrow> ([], s')
      | (Some bpb_sec, s') \<Rightarrow>
          (let b = boot_sector_of ((!) bpb_sec)
           in list_disk_entries D (root_dir_lba b) [0..<unat (root_entries b)] zero_sector s'))"

fun read_sectors :: "'s disks \<Rightarrow> u64 \<Rightarrow> nat \<Rightarrow> nat list \<Rightarrow> bytes \<Rightarrow> 's \<Rightarrow> bytes option \<times> 's" where
  "read_sectors D lba file_size [] content s = (Some content, s)"
| "read_sectors D lba file_size (k # ks) content s =
     (case read_disk_sector D (lba + of_nat k) s of
        (None, s') \<Rightarrow> (None, s')
      | (Some sec, s') \<Rightarrow>
          read_sectors D lba file_size ks (content @ take (min (file_size - length content) 512) sec) s')"

fun find_on_disk :: "'s disks \<Rightarrow> boot_sector \<Rightarrow> bytes \<Rightarrow> nat list \<Rightarrow> sector \<Rightarrow> 's \<Rightarrow> bytes option \<times> 's" where
  "find_on_disk D b search_name [] dir_sec s = (None, s)"
| "find_on_disk D b search_name (i # is) dir_sec s =
     (let (r, s') = (if i mod 16 = 0 then read_disk_sector D (root_dir_lba b + of_nat (i div 16)) s
                     else (Some dir_sec, s))
      in case r of
           None \<Rightarrow> (None, s')
         | Some sec \<Rightarrow>
             (let e = dir_entry_of ((!) sec) (i mod 16 * 32)
              in if de_name e ! 0 = 0x00 then (None, s')
                 else if entry_hidden e then find_on_disk D b search_name is sec s'
                 else if disk_entry_name e = search_name \<and> de_low_cluster e \<ge> 2 then
                   (let file_size = unat (de_file_size e);
                        lba = first_data_lba b +
                          of_nat ((unat (de_low_cluster e) - 2) * unat (sectors_per_cluster b))
                    in read_sectors D lba file_size [0..<(file_size + 511) div 512] [] s')
                 else find_on_disk D b search_name is sec s'))"

definition read_file_from_physical_disk :: "'s disks \<Rightarrow> bytes \<Rightarrow> 's \<Rightarrow> bytes option \<times> 's" where
  "read_file_from_physical_disk D search_name s =
     (if \<not> has_physical_disk D s then (None, s)
      else case read_disk_sector D HUSEYNOS_PART_START_LBA s of
        (None, s') \<Rightarrow> (None, s')
      | (Some bpb_sec, s') \<Rightarrow>
          (let b = boot_sector_of ((!) bpb_sec)
           in if bytes_per_sector b \<noteq> 512 then (None, s')
              else find_on_disk D b search_name [0..<unat (root_entries b)] zero_sector s'))"

section \<open>The boot image\<close>

text \<open>
  The FAT image is read through a raw pointer; \<open>img\<close> gives the byte at each offset from it.
\<close>

definition image_root_offset :: "boot_sector \<Rightarrow> nat" where
  "image_root_offset b =
     unat (reserved_sectors b) * unat (bytes_per_sector b) +
     unat (num_fats b) * unat (sectors_per_fat_16 b) * unat (bytes_per_sector b)"

fun list_image_entries :: "(nat \<Rightarrow> u8) \<Rightarrow> nat \<Rightarrow> bytes list \<Rightarrow> nat list \<Rightarrow> (bytes \<times> u32) list" where
  "list_image_entries img root dels [] = []"
| "list_image_entries img root dels (i # is) =
     (let e = dir_entry_of img (root + 32 * i)
      in if de_name e ! 0 = 0x00 then []
         else if entry_hidden e \<or> image_entry_name e \<in> set dels then list_image_entries img root dels is
         else (image_entry_name e, de_file_size e) # list_image_entries img root dels is)"

text \<open>
  The data area of an image: the code divides by \<^verbatim>\<open>bytes_per_sector\<close>, which panics at zero
  (the value \<open>None\<close> of \<open>read_image\<close>).
\<close>

definition image_first_data :: "boot_sector \<Rightarrow> nat" where
  "image_first_data b =
     unat (reserved_sectors b) + unat (num_fats b) * unat (sectors_per_fat_16 b) +
     (unat (root_entries b) * 32 + (unat (bytes_per_sector b) - 1)) div unat (bytes_per_sector b)"

fun find_in_image :: "(nat \<Rightarrow> u8) \<Rightarrow> boot_sector \<Rightarrow> bytes \<Rightarrow> nat list \<Rightarrow> bytes option" where
  "find_in_image img b search_name [] = None"
| "find_in_image img b search_name (i # is) =
     (let e = dir_entry_of img (image_root_offset b + 32 * i)
      in if de_name e ! 0 = 0x00 then None
         else if entry_hidden e then find_in_image img b search_name is
         else if image_entry_name e = search_name \<and> de_low_cluster e \<ge> 2 then
           (let off = (image_first_data b +
                  (unat (de_low_cluster e) - 2) * unat (sectors_per_cluster b)) * unat (bytes_per_sector b)
            in Some (map (\<lambda>k. img (off + k)) [0..<unat (de_file_size e)]))
         else find_in_image img b search_name is)"

definition read_image :: "(nat \<Rightarrow> u8) \<Rightarrow> bytes \<Rightarrow> bytes option option" where
  "read_image img search_name =
     (let b = boot_sector_of img
      in if bytes_per_sector b = 0 then None
         else Some (find_in_image img b search_name [0..<unat (root_entries b)]))"

section \<open>The storage operations\<close>

text \<open>\<^verbatim>\<open>read_file\<close>: the overlay, the image, the disk, unless the name is deleted. \<open>None\<close> is a panic.\<close>

definition read_file :: "'s disks \<Rightarrow> bytes \<Rightarrow> 's storage \<Rightarrow> (bytes option \<times> 's storage) option" where
  "read_file D filename st =
     (let name = to_uppercase filename
      in if name \<in> set (deleted st) then Some (None, st)
         else case map_of (overlay st) name of
           Some content \<Rightarrow> Some (Some content, st)
         | None \<Rightarrow>
             (case (case fs_base st of None \<Rightarrow> Some None | Some img \<Rightarrow> read_image img name) of
                None \<Rightarrow> None
              | Some (Some content) \<Rightarrow> Some (Some content, st)
              | Some None \<Rightarrow>
                  (let (r, d) = read_file_from_physical_disk D name (disk st)
                   in Some (r, st\<lparr>disk := d\<rparr>))))"

fun overlay_put :: "bytes \<Rightarrow> bytes \<Rightarrow> (bytes \<times> bytes) list \<Rightarrow> (bytes \<times> bytes) list" where
  "overlay_put k v [] = [(k, v)]"
| "overlay_put k v ((n, w) # es) = (if n = k then (n, v) # es else (n, w) # overlay_put k v es)"

definition write_file :: "'s disks \<Rightarrow> bytes \<Rightarrow> bytes \<Rightarrow> 's storage \<Rightarrow> 's storage" where
  "write_file D filename content st =
     (let key = to_uppercase filename
      in st\<lparr>deleted := filter (\<lambda>d. d \<noteq> key) (deleted st),
            overlay := overlay_put key content (overlay st),
            disk := snd (write_file_to_disk_partition D key content (disk st))\<rparr>)"

text \<open>
  The directory search of \<^verbatim>\<open>delete_file\<close>: 64 entries, the first whose name field is a prefix of
  the key. A failed sector read leaves the previous sector in the buffer.
\<close>

definition is_prefix :: "bytes \<Rightarrow> bytes \<Rightarrow> bool" where
  "is_prefix p bs \<longleftrightarrow> take (length p) bs = p"

fun mark_deleted :: "'s disks \<Rightarrow> u64 \<Rightarrow> bytes \<Rightarrow> nat list \<Rightarrow> sector \<Rightarrow> 's \<Rightarrow> 's" where
  "mark_deleted D root_lba key [] dir_sec s = s"
| "mark_deleted D root_lba key (i # is) dir_sec s =
     (let lba = root_lba + of_nat (i div 16); idx = i mod 16;
          (r, s') = (if idx = 0 then read_disk_sector D lba s else (None, s));
          sec = (case r of None \<Rightarrow> dir_sec | Some b \<Rightarrow> b);
          base = trim (utf8_or_empty (take 8 (drop (idx * 32) sec)))
      in if is_prefix base key \<and> base \<noteq> [] then
           snd (write_disk_sector D lba (put sec (idx * 32) [0xE5]) s')
         else mark_deleted D root_lba key is sec s')"

definition delete_file :: "'s disks \<Rightarrow> bytes \<Rightarrow> 's storage \<Rightarrow> (bool \<times> 's storage) option" where
  "delete_file D filename st =
     (let key = to_uppercase filename
      in case read_file D key st of
           None \<Rightarrow> None
         | Some (None, st1) \<Rightarrow> Some (False, st1)
         | Some (Some _, st1) \<Rightarrow>
             (let st2 = st1\<lparr>overlay := filter (\<lambda>(n, _). n \<noteq> key) (overlay st1),
                            deleted := (if key \<in> set (deleted st1) then deleted st1 else deleted st1 @ [key])\<rparr>
              in if has_physical_disk D (disk st2) then
                   (case read_disk_sector D HUSEYNOS_PART_START_LBA (disk st2) of
                      (None, d) \<Rightarrow> Some (True, st2\<lparr>disk := d\<rparr>)
                    | (Some bpb_sec, d) \<Rightarrow>
                        Some (True, st2\<lparr>disk :=
                          mark_deleted D (root_dir_lba (boot_sector_of ((!) bpb_sec))) key [0..<64] zero_sector d\<rparr>))
                 else Some (True, st2)))"

fun merge_overlay :: "(bytes \<times> bytes) list \<Rightarrow> bytes list \<Rightarrow> (bytes \<times> u32) list \<Rightarrow> (bytes \<times> u32) list" where
  "merge_overlay [] dels files = files"
| "merge_overlay ((name, content) # es) dels files =
     (if name \<in> set dels then merge_overlay es dels files
      else if name \<in> fst ` set files then
        merge_overlay es dels
          (list_update files (length (takeWhile (\<lambda>f. fst f \<noteq> name) files)) (name, of_nat (length content)))
      else merge_overlay es dels (files @ [(name, of_nat (length content))]))"

definition list_files :: "'s disks \<Rightarrow> 's storage \<Rightarrow> (bytes \<times> u32) list \<times> 's storage" where
  "list_files D st =
     (let (files, st') =
        (case fs_base st of
           Some img \<Rightarrow>
             (let b = boot_sector_of img
              in (list_image_entries img (image_root_offset b) (deleted st) [0..<unat (root_entries b)], st))
         | None \<Rightarrow>
             (let (inst, d) = is_gpt_installed D (disk st)
              in if inst then
                   let (fs, d') = list_files_from_disk_partition D d
                   in (filter (\<lambda>(f, _). f \<notin> set (deleted st)) fs, st\<lparr>disk := d'\<rparr>)
                 else ([], st\<lparr>disk := d\<rparr>)))
      in (merge_overlay (overlay st') (deleted st') files, st'))"

fun load_entries :: "'s disks \<Rightarrow> (bytes \<times> u32) list \<Rightarrow> 's storage \<Rightarrow> 's storage" where
  "load_entries D [] st = st"
| "load_entries D ((name, _) # es) st =
     (case read_file_from_physical_disk D name (disk st) of
        (None, d) \<Rightarrow> load_entries D es (st\<lparr>disk := d\<rparr>)
      | (Some content, d) \<Rightarrow>
          load_entries D es (st\<lparr>disk := d, overlay := overlay_put name content (overlay st)\<rparr>))"

definition load_dynamic_clusters_from_disk :: "'s disks \<Rightarrow> 's storage \<Rightarrow> 's storage" where
  "load_dynamic_clusters_from_disk D st =
     (let (files, d) = list_files_from_disk_partition D (disk st)
      in load_entries D files (st\<lparr>disk := d\<rparr>))"

text \<open>\<open>modules\<close> are the boot modules: whether the path holds \<^verbatim>\<open>fs.img\<close>, the bytes and the size.\<close>

definition fat_init :: "'s disks \<Rightarrow> (bool \<times> (nat \<Rightarrow> u8) \<times> nat) list \<Rightarrow> 's storage \<Rightarrow> 's storage" where
  "fat_init D modules st =
     (let st1 = (case find fst modules of
            None \<Rightarrow> st
          | Some (_, img, sz) \<Rightarrow> st\<lparr>fs_base := Some img, fs_size := sz\<rparr>);
          (inst, d) = is_gpt_installed D (disk st1)
      in if inst then load_dynamic_clusters_from_disk D (st1\<lparr>disk := d, disk_boot := True\<rparr>)
         else st1\<lparr>disk := d\<rparr>)"

fun copy_image :: "'s disks \<Rightarrow> (nat \<Rightarrow> u8) \<Rightarrow> nat list \<Rightarrow> nat \<times> 's \<Rightarrow> nat \<times> 's" where
  "copy_image D img [] (n, s) = (n, s)"
| "copy_image D img (k # ks) (n, s) =
     (let (ok, s') = write_disk_sector D (HUSEYNOS_PART_START_LBA + of_nat k)
                       (map (\<lambda>i. img (k * 512 + i)) [0..<512]) s
      in copy_image D img ks ((if ok then n + 1 else n), s'))"

fun flush_overlay :: "'s disks \<Rightarrow> (bytes \<times> bytes) list \<Rightarrow> nat \<times> 's \<Rightarrow> nat \<times> 's" where
  "flush_overlay D [] (n, s) = (n, s)"
| "flush_overlay D ((name, content) # es) (n, s) =
     (let (ok, s') = write_file_to_disk_partition D name content s
      in flush_overlay D es ((if ok then n + (length content + 511) div 512 else n), s'))"

datatype install_error = NoPhysicalDisk | GptLayoutFailed

definition install_to_disk :: "'s disks \<Rightarrow> 's storage \<Rightarrow> (install_error + nat) \<times> 's storage" where
  "install_to_disk D st =
     (if \<not> has_physical_disk D (disk st) then (Inl NoPhysicalDisk, st)
      else let (ok, d1) = write_gpt_layout D (disk st)
      in if \<not> ok then (Inl GptLayoutFailed, st\<lparr>disk := d1\<rparr>)
         else let (n, d2) = (case fs_base st of
                  Some img \<Rightarrow>
                    if fs_size st > 0 then copy_image D img [0..<min (fs_size st div 512) 256] (3, d1)
                    else (3, d1)
                | None \<Rightarrow> (3, d1));
                  (n', d3) = flush_overlay D (overlay st) (n, d2)
              in (Inr n', st\<lparr>disk := d3, disk_boot := True\<rparr>))"

text \<open>
  The report on the disks, \<^verbatim>\<open>format_disk_report\<close> of \<^verbatim>\<open>kernel/src/gpt.rs\<close>: it reads a sector to look for the
  partition table.
\<close>

definition boot_source_name :: "'s storage \<Rightarrow> bytes" where
  "boot_source_name st =
     (if disk_boot st then ascii ''Physical Disk GPT (HUSEYNOS-ROOT @ LBA 2048)''
      else if fs_base st \<noteq> None then ascii ''Live ISO/RAM Module (fs.img)''
      else ascii ''Hardware Storage (Standalone)'')"

definition backend_name :: "'s disks \<Rightarrow> 's \<Rightarrow> bytes" where
  "backend_name D s =
     (if dd_available (nvme D) s then ascii ''NVMe PCIe SSD DMA''
      else if dd_available (ahci D) s then ascii ''AHCI SATA 3.0 DMA''
      else if dd_available (ata D) s then ascii ''ATA/IDE 28-bit PIO''
      else ascii ''None (Live RAM-Disk Only)'')"

definition format_disk_report :: "'s disks \<Rightarrow> 's storage \<Rightarrow> bytes \<times> 's storage" where
  "format_disk_report D st =
     (case is_gpt_installed D (disk st) of (gpt, d) \<Rightarrow>
        (ascii ''Primary Disk : '' @ backend_name D (disk st) @ newline @
         ascii ''GPT Table    : '' @
         (if gpt then ascii ''INSTALLED (p1=ESP Bootloader @ LBA 64, p2=HUSEYNOS-ROOT @ LBA 2048)''
          else ascii ''NOT FORMATTED (Run '' @ [0x27] @ ascii ''install'' @ [0x27] @ ascii '' to partition & install to disk)'') @ newline @
         ascii ''Boot Source  : '' @ boot_source_name st @ newline,
         st\<lparr>disk := d\<rparr>))"

section \<open>Files written since boot\<close>

lemma map_of_overlay_put: "map_of (overlay_put k v es) n = (if n = k then Some v else map_of es n)"
  by (induction k v es rule: overlay_put.induct) auto

lemma map_of_filter_name:
  "map_of (filter (\<lambda>(n, _). n \<noteq> k) es) n = (if n = k then None else map_of es n)"
  by (induction es) auto

lemma to_upper_idem [simp]: "to_upper (to_upper b) = to_upper b"
proof (cases "0x61 \<le> b \<and> b \<le> 0x7A")
  case True
  then have "unat (b - 0x20) = unat b - 32" by (simp add: unat_sub word_le_nat_alt)
  moreover have "unat b \<le> 0x7A" using True by (simp add: word_le_nat_alt)
  ultimately have "unat (b - 0x20) < 0x61" by linarith
  then have "\<not> 0x61 \<le> b - 0x20" by (simp add: word_le_nat_alt)
  with True show ?thesis by (simp add: to_upper_def)
qed (simp add: to_upper_def)

lemma to_uppercase_idem [simp]: "to_uppercase (to_uppercase n) = to_uppercase n"
  by (simp add: to_uppercase_def)

definition no_disk :: "'s disks \<Rightarrow> 's storage \<Rightarrow> bool" where
  "no_disk D st \<longleftrightarrow> \<not> has_physical_disk D (disk st)"

lemma no_disk_unchanged:
  "no_disk D st \<Longrightarrow> write_file_to_disk_partition D n c (disk st) = (False, disk st)"
  "no_disk D st \<Longrightarrow> read_file_from_physical_disk D n (disk st) = (None, disk st)"
  by (simp_all add: no_disk_def write_file_to_disk_partition_def read_file_from_physical_disk_def)

lemma read_after_write:
  "to_uppercase m = to_uppercase n \<Longrightarrow>
   read_file D m (write_file D n c st) = Some (Some c, write_file D n c st)"
  by (simp add: read_file_def write_file_def Let_def map_of_overlay_put)

lemma read_other_after_write:
  assumes "no_disk D st" "to_uppercase m \<noteq> to_uppercase n"
  shows "map_option fst (read_file D m (write_file D n c st)) = map_option fst (read_file D m st)"
proof -
  have nd: "read_file_from_physical_disk D k (disk st) = (None, disk st)" for k
    by (rule no_disk_unchanged(2) [OF assms(1)])
  show ?thesis
    using assms(2)
    by (simp add: read_file_def write_file_def Let_def map_of_overlay_put no_disk_unchanged(1) [OF assms(1)] nd
        split: option.splits)
qed

interpretation fat: file_storage "read_file D" "write_file D" to_uppercase "no_disk D" for D
proof unfold_locales
  show "to_uppercase m = to_uppercase n \<Longrightarrow>
      map_option fst (read_file D m (write_file D n d s)) = Some (Some d)" for m n d s
    by (simp add: read_after_write)
  show "no_disk D s \<Longrightarrow> to_uppercase m \<noteq> to_uppercase n \<Longrightarrow>
      map_option fst (read_file D m (write_file D n d s)) = map_option fst (read_file D m s)" for m n d s
    by (rule read_other_after_write)
  show "no_disk D s \<Longrightarrow> no_disk D (write_file D n d s)" for n d s
    using no_disk_unchanged(1) [of D s "to_uppercase n" d] by (simp add: no_disk_def write_file_def Let_def)
qed

text \<open>
  C11: what a process writes to a file it gets back: bytes written in any pieces through a
  descriptor opened for writing, and closed, are read back in any pieces through a descriptor
  opened under a name equal up to case, whatever disk is attached, by any process.
\<close>

theorem file_round_trip:
  assumes "fds_ok fds" "flags AND 1 \<noteq> 0"
    and "fd_open (read_file D) name flags fds st = Some (Some fd, fds1, st1)"
    and "fd_close (write_file D) fd (write_chunks fd chunks fds1) st1 = (r, fds2, st2)"
    and "to_uppercase name' = to_uppercase name" "flags' AND 1 = 0"
    and "fd_open (read_file D) name' flags' fds2 st2 = Some (r', fds3, st3)"
  shows "r \<and> (\<exists>fd' fds4. r' = Some fd' \<and>
    read_chunks fd' ns fds3 = Some (take (sum_list ns) (concat chunks), fds4))"
  using fat.write_close [OF assms(1-4)] fat.write_read [OF assms, of ns] by blast

text \<open>
  without a physical disk deletion removes one file: the name is no longer found, every
  name that differs by more than case reads as before, and writing it again brings it back.
\<close>

theorem delete_file_removes_one:
  assumes "no_disk D st" "delete_file D name st = Some (True, st')"
  shows "(to_uppercase m = to_uppercase name \<longrightarrow> map_option fst (read_file D m st') = Some None) \<and>
    (to_uppercase m \<noteq> to_uppercase name \<longrightarrow>
       map_option fst (read_file D m st') = map_option fst (read_file D m st)) \<and>
    map_option fst (read_file D name (write_file D name c st')) = Some (Some c)"
proof -
  have nd: "read_file_from_physical_disk D k (disk st) = (None, disk st)" for k
    by (rule no_disk_unchanged(2) [OF assms(1)])
  obtain c0 st1 where r: "read_file D (to_uppercase name) st = Some (Some c0, st1)"
    using assms(2) by (auto simp: delete_file_def Let_def split: option.splits prod.splits)
  have st1: "st1 = st"
    using r by (auto simp: read_file_def Let_def nd split: option.splits if_splits)
  have "\<not> has_physical_disk D (disk st)" using assms(1) by (simp add: no_disk_def)
  then have st': "st' = st\<lparr>overlay := filter (\<lambda>(n, _). n \<noteq> to_uppercase name) (overlay st),
      deleted := (if to_uppercase name \<in> set (deleted st) then deleted st else deleted st @ [to_uppercase name])\<rparr>"
    using assms(2) r st1 by (simp add: delete_file_def Let_def)
  have "to_uppercase m = to_uppercase name \<longrightarrow> map_option fst (read_file D m st') = Some None"
    by (auto simp: st' read_file_def Let_def)
  moreover have "to_uppercase m \<noteq> to_uppercase name \<longrightarrow>
      map_option fst (read_file D m st') = map_option fst (read_file D m st)"
    by (auto simp: st' read_file_def Let_def map_of_filter_name nd split: option.splits)
  ultimately show ?thesis by (simp add: read_after_write)
qed

definition no_disks :: "unit disks" where
  "no_disks = \<lparr>nvme = no_driver, ahci = no_driver, ata = no_driver\<rparr>"

definition empty_storage :: "unit storage" where
  "empty_storage = \<lparr>fs_base = None, fs_size = 0, disk_boot = False, overlay = [], deleted = [], disk = ()\<rparr>"

lemma no_disk_example: "no_disk no_disks (st :: unit storage)"
  by (simp add: no_disk_def has_physical_disk_def no_disks_def no_driver_def)

lemma file_round_trip_witness:
  "\<exists>fds1 st1 fds2 st2 fds3 st3 fds4.
     fd_open (read_file no_disks) (ascii ''a.txt'') 1 fd_table_new empty_storage = Some (Some 3, fds1, st1) \<and>
     fd_close (write_file no_disks) 3 (write_chunks 3 [[1, 2], [3]] fds1) st1 = (True, fds2, st2) \<and>
     fd_open (read_file no_disks) (ascii ''A.TXT'') 0 fds2 st2 = Some (Some 3, fds3, st3) \<and>
     read_chunks 3 [1, 5] fds3 = Some ([1, 2, 3], fds4)"
proof -
  have a3: "alloc_fd fd_table_new = Some 3"
    unfolding alloc_fd_def find_range_Some by (simp add: fd_table_new_def)
  obtain fds1 st1 where o1: "fd_open (read_file no_disks) (ascii ''a.txt'') 1 fd_table_new empty_storage
      = Some (Some 3, fds1, st1)"
    by (simp add: fd_open_def a3)
  obtain r fds2 st2 where c: "fd_close (write_file no_disks) 3 (write_chunks 3 [[1, 2], [3]] fds1) st1
      = (r, fds2, st2)" by (metis prod_cases3)
  have up: "to_uppercase (ascii ''A.TXT'') = to_uppercase (ascii ''a.txt'')" by code_simp
  note w = fat.write_close [OF fds_ok_new _ o1 c]
  have "map_option fst (read_file no_disks (ascii ''A.TXT'') st2) = Some (Some [1, 2, 3])"
    using w fat.lookup_store [OF up, of no_disks "[1, 2, 3]" empty_storage] by simp
  then have "fd_open (read_file no_disks) (ascii ''A.TXT'') 0 fds2 st2 \<noteq> None"
    by (auto simp: fd_open_def split: option.splits prod.splits)
  then obtain r' fds3 st3 where o2: "fd_open (read_file no_disks) (ascii ''A.TXT'') 0 fds2 st2
      = Some (r', fds3, st3)" by (metis not_Some_eq prod_cases3)
  from file_round_trip [OF fds_ok_new _ o1 c up _ o2, of "[1, 5]"]
  obtain fd' fds4 where res: "r" "r' = Some fd'" "read_chunks fd' [1, 5] fds3 = Some ([1, 2, 3], fds4)"
    by auto
  have "fd' = 3"
  proof -
    have "alloc_fd fds2 = Some fd'" by (rule fd_open_alloc [OF o2 [unfolded res(2)]])
    moreover have "fds2 ! 3 = None" using w by simp
    ultimately show ?thesis using alloc_fd_Some [of fds2 fd'] by (cases "fd' = 3") auto
  qed
  with c o2 res have "fd_close (write_file no_disks) 3 (write_chunks 3 [[1, 2], [3]] fds1) st1 = (True, fds2, st2)"
    "fd_open (read_file no_disks) (ascii ''A.TXT'') 0 fds2 st2 = Some (Some 3, fds3, st3)"
    "read_chunks 3 [1, 5] fds3 = Some ([1, 2, 3], fds4)"
    by simp_all
  with o1 show ?thesis by blast
qed

lemma delete_file_removes_one_witness:
  "map_option fst (read_file no_disks (ascii ''a'')
     (snd (the (delete_file no_disks (ascii ''A'') (write_file no_disks (ascii ''a'') [7] empty_storage))))) = Some None"
proof -
  let ?st = "write_file no_disks (ascii ''a'') [7] empty_storage"
  have up: "to_uppercase (ascii ''A'') = to_uppercase (ascii ''a'')" by code_simp
  have "read_file no_disks (to_uppercase (ascii ''A'')) ?st = Some (Some [7], ?st)"
    by (rule read_after_write) (simp add: up)
  then obtain st' where d: "delete_file no_disks (ascii ''A'') ?st = Some (True, st')"
    using no_disk_example [of ?st] no_disk_example
    by (auto simp: delete_file_def Let_def no_disk_def)
  from delete_file_removes_one [OF no_disk_example d, of "ascii ''a''"] up d show ?thesis by simp
qed

end
