(* ===== verification/Shm.thy ===== *)
theory Shm
  imports Address_Space "HOL-Library.Multiset"
begin

text \<open>
  Shared memory, \<^verbatim>\<open>kernel/src/shm.rs\<close>: a table of at most 32 regions, each with its frames, a
  count of mappings and its owner. The frames come from the \<open>frame_provider\<close> of cleared frames;
  its lemmas on taking and giving back lists of frames carry the proofs here.
\<close>

section \<open>Operations\<close>

abbreviation MAX_SHM_REGIONS :: nat where "MAX_SHM_REGIONS \<equiv> 32"

record shared_region =
  shm_id :: u32
  shm_frames :: "u64 list"
  shm_size :: u64
  shm_ref_count :: nat
  shm_owner :: nat
  shm_owner_exited :: bool

record shm_state =
  shm_table :: "shared_region list"
  next_shm_id :: u32

definition shm_new :: shm_state where
  "shm_new = \<lparr>shm_table = [], next_shm_id = 1\<rparr>"

definition shm_create :: "u64 \<Rightarrow> nat \<Rightarrow> shm_state \<Rightarrow> machine \<Rightarrow> u32 option \<times> shm_state \<times> machine" where
  "shm_create sz owner_pid s m =
     (let aligned_size = align_up sz;
          num_pages = unat aligned_size div PAGE_SIZE;
          (ok, fs, m1) = acquire_many m_alloc_zeroed num_pages m
      in if \<not> ok then (None, s, release_many m_dealloc fs m1)
         else let rid = next_shm_id s; s1 = s\<lparr>next_shm_id := rid + 1\<rparr>
         in if length (shm_table s1) \<ge> MAX_SHM_REGIONS then (None, s1, release_many m_dealloc fs m1)
            else (Some rid,
                  s1\<lparr>shm_table := shm_table s1 @
                    [\<lparr>shm_id = rid, shm_frames = fs, shm_size = aligned_size, shm_ref_count = 0,
                      shm_owner = owner_pid, shm_owner_exited = False\<rparr>]\<rparr>,
                  m1))"

fun map_frames :: "u64 \<Rightarrow> u64 \<Rightarrow> u64 list \<Rightarrow> machine \<Rightarrow> machine option" where
  "map_frames pml4 v [] m = Some m"
| "map_frames pml4 v (f # fs) m =
     (case map_page_in_table pml4 v f (WRITABLE OR USER) m of
        None \<Rightarrow> None
      | Some m' \<Rightarrow> map_frames pml4 (v + of_nat PAGE_SIZE) fs m')"

text \<open>The index of the region of an id, as \<^verbatim>\<open>find\<close> and \<^verbatim>\<open>position\<close> give it.\<close>

definition shm_index :: "shm_state \<Rightarrow> u32 \<Rightarrow> nat option" where
  "shm_index s rid = find (\<lambda>i. shm_id (shm_table s ! i) = rid) [0..<length (shm_table s)]"

text \<open>The result is the size or an error; \<open>None\<close> is the panic of a mapping without frames.\<close>

definition shm_map :: "u32 \<Rightarrow> u64 \<Rightarrow> u64 \<Rightarrow> shm_state \<Rightarrow> machine \<Rightarrow> ((unit + u64) \<times> shm_state \<times> machine) option" where
  "shm_map rid pml4 virt_addr s m =
     (case shm_index s rid of
        None \<Rightarrow> Some (Inl (), s, m)
      | Some i \<Rightarrow>
          (let r = shm_table s ! i
           in case map_frames pml4 (align_down virt_addr) (shm_frames r) m of
                None \<Rightarrow> None
              | Some m' \<Rightarrow>
                  Some (Inr (shm_size r),
                        s\<lparr>shm_table := (shm_table s)[i := r\<lparr>shm_ref_count := shm_ref_count r + 1\<rparr>]\<rparr>, m')))"

fun unmap_pages :: "u64 \<Rightarrow> nat \<Rightarrow> machine \<Rightarrow> machine" where
  "unmap_pages v 0 m = m"
| "unmap_pages v (Suc n) m = unmap_pages (v + of_nat PAGE_SIZE) n (unmap_page v m)"

definition remove_nth :: "nat \<Rightarrow> 'a list \<Rightarrow> 'a list" where
  "remove_nth i xs = take i xs @ drop (Suc i) xs"

text \<open>\<^verbatim>\<open>unmap\<close> takes the root table and does not use it: the pages of the active table are unmapped.\<close>

definition shm_unmap :: "u32 \<Rightarrow> u64 \<Rightarrow> u64 \<Rightarrow> shm_state \<Rightarrow> machine \<Rightarrow> (unit + unit) \<times> shm_state \<times> machine" where
  "shm_unmap rid pml4 virt_addr s m =
     (case shm_index s rid of
        None \<Rightarrow> (Inl (), s, m)
      | Some i \<Rightarrow>
          (let r = shm_table s ! i;
               m' = unmap_pages (align_down virt_addr) (length (shm_frames r)) m;
               r' = r\<lparr>shm_ref_count := shm_ref_count r - 1\<rparr>
           in if shm_ref_count r' \<le> 1 \<and> shm_owner_exited r' then
                (Inr (), s\<lparr>shm_table := remove_nth i (shm_table s)\<rparr>, release_many m_dealloc (shm_frames r) m')
              else (Inr (), s\<lparr>shm_table := (shm_table s)[i := r']\<rparr>, m')))"

text \<open>The loop of \<^verbatim>\<open>cleanup_process\<close> over the table, which it rebuilds in place.\<close>

fun cleanup_regions :: "nat \<Rightarrow> shared_region list \<Rightarrow> machine \<Rightarrow> shared_region list \<times> machine" where
  "cleanup_regions pid [] m = ([], m)"
| "cleanup_regions pid (r # rs) m =
     (if shm_owner r = pid then
        let r' = r\<lparr>shm_owner_exited := True, shm_ref_count := shm_ref_count r - 1\<rparr>
        in if shm_ref_count r' = 0 then cleanup_regions pid rs (release_many m_dealloc (shm_frames r) m)
           else let (rs', m') = cleanup_regions pid rs m in (r' # rs', m')
      else let (rs', m') = cleanup_regions pid rs m in (r # rs', m'))"

definition shm_cleanup_process :: "nat \<Rightarrow> shm_state \<Rightarrow> machine \<Rightarrow> shm_state \<times> machine" where
  "shm_cleanup_process pid s m =
     (let (rs, m') = cleanup_regions pid (shm_table s) m in (s\<lparr>shm_table := rs\<rparr>, m'))"

section \<open>Invariant\<close>

text \<open>No frame belongs to two regions, and none is free.\<close>

definition region_frames :: "shared_region list \<Rightarrow> u64 list" where
  "region_frames rs = concat (map shm_frames rs)"

definition frames_owned :: "u64 list \<Rightarrow> machine \<Rightarrow> bool" where
  "frames_owned fs m \<longleftrightarrow> distinct fs \<and> (\<forall>f\<in>set fs. valid_frame f \<and> f \<notin> m_avail m)"

definition shm_ok :: "shm_state \<Rightarrow> machine \<Rightarrow> bool" where
  "shm_ok s m \<longleftrightarrow> length (shm_table s) \<le> MAX_SHM_REGIONS \<and> frames_owned (region_frames (shm_table s)) m"

lemma frames_owned_mono: "frames_owned fs m \<Longrightarrow> m_avail m' \<subseteq> m_avail m \<Longrightarrow> frames_owned fs m'"
  by (auto simp: frames_owned_def)

lemma frames_owned_append:
  "frames_owned (fs @ gs) m \<longleftrightarrow> frames_owned fs m \<and> frames_owned gs m \<and> set fs \<inter> set gs = {}"
  by (auto simp: frames_owned_def)

lemma frames_owned_release:
  "frames_owned (fs @ gs) m \<Longrightarrow> frames_owned gs (release_many m_dealloc fs m)"
  using fp.release_many_avail [of fs m] by (auto simp: frames_owned_def)

lemma region_frames_simps [simp]:
  "region_frames [] = []" "region_frames (r # rs) = shm_frames r @ region_frames rs"
  "region_frames (rs @ rs') = region_frames rs @ region_frames rs'"
  by (simp_all add: region_frames_def)

lemma region_frames_update:
  "i < length rs \<Longrightarrow> shm_frames r = shm_frames (rs ! i) \<Longrightarrow> region_frames (rs[i := r]) = region_frames rs"
  unfolding region_frames_def by (metis length_map list_update_id map_update nth_map)

lemma region_frames_remove:
  assumes "i < length rs"
  shows "mset (region_frames rs) = mset (shm_frames (rs ! i)) + mset (region_frames (remove_nth i rs))"
proof -
  have "rs = take i rs @ rs ! i # drop (Suc i) rs" by (rule id_take_nth_drop [OF assms])
  then have "region_frames rs =
      region_frames (take i rs) @ shm_frames (rs ! i) @ region_frames (drop (Suc i) rs)"
    by (metis region_frames_simps(2,3))
  then show ?thesis by (simp only: remove_nth_def region_frames_simps(3) mset_append ac_simps)
qed

lemma frames_owned_perm: "mset fs = mset gs \<Longrightarrow> frames_owned fs m \<longleftrightarrow> frames_owned gs m"
  by (metis frames_owned_def mset_eq_imp_distinct_iff mset_eq_setD)

lemma shm_index_Some: "shm_index s rid = Some i \<Longrightarrow> i < length (shm_table s) \<and> shm_id (shm_table s ! i) = rid"
  unfolding shm_index_def find_range_Some by blast

lemma m_avail_unmap_page [simp]: "m_avail (unmap_page v m) = m_avail m"
  by (simp add: unmap_page_def m_avail_def split: option.split)

lemma m_avail_unmap_pages [simp]: "m_avail (unmap_pages v n m) = m_avail m"
  by (induction n arbitrary: v m) simp_all

lemma map_frames_avail: "map_frames p v fs m = Some m' \<Longrightarrow> m_avail m' \<subseteq> m_avail m"
proof (induction fs arbitrary: v m)
  case (Cons f fs)
  then obtain m1 where m1: "map_page_in_table p v f (WRITABLE OR USER) m = Some m1"
    "map_frames p (v + of_nat PAGE_SIZE) fs m1 = Some m'"
    by (auto split: option.splits)
  then obtain pt m2 where m2: "map_walk [0, 1, 2] v p m = Some (pt, m2)"
    and "m1 = write64 (entry_addr pt 3 v) (f OR (WRITABLE OR USER) OR PRESENT) m2"
    by (auto simp: map_page_in_table_def split: option.splits)
  then have "m_avail m1 \<subseteq> m_avail m" using map_walk_avail [OF m2] by (simp add: m_avail_def)
  with Cons.IH [OF m1(2)] show ?case by blast
qed simp

lemma map_frames_progress:
  "3 * length fs \<le> card (m_avail m) \<Longrightarrow> map_frames p v fs m \<noteq> None"
proof (induction fs arbitrary: v m)
  case (Cons f fs)
  then obtain m1 where m1: "map_page_in_table p v f (WRITABLE OR USER) m = Some m1"
    using map_page_progress [of m p v f "WRITABLE OR USER"] by fastforce
  have "card (m_avail m) \<le> card (m_avail m1) + 3" using m1 by (rule map_page_card)
  with Cons.IH [of m1] Cons.prems m1 show ?case by simp
qed simp

section \<open>The operations keep it\<close>

lemma shm_create_ok:
  assumes "shm_ok s m" "shm_create sz pid s m = (r, s', m')"
  shows "shm_ok s' m'"
proof -
  obtain ok fs m1 where a: "acquire_many m_alloc_zeroed (unat (align_up sz) div PAGE_SIZE) m = (ok, fs, m1)"
    by (metis prod_cases3)
  from zp.acquire_many_frames [OF a] have fs: "distinct fs" "set fs \<subseteq> m_avail m" "m_avail m1 = m_avail m - set fs"
    by auto
  have restored: "m_avail (release_many m_dealloc fs m1) = m_avail m" by (rule zp.acquire_release [OF a])
  have "frames_owned (region_frames (shm_table s) @ fs) m1"
    using assms(1) fs m_avail_valid by (auto simp: shm_ok_def frames_owned_def)
  with assms a restored show ?thesis
    by (auto simp: shm_create_def shm_ok_def Let_def frames_owned_def split: if_splits)
qed

lemma shm_map_ok:
  assumes "shm_ok s m" "shm_map rid p v s m = Some (r, s', m')"
  shows "shm_ok s' m'"
proof (cases "shm_index s rid")
  case None
  with assms show ?thesis by (simp add: shm_map_def)
next
  case (Some i)
  let ?r = "shm_table s ! i"
  have i: "i < length (shm_table s)" using shm_index_Some [OF Some] by simp
  have s': "s' = s\<lparr>shm_table := (shm_table s)[i := ?r\<lparr>shm_ref_count := shm_ref_count ?r + 1\<rparr>]\<rparr>"
    and "map_frames p (align_down v) (shm_frames ?r) m = Some m'"
    using assms(2) Some by (auto simp: shm_map_def Let_def split: option.splits)
  then have "m_avail m' \<subseteq> m_avail m" by (intro map_frames_avail)
  with assms(1) i show ?thesis
    by (auto simp: shm_ok_def s' region_frames_update intro: frames_owned_mono)
qed

lemma shm_unmap_ok:
  assumes "shm_ok s m" "shm_unmap rid p v s m = (r, s', m')"
  shows "shm_ok s' m'"
proof (cases "shm_index s rid")
  case None
  with assms show ?thesis by (simp add: shm_unmap_def)
next
  case (Some i)
  let ?r = "shm_table s ! i"
  let ?m = "unmap_pages (align_down v) (length (shm_frames ?r)) m"
  let ?r' = "?r\<lparr>shm_ref_count := shm_ref_count ?r - 1\<rparr>"
  have i: "i < length (shm_table s)" using shm_index_Some [OF Some] by simp
  have own: "frames_owned (region_frames (shm_table s)) ?m"
    using assms(1) by (auto simp: shm_ok_def intro: frames_owned_mono)
  show ?thesis
  proof (cases "shm_ref_count ?r' \<le> 1 \<and> shm_owner_exited ?r'")
    case True
    then have "s' = s\<lparr>shm_table := remove_nth i (shm_table s)\<rparr>" "m' = release_many m_dealloc (shm_frames ?r) ?m"
      using assms(2) Some by (auto simp: shm_unmap_def Let_def)
    moreover have "frames_owned (shm_frames ?r @ region_frames (remove_nth i (shm_table s))) ?m"
      by (rule frames_owned_perm [THEN iffD1, OF _ own]) (simp add: region_frames_remove [OF i])
    ultimately show ?thesis
      using assms(1) i frames_owned_release by (auto simp: shm_ok_def remove_nth_def)
  next
    case False
    then have "s' = s\<lparr>shm_table := (shm_table s)[i := ?r']\<rparr>" "m' = ?m"
      using assms(2) Some by (auto simp: shm_unmap_def Let_def)
    with own assms(1) i show ?thesis by (simp add: shm_ok_def region_frames_update)
  qed
qed

lemma cleanup_regions_ok:
  assumes "frames_owned (region_frames rs) m" "cleanup_regions pid rs m = (rs', m')"
  shows "length rs' \<le> length rs \<and> set (region_frames rs') \<subseteq> set (region_frames rs) \<and>
    frames_owned (region_frames rs') m' \<and> m_avail m' \<subseteq> m_avail m \<union> set (region_frames rs)"
  using assms
proof (induction pid rs m arbitrary: rs' m' rule: cleanup_regions.induct)
  case (2 pid r rs m)
  let ?m = "release_many m_dealloc (shm_frames r) m"
  have own: "frames_owned (shm_frames r @ region_frames rs) m" using 2(4) by simp
  then have tail: "frames_owned (region_frames rs) m" by (simp add: frames_owned_append)
  have av: "m_avail ?m = m_avail m \<union> set (shm_frames r)"
    using own by (intro fp.release_many_avail) (auto simp: frames_owned_def)
  show ?case
  proof (cases "shm_owner r = pid \<and> shm_ref_count r - 1 = 0")
    case True
    with 2(5) have "cleanup_regions pid rs ?m = (rs', m')" by (simp add: Let_def)
    with 2(1) [OF _ refl _ frames_owned_release [OF own]] True av show ?thesis by auto
  next
    case False
    then obtain rs1 where rs1: "cleanup_regions pid rs m = (rs1, m')"
      and rs': "rs' = r # rs1 \<or> rs' = (r\<lparr>shm_owner_exited := True, shm_ref_count := shm_ref_count r - 1\<rparr>) # rs1"
      using 2(5) by (auto simp: Let_def split: if_splits prod.splits)
    have ih: "length rs1 \<le> length rs" "set (region_frames rs1) \<subseteq> set (region_frames rs)"
      "frames_owned (region_frames rs1) m'" "m_avail m' \<subseteq> m_avail m \<union> set (region_frames rs)"
      using 2(2) [OF _ refl _ tail rs1] 2(3) [OF _ tail rs1] False by (cases "shm_owner r = pid"; simp)+
    have "region_frames rs' = shm_frames r @ region_frames rs1" "length rs' = Suc (length rs1)"
      using rs' by auto
    moreover have "frames_owned (shm_frames r @ region_frames rs1) m'"
      using own ih by (auto simp: frames_owned_def)
    ultimately show ?thesis using ih by auto
  qed
qed simp

lemma shm_cleanup_ok:
  assumes "shm_ok s m" "shm_cleanup_process pid s m = (s', m')"
  shows "shm_ok s' m'"
  using cleanup_regions_ok [of "shm_table s" m pid] assms
  by (fastforce simp: shm_ok_def shm_cleanup_process_def split: prod.splits)

text \<open>
  C10: every shared-memory operation keeps the frames of the regions apart from each other and
  out of the free set: creating (also when it fails), mapping, unmapping and the clean-up of a
  process, in any state that satisfies this.
\<close>

theorem shm_operations_invariant:
  assumes "shm_ok s m"
  shows "(case shm_create sz pid s m of (r, s', m') \<Rightarrow> shm_ok s' m') \<and>
    (case shm_map rid p v s m of None \<Rightarrow> card (m_avail m) < 3 * length (region_frames (shm_table s))
     | Some (r, s', m') \<Rightarrow> shm_ok s' m') \<and>
    (case shm_unmap rid p v s m of (r, s', m') \<Rightarrow> shm_ok s' m') \<and>
    (case shm_cleanup_process pid s m of (s', m') \<Rightarrow> shm_ok s' m')"
proof (intro conjI)
  show "case shm_create sz pid s m of (r, s', m') \<Rightarrow> shm_ok s' m'"
    using shm_create_ok [OF assms] by (simp split: prod.split)
  show "case shm_map rid p v s m of None \<Rightarrow> card (m_avail m) < 3 * length (region_frames (shm_table s))
     | Some (r, s', m') \<Rightarrow> shm_ok s' m'"
  proof (cases "shm_map rid p v s m")
    case None
    then obtain i where i: "shm_index s rid = Some i"
      "map_frames p (align_down v) (shm_frames (shm_table s ! i)) m = None"
      by (auto simp: shm_map_def Let_def split: option.splits)
    have "length (shm_frames (shm_table s ! i)) \<le> length (region_frames (shm_table s))"
      using region_frames_remove [of i "shm_table s"] shm_index_Some [OF i(1)]
      by (metis le_add1 size_mset size_union)
    moreover have "card (m_avail m) < 3 * length (shm_frames (shm_table s ! i))"
      using map_frames_progress [of "shm_frames (shm_table s ! i)" m p] i(2) by (metis not_le)
    ultimately show ?thesis using None by simp
  next
    case (Some a)
    then show ?thesis using shm_map_ok [OF assms, of rid p v] by (cases a) simp
  qed
  show "case shm_unmap rid p v s m of (r, s', m') \<Rightarrow> shm_ok s' m'"
    using shm_unmap_ok [OF assms] by (simp split: prod.split)
  show "case shm_cleanup_process pid s m of (s', m') \<Rightarrow> shm_ok s' m'"
    using shm_cleanup_ok [OF assms] by (simp split: prod.split)
qed

text \<open>
  creation is all or nothing: it succeeds exactly when the table has room and enough frames
  are free, the region then has one distinct frame per page, and on failure every
  frame is free again that was before.
\<close>

theorem shm_create_all_or_nothing:
  assumes "shm_create sz pid s m = (r, s', m')"
  shows "(r \<noteq> None \<longleftrightarrow> unat (align_up sz) div PAGE_SIZE \<le> card (m_avail m) \<and> length (shm_table s) < MAX_SHM_REGIONS) \<and>
    (case r of
       None \<Rightarrow> m_avail m' = m_avail m \<and> shm_table s' = shm_table s
     | Some rid \<Rightarrow> \<exists>fs. shm_table s' = shm_table s @
           [\<lparr>shm_id = rid, shm_frames = fs, shm_size = align_up sz, shm_ref_count = 0,
             shm_owner = pid, shm_owner_exited = False\<rparr>] \<and>
         length fs = unat (align_up sz) div PAGE_SIZE \<and> distinct fs \<and> set fs \<subseteq> m_avail m \<and>
         m_avail m' = m_avail m - set fs)"
proof -
  obtain ok fs m1 where a: "acquire_many m_alloc_zeroed (unat (align_up sz) div PAGE_SIZE) m = (ok, fs, m1)"
    by (metis prod_cases3)
  note fr = zp.acquire_many_frames [OF a] zp.acquire_many_ok [OF a] zp.acquire_release [OF a]
  with a assms show ?thesis
    by (auto simp: shm_create_def Let_def split: if_splits)
qed

section \<open>Clean-up while mapped\<close>

lemma release_many_mem [simp]: "mem (release_many m_dealloc fs m) = mem m"
  by (induction fs arbitrary: m) (simp_all add: m_dealloc_def)

lemma cleanup_regions_mem: "cleanup_regions pid rs m = (rs', m') \<Longrightarrow> mem m' = mem m"
  by (induction pid rs m arbitrary: rs' m' rule: cleanup_regions.induct)
    (auto simp: Let_def split: if_splits prod.splits)

lemma cleanup_regions_avail_mono:
  "frames_owned (region_frames rs) m \<Longrightarrow> cleanup_regions pid rs m = (rs', m') \<Longrightarrow> m_avail m \<subseteq> m_avail m'"
proof (induction pid rs m arbitrary: rs' m' rule: cleanup_regions.induct)
  case (2 pid r rs m)
  have own: "frames_owned (shm_frames r @ region_frames rs) m" using 2(4) by simp
  then have tail: "frames_owned (region_frames rs) m" by (simp add: frames_owned_append)
  have av: "m_avail m \<subseteq> m_avail (release_many m_dealloc (shm_frames r) m)"
    using own by (subst fp.release_many_avail) (auto simp: frames_owned_def)
  show ?case
  proof (cases "shm_owner r = pid \<and> shm_ref_count r - 1 = 0")
    case True
    with 2(5) have "cleanup_regions pid rs (release_many m_dealloc (shm_frames r) m) = (rs', m')"
      by (simp add: Let_def)
    with 2(1) [OF _ refl _ frames_owned_release [OF own]] True av show ?thesis by auto
  next
    case False
    then obtain rs1 where "cleanup_regions pid rs m = (rs1, m')"
      using 2(5) by (auto simp: Let_def split: if_splits prod.splits)
    with 2(2) [OF _ refl _ tail] 2(3) [OF _ tail] False show ?thesis
      by (cases "shm_owner r = pid"; simp)+
  qed
qed simp

lemma cleanup_regions_frees:
  assumes "frames_owned (region_frames (rs @ [r])) m" "shm_owner r = pid" "shm_ref_count r \<le> 1"
    and "cleanup_regions pid (rs @ [r]) m = (rs', m')"
  shows "set (shm_frames r) \<subseteq> m_avail m'"
  using assms
proof (induction rs arbitrary: m rs')
  case Nil
  then have "m' = release_many m_dealloc (shm_frames r) m" by (auto simp: Let_def)
  moreover have "m_avail (release_many m_dealloc (shm_frames r) m) = m_avail m \<union> set (shm_frames r)"
    using Nil(1) by (intro fp.release_many_avail) (auto simp: frames_owned_def)
  ultimately show ?case by simp
next
  case (Cons r0 rs)
  have own: "frames_owned (shm_frames r0 @ region_frames (rs @ [r])) m" using Cons.prems(1) by simp
  then have tail: "frames_owned (region_frames (rs @ [r])) m" by (simp only: frames_owned_append)
  note freed = frames_owned_release [OF own]
  obtain rs1 where
    "cleanup_regions pid (rs @ [r]) m = (rs1, m') \<or>
     cleanup_regions pid (rs @ [r]) (release_many m_dealloc (shm_frames r0) m) = (rs1, m')"
    using Cons.prems(4) by (auto simp: Let_def split: if_splits prod.splits)
  then show ?case
    using Cons.IH [OF tail Cons.prems(2,3)] Cons.IH [OF freed Cons.prems(2,3)] by blast
qed

lemma one_page_create:
  assumes "shm_create 4096 pid s m = (Some rid, s1, m1)"
  shows "\<exists>f. m_alloc_zeroed m = Some (f, m1) \<and> shm_table s1 = shm_table s @
    [\<lparr>shm_id = rid, shm_frames = [f], shm_size = 4096, shm_ref_count = 0, shm_owner = pid,
      shm_owner_exited = False\<rparr>]"
proof -
  have "align_up 4096 = 4096" by (rule align_up_aligned) (simp add: page_aligned_def)
  then show ?thesis
    using assms by (auto simp: shm_create_def Let_def split: option.splits if_splits prod.splits)
qed

text \<open>
  C37: a region is freed under its users: when a process creates a region, another maps it, and
  the creator (which never mapped it) exits, the region's frame goes back to the free set while
  the other process's address space still translates to it.
\<close>

theorem shm_owner_exit_frees_mapped_frame:
  assumes "user_forest R m" "p \<in> R" "user_addr v" "page_aligned v" "shm_ok s m"
    and "shm_create 4096 owner s m = (Some rid, s1, m1)" "rid \<notin> shm_id ` set (shm_table s)"
    and "shm_map rid p v s1 m1 = Some (Inr sz, s2, m2)"
    and "shm_cleanup_process owner s2 m2 = (s3, m3)"
  shows "\<exists>f. get_mapped_frame p v m3 = Some f \<and> f \<in> m_avail m3"
proof -
  obtain f where a: "m_alloc_zeroed m = Some (f, m1)" and t1: "shm_table s1 = shm_table s @
      [\<lparr>shm_id = rid, shm_frames = [f], shm_size = 4096, shm_ref_count = 0, shm_owner = owner,
        shm_owner_exited = False\<rparr>]"
    using one_page_create [OF assms(6)] by blast
  let ?n = "length (shm_table s)"
  have idx: "shm_index s1 rid = Some ?n"
    unfolding shm_index_def find_range_Some using assms(7) by (auto simp: t1 nth_append)
  have vf: "valid_frame f" using zp.acq_Some [OF a] zp.avail_valid by blast
  have s2: "shm_table s2 = shm_table s @
      [\<lparr>shm_id = rid, shm_frames = [f], shm_size = 4096, shm_ref_count = 1, shm_owner = owner,
        shm_owner_exited = False\<rparr>]"
    and map: "map_page_in_table p v f (WRITABLE OR USER) m1 = Some m2"
    using assms(8) idx assms(4) by (auto simp: shm_map_def Let_def t1 nth_append split: option.splits)
  have "get_mapped_frame p v m2 = Some f"
    using map_page_isolation_at [OF alloc_keeps_spaces(1) [OF assms(1) a] assms(2,3)
        valid_frame_mappable [OF vf refl] map] assms(4) by (simp add: page_aligned_def)
  moreover have "shm_ok s2 m2"
    using shm_map_ok [OF shm_create_ok [OF assms(5,6)] assms(8)] .
  then have own: "frames_owned (region_frames (shm_table s2)) m2" by (simp add: shm_ok_def)
  obtain rs' where c: "cleanup_regions owner (shm_table s2) m2 = (rs', m3)"
    using assms(9) by (auto simp: shm_cleanup_process_def split: prod.splits)
  have "f \<in> m_avail m3"
    using cleanup_regions_frees [OF own [unfolded s2] _ _ c [unfolded s2]] by simp
  moreover have "get_mapped_frame p v m3 = get_mapped_frame p v m2"
    by (rule get_mapped_frame_mem_cong [OF cleanup_regions_mem [OF c]])
  ultimately show ?thesis by auto
qed

section \<open>Concrete runs\<close>

lemma shm_ok_new: "shm_ok shm_new m"
  by (simp add: shm_ok_def shm_new_def frames_owned_def)

lemma shm_operations_invariant_witness:
  "case shm_create 0x2000 5 shm_new small_machine of (r, s', m') \<Rightarrow> shm_ok s' m'"
  by (rule conjunct1 [OF shm_operations_invariant [OF shm_ok_new]])

lemma small_machine_create:
  "\<exists>s' m'. shm_create 4096 5 shm_new small_machine = (Some 1, s', m')"
proof -
  obtain r s' m' where c: "shm_create 4096 5 shm_new small_machine = (r, s', m')" by (metis prod_cases3)
  have au: "align_up 4096 = 4096" by (rule align_up_aligned) (simp add: page_aligned_def)
  have "r = Some 1"
    using c au by (auto simp: shm_create_def shm_new_def Let_def m_alloc_zeroed_def m_alloc_laws(1)
        small_machine_avail lessThan_empty_iff split: prod.splits option.splits if_splits)
  with c show ?thesis by blast
qed

lemma shm_create_all_or_nothing_witness:
  "\<exists>s' m'. shm_create 4096 5 shm_new small_machine = (Some 1, s', m') \<and> m_avail m' \<subset> m_avail small_machine"
proof -
  obtain s' m' where c: "shm_create 4096 5 shm_new small_machine = (Some 1, s', m')"
    using small_machine_create by blast
  have au: "align_up 4096 = 4096" by (rule align_up_aligned) (simp add: page_aligned_def)
  from shm_create_all_or_nothing [OF c] obtain fs where
    "length fs = 1" "set fs \<subseteq> m_avail small_machine" "m_avail m' = m_avail small_machine - set fs"
    by (auto simp: au)
  then have "m_avail m' \<subset> m_avail small_machine" by (cases fs) auto
  with c show ?thesis by blast
qed

lemma shm_owner_exit_frees_mapped_frame_witness:
  "\<exists>s1 m1 sz s2 m2 s3 m3 f.
     shm_create 4096 5 shm_new small_machine = (Some 1, s1, m1) \<and>
     shm_map 1 0x100000 0x400000 s1 m1 = Some (Inr sz, s2, m2) \<and>
     shm_cleanup_process 5 s2 m2 = (s3, m3) \<and>
     get_mapped_frame 0x100000 0x400000 m3 = Some f \<and> f \<in> m_avail m3"
proof -
  obtain s1 m1 where c: "shm_create 4096 5 shm_new small_machine = (Some 1, s1, m1)"
    using small_machine_create by blast
  obtain f where a: "m_alloc_zeroed small_machine = Some (f, m1)" and t1: "shm_table s1 =
      [\<lparr>shm_id = 1, shm_frames = [f], shm_size = 4096, shm_ref_count = 0, shm_owner = 5,
        shm_owner_exited = False\<rparr>]"
    using one_page_create [OF c] by (auto simp: shm_new_def)
  have "card (m_avail m1) = 7"
    using zp.acq_Some [OF a] card_small_machine zp.avail_finite [of small_machine] by simp
  then obtain m2 where m2: "map_frames 0x100000 (align_down 0x400000) [f] m1 = Some m2"
    using map_frames_progress [of "[f]" m1 "0x100000" "align_down 0x400000"] by auto
  have "shm_index s1 1 = Some 0" unfolding shm_index_def find_range_Some by (simp add: t1)
  then obtain s2 where map: "shm_map 1 0x100000 0x400000 s1 m1 = Some (Inr 4096, s2, m2)"
    using m2 by (simp add: shm_map_def t1)
  obtain s3 m3 where cl: "shm_cleanup_process 5 s2 m2 = (s3, m3)" by fastforce
  have "user_addr 0x400000" "page_aligned 0x400000" by code_simp+
  from shm_owner_exit_frees_mapped_frame [OF small_machine_forest(1) _ this shm_ok_new c _ map cl]
  obtain f' where "get_mapped_frame 0x100000 0x400000 m3 = Some f'" "f' \<in> m_avail m3"
    by (auto simp: shm_new_def)
  with c map cl show ?thesis by blast
qed

end
