(* ===== verification/Process.thy ===== *)
theory Process
  imports Address_Space Vma Format Ipc Shm Fat32
begin

text \<open>
  Processes and the kernel state: the table of 64 slots of \<^verbatim>\<open>kernel/src/process.rs\<close>, the record of
  all that the kernel's components keep, and the lookups and the listing of the table. A process
  id is a number; ids come from a counter and are never reused.
\<close>

section \<open>Data\<close>

abbreviation MAX_PROCESSES :: nat where "MAX_PROCESSES \<equiv> 64"
abbreviation KERNEL_STACK_SIZE :: u64 where "KERNEL_STACK_SIZE \<equiv> 16384"

datatype process_state = Empty | Ready | Running | Blocked | Dead

record interrupt_context =
  c_ds :: u64   c_es :: u64
  c_r15 :: u64  c_r14 :: u64  c_r13 :: u64  c_r12 :: u64
  c_r11 :: u64  c_r10 :: u64  c_r9 :: u64   c_r8 :: u64
  c_rdi :: u64  c_rsi :: u64  c_rbp :: u64  c_rbx :: u64
  c_rdx :: u64  c_rcx :: u64  c_rax :: u64
  c_int_num :: u64
  c_error_code :: u64
  c_rip :: u64
  c_cs :: u64
  c_rflags :: u64
  c_rsp :: u64
  c_ss :: u64

abbreviation CONTEXT_SIZE :: u64 where "CONTEXT_SIZE \<equiv> 192"

definition zero_context :: interrupt_context where
  "zero_context =
     \<lparr>c_ds = 0, c_es = 0, c_r15 = 0, c_r14 = 0, c_r13 = 0, c_r12 = 0, c_r11 = 0, c_r10 = 0,
      c_r9 = 0, c_r8 = 0, c_rdi = 0, c_rsi = 0, c_rbp = 0, c_rbx = 0, c_rdx = 0, c_rcx = 0,
      c_rax = 0, c_int_num = 0, c_error_code = 0, c_rip = 0, c_cs = 0, c_rflags = 0,
      c_rsp = 0, c_ss = 0\<rparr>"

text \<open>\<open>p_rsp\<close> is the saved \<^verbatim>\<open>context.rsp\<close>, the address of the saved interrupt context.\<close>

record process =
  p_pid :: nat
  p_state :: process_state
  p_rsp :: u64
  p_stack :: "u64 option"
  p_name :: bytes
  p_title :: bytes
  p_title_len :: nat
  p_pml4_phys :: u64
  p_kernel_stack_top :: u64
  p_vmas :: vma_list
  p_heap_break :: u64
  p_parent_pid :: nat
  p_exit_code :: "u64 option"
  p_waiting_for_pid :: "nat option"
  p_fd_table :: fd_table

definition process_empty :: process where
  "process_empty =
     \<lparr>p_pid = 0, p_state = Empty, p_rsp = 0, p_stack = None, p_name = [],
      p_title = replicate 16 0, p_title_len = 0, p_pml4_phys = 0, p_kernel_stack_top = 0,
      p_vmas = [], p_heap_break = 0, p_parent_pid = 0, p_exit_code = None,
      p_waiting_for_pid = None, p_fd_table = fd_table_new\<rparr>"

definition display_name :: "process \<Rightarrow> bytes" where
  "display_name p =
     (if p_title_len p > 0 then
        let t = take (p_title_len p) (p_title p) in if valid_utf8 t then t else p_name p
      else p_name p)"

type_synonym proc_table = "process option list"

text \<open>
  The kernel: the machine, the process table and its id counter, the saved interrupt contexts
  by address, the scheduler's variables, the boot page table, the stack pointer the CPU takes
  on entry from user mode, the message queues, shared memory, storage, and the console output.
\<close>

record 's kernel =
  k_mach :: machine
  k_procs :: proc_table
  k_next_pid :: nat
  k_ctxs :: "u64 \<Rightarrow> interrupt_context"
  k_current :: nat
  k_ticks :: u64
  k_idle_ctx :: u64
  k_kernel_pml4 :: u64
  k_tss_rsp0 :: u64
  k_queues :: "message_queue list"
  k_shm :: shm_state
  k_fs :: "'s storage"
  k_console :: bytes

section \<open>The table\<close>

definition slot_pid :: "process option \<Rightarrow> nat \<Rightarrow> bool" where
  "slot_pid sl pid = (case sl of None \<Rightarrow> False | Some p \<Rightarrow> p_pid p = pid)"

text \<open>\<^verbatim>\<open>get_process_mut\<close>: the index of the first slot of a process id.\<close>

definition proc_index :: "proc_table \<Rightarrow> nat \<Rightarrow> nat option" where
  "proc_index procs pid = find (\<lambda>i. slot_pid (procs ! i) pid) [0..<length procs]"

definition get_process :: "proc_table \<Rightarrow> nat \<Rightarrow> process option" where
  "get_process procs pid = (case proc_index procs pid of None \<Rightarrow> None | Some i \<Rightarrow> procs ! i)"

definition update_process :: "nat \<Rightarrow> (process \<Rightarrow> process) \<Rightarrow> proc_table \<Rightarrow> proc_table" where
  "update_process pid f procs =
     (case proc_index procs pid of
        None \<Rightarrow> procs
      | Some i \<Rightarrow> procs[i := map_option f (procs ! i)])"

definition slot_ready :: "process option \<Rightarrow> bool" where
  "slot_ready sl = (case sl of None \<Rightarrow> False | Some p \<Rightarrow> p_state p = Ready)"

definition next_ready :: "proc_table \<Rightarrow> nat \<Rightarrow> nat option" where
  "next_ready procs current_pid =
     (let start = (case proc_index procs current_pid of None \<Rightarrow> 0 | Some i \<Rightarrow> i + 1)
      in case find (\<lambda>off. slot_ready (procs ! ((start + off) mod MAX_PROCESSES))) [0..<MAX_PROCESSES] of
           None \<Rightarrow> None
         | Some off \<Rightarrow> map_option p_pid (procs ! ((start + off) mod MAX_PROCESSES)))"

text \<open>The first slot a new process may take: \<open>spawn\<close> takes unused ones, \<open>load_elf\<close> also empty ones.\<close>

definition free_slot :: "proc_table \<Rightarrow> nat option" where
  "free_slot procs = find (\<lambda>i. procs ! i = None) [0..<length procs]"

definition slot_reusable :: "process option \<Rightarrow> bool" where
  "slot_reusable sl = (case sl of None \<Rightarrow> True | Some p \<Rightarrow> p_state p = Empty)"

definition reusable_slot :: "proc_table \<Rightarrow> nat option" where
  "reusable_slot procs = find (\<lambda>i. slot_reusable (procs ! i)) [0..<length procs]"

definition make_title :: "bytes \<Rightarrow> bytes" where
  "make_title name = put (replicate 16 0) 0 (take 16 name)"

section \<open>The listing of \<^verbatim>\<open>ps\<close>\<close>

definition state_name :: "process_state \<Rightarrow> bytes" where
  "state_name st = (case st of
     Ready \<Rightarrow> ascii ''READY'' | Running \<Rightarrow> ascii ''RUNNING'' | Blocked \<Rightarrow> ascii ''BLOCKED''
   | Dead \<Rightarrow> ascii ''ZOMBIE'' | Empty \<Rightarrow> ascii ''EMPTY'')"

definition process_line :: "process \<Rightarrow> bytes" where
  "process_line p =
     pad_right 5 (decimal (p_pid p)) @ [0x20] @ pad_right 5 (decimal (p_parent_pid p)) @ [0x20] @
     pad_right 9 (state_name (p_state p)) @ [0x20] @ pad_right 5 (decimal (length (p_vmas p))) @ [0x20] @
     display_name p @ [0x0A]"

definition format_process_list :: "proc_table \<Rightarrow> bytes" where
  "format_process_list procs =
     ascii ''PID   PPID  STATE     VMAs  NAME'' @ [0x0A] @
     concat (map (\<lambda>sl. case sl of
        None \<Rightarrow> []
      | Some p \<Rightarrow> if p_state p \<noteq> Empty then process_line p else []) procs)"

section \<open>Well-formed tables\<close>

definition table_ok :: "proc_table \<Rightarrow> nat \<Rightarrow> bool" where
  "table_ok procs next_pid \<longleftrightarrow>
     length procs = MAX_PROCESSES \<and>
     (\<forall>i p. i < MAX_PROCESSES \<longrightarrow> procs ! i = Some p \<longrightarrow> 0 < p_pid p \<and> p_pid p < next_pid) \<and>
     (\<forall>i j p q. i < MAX_PROCESSES \<longrightarrow> j < MAX_PROCESSES \<longrightarrow> procs ! i = Some p \<longrightarrow> procs ! j = Some q \<longrightarrow>
        p_pid p = p_pid q \<longrightarrow> i = j)"

lemma table_okD:
  assumes "table_ok procs n"
  shows "length procs = MAX_PROCESSES"
    "i < MAX_PROCESSES \<Longrightarrow> procs ! i = Some p \<Longrightarrow> 0 < p_pid p \<and> p_pid p < n"
    "i < MAX_PROCESSES \<Longrightarrow> j < MAX_PROCESSES \<Longrightarrow> procs ! i = Some p \<Longrightarrow> procs ! j = Some q \<Longrightarrow>
       p_pid p = p_pid q \<Longrightarrow> i = j"
  using assms unfolding table_ok_def by blast+

lemma proc_index_Some:
  "proc_index procs pid = Some i \<Longrightarrow> i < length procs \<and> (\<exists>p. procs ! i = Some p \<and> p_pid p = pid)"
  unfolding proc_index_def find_range_Some by (auto simp: slot_pid_def split: option.splits)

lemma proc_index_None: "proc_index procs pid = None \<longleftrightarrow> (\<forall>i<length procs. \<not> slot_pid (procs ! i) pid)"
  unfolding proc_index_def find_range_None by auto

lemma proc_index_unique:
  assumes "table_ok procs n" "i < MAX_PROCESSES" "procs ! i = Some p"
  shows "proc_index procs (p_pid p) = Some i"
proof (cases "proc_index procs (p_pid p)")
  case None
  with assms show ?thesis by (auto simp: proc_index_None slot_pid_def table_ok_def)
next
  case (Some j)
  from proc_index_Some [OF this] obtain q where "j < length procs" "procs ! j = Some q" "p_pid q = p_pid p"
    by auto
  with assms table_okD(3) [OF assms(1), of j i q p] Some show ?thesis by (simp add: table_ok_def)
qed

lemma get_process_pid: "get_process procs pid = Some p \<Longrightarrow> p_pid p = pid"
  by (auto simp: get_process_def split: option.splits dest: proc_index_Some)

lemma update_process_same_pid:
  assumes "\<And>p. p_pid (f p) = p_pid p"
  shows "length (update_process pid f procs) = length procs"
    "map_option p_pid (update_process pid f procs ! i) = map_option p_pid (procs ! i)"
proof -
  show "length (update_process pid f procs) = length procs"
    by (simp add: update_process_def split: option.split)
  show "map_option p_pid (update_process pid f procs ! i) = map_option p_pid (procs ! i)"
  proof (cases "proc_index procs pid")
    case (Some j)
    then show ?thesis
      by (cases "i = j") (auto simp: update_process_def option.map_comp assms o_def
          nth_list_update dest!: proc_index_Some)
  qed (simp add: update_process_def)
qed

text \<open>Tables of the same ids are alike for every lookup.\<close>

definition same_pids :: "proc_table \<Rightarrow> proc_table \<Rightarrow> bool" where
  "same_pids procs procs' \<longleftrightarrow> map (map_option p_pid) procs' = map (map_option p_pid) procs"

lemma same_pids_nth:
  "same_pids procs procs' \<Longrightarrow> length procs' = length procs \<and>
   (i < length procs \<longrightarrow> map_option p_pid (procs' ! i) = map_option p_pid (procs ! i))"
  unfolding same_pids_def by (metis length_map nth_map)

lemma same_pids_refl [simp]: "same_pids procs procs"
  by (simp add: same_pids_def)

lemma same_pids_trans: "same_pids a b \<Longrightarrow> same_pids b c \<Longrightarrow> same_pids a c"
  by (simp add: same_pids_def)

lemma same_pids_update:
  "(\<And>p. p_pid (f p) = p_pid p) \<Longrightarrow> same_pids procs (update_process pid f procs)"
  unfolding same_pids_def by (rule nth_equalityI) (simp_all add: update_process_same_pid)

lemma slot_pid_map: "slot_pid sl pid \<longleftrightarrow> map_option p_pid sl = Some pid"
  by (cases sl) (auto simp: slot_pid_def)

lemma same_pids_index:
  assumes "same_pids procs procs'"
  shows "proc_index procs' pid = proc_index procs pid"
proof -
  have l: "length procs' = length procs" using same_pids_nth [OF assms] by simp
  have "find (\<lambda>i. slot_pid (procs' ! i) pid) [0..<length procs] =
      find (\<lambda>i. slot_pid (procs ! i) pid) [0..<length procs]"
    using same_pids_nth [OF assms] by (intro find_cong) (auto simp: slot_pid_map)
  then show ?thesis by (simp add: proc_index_def l)
qed

lemma same_pids_table_ok: "same_pids procs procs' \<Longrightarrow> table_ok procs n \<Longrightarrow> table_ok procs' n"
proof -
  assume s: "same_pids procs procs'" and t: "table_ok procs n"
  have old: "\<exists>q. procs ! i = Some q \<and> p_pid q = p_pid p" if "i < MAX_PROCESSES" "procs' ! i = Some p" for i p
    using same_pids_nth [OF s, of i] that t by (cases "procs ! i") (auto simp: table_ok_def)
  show "table_ok procs' n"
    unfolding table_ok_def
  proof (intro conjI allI impI)
    show "length procs' = MAX_PROCESSES" using same_pids_nth [OF s] t by (simp add: table_ok_def)
    fix i p assume i: "i < MAX_PROCESSES" "procs' ! i = Some p"
    from old [OF this] table_okD(2) [OF t i(1)] show "0 < p_pid p" "p_pid p < n" by auto
  next
    fix i j p q
    assume "i < MAX_PROCESSES" "j < MAX_PROCESSES" "procs' ! i = Some p" "procs' ! j = Some q" "p_pid p = p_pid q"
    with old table_okD(3) [OF t, of i j] show "i = j" by metis
  qed
qed

lemma table_ok_insert:
  assumes "table_ok procs n" "i < MAX_PROCESSES" "p_pid p = n" "0 < n"
  shows "table_ok (procs[i := Some p]) (n + 1)"
  using assms unfolding table_ok_def
  by (auto simp: nth_list_update less_Suc_eq split: if_splits)

end
