(* ===== verification/Scheduler.thy ===== *)
theory Scheduler
  imports Process
begin

text \<open>
  The scheduler, \<^verbatim>\<open>kernel/src/scheduler.rs\<close>, and message passing between processes, the rest of
  \<^verbatim>\<open>kernel/src/ipc.rs\<close>. The choice of the next process is round robin over the slots; the results
  are that at most the current process is marked running, that the CPU gets the chosen
  process's page table and kernel stack, and that no ready process waits more than 64 turns.
\<close>

section \<open>Scheduling\<close>

definition set_state :: "process_state \<Rightarrow> process \<Rightarrow> process" where
  "set_state st p = p\<lparr>p_state := st\<rparr>"

text \<open>The first part of \<^verbatim>\<open>schedule\<close>: the interrupted context is saved.\<close>

definition save_current :: "u64 \<Rightarrow> 's kernel \<Rightarrow> 's kernel" where
  "save_current ctx k =
     (if k_current k \<noteq> 0 then
        k\<lparr>k_procs := update_process (k_current k)
            (\<lambda>p. (if p_state p = Running then set_state Ready else (\<lambda>p. p)) (p\<lparr>p_rsp := ctx\<rparr>)) (k_procs k)\<rparr>
      else k\<lparr>k_idle_ctx := ctx\<rparr>)"

definition switch_cr3 :: "u64 \<Rightarrow> machine \<Rightarrow> machine" where
  "switch_cr3 pml4 m = (if cr3 m AND NOT 0xFFF \<noteq> pml4 then m\<lparr>cr3 := pml4\<rparr> else m)"

definition schedule :: "u64 \<Rightarrow> 's kernel \<Rightarrow> u64 \<times> 's kernel" where
  "schedule ctx k0 =
     (let old_pid = k_current k0;
          k1 = save_current ctx (k0\<lparr>k_ticks := k_ticks k0 + 1\<rparr>)
      in case next_ready (k_procs k1) old_pid of
           None \<Rightarrow> if old_pid = 0 then (ctx, k1) else (k_idle_ctx k1, k1\<lparr>k_current := 0\<rparr>)
         | Some next_pid \<Rightarrow>
             (case get_process (k_procs k1) next_pid of
                Some new \<Rightarrow>
                  (let pml4 = (if p_pml4_phys new \<noteq> 0 then p_pml4_phys new else k_kernel_pml4 k1)
                   in (p_rsp new,
                       k1\<lparr>k_procs := update_process next_pid (set_state Running) (k_procs k1),
                          k_current := next_pid,
                          k_mach := switch_cr3 pml4 (k_mach k1),
                          k_tss_rsp0 := p_kernel_stack_top new\<rparr>))
              | None \<Rightarrow>
                  (k_idle_ctx k1,
                   k1\<lparr>k_current := 0,
                      k_mach := switch_cr3 (k_kernel_pml4 k1) (k_mach k1),
                      k_tss_rsp0 := k_idle_ctx k1 + CONTEXT_SIZE\<rparr>)))"

definition block_current :: "'s kernel \<Rightarrow> 's kernel" where
  "block_current k =
     (if k_current k \<noteq> 0 then
        k\<lparr>k_procs := update_process (k_current k) (set_state Blocked) (k_procs k)\<rparr>
      else k)"

definition wake :: "process \<Rightarrow> process" where
  "wake p = (if p_state p = Blocked then set_state Ready p else p)"

definition unblock :: "nat \<Rightarrow> 's kernel \<Rightarrow> 's kernel" where
  "unblock pid k = k\<lparr>k_procs := update_process pid wake (k_procs k)\<rparr>"

section \<open>Messages\<close>

definition ipc_send :: "nat \<Rightarrow> u64 \<Rightarrow> u64 \<Rightarrow> u64 \<Rightarrow> u64 \<Rightarrow> u64 \<Rightarrow> u64 \<Rightarrow> u64 \<Rightarrow> 's kernel \<Rightarrow> bool \<times> 's kernel" where
  "ipc_send to_pid ty a1 a2 a3 a4 a5 a6 k =
     (let msg = \<lparr>sender = k_current k, msg_type = ty, arg1 = a1, arg2 = a2, arg3 = a3, arg4 = a4,
                 arg5 = a5, arg6 = a6\<rparr>
      in if to_pid = 0 \<or> to_pid \<ge> 64 then (False, k)
         else let (ok, q) = queue_push msg (k_queues k ! to_pid);
                  k1 = k\<lparr>k_queues := (k_queues k)[to_pid := q]\<rparr>
              in (ok, if ok then unblock to_pid k1 else k1))"

definition try_receive :: "'s kernel \<Rightarrow> message option \<times> 's kernel" where
  "try_receive k =
     (let pid = k_current k
      in if pid < 64 then
           let (r, q) = queue_pop (k_queues k ! pid) in (r, k\<lparr>k_queues := (k_queues k)[pid := q]\<rparr>)
         else (None, k))"

section \<open>One running process\<close>

definition running_is_current :: "'s kernel \<Rightarrow> bool" where
  "running_is_current k \<longleftrightarrow>
     (\<forall>i p. i < MAX_PROCESSES \<longrightarrow> k_procs k ! i = Some p \<longrightarrow> p_state p = Running \<longrightarrow> p_pid p = k_current k)"

definition kernel_ok :: "'s kernel \<Rightarrow> bool" where
  "kernel_ok k \<longleftrightarrow> table_ok (k_procs k) (k_next_pid k) \<and> running_is_current k"

lemma update_process_nth:
  assumes "table_ok procs n" "i < MAX_PROCESSES"
  shows "update_process pid f procs ! i =
    (case procs ! i of Some p \<Rightarrow> Some (if p_pid p = pid then f p else p) | None \<Rightarrow> None)"
proof (cases "proc_index procs pid")
  case None
  have "\<not> slot_pid (procs ! i) pid"
    using None [unfolded proc_index_None] assms(2) table_okD(1) [OF assms(1)] by simp
  with None show ?thesis by (auto simp: update_process_def slot_pid_def split: option.splits)
next
  case (Some j)
  from proc_index_Some [OF this] obtain q where q: "j < length procs" "procs ! j = Some q" "p_pid q = pid"
    by auto
  have "i = j" if "procs ! i = Some p" "p_pid p = pid" for p
    using table_okD(3) [OF assms(1,2), of j p q] that q table_okD(1) [OF assms(1)] by simp
  with Some q show ?thesis
    by (auto simp: update_process_def nth_list_update split: option.splits)
qed

lemma set_state_fields [simp]:
  "p_pid (set_state st p) = p_pid p" "p_state (set_state st p) = st"
  "p_rsp (set_state st p) = p_rsp p" "p_pml4_phys (set_state st p) = p_pml4_phys p"
  "p_kernel_stack_top (set_state st p) = p_kernel_stack_top p"
  by (simp_all add: set_state_def)

lemma wake_fields [simp]: "p_pid (wake p) = p_pid p"
  "p_state (wake p) = (if p_state p = Blocked then Ready else p_state p)"
  by (simp_all add: wake_def)

lemma save_current_fields:
  "k_current (save_current ctx k) = k_current k" "k_next_pid (save_current ctx k) = k_next_pid k"
  "k_mach (save_current ctx k) = k_mach k" "k_kernel_pml4 (save_current ctx k) = k_kernel_pml4 k"
  "same_pids (k_procs k) (k_procs (save_current ctx k))"
  by (auto simp: save_current_def intro!: same_pids_update)

lemma save_current_states:
  assumes "table_ok (k_procs k) n" "i < MAX_PROCESSES" "k_procs (save_current ctx k) ! i = Some p"
  shows "\<exists>q. k_procs k ! i = Some q \<and> p_pid p = p_pid q \<and>
    p_state p = (if k_current k \<noteq> 0 \<and> p_pid q = k_current k \<and> p_state q = Running then Ready else p_state q)"
  using assms(3) update_process_nth [OF assms(1,2)]
  by (auto simp: save_current_def split: if_splits option.splits)

text \<open>After saving, no process is marked running.\<close>

lemma save_current_none_running:
  assumes "kernel_ok k" "i < MAX_PROCESSES" "k_procs (save_current ctx k) ! i = Some p"
  shows "p_state p \<noteq> Running"
proof -
  have t: "table_ok (k_procs k) (k_next_pid k)" and r: "running_is_current k"
    using assms(1) by (simp_all add: kernel_ok_def)
  from save_current_states [OF t assms(2,3)] obtain q where
    q: "k_procs k ! i = Some q" "p_pid p = p_pid q"
      "p_state p = (if k_current k \<noteq> 0 \<and> p_pid q = k_current k \<and> p_state q = Running then Ready else p_state q)"
    by blast
  moreover have "p_state q = Running \<Longrightarrow> p_pid q = k_current k"
    using r assms(2) q(1) by (simp add: running_is_current_def)
  moreover have "0 < p_pid q" using table_okD(2) [OF t assms(2) q(1)] by simp
  ultimately show ?thesis by auto
qed

lemma next_ready_Some:
  assumes "length procs = MAX_PROCESSES" "next_ready procs cur = Some pid"
  shows "\<exists>off<MAX_PROCESSES. \<exists>p.
    procs ! (((case proc_index procs cur of None \<Rightarrow> 0 | Some i \<Rightarrow> i + 1) + off) mod MAX_PROCESSES) = Some p \<and>
    p_state p = Ready \<and> p_pid p = pid \<and>
    (\<forall>o'<off. \<not> slot_ready (procs ! (((case proc_index procs cur of None \<Rightarrow> 0 | Some i \<Rightarrow> i + 1) + o') mod MAX_PROCESSES)))"
proof -
  let ?start = "case proc_index procs cur of None \<Rightarrow> 0 | Some i \<Rightarrow> i + 1"
  obtain off where off: "find (\<lambda>off. slot_ready (procs ! ((?start + off) mod MAX_PROCESSES))) [0..<MAX_PROCESSES] = Some off"
    and pid: "map_option p_pid (procs ! ((?start + off) mod MAX_PROCESSES)) = Some pid"
    using assms(2) unfolding next_ready_def Let_def by (auto split: option.splits)
  from off [unfolded find_range_Some] have
    "off < MAX_PROCESSES" "slot_ready (procs ! ((?start + off) mod MAX_PROCESSES))"
    "\<forall>o'<off. \<not> slot_ready (procs ! ((?start + o') mod MAX_PROCESSES))" by auto
  with pid show ?thesis
    by (intro exI [of _ off]) (auto simp: slot_ready_def split: option.splits)
qed

lemma next_ready_None:
  assumes "next_ready procs cur = None" "i < MAX_PROCESSES"
  shows "\<not> slot_ready (procs ! i)"
proof -
  let ?start = "case proc_index procs cur of None \<Rightarrow> 0 | Some i \<Rightarrow> i + 1"
  have none: "find (\<lambda>off. slot_ready (procs ! ((?start + off) mod MAX_PROCESSES))) [0..<MAX_PROCESSES] = None"
  proof (rule ccontr)
    assume "find (\<lambda>off. slot_ready (procs ! ((?start + off) mod MAX_PROCESSES))) [0..<MAX_PROCESSES] \<noteq> None"
    then obtain off where off: "find (\<lambda>off. slot_ready (procs ! ((?start + off) mod MAX_PROCESSES))) [0..<MAX_PROCESSES] = Some off"
      by blast
    then have "slot_ready (procs ! ((?start + off) mod MAX_PROCESSES))" unfolding find_range_Some by blast
    with off assms(1) show False
      unfolding next_ready_def Let_def by (auto simp: slot_ready_def split: option.splits)
  qed
  have "(?start + (i + MAX_PROCESSES - ?start mod MAX_PROCESSES) mod MAX_PROCESSES) mod MAX_PROCESSES = i"
  proof -
    have "(?start + (i + MAX_PROCESSES - ?start mod MAX_PROCESSES) mod MAX_PROCESSES) mod MAX_PROCESSES
        = (?start mod MAX_PROCESSES + (i + MAX_PROCESSES - ?start mod MAX_PROCESSES)) mod MAX_PROCESSES"
      by (simp only: mod_add_left_eq mod_add_right_eq)
    also have "?start mod MAX_PROCESSES + (i + MAX_PROCESSES - ?start mod MAX_PROCESSES) = i + MAX_PROCESSES"
      using mod_less_divisor [of MAX_PROCESSES ?start] by linarith
    finally show ?thesis using assms(2) by simp
  qed
  moreover have "(i + MAX_PROCESSES - ?start mod MAX_PROCESSES) mod MAX_PROCESSES < MAX_PROCESSES" by simp
  ultimately show ?thesis using none [unfolded find_range_None] by (metis zero_le)
qed

text \<open>What one call of \<^verbatim>\<open>schedule\<close> does, by whether a process is ready.\<close>

lemma schedule_cases:
  assumes ok: "kernel_ok k" and s: "schedule ctx k = (r, k')"
  shows "(\<exists>i p. i < MAX_PROCESSES \<and> k_procs (save_current ctx k) ! i = Some p \<and> p_state p = Ready \<and>
      next_ready (k_procs (save_current ctx k)) (k_current k) = Some (p_pid p) \<and> r = p_rsp p \<and>
      k_current k' = p_pid p \<and> k_tss_rsp0 k' = p_kernel_stack_top p \<and>
      k_mach k' = switch_cr3 (if p_pml4_phys p \<noteq> 0 then p_pml4_phys p else k_kernel_pml4 k) (k_mach k) \<and>
      k_procs k' = update_process (p_pid p) (set_state Running) (k_procs (save_current ctx k)) \<and>
      k_next_pid k' = k_next_pid k) \<or>
    ((\<forall>i<MAX_PROCESSES. \<not> slot_ready (k_procs (save_current ctx k) ! i)) \<and>
      k_current k' = 0 \<and> k_procs k' = k_procs (save_current ctx k) \<and> k_next_pid k' = k_next_pid k \<and>
      k_mach k' = k_mach k \<and> r = (if k_current k = 0 then ctx else k_idle_ctx k))"
proof -
  have t: "table_ok (k_procs k) (k_next_pid k)" using ok by (simp add: kernel_ok_def)
  let ?k1 = "save_current ctx k"
  have sv: "k_procs (save_current ctx (k\<lparr>k_ticks := k_ticks k + 1\<rparr>)) = k_procs ?k1"
    "k_current (save_current ctx (k\<lparr>k_ticks := k_ticks k + 1\<rparr>)) = k_current k"
    "k_mach (save_current ctx (k\<lparr>k_ticks := k_ticks k + 1\<rparr>)) = k_mach k"
    "k_next_pid (save_current ctx (k\<lparr>k_ticks := k_ticks k + 1\<rparr>)) = k_next_pid k"
    "k_kernel_pml4 (save_current ctx (k\<lparr>k_ticks := k_ticks k + 1\<rparr>)) = k_kernel_pml4 k"
    "k_current k \<noteq> 0 \<Longrightarrow> k_idle_ctx (save_current ctx (k\<lparr>k_ticks := k_ticks k + 1\<rparr>)) = k_idle_ctx k"
    by (simp_all add: save_current_def)
  have t1: "table_ok (k_procs ?k1) (k_next_pid k)"
    using same_pids_table_ok [OF save_current_fields(5) t] .
  show ?thesis
  proof (cases "next_ready (k_procs ?k1) (k_current k)")
    case None
    then show ?thesis
      using s next_ready_None [OF None] sv
      by (intro disjI2) (simp add: schedule_def Let_def split: if_splits; fastforce)
  next
    case (Some pid)
    from next_ready_Some [OF table_okD(1) [OF t1] this] obtain i p where
      p: "i < MAX_PROCESSES" "k_procs ?k1 ! i = Some p" "p_state p = Ready" "p_pid p = pid"
      using mod_less_divisor [of MAX_PROCESSES] by (metis zero_less_numeral)
    have g: "get_process (k_procs ?k1) pid = Some p"
      using proc_index_unique [OF t1 p(1,2)] p(2,4) by (simp add: get_process_def)
    show ?thesis
      using s Some g p by (intro disjI1 exI [of _ i] exI [of _ p]) (auto simp: schedule_def Let_def sv)
  qed
qed

lemma switch_cr3_pml4: "page_aligned pml4 \<Longrightarrow> get_pml4 (switch_cr3 pml4 m) = pml4"
  using align_down_aligned [of pml4] unfolding switch_cr3_def get_pml4_def align_down_def by simp

lemma states_ok:
  assumes "table_ok procs n"
    and "\<And>i p. i < MAX_PROCESSES \<Longrightarrow> procs ! i = Some p \<Longrightarrow> p_state p = Running \<Longrightarrow> p_pid p = k_current k"
    and "k_procs k = procs" "k_next_pid k = n"
  shows "kernel_ok k"
  using assms by (auto simp: kernel_ok_def running_is_current_def)

lemma schedule_kernel_ok:
  assumes ok: "kernel_ok k" and s: "schedule ctx k = (r, k')"
  shows "kernel_ok k'"
proof -
  have t: "table_ok (k_procs k) (k_next_pid k)" using ok by (simp add: kernel_ok_def)
  have t1: "table_ok (k_procs (save_current ctx k)) (k_next_pid k)"
    using same_pids_table_ok [OF save_current_fields(5) t] .
  from schedule_cases [OF ok s] show ?thesis
  proof (elim disjE exE conjE)
    fix i p
    assume c: "k_current k' = p_pid p" "k_next_pid k' = k_next_pid k"
      and pr: "k_procs k' = update_process (p_pid p) (set_state Running) (k_procs (save_current ctx k))"
    have "same_pids (k_procs (save_current ctx k)) (k_procs k')"
      unfolding pr by (intro same_pids_update) simp
    from same_pids_table_ok [OF this t1] show ?thesis
    proof (rule states_ok [OF _ _ refl c(2)])
      fix i q assume q: "i < MAX_PROCESSES" "k_procs k' ! i = Some q" "p_state q = Running"
      then show "p_pid q = k_current k'"
        using save_current_none_running [OF ok q(1)]
        by (auto simp: pr update_process_nth [OF t1 q(1)] c(1) split: option.splits if_splits)
    qed
  next
    assume none: "k_procs k' = k_procs (save_current ctx k)" "k_next_pid k' = k_next_pid k"
    from t1 show ?thesis
      by (rule states_ok [OF _ _ none]) (use save_current_none_running [OF ok] in blast)
  qed
qed

lemma schedule_current:
  assumes "kernel_ok k" "schedule ctx k = (r, k')"
  shows "kernel_ok k' \<and>
    (if k_current k' = 0 then \<forall>i. i < MAX_PROCESSES \<longrightarrow> \<not> slot_ready (k_procs k' ! i)
     else \<exists>p. get_process (k_procs k') (k_current k') = Some p \<and> p_state p = Running \<and> r = p_rsp p \<and>
       k_tss_rsp0 k' = p_kernel_stack_top p \<and>
       k_mach k' = switch_cr3 (if p_pml4_phys p \<noteq> 0 then p_pml4_phys p else k_kernel_pml4 k) (k_mach k))"
proof -
  have ok': "kernel_ok k'" by (rule schedule_kernel_ok [OF assms])
  have t: "table_ok (k_procs k) (k_next_pid k)" and t': "table_ok (k_procs k') (k_next_pid k')"
    using assms(1) ok' by (simp_all add: kernel_ok_def)
  have t1: "table_ok (k_procs (save_current ctx k)) (k_next_pid k)"
    using same_pids_table_ok [OF save_current_fields(5) t] .
  from schedule_cases [OF assms] show ?thesis
  proof (elim disjE exE conjE)
    fix i p
    assume i: "i < MAX_PROCESSES" "k_procs (save_current ctx k) ! i = Some p" "r = p_rsp p"
      and c: "k_current k' = p_pid p" "k_tss_rsp0 k' = p_kernel_stack_top p"
        "k_mach k' = switch_cr3 (if p_pml4_phys p \<noteq> 0 then p_pml4_phys p else k_kernel_pml4 k) (k_mach k)"
      and pr: "k_procs k' = update_process (p_pid p) (set_state Running) (k_procs (save_current ctx k))"
    have slot: "k_procs k' ! i = Some (set_state Running p)"
      by (simp add: pr update_process_nth [OF t1 i(1)] i(2))
    have "get_process (k_procs k') (k_current k') = Some (set_state Running p)"
      using proc_index_unique [OF t' i(1) slot] slot c(1) by (simp add: get_process_def)
    moreover have "k_current k' \<noteq> 0" using table_okD(2) [OF t1 i(1,2)] c(1) by simp
    ultimately show ?thesis using ok' i(3) c by simp
  next
    assume "\<forall>i<MAX_PROCESSES. \<not> slot_ready (k_procs (save_current ctx k) ! i)" "k_current k' = 0"
      "k_procs k' = k_procs (save_current ctx k)"
    with ok' show ?thesis by simp
  qed
qed

text \<open>
  C6: after a scheduling decision exactly the process that gets the CPU is marked running, the
  CPU has its saved context, its page table (or the kernel's) and its kernel stack; the idle
  loop runs only when no process is ready.
\<close>

theorem schedule_switches:
  assumes "kernel_ok k" "schedule ctx k = (r, k')"
  shows "kernel_ok k' \<and>
    (if k_current k' = 0 then \<forall>i. i < MAX_PROCESSES \<longrightarrow> \<not> slot_ready (k_procs k' ! i)
     else \<exists>p. get_process (k_procs k') (k_current k') = Some p \<and> p_state p = Running \<and> r = p_rsp p \<and>
       k_tss_rsp0 k' = p_kernel_stack_top p \<and>
       k_mach k' = switch_cr3 (if p_pml4_phys p \<noteq> 0 then p_pml4_phys p else k_kernel_pml4 k) (k_mach k))"
  by (rule schedule_current [OF assms])

section \<open>Round robin is fair\<close>

definition gap :: "nat \<Rightarrow> nat \<Rightarrow> nat" where
  "gap start j = (j + MAX_PROCESSES - start mod MAX_PROCESSES) mod MAX_PROCESSES"

lemma gap_lt [simp]: "gap start j < MAX_PROCESSES"
  by (simp add: gap_def)

lemma gap_reaches: "j < MAX_PROCESSES \<Longrightarrow> (start + gap start j) mod MAX_PROCESSES = j"
proof -
  assume j: "j < MAX_PROCESSES"
  have "(start + gap start j) mod MAX_PROCESSES
      = (start mod MAX_PROCESSES + (j + MAX_PROCESSES - start mod MAX_PROCESSES)) mod MAX_PROCESSES"
    by (simp only: gap_def mod_add_left_eq mod_add_right_eq)
  also have "start mod MAX_PROCESSES + (j + MAX_PROCESSES - start mod MAX_PROCESSES) = j + MAX_PROCESSES"
    using mod_less_divisor [of MAX_PROCESSES start] by linarith
  finally show ?thesis using j by simp
qed

lemma gap_unique:
  assumes "j < MAX_PROCESSES" "d < MAX_PROCESSES" "(start + d) mod MAX_PROCESSES = j"
  shows "gap start j = d"
proof -
  define u where "u = start mod MAX_PROCESSES"
  have u: "u < MAX_PROCESSES" by (simp add: u_def)
  have "(u + d) mod MAX_PROCESSES = j"
    unfolding u_def using assms(3) by (simp only: mod_add_left_eq)
  moreover have "(u + d) mod MAX_PROCESSES = u + d - (if u + d < MAX_PROCESSES then 0 else MAX_PROCESSES)"
    using u assms(2) by (simp add: le_mod_geq)
  ultimately have "j = u + d \<or> j + MAX_PROCESSES = u + d" by (auto split: if_splits)
  then have "j + MAX_PROCESSES - u = d + MAX_PROCESSES \<or> j + MAX_PROCESSES - u = d" by linarith
  then show ?thesis
    unfolding gap_def u_def [symmetric] using assms(2) by (elim disjE) simp_all
qed

definition turn_start :: "proc_table \<Rightarrow> nat \<Rightarrow> nat" where
  "turn_start procs cur = (case proc_index procs cur of None \<Rightarrow> 0 | Some i \<Rightarrow> i + 1)"

text \<open>The turns slot \<open>j\<close> has to wait at most.\<close>

definition waiting :: "'s kernel \<Rightarrow> nat \<Rightarrow> nat" where
  "waiting k j = gap (turn_start (k_procs k) (k_current k)) j"

lemma schedule_approaches:
  assumes ok: "kernel_ok k" and j: "j < MAX_PROCESSES" "k_procs k ! j = Some p" "p_state p = Ready"
    and s: "schedule ctx k = (r, k')"
  shows "k_current k' = p_pid p \<or> waiting k' j < waiting k j"
proof -
  let ?procs = "k_procs (save_current ctx k)"
  have t: "table_ok (k_procs k) (k_next_pid k)" using ok by (simp add: kernel_ok_def)
  have t1: "table_ok ?procs (k_next_pid k)" using same_pids_table_ok [OF save_current_fields(5) t] .
  have start: "turn_start ?procs (k_current k) = turn_start (k_procs k) (k_current k)"
    using same_pids_index [OF save_current_fields(5) [of k ctx]] by (simp add: turn_start_def)
  obtain pj where pj: "?procs ! j = Some pj" "p_pid pj = p_pid p"
    using same_pids_nth [OF save_current_fields(5) [of k ctx], of j] j t by (auto simp: table_ok_def)
  have "p_state pj = Ready"
    using save_current_states [OF t j(1) pj(1)] j(2,3) by auto
  then have ready: "slot_ready (?procs ! j)" by (simp add: slot_ready_def pj(1))
  from schedule_cases [OF ok s] show ?thesis
  proof (elim disjE exE conjE)
    fix i q
    assume i: "i < MAX_PROCESSES" "?procs ! i = Some q"
      and nr: "next_ready ?procs (k_current k) = Some (p_pid q)" and c: "k_current k' = p_pid q"
      and pr: "k_procs k' = update_process (p_pid q) (set_state Running) ?procs"
    let ?w = "waiting k j"
    have wj: "(turn_start ?procs (k_current k) + ?w) mod MAX_PROCESSES = j"
      unfolding waiting_def start by (rule gap_reaches [OF j(1)])
    from next_ready_Some [OF table_okD(1) [OF t1] nr] obtain off q' where
      off: "off < MAX_PROCESSES" "?procs ! ((turn_start ?procs (k_current k) + off) mod MAX_PROCESSES) = Some q'"
        "p_pid q' = p_pid q"
        "\<forall>o'<off. \<not> slot_ready (?procs ! ((turn_start ?procs (k_current k) + o') mod MAX_PROCESSES))"
      unfolding turn_start_def by blast
    have iq: "i = (turn_start ?procs (k_current k) + off) mod MAX_PROCESSES"
      using table_okD(3) [OF t1 i(1) _ i(2) off(2)] off(3) by simp
    have "\<not> ?w < off" using off(4) wj ready by metis
    show ?thesis
    proof (cases "off = ?w")
      case True
      then have "i = j" using iq wj by simp
      then show ?thesis using i(2) pj c by simp
    next
      case False
      with \<open>\<not> ?w < off\<close> have lt: "off < ?w" by simp
      have sp: "same_pids ?procs (k_procs k')" unfolding pr by (intro same_pids_update) simp
      have "proc_index (k_procs k') (k_current k') = Some i"
        using same_pids_index [OF sp] proc_index_unique [OF t1 i] c by simp
      then have st: "turn_start (k_procs k') (k_current k') = i + 1" by (simp add: turn_start_def)
      have "(i + 1 + (?w - off - 1)) mod MAX_PROCESSES
          = (turn_start ?procs (k_current k) + off + (1 + (?w - off - 1))) mod MAX_PROCESSES"
        unfolding iq by (simp only: add.assoc mod_add_left_eq)
      also have "turn_start ?procs (k_current k) + off + (1 + (?w - off - 1)) = turn_start ?procs (k_current k) + ?w"
        using lt by simp
      finally have "(i + 1 + (?w - off - 1)) mod MAX_PROCESSES = j" using wj by simp
      moreover have "?w < MAX_PROCESSES" by (simp add: waiting_def)
      ultimately have "waiting k' j = ?w - off - 1"
        unfolding waiting_def [of k'] st by (intro gap_unique [OF j(1)]) auto
      with lt show ?thesis by simp
    qed
  next
    assume "\<forall>i<MAX_PROCESSES. \<not> slot_ready (?procs ! i)"
    with ready j(1) show ?thesis by blast
  qed
qed

text \<open>
  C8: no ready process starves. Between scheduling decisions anything may happen to the kernel
  (system calls, interrupts, new and exiting processes) as long as the process that had the
  CPU keeps its slot; a process that stays ready until it is chosen gets the CPU within 64
  decisions.
\<close>

theorem no_starvation:
  fixes ks es :: "nat \<Rightarrow> 's kernel"
  assumes "\<And>n. kernel_ok (es n)" "\<And>n. ks (Suc n) = snd (schedule (ctx n) (es n))"
    and "\<And>n. k_current (es n) = k_current (ks n)"
    and "\<And>n. proc_index (k_procs (es n)) (k_current (ks n)) = proc_index (k_procs (ks n)) (k_current (ks n))"
    and "j < MAX_PROCESSES"
    and "\<And>n. (\<forall>i. 0 < i \<longrightarrow> i \<le> n \<longrightarrow> k_current (ks i) \<noteq> pid) \<Longrightarrow>
      \<exists>p. k_procs (es n) ! j = Some p \<and> p_pid p = pid \<and> p_state p = Ready"
  shows "\<exists>n. 0 < n \<and> n \<le> MAX_PROCESSES \<and> k_current (ks n) = pid"
proof (rule ccontr)
  assume "\<not> ?thesis"
  then have never: "\<And>n. 0 < n \<Longrightarrow> n \<le> MAX_PROCESSES \<Longrightarrow> k_current (ks n) \<noteq> pid" by blast
  have same: "waiting (es n) j = waiting (ks n) j" for n
    by (simp add: waiting_def turn_start_def assms(3,4))
  have "n \<le> MAX_PROCESSES \<Longrightarrow> waiting (ks n) j + n \<le> waiting (ks 0) j" for n
  proof (induction n)
    case (Suc n)
    have "\<forall>i. 0 < i \<longrightarrow> i \<le> n \<longrightarrow> k_current (ks i) \<noteq> pid" using never Suc.prems by auto
    from assms(6) [OF this] obtain p where
      p: "k_procs (es n) ! j = Some p" "p_pid p = pid" "p_state p = Ready" by blast
    obtain r k' where s: "schedule (ctx n) (es n) = (r, k')" by fastforce
    have "ks (Suc n) = k'" using assms(2) [of n] s by simp
    moreover have "k_current k' \<noteq> pid" using never [of "Suc n"] Suc.prems calculation by simp
    ultimately have "waiting (ks (Suc n)) j < waiting (es n) j"
      using schedule_approaches [OF assms(1,5) p(1,3) s] p(2) by simp
    with Suc same [of n] show ?case by simp
  qed simp
  from this [of MAX_PROCESSES] have "waiting (ks 0) j \<ge> MAX_PROCESSES" by simp
  moreover have "waiting (ks 0) j < MAX_PROCESSES" by (simp add: waiting_def)
  ultimately show False by simp
qed

lemma schedule_keeps_ready:
  assumes ok: "kernel_ok k" and j: "j < MAX_PROCESSES" "k_procs k ! j = Some p" "p_state p = Ready"
    and s: "schedule ctx k = (r, k')" and other: "k_current k' \<noteq> p_pid p"
  shows "\<exists>q. k_procs k' ! j = Some q \<and> p_pid q = p_pid p \<and> p_state q = Ready"
proof -
  let ?procs = "k_procs (save_current ctx k)"
  have t: "table_ok (k_procs k) (k_next_pid k)" using ok by (simp add: kernel_ok_def)
  have t1: "table_ok ?procs (k_next_pid k)" using same_pids_table_ok [OF save_current_fields(5) t] .
  obtain pj where pj: "?procs ! j = Some pj" "p_pid pj = p_pid p"
    using same_pids_nth [OF save_current_fields(5) [of k ctx], of j] j t by (auto simp: table_ok_def)
  have "p_state pj = Ready" using save_current_states [OF t j(1) pj(1)] j(2,3) by auto
  with schedule_cases [OF ok s] pj other show ?thesis
    by (auto simp: update_process_nth [OF t1 j(1)])
qed

section \<open>Blocking, waking and messages\<close>

lemma update_process_kernel_ok:
  assumes "kernel_ok k" "\<And>p. p_pid (f p) = p_pid p" "\<And>p. p_state (f p) = Running \<Longrightarrow> p_state p = Running"
    and "k_procs k' = update_process pid f (k_procs k)" "k_next_pid k' = k_next_pid k" "k_current k' = k_current k"
  shows "kernel_ok k'"
proof -
  have t: "table_ok (k_procs k) (k_next_pid k)" using assms(1) by (simp add: kernel_ok_def)
  have "table_ok (k_procs k') (k_next_pid k)"
    unfolding assms(4) by (rule same_pids_table_ok [OF same_pids_update [OF assms(2)] t])
  moreover have "p_pid q = k_current k'"
    if q: "i < MAX_PROCESSES" "k_procs k' ! i = Some q" "p_state q = Running" for i q
  proof -
    obtain p where p: "k_procs k ! i = Some p" "q = p \<or> q = f p"
      using q(2) by (auto simp: assms(4) update_process_nth [OF t q(1)] split: option.splits if_splits)
    then have "p_state p = Running" using q(3) assms(3) by auto
    then have "p_pid p = k_current k"
      using assms(1) p(1) q(1) by (simp add: kernel_ok_def running_is_current_def)
    with p(2) show ?thesis using assms(2,6) by auto
  qed
  ultimately show ?thesis using states_ok assms(5) by metis
qed

lemma block_current_ok: "kernel_ok k \<Longrightarrow> kernel_ok (block_current k)"
  by (cases "k_current k = 0")
    (auto simp: block_current_def intro: update_process_kernel_ok [where f = "set_state Blocked"])

lemma unblock_ok: "kernel_ok k \<Longrightarrow> kernel_ok (unblock pid k)"
  by (rule update_process_kernel_ok [where f = wake]) (auto simp: unblock_def split: if_splits)

definition queues_ok :: "'s kernel \<Rightarrow> bool" where
  "queues_ok k \<longleftrightarrow> length (k_queues k) = 64 \<and> (\<forall>i<64. queue_inv (k_queues k ! i))"

lemma queues_ok_update:
  "queues_ok k \<Longrightarrow> queue_inv q \<Longrightarrow> queues_ok (k\<lparr>k_queues := (k_queues k)[i := q]\<rparr>)"
  unfolding queues_ok_def by (simp, metis nth_list_update_eq nth_list_update_neq)

definition mailbox_of :: "'s kernel \<Rightarrow> nat \<Rightarrow> message list" where
  "mailbox_of k pid = queue_contents (k_queues k ! pid)"

lemma send_receive_spec:
  assumes "kernel_ok k" "queues_ok k" "pid' < 64"
  shows "(case ipc_send to_pid ty a1 a2 a3 a4 a5 a6 k of (ok, k') \<Rightarrow>
      kernel_ok k' \<and> queues_ok k' \<and>
      (if to_pid = 0 \<or> to_pid \<ge> 64 then \<not> ok \<and> k' = k
       else (ok, mailbox_of k' to_pid) = spec_push \<lparr>sender = k_current k, msg_type = ty, arg1 = a1,
              arg2 = a2, arg3 = a3, arg4 = a4, arg5 = a5, arg6 = a6\<rparr> (mailbox_of k to_pid) \<and>
            (pid' \<noteq> to_pid \<longrightarrow> mailbox_of k' pid' = mailbox_of k pid') \<and>
            (ok \<longrightarrow> k_procs k' = update_process to_pid wake (k_procs k)))) \<and>
    (case try_receive k of (r, k') \<Rightarrow>
      kernel_ok k' \<and> queues_ok k' \<and> k_procs k' = k_procs k \<and>
      (if k_current k < 64 then (r, mailbox_of k' (k_current k)) = spec_pop (mailbox_of k (k_current k))
       else r = None \<and> k' = k) \<and>
      (pid' \<noteq> k_current k \<longrightarrow> mailbox_of k' pid' = mailbox_of k pid'))"
proof (intro conjI)
  let ?msg = "\<lparr>sender = k_current k, msg_type = ty, arg1 = a1, arg2 = a2, arg3 = a3, arg4 = a4,
    arg5 = a5, arg6 = a6\<rparr>"
  show "case ipc_send to_pid ty a1 a2 a3 a4 a5 a6 k of (ok, k') \<Rightarrow>
      kernel_ok k' \<and> queues_ok k' \<and>
      (if to_pid = 0 \<or> to_pid \<ge> 64 then \<not> ok \<and> k' = k
       else (ok, mailbox_of k' to_pid) = spec_push ?msg (mailbox_of k to_pid) \<and>
            (pid' \<noteq> to_pid \<longrightarrow> mailbox_of k' pid' = mailbox_of k pid') \<and>
            (ok \<longrightarrow> k_procs k' = update_process to_pid wake (k_procs k)))"
  proof (cases "to_pid = 0 \<or> to_pid \<ge> 64")
    case True
    with assms show ?thesis by (simp add: ipc_send_def)
  next
    case False
    obtain ok q where p: "queue_push ?msg (k_queues k ! to_pid) = (ok, q)" by fastforce
    let ?k1 = "k\<lparr>k_queues := (k_queues k)[to_pid := q]\<rparr>"
    have s: "ipc_send to_pid ty a1 a2 a3 a4 a5 a6 k = (ok, if ok then unblock to_pid ?k1 else ?k1)"
      using False p by (simp add: ipc_send_def)
    have inv: "queue_inv (k_queues k ! to_pid)" using assms(2) False by (simp add: queues_ok_def)
    have len: "to_pid < length (k_queues k)" using assms(2) False by (simp add: queues_ok_def)
    have k1: "kernel_ok ?k1" "queues_ok ?k1"
      using assms(1) ring.push_spec [OF inv p] queues_ok_update [OF assms(2)]
      by (auto simp: kernel_ok_def running_is_current_def)
    have u: "queues_ok (unblock to_pid ?k1) = queues_ok ?k1"
      "mailbox_of (unblock to_pid ?k1) i = mailbox_of ?k1 i" for i
      by (simp_all add: queues_ok_def mailbox_of_def unblock_def)
    have "(ok, mailbox_of ?k1 to_pid) = spec_push ?msg (mailbox_of k to_pid)"
      using ring.push_spec [OF inv p] len by (simp add: mailbox_of_def)
    moreover have "pid' \<noteq> to_pid \<longrightarrow> mailbox_of ?k1 pid' = mailbox_of k pid'"
      by (simp add: mailbox_of_def)
    ultimately show ?thesis
      using False k1 unblock_ok [OF k1(1), of to_pid] by (cases ok) (simp_all add: s u, simp add: unblock_def)
  qed
  show "case try_receive k of (r, k') \<Rightarrow>
      kernel_ok k' \<and> queues_ok k' \<and> k_procs k' = k_procs k \<and>
      (if k_current k < 64 then (r, mailbox_of k' (k_current k)) = spec_pop (mailbox_of k (k_current k))
       else r = None \<and> k' = k) \<and>
      (pid' \<noteq> k_current k \<longrightarrow> mailbox_of k' pid' = mailbox_of k pid')"
  proof (cases "k_current k < 64")
    case True
    obtain r q where p: "queue_pop (k_queues k ! k_current k) = (r, q)" by fastforce
    have inv: "queue_inv (k_queues k ! k_current k)" using assms(2) True by (simp add: queues_ok_def)
    have len: "k_current k < length (k_queues k)" using assms(2) True by (simp add: queues_ok_def)
    show ?thesis
      using ring.pop_spec [OF inv p] True p len assms(1) queues_ok_update [OF assms(2), of q "k_current k"]
      by (auto simp: try_receive_def kernel_ok_def running_is_current_def mailbox_of_def)
  qed (use assms in \<open>simp add: try_receive_def\<close>)
qed

text \<open>
  C7: a message goes to the mailbox of the addressed process and to no other, carries the id of
  the process that sent it, and wakes the receiver if it was blocked; the ids 0 and from 64 up
  are refused; receiving takes the oldest message of the caller's own mailbox.
\<close>

theorem message_delivery:
  assumes "kernel_ok k" "queues_ok k" "pid' < 64"
  shows "(case ipc_send to_pid ty a1 a2 a3 a4 a5 a6 k of (ok, k') \<Rightarrow>
      kernel_ok k' \<and> queues_ok k' \<and>
      (if to_pid = 0 \<or> to_pid \<ge> 64 then \<not> ok \<and> k' = k
       else (ok, mailbox_of k' to_pid) = spec_push \<lparr>sender = k_current k, msg_type = ty, arg1 = a1,
              arg2 = a2, arg3 = a3, arg4 = a4, arg5 = a5, arg6 = a6\<rparr> (mailbox_of k to_pid) \<and>
            (pid' \<noteq> to_pid \<longrightarrow> mailbox_of k' pid' = mailbox_of k pid') \<and>
            (ok \<longrightarrow> k_procs k' = update_process to_pid wake (k_procs k)))) \<and>
    (case try_receive k of (r, k') \<Rightarrow>
      kernel_ok k' \<and> queues_ok k' \<and> k_procs k' = k_procs k \<and>
      (if k_current k < 64 then (r, mailbox_of k' (k_current k)) = spec_pop (mailbox_of k (k_current k))
       else r = None \<and> k' = k) \<and>
      (pid' \<noteq> k_current k \<longrightarrow> mailbox_of k' pid' = mailbox_of k pid'))"
  by (rule send_receive_spec [OF assms])

section \<open>A concrete kernel\<close>

definition demo_process :: "nat \<Rightarrow> process_state \<Rightarrow> process" where
  "demo_process pid st = process_empty\<lparr>p_pid := pid, p_state := st\<rparr>"

definition demo_procs :: proc_table where
  "demo_procs = Some (demo_process 1 Running) # Some (demo_process 2 Ready) # replicate 62 None"

definition demo_kernel :: "unit kernel" where
  "demo_kernel =
     \<lparr>k_mach = small_machine, k_procs = demo_procs, k_next_pid = 3, k_ctxs = (\<lambda>_. zero_context),
      k_current = 1, k_ticks = 0, k_idle_ctx = 0, k_kernel_pml4 = 0x100000, k_tss_rsp0 = 0,
      k_queues = replicate 64 message_queue_new, k_shm = shm_new, k_fs = empty_storage, k_console = []\<rparr>"

lemma demo_procs_nth: "i < MAX_PROCESSES \<Longrightarrow> demo_procs ! i =
    (if i = 0 then Some (demo_process 1 Running) else if i = 1 then Some (demo_process 2 Ready) else None)"
  by (auto simp: demo_procs_def nth_Cons split: nat.split)

lemma demo_process_fields [simp]: "p_pid (demo_process pid st) = pid" "p_state (demo_process pid st) = st"
  by (simp_all add: demo_process_def)

lemma demo_kernel_ok: "kernel_ok demo_kernel" "queues_ok demo_kernel"
proof -
  have "length demo_procs = MAX_PROCESSES" by (simp add: demo_procs_def)
  then show "kernel_ok demo_kernel"
    by (auto simp: kernel_ok_def table_ok_def running_is_current_def demo_kernel_def demo_procs_nth
        split: if_splits)
  show "queues_ok demo_kernel" by (simp add: queues_ok_def demo_kernel_def)
qed

lemma schedule_switches_witness: "kernel_ok (snd (schedule 0x7000 demo_kernel))"
  using schedule_switches [OF demo_kernel_ok(1), of "0x7000"] by (cases "schedule 0x7000 demo_kernel") auto

definition turns :: "nat \<Rightarrow> unit kernel" where
  "turns n = ((\<lambda>k. snd (schedule 0x7000 k)) ^^ n) demo_kernel"

lemma turns_ok: "kernel_ok (turns n)"
proof (induction n)
  case (Suc n)
  obtain r k' where "schedule 0x7000 (turns n) = (r, k')" by fastforce
  with schedule_kernel_ok [OF Suc this] show ?case by (simp add: turns_def)
qed (simp add: turns_def demo_kernel_ok)

lemma turns_ready:
  "(\<forall>i. 0 < i \<longrightarrow> i \<le> n \<longrightarrow> k_current (turns i) \<noteq> 2) \<Longrightarrow>
   \<exists>p. k_procs (turns n) ! 1 = Some p \<and> p_pid p = 2 \<and> p_state p = Ready"
proof (induction n)
  case 0
  then show ?case by (simp add: turns_def demo_kernel_def demo_procs_nth)
next
  case (Suc n)
  then obtain p where p: "k_procs (turns n) ! 1 = Some p" "p_pid p = 2" "p_state p = Ready" by auto
  obtain r k' where s: "schedule 0x7000 (turns n) = (r, k')" by fastforce
  have t: "turns (Suc n) = k'" using s by (simp add: turns_def)
  then have "k_current k' \<noteq> p_pid p" using Suc.prems p(2) by auto
  with schedule_keeps_ready [OF turns_ok _ p(1,3) s] p(2) t show ?case by simp
qed

lemma no_starvation_witness: "\<exists>n. 0 < n \<and> n \<le> MAX_PROCESSES \<and> k_current (turns n) = 2"
proof (rule no_starvation [where es = turns and ctx = "\<lambda>_. 0x7000" and j = 1])
  show "turns (Suc n) = snd (schedule 0x7000 (turns n))" for n by (simp add: turns_def)
qed (auto intro: turns_ok dest: turns_ready)

lemma message_delivery_witness:
  "case ipc_send 2 0x20 97 0 0 0 0 0 demo_kernel of (ok, k') \<Rightarrow>
     (ok, mailbox_of k' 2) = (True, [\<lparr>sender = 1, msg_type = 0x20, arg1 = 97, arg2 = 0, arg3 = 0,
        arg4 = 0, arg5 = 0, arg6 = 0\<rparr>])"
proof -
  have "mailbox_of demo_kernel 2 = []" "k_current demo_kernel = 1"
    by (simp_all add: mailbox_of_def demo_kernel_def)
  with conjunct1 [OF message_delivery [OF demo_kernel_ok, of 0 2 "0x20" 97 0 0 0 0 0]]
  show ?thesis by (auto simp: spec_push_def)
qed

end
