(* ===== verification/Elf.thy ===== *)
theory Elf
  imports Prelude
begin

text \<open>
  The ELF parser, \<^verbatim>\<open>kernel/src/elf.rs\<close>. The headers are read through pointers into the file
  image; \<open>elf_byte\<close> is the byte at an offset from its start, with \<open>beyond\<close> for the kernel memory
  around the image, which an offset outside it reads.
\<close>

section \<open>Headers\<close>

record elf_header =
  e_ident :: "u8 list"
  e_type :: u16
  e_machine :: u16
  e_version :: u32
  e_entry :: u64
  e_phoff :: u64
  e_shoff :: u64
  e_flags :: u32
  e_ehsize :: u16
  e_phentsize :: u16
  e_phnum :: u16
  e_shentsize :: u16
  e_shnum :: u16
  e_shstrndx :: u16

record elf_phdr =
  ph_type :: u32
  ph_flags :: u32
  ph_offset :: u64
  ph_vaddr :: u64
  ph_paddr :: u64
  ph_filesz :: u64
  ph_memsz :: u64
  ph_align :: u64

definition ELF_MAGIC :: "u8 list" where
  "ELF_MAGIC = [0x7F, 0x45, 0x4C, 0x46]"

abbreviation PT_LOAD :: u32 where "PT_LOAD \<equiv> 1"

definition elf_header_of :: "u8 list \<Rightarrow> elf_header" where
  "elf_header_of bs =
     \<lparr>e_ident = take 16 bs, e_type = field bs 16 2, e_machine = field bs 18 2,
      e_version = field bs 20 4, e_entry = field bs 24 8, e_phoff = field bs 32 8,
      e_shoff = field bs 40 8, e_flags = field bs 48 4, e_ehsize = field bs 52 2,
      e_phentsize = field bs 54 2, e_phnum = field bs 56 2, e_shentsize = field bs 58 2,
      e_shnum = field bs 60 2, e_shstrndx = field bs 62 2\<rparr>"

definition elf_phdr_of :: "u8 list \<Rightarrow> elf_phdr" where
  "elf_phdr_of bs =
     \<lparr>ph_type = field bs 0 4, ph_flags = field bs 4 4, ph_offset = field bs 8 8,
      ph_vaddr = field bs 16 8, ph_paddr = field bs 24 8, ph_filesz = field bs 32 8,
      ph_memsz = field bs 40 8, ph_align = field bs 48 8\<rparr>"

datatype elf_error = TooSmall | BadMagic | Not64Bit | NotLittleEndian | NotExecutable

definition elf_new :: "u8 list \<Rightarrow> elf_error + elf_header" where
  "elf_new file =
     (if length file < 64 then Inl TooSmall
      else let h = elf_header_of file
      in if take 4 (e_ident h) \<noteq> ELF_MAGIC then Inl BadMagic
         else if e_ident h ! 4 \<noteq> 2 then Inl Not64Bit
         else if e_ident h ! 5 \<noteq> 1 then Inl NotLittleEndian
         else if e_type h \<noteq> 2 \<and> e_type h \<noteq> 3 then Inl NotExecutable
         else Inr h)"

section \<open>Segments\<close>

definition elf_byte :: "u8 list \<Rightarrow> (u64 \<Rightarrow> u8) \<Rightarrow> u64 \<Rightarrow> u8" where
  "elf_byte file beyond off = (if unat off < length file then file ! unat off else beyond off)"

definition elf_bytes :: "u8 list \<Rightarrow> (u64 \<Rightarrow> u8) \<Rightarrow> u64 \<Rightarrow> nat \<Rightarrow> u8 list" where
  "elf_bytes file beyond off n = map (\<lambda>i. elf_byte file beyond (off + of_nat i)) [0..<n]"

definition phdr_at :: "u8 list \<Rightarrow> (u64 \<Rightarrow> u8) \<Rightarrow> elf_header \<Rightarrow> nat \<Rightarrow> elf_phdr option" where
  "phdr_at file beyond h i =
     (let off = e_phoff h + of_nat i * ucast (e_phentsize h)
      in if off + ucast (e_phentsize h) \<le> of_nat (length file) then
           let p = elf_phdr_of (elf_bytes file beyond off 56)
           in if ph_type p = PT_LOAD then Some p else None
         else None)"

definition load_segments :: "u8 list \<Rightarrow> (u64 \<Rightarrow> u8) \<Rightarrow> elf_header \<Rightarrow> elf_phdr list" where
  "load_segments file beyond h = List.map_filter (phdr_at file beyond h) [0..<unat (e_phnum h)]"

text \<open>\<open>None\<close> is the panic of a slice whose end, after wrapping, lies before its start.\<close>

definition segment_data :: "u8 list \<Rightarrow> elf_phdr \<Rightarrow> u8 list option" where
  "segment_data file p =
     (let start = ph_offset p; fin = start + ph_filesz p
      in if fin \<le> of_nat (length file) then
           (if start \<le> fin then Some (take (unat fin - unat start) (drop (unat start) file)) else None)
         else Some [])"

section \<open>What the parser reads\<close>

lemma unat_ucast_wider:
  "LENGTH('a) \<le> LENGTH('b) \<Longrightarrow> unat (ucast (x :: 'a::len word) :: 'b::len word) = unat x"
proof -
  assume "LENGTH('a) \<le> LENGTH('b)"
  then have "(2::nat) ^ LENGTH('a) \<le> 2 ^ LENGTH('b)" by (rule power_increasing) simp
  moreover have "unat x < 2 ^ LENGTH('a)" by (rule unsigned_less)
  ultimately have "unat x < 2 ^ LENGTH('b)" by linarith
  then show ?thesis by (simp add: unsigned_ucast_eq take_bit_nat_eq_self)
qed

lemma elf_bytes_inside:
  assumes "unat off + n \<le> length file" "length file < 2 ^ 64"
  shows "elf_bytes file beyond off n = take n (drop (unat off) file)"
proof (rule nth_equalityI)
  show "length (elf_bytes file beyond off n) = length (take n (drop (unat off) file))"
    using assms by (simp add: elf_bytes_def)
  fix i assume "i < length (elf_bytes file beyond off n)"
  then have i: "i < n" by (simp add: elf_bytes_def)
  with assms have "unat (off + of_nat i) = unat off + i"
    by (simp add: unat_word_ariths unat_of_nat)
  with i assms show "elf_bytes file beyond off n ! i = take n (drop (unat off) file) ! i"
    by (simp add: elf_bytes_def elf_byte_def)
qed

text \<open>The program header table of a well-formed file lies in the file, in entries of 56 bytes or more.\<close>

definition phdrs_in_file :: "u8 list \<Rightarrow> elf_header \<Rightarrow> bool" where
  "phdrs_in_file file h \<longleftrightarrow>
     length file < 2 ^ 63 \<and> 56 \<le> unat (e_phentsize h) \<and>
     unat (e_phoff h) + unat (e_phnum h) * unat (e_phentsize h) \<le> length file"

definition phdr_table :: "u8 list \<Rightarrow> elf_header \<Rightarrow> elf_phdr list" where
  "phdr_table file h =
     map (\<lambda>i. elf_phdr_of (take 56 (drop (unat (e_phoff h) + i * unat (e_phentsize h)) file)))
       [0..<unat (e_phnum h)]"

lemma phdr_at_in_file:
  assumes "phdrs_in_file file h" "i < unat (e_phnum h)"
  shows "phdr_at file beyond h i =
    (let p = elf_phdr_of (take 56 (drop (unat (e_phoff h) + i * unat (e_phentsize h)) file))
     in if ph_type p = PT_LOAD then Some p else None)"
proof -
  let ?o = "unat (e_phoff h)" and ?n = "unat (e_phnum h)" and ?s = "unat (e_phentsize h)"
  have "i * ?s + ?s \<le> ?n * ?s" using mult_le_mono1 [of "Suc i" ?n ?s] assms(2) by simp
  then have le: "?o + i * ?s + ?s \<le> length file" using assms(1) by (simp add: phdrs_in_file_def)
  have len: "length file < 2 ^ 63" and s56: "56 \<le> ?s" using assms(1) by (simp_all add: phdrs_in_file_def)
  have us: "unat (ucast (e_phentsize h) :: u64) = ?s" by (simp add: unat_ucast_wider)
  have i: "i < 65536" using assms(2) unat_u16_lt [of "e_phnum h"] by linarith
  have mul: "unat (of_nat i * ucast (e_phentsize h) :: u64) = i * ?s"
    using le len i us by (simp add: unat_word_ariths unat_of_nat)
  have off: "unat (e_phoff h + of_nat i * ucast (e_phentsize h)) = ?o + i * ?s"
    using le len mul by (simp add: unat_word_ariths)
  have fin: "unat (e_phoff h + of_nat i * ucast (e_phentsize h) + ucast (e_phentsize h)) = ?o + i * ?s + ?s"
    using le len off us by (subst unat_word_ariths) simp
  have "elf_bytes file beyond (e_phoff h + of_nat i * ucast (e_phentsize h)) 56 = take 56 (drop (?o + i * ?s) file)"
    using le len s56 off by (subst elf_bytes_inside) simp_all
  moreover have "unat (of_nat (length file) :: u64) = length file" using len by (simp add: unat_of_nat)
  ultimately show ?thesis
    using fin le by (simp add: phdr_at_def Let_def word_le_nat_alt)
qed

lemma load_segments_table:
  assumes "phdrs_in_file file h"
  shows "load_segments file beyond h = filter (\<lambda>p. ph_type p = PT_LOAD) (phdr_table file h)"
proof -
  have "List.map_filter (phdr_at file beyond h) is = filter (\<lambda>p. ph_type p = PT_LOAD)
      (map (\<lambda>i. elf_phdr_of (take 56 (drop (unat (e_phoff h) + i * unat (e_phentsize h)) file))) is)"
    if "\<forall>i\<in>set is. i < unat (e_phnum h)" for "is"
    using that
  proof (induction "is")
    case (Cons i "is")
    then show ?case
      using phdr_at_in_file [OF assms, of i beyond]
      by (simp add: List.map_filter_simps Let_def)
  qed (simp add: List.map_filter_simps)
  then show ?thesis by (simp add: load_segments_def phdr_table_def)
qed

text \<open>
  on a file whose program header table lies inside it the loadable segments are exactly
  the headers of type \<^verbatim>\<open>PT_LOAD\<close> of the table, in order, and nothing outside the file is read.
\<close>

theorem load_segments_exact:
  assumes "phdrs_in_file file h"
  shows "load_segments file beyond h = filter (\<lambda>p. ph_type p = PT_LOAD) (phdr_table file h)"
  by (rule load_segments_table [OF assms])

definition tiny_phdr :: "u8 list" where
  "tiny_phdr = le_bytes 4 (1 :: u32) @ le_bytes 4 (5 :: u32) @ le_bytes 8 (64 :: u64) @ le_bytes 8 (0x400000 :: u64) @
     le_bytes 8 (0 :: u64) @ le_bytes 8 (4 :: u64) @ le_bytes 8 (8 :: u64) @ le_bytes 8 (1 :: u64)"

definition tiny_elf :: "u8 list" where
  "tiny_elf = ELF_MAGIC @ [2, 1] @ replicate 10 0 @ le_bytes 2 (2 :: u16) @ replicate 6 0 @
     le_bytes 8 (0x400000 :: u64) @ le_bytes 8 (64 :: u64) @ replicate 14 0 @
     le_bytes 2 (56 :: u16) @ le_bytes 2 (1 :: u16) @ replicate 6 0 @ tiny_phdr"

definition tiny_segment :: elf_phdr where
  "tiny_segment = \<lparr>ph_type = 1, ph_flags = 5, ph_offset = 64, ph_vaddr = 0x400000, ph_paddr = 0,
     ph_filesz = 4, ph_memsz = 8, ph_align = 1\<rparr>"

lemma tiny_elf_table:
  "phdrs_in_file tiny_elf (elf_header_of tiny_elf)" "phdr_table tiny_elf (elf_header_of tiny_elf) = [tiny_segment]"
proof -
  have h: "e_phoff (elf_header_of tiny_elf) = 64" "e_phentsize (elf_header_of tiny_elf) = 56"
    "e_phnum (elf_header_of tiny_elf) = 1" by code_simp+
  have l: "length tiny_elf = 120" by (simp add: tiny_elf_def ELF_MAGIC_def tiny_phdr_def)
  show "phdrs_in_file tiny_elf (elf_header_of tiny_elf)" by (simp add: phdrs_in_file_def h l)
  have "elf_phdr_of (take 56 (drop 64 tiny_elf)) = tiny_segment" by code_simp
  then show "phdr_table tiny_elf (elf_header_of tiny_elf) = [tiny_segment]" by (simp add: phdr_table_def h)
qed

lemma tiny_segments: "load_segments tiny_elf beyond (elf_header_of tiny_elf) = [tiny_segment]"
  using load_segments_table [OF tiny_elf_table(1), of beyond] by (simp add: tiny_elf_table(2) tiny_segment_def)

lemma load_segments_exact_witness:
  "load_segments tiny_elf (\<lambda>_. 0) (elf_header_of tiny_elf) = [tiny_segment]"
  using load_segments_exact [OF tiny_elf_table(1), of "\<lambda>_. 0"] by (simp add: tiny_elf_table(2) tiny_segment_def)

end
