(* ===== verification/Loader.thy ===== *)
theory Loader
  imports Scheduler Elf
begin

text \<open>
  Creating and ending processes, \<^verbatim>\<open>spawn\<close>, \<^verbatim>\<open>load_elf\<close> and \<^verbatim>\<open>exit_process\<close> of
  \<^verbatim>\<open>kernel/src/process.rs\<close>. The kernel heap is a library: \<open>stack_base\<close> is the address it returns
  for a kernel stack (\<open>None\<close> for the null pointer).
\<close>

section \<open>Results\<close>

text \<open>A panic, an early return with the state reached, or the normal end.\<close>

datatype 'a outcome = Panic | Failed 'a | Finished 'a

section \<open>New processes\<close>

definition stack_top_of :: "u64 \<Rightarrow> u64" where
  "stack_top_of base = (base + KERNEL_STACK_SIZE) AND NOT 0xF"

definition install_process :: "(proc_table \<Rightarrow> nat option) \<Rightarrow> process \<Rightarrow> 's kernel \<Rightarrow> 's kernel option" where
  "install_process slot_of p k =
     (case slot_of (k_procs k) of
        None \<Rightarrow> None
      | Some i \<Rightarrow> Some (k\<lparr>k_procs := (k_procs k)[i := Some p]\<rparr>))"

text \<open>A kernel task: \<open>trampoline\<close> and \<open>entry\<close> are the addresses of code. \<open>None\<close> is a panic.\<close>

definition spawn :: "bytes \<Rightarrow> u64 \<Rightarrow> u64 \<Rightarrow> u64 option \<Rightarrow> 's kernel \<Rightarrow> (nat \<times> 's kernel) option" where
  "spawn name trampoline entry stack_base k0 =
     (let pid = k_next_pid k0; k = k0\<lparr>k_next_pid := pid + 1\<rparr>
      in case stack_base of
           None \<Rightarrow> None
         | Some base \<Rightarrow>
             (let stack_top = stack_top_of base;
                  ctx_ptr = stack_top - CONTEXT_SIZE;
                  ctx = zero_context\<lparr>c_ds := 0x10, c_es := 0x10, c_ss := 0x10, c_rsp := stack_top,
                          c_rflags := 0x202, c_cs := 0x08, c_rip := trampoline, c_r12 := entry\<rparr>;
                  p = process_empty\<lparr>p_pid := pid, p_state := Ready, p_rsp := ctx_ptr,
                        p_stack := stack_base, p_name := name, p_title := make_title name,
                        p_title_len := min (length name) 16, p_kernel_stack_top := stack_top\<rparr>
              in map_option (\<lambda>k'. (pid, k'))
                   (install_process free_slot p (k\<lparr>k_ctxs := (k_ctxs k)(ctx_ptr := ctx)\<rparr>))))"

section \<open>Loading a segment\<close>

text \<open>
  The pages of a region: \<^verbatim>\<open>while v < end { ...; v += 4096 }\<close> from a page-aligned start to a
  page-aligned end.
\<close>

definition pages :: "u64 \<Rightarrow> u64 \<Rightarrow> u64 list" where
  "pages first fin =
     map (\<lambda>i. first + of_nat PAGE_SIZE * of_nat i) [0..<(unat fin - unat first + 4095) div PAGE_SIZE]"

text \<open>The frame of one page: the one already mapped, or a new one, mapped and then cleared.\<close>

definition page_frame :: "u64 \<Rightarrow> u64 \<Rightarrow> machine \<Rightarrow> (u64 option \<times> machine) option" where
  "page_frame pml4 v m =
     (case get_mapped_frame pml4 v m of
        Some existing \<Rightarrow> Some (Some (align_down existing), m)
      | None \<Rightarrow>
          (case m_alloc m of
             None \<Rightarrow> Some (None, m)
           | Some (f, m1) \<Rightarrow>
               (case map_page_in_table pml4 v f (WRITABLE OR USER) m1 of
                  None \<Rightarrow> None
                | Some m2 \<Rightarrow> Some (Some f, zero_page f m2))))"

text \<open>The part of the file that lies in page \<open>v\<close>; an offset past the file is a slice panic.\<close>

definition copy_page :: "u8 list \<Rightarrow> (u64 \<Rightarrow> u8) \<Rightarrow> elf_phdr \<Rightarrow> u64 \<Rightarrow> u64 \<Rightarrow> machine \<Rightarrow> machine option" where
  "copy_page file beyond ph v f m =
     (let start = max (ph_vaddr ph) v;
          end_data = min (ph_vaddr ph + ph_filesz ph) (v + of_nat PAGE_SIZE)
      in if start < end_data then
           let copy_len = unat (end_data - start);
               src_offset = ph_offset ph + (start - ph_vaddr ph);
               dst_offset = start - v
           in if unat src_offset > length file then None
              else Some (write_bytes (f + dst_offset) (elf_bytes file beyond src_offset copy_len) m)
         else Some m)"

fun load_pages :: "u8 list \<Rightarrow> (u64 \<Rightarrow> u8) \<Rightarrow> elf_phdr \<Rightarrow> u64 \<Rightarrow> u64 list \<Rightarrow> machine \<Rightarrow> machine outcome" where
  "load_pages file beyond ph pml4 [] m = Finished m"
| "load_pages file beyond ph pml4 (v # vs) m =
     (case page_frame pml4 v m of
        None \<Rightarrow> Panic
      | Some (None, m1) \<Rightarrow> Failed m1
      | Some (Some f, m1) \<Rightarrow>
          (case copy_page file beyond ph v f m1 of
             None \<Rightarrow> Panic
           | Some m2 \<Rightarrow> load_pages file beyond ph pml4 vs m2))"

definition segment_start :: "elf_phdr \<Rightarrow> u64" where
  "segment_start ph = align_down (ph_vaddr ph)"

definition segment_end :: "elf_phdr \<Rightarrow> u64" where
  "segment_end ph = align_up (ph_vaddr ph + ph_memsz ph)"

definition segment_vma :: "elf_phdr \<Rightarrow> vma" where
  "segment_vma ph =
     \<lparr>vma_start = segment_start ph, vma_end = segment_end ph,
      vma_flags = VMA_USER OR VMA_READ OR (if ph_flags ph AND 2 \<noteq> 0 then VMA_WRITE else 0)
                    OR (if ph_flags ph AND 1 \<noteq> 0 then VMA_EXEC else 0),
      vma_backing = Anonymous\<rparr>"

text \<open>The loop over the segments: the machine, the regions so far and the highest end.\<close>

fun load_all :: "u8 list \<Rightarrow> (u64 \<Rightarrow> u8) \<Rightarrow> u64 \<Rightarrow> elf_phdr list \<Rightarrow> vma_list \<times> u64 \<times> machine \<Rightarrow>
    (vma_list \<times> u64 \<times> machine) outcome" where
  "load_all file beyond pml4 [] st = Finished st"
| "load_all file beyond pml4 (ph # phs) (vmas, max_vaddr, m) =
     (let vmas' = vma_add (segment_vma ph) vmas;
          max' = (if segment_end ph > max_vaddr then segment_end ph else max_vaddr)
      in case load_pages file beyond ph pml4 (pages (segment_start ph) (segment_end ph)) m of
           Panic \<Rightarrow> Panic
         | Failed m' \<Rightarrow> Failed (vmas', max', m')
         | Finished m' \<Rightarrow> load_all file beyond pml4 phs (vmas', max', m'))"

section \<open>User processes\<close>

abbreviation USER_STACK_TOP :: u64 where "USER_STACK_TOP \<equiv> 0x00007FFFFFFF0000"
abbreviation USER_STACK_SIZE :: u64 where "USER_STACK_SIZE \<equiv> 0x40000"

definition stack_vma :: vma where
  "stack_vma = \<lparr>vma_start = USER_STACK_TOP - USER_STACK_SIZE, vma_end = USER_STACK_TOP,
     vma_flags = VMA_USER OR VMA_READ OR VMA_WRITE, vma_backing = Anonymous\<rparr>"

text \<open>The two stack pages mapped in advance; a missing frame is tolerated.\<close>

fun map_stack_pages :: "u64 \<Rightarrow> u64 list \<Rightarrow> machine \<Rightarrow> machine option" where
  "map_stack_pages pml4 [] m = Some m"
| "map_stack_pages pml4 (v # vs) m =
     (case m_alloc m of
        None \<Rightarrow> map_stack_pages pml4 vs m
      | Some (f, m1) \<Rightarrow>
          (case map_page_in_table pml4 v f (WRITABLE OR USER) m1 of
             None \<Rightarrow> None
           | Some m2 \<Rightarrow> map_stack_pages pml4 vs (zero_page f m2)))"

definition user_context :: "u64 \<Rightarrow> interrupt_context" where
  "user_context entry =
     zero_context\<lparr>c_ds := 0x1B, c_es := 0x1B, c_ss := 0x1B, c_rsp := USER_STACK_TOP,
       c_rflags := 0x202, c_cs := 0x23, c_rip := entry\<rparr>"

definition user_process :: "nat \<Rightarrow> bytes \<Rightarrow> nat \<Rightarrow> u64 \<Rightarrow> vma_list \<Rightarrow> u64 \<Rightarrow> u64 \<Rightarrow> process" where
  "user_process pid name parent_pid pml4 vmas heap_break base =
     process_empty\<lparr>p_pid := pid, p_state := Ready, p_rsp := stack_top_of base - CONTEXT_SIZE,
       p_stack := Some base, p_name := ascii ''elf'', p_title := make_title name,
       p_title_len := min (length name) 16, p_pml4_phys := pml4,
       p_kernel_stack_top := stack_top_of base, p_vmas := vmas, p_heap_break := heap_break,
       p_parent_pid := parent_pid\<rparr>"

definition load_elf ::
  "bytes \<Rightarrow> u8 list \<Rightarrow> (u64 \<Rightarrow> u8) \<Rightarrow> nat \<Rightarrow> u64 option \<Rightarrow> 's kernel \<Rightarrow> (nat option \<times> 's kernel) option" where
  "load_elf name file beyond parent_pid stack_base k0 =
     (case elf_new file of
        Inl _ \<Rightarrow> Some (None, k0)
      | Inr h \<Rightarrow>
          (let pid = k_next_pid k0; k1 = k0\<lparr>k_next_pid := pid + 1\<rparr>
           in case create_user_page_table (k_mach k1) of
                None \<Rightarrow> None
              | Some (pml4, m1) \<Rightarrow>
                  (case load_all file beyond pml4 (load_segments file beyond h) ([], 0, m1) of
                     Panic \<Rightarrow> None
                   | Failed (_, _, m2) \<Rightarrow> Some (None, k1\<lparr>k_mach := m2\<rparr>)
                   | Finished (vmas, max_vaddr, m2) \<Rightarrow>
                       (case map_stack_pages pml4 [USER_STACK_TOP - 0x1000, USER_STACK_TOP - 0x2000] m2 of
                          None \<Rightarrow> None
                        | Some m3 \<Rightarrow>
                            (let k2 = k1\<lparr>k_mach := m3\<rparr>
                             in case stack_base of
                                  None \<Rightarrow> Some (None, k2)
                                | Some base \<Rightarrow>
                                    (let p = user_process pid name parent_pid pml4 (vma_add stack_vma vmas)
                                               (align_up max_vaddr) base;
                                         k3 = k2\<lparr>k_ctxs := (k_ctxs k2)(p_rsp p := user_context (e_entry h))\<rparr>
                                     in case install_process reusable_slot p k3 of
                                          Some k4 \<Rightarrow> Some (Some pid, k4)
                                        | None \<Rightarrow> Some (None, k3)))))))"

section \<open>Exit\<close>

text \<open>Waking the waiters: the table and whether there was one.\<close>

definition waits_for :: "nat \<Rightarrow> process \<Rightarrow> bool" where
  "waits_for pid p \<longleftrightarrow> p_state p = Blocked \<and> p_waiting_for_pid p = Some pid"

definition wake_waiters :: "nat \<Rightarrow> proc_table \<Rightarrow> proc_table" where
  "wake_waiters pid procs =
     map (map_option (\<lambda>p. if waits_for pid p then p\<lparr>p_state := Ready, p_waiting_for_pid := None\<rparr> else p)) procs"

definition has_waiter :: "nat \<Rightarrow> proc_table \<Rightarrow> bool" where
  "has_waiter pid procs \<longleftrightarrow> list_ex (\<lambda>sl. case sl of None \<Rightarrow> False | Some p \<Rightarrow> waits_for pid p) procs"

fun free_pages :: "u64 \<Rightarrow> u64 list \<Rightarrow> machine \<Rightarrow> machine" where
  "free_pages pml4 [] m = m"
| "free_pages pml4 (v # vs) m =
     free_pages pml4 vs
       (case get_mapped_frame pml4 v m of None \<Rightarrow> m | Some phys \<Rightarrow> m_dealloc (align_down phys) m)"

definition vma_pages :: "vma_list \<Rightarrow> u64 list" where
  "vma_pages vmas = concat (map (\<lambda>v. pages (align_down (vma_start v)) (vma_end v)) vmas)"

definition end_process :: "process_state \<Rightarrow> u64 \<Rightarrow> process \<Rightarrow> process" where
  "end_process st code p = p\<lparr>p_vmas := vma_clear (p_vmas p), p_state := st, p_exit_code := Some code\<rparr>"

definition exit_process :: "nat \<Rightarrow> u64 \<Rightarrow> 's kernel \<Rightarrow> 's kernel" where
  "exit_process pid code k =
     (let (shm', m1) = shm_cleanup_process pid (k_shm k) (k_mach k);
          parent_waiting = has_waiter pid (k_procs k);
          procs1 = wake_waiters pid (k_procs k);
          k1 = k\<lparr>k_shm := shm', k_mach := m1, k_procs := procs1\<rparr>
      in case get_process procs1 pid of
           None \<Rightarrow> k1
         | Some p \<Rightarrow>
             k1\<lparr>k_mach := (if p_pml4_phys p \<noteq> 0 then free_pages (p_pml4_phys p) (vma_pages (p_vmas p)) m1 else m1),
                k_procs := update_process pid
                  (end_process (if parent_waiting then Dead else Empty) code) procs1\<rparr>)"

end
