(* ===== verification/Rtc.thy ===== *)
theory Rtc
  imports Prelude
begin

text \<open>
  The real-time clock, \<^verbatim>\<open>kernel/src/rtc.rs\<close>. The chip is an argument: the value that the \<open>t\<close>-th
  read from boot on returns for a register. The wait for the end of an update may last for
  ever, so the reading is partial; the main result is the time it returns on every encoding the
  chip may use.
\<close>

section \<open>Definitions\<close>

record datetime =
  second :: u8
  minute :: u8
  hour :: u8
  day :: u8
  month :: u8
  year :: "16 word"

type_synonym cmos = "nat \<Rightarrow> u8 \<Rightarrow> u8"

definition is_updating :: "cmos \<Rightarrow> nat \<Rightarrow> bool" where
  "is_updating chip t \<longleftrightarrow> chip t 0x0A AND 0x80 \<noteq> 0"

text \<open>The moment after the loop \<^verbatim>\<open>while is_updating() {}\<close>.\<close>

partial_function (option) wait_ready :: "cmos \<Rightarrow> nat \<Rightarrow> nat option" where
  "wait_ready chip t = (if is_updating chip t then wait_ready chip (t + 1) else Some (t + 1))"

definition bcd_to_binary :: "u8 \<Rightarrow> u8" where
  "bcd_to_binary bcd = (bcd AND 0x0F) + (bcd div 16) * 10"

definition decode_field :: "u8 \<Rightarrow> u8 \<Rightarrow> u8" where
  "decode_field register_b v = (if register_b AND 0x04 = 0 then bcd_to_binary v else v)"

definition decode_hour :: "u8 \<Rightarrow> u8 \<Rightarrow> u8" where
  "decode_hour register_b h0 =
     (let h = (if register_b AND 0x04 = 0 then
                 let pm = (h0 AND 0x80 \<noteq> 0); h = bcd_to_binary (h0 AND 0x7F)
                 in if pm then (h + 12) mod 24 else h
               else h0)
      in if register_b AND 0x02 = 0 \<and> h AND 0x80 \<noteq> 0 then ((h AND 0x7F) + 12) mod 24 else h)"

definition decode_year :: "u8 \<Rightarrow> u8 \<Rightarrow> u8 \<Rightarrow> 16 word" where
  "decode_year register_b y0 century =
     (let y = (ucast (decode_field register_b y0) :: 16 word)
      in if century \<noteq> 0 then y + ucast (decode_field register_b century) * 100
         else y + (if y < 80 then 2000 else 1900))"

definition read_datetime :: "cmos \<Rightarrow> nat \<Rightarrow> datetime option" where
  "read_datetime chip t0 =
     (case wait_ready chip t0 of
        None \<Rightarrow> None
      | Some t \<Rightarrow>
          (let s = chip t 0x00; mi = chip (t + 1) 0x02; h = chip (t + 2) 0x04; d = chip (t + 3) 0x07;
               mo = chip (t + 4) 0x08; y = chip (t + 5) 0x09; b = chip (t + 6) 0x0B;
               century = chip (t + 7) 0x32
           in Some \<lparr>second = decode_field b s, minute = decode_field b mi, hour = decode_hour b h,
                    day = decode_field b d, month = decode_field b mo, year = decode_year b y century\<rparr>))"

section \<open>Encodings of the chip\<close>

text \<open>
  A format: binary or BCD numbers, a 24-hour or a 12-hour clock (where bit 7 of the hour is PM
  and the twelfth hour comes first), and whether there is a century register.
\<close>

record rtc_format =
  is_binary :: bool
  is_24h :: bool
  has_century :: bool

definition enc_field :: "rtc_format \<Rightarrow> nat \<Rightarrow> u8" where
  "enc_field f n = (if is_binary f then of_nat n else of_nat ((n div 10) * 16 + n mod 10))"

definition enc_hour :: "rtc_format \<Rightarrow> nat \<Rightarrow> u8" where
  "enc_hour f h =
     (if is_24h f then enc_field f h
      else enc_field f (if h mod 12 = 0 then 12 else h mod 12) OR (if h \<ge> 12 then 0x80 else 0))"

definition enc_b :: "rtc_format \<Rightarrow> u8" where
  "enc_b f = (if is_binary f then 0x04 else 0) OR (if is_24h f then 0x02 else 0)"

text \<open>The registers of a chip that shows a time from moment \<open>t\<close> on.\<close>

definition clock_shows :: "rtc_format \<Rightarrow> nat \<Rightarrow> nat \<Rightarrow> nat \<Rightarrow> nat \<Rightarrow> nat \<Rightarrow> nat \<Rightarrow> cmos \<Rightarrow> nat \<Rightarrow> bool" where
  "clock_shows f s mi h d mo y chip t \<longleftrightarrow>
     (\<forall>t'\<ge>t. chip t' 0x00 = enc_field f s \<and> chip t' 0x02 = enc_field f mi \<and> chip t' 0x04 = enc_hour f h \<and>
        chip t' 0x07 = enc_field f d \<and> chip t' 0x08 = enc_field f mo \<and>
        chip t' 0x09 = enc_field f (y mod 100) \<and> chip t' 0x0B = enc_b f \<and>
        chip t' 0x32 = (if has_century f then enc_field f (y div 100) else 0))"

section \<open>Decoding\<close>

lemma bits_of_b: "enc_b f AND 0x04 = 0 \<longleftrightarrow> \<not> is_binary f" "enc_b f AND 0x02 = 0 \<longleftrightarrow> \<not> is_24h f"
  by (auto simp: enc_b_def)

lemma bcd_all: "\<forall>n\<in>set [0..<100]. bcd_to_binary (of_nat ((n div 10) * 16 + n mod 10)) = of_nat n"
  by code_simp

lemma bcd_round_trip: "n < 100 \<Longrightarrow> bcd_to_binary (of_nat ((n div 10) * 16 + n mod 10)) = of_nat n"
  using bcd_all by simp

lemma decode_enc_field: "n < 100 \<Longrightarrow> decode_field (enc_b f) (enc_field f n) = of_nat n"
  using bcd_round_trip [of n] by (simp add: decode_field_def enc_field_def bits_of_b del: of_nat_add of_nat_mult)

definition hour_read :: "rtc_format \<Rightarrow> nat \<Rightarrow> nat" where
  "hour_read f h = (if \<not> is_24h f \<and> h mod 12 = 0 then (h + 12) mod 24 else h)"

lemma hours_all:
  "\<forall>bin\<in>set [True, False]. \<forall>h24\<in>set [True, False]. \<forall>c\<in>set [True, False]. \<forall>h\<in>set [0..<24].
     decode_hour (enc_b \<lparr>is_binary = bin, is_24h = h24, has_century = c\<rparr>)
        (enc_hour \<lparr>is_binary = bin, is_24h = h24, has_century = c\<rparr> h) =
     of_nat (hour_read \<lparr>is_binary = bin, is_24h = h24, has_century = c\<rparr> h)"
  by code_simp

lemma decode_enc_hour: "h < 24 \<Longrightarrow> decode_hour (enc_b f) (enc_hour f h) = of_nat (hour_read f h)"
  using hours_all by (cases f) (auto simp: Ball_def)

lemma decode_enc_year:
  assumes "if has_century f then 100 \<le> y \<and> y < 10000 else 1980 \<le> y \<and> y < 2080"
  shows "decode_year (enc_b f) (enc_field f (y mod 100)) (if has_century f then enc_field f (y div 100) else 0) =
    of_nat y"
proof -
  have f: "decode_field (enc_b f) (enc_field f (y mod 100)) = of_nat (y mod 100)"
    by (intro decode_enc_field) simp
  have yy: "y div 100 < 100" using assms by (auto split: if_splits)
  have y: "(ucast (of_nat (y mod 100) :: u8) :: 16 word) = of_nat (y mod 100)"
    by (simp add: unsigned_of_nat take_bit_eq_mod)
  have y8: "(ucast (of_nat (y div 100) :: u8) :: 16 word) = of_nat (y div 100)"
    using yy by (simp add: unsigned_of_nat take_bit_eq_mod)
  have split: "(of_nat y :: 16 word) = of_nat (y mod 100) + of_nat (y div 100) * 100"
    by (metis mod_mult_div_eq of_nat_add of_nat_mult of_nat_numeral mult.commute)
  show ?thesis
  proof (cases "has_century f")
    case True
    have "enc_field f (y div 100) \<noteq> 0"
    proof
      assume z: "enc_field f (y div 100) = 0"
      have "decode_field (enc_b f) (enc_field f (y div 100)) = of_nat (y div 100)"
        using yy by (rule decode_enc_field)
      moreover have "decode_field (enc_b f) 0 = 0" by (simp add: decode_field_def bcd_to_binary_def)
      ultimately have "unat (of_nat (y div 100) :: u8) = 0" using z by simp
      then have "y div 100 = 0" using yy by (simp add: unsigned_of_nat take_bit_eq_mod)
      then show False using assms True by (simp add: div_eq_0_iff)
    qed
    then show ?thesis
      using True f y y8 decode_enc_field [OF yy, of f] by (simp add: decode_year_def Let_def split)
  next
    case False
    then have r: "1980 \<le> y" "y < 2080" using assms by auto
    have lt: "(of_nat (y mod 100) :: 16 word) < 80 \<longleftrightarrow> y mod 100 < 80"
      by (simp add: word_less_nat_alt unsigned_of_nat take_bit_eq_mod)
    define q and v where "q = y div 100" and "v = y mod 100"
    have qv: "y = 100 * q + v" by (simp add: q_def v_def)
    have q: "q = 19 \<or> q = 20" unfolding q_def using r by (cases "y < 2000") (auto intro: div_nat_eqI)
    have v: "v < 100" by (simp add: v_def)
    have "y = v + 2000" if "v < 80" using q r qv that by (elim disjE) linarith+
    moreover have "y = v + 1900" if "\<not> v < 80" using q r qv v that by (elim disjE) linarith+
    ultimately have "y = v + (if v < 80 then 2000 else 1900)" by (cases "v < 80") simp_all
    then have "y = y mod 100 + (if y mod 100 < 80 then 2000 else 1900)" by (simp only: v_def)
    then have "(of_nat y :: 16 word) = of_nat (y mod 100 + (if y mod 100 < 80 then 2000 else 1900))"
      by (rule arg_cong [where f = of_nat])
    also have "\<dots> = of_nat (y mod 100) + (if y mod 100 < 80 then 2000 else 1900)"
      by (cases "y mod 100 < 80") simp_all
    finally show ?thesis using False f y lt by (simp add: decode_year_def Let_def)
  qed
qed

lemma wait_ready_returns:
  assumes "t0 \<le> t" "\<And>i. t0 \<le> i \<Longrightarrow> i < t \<Longrightarrow> is_updating chip i" "\<not> is_updating chip t"
  shows "wait_ready chip t0 = Some (t + 1)"
  using assms
proof (induction "t - t0" arbitrary: t0)
  case 0
  then show ?case by (subst wait_ready.simps) simp
next
  case (Suc n)
  then have "is_updating chip t0" by simp
  moreover have "wait_ready chip (t0 + 1) = Some (t + 1)" using Suc by (intro Suc.hyps(1)) auto
  ultimately show ?case by (subst wait_ready.simps) simp
qed

text \<open>
  C39: once the update in progress ends the clock is read, and on every encoding of the chip
  each field is the one it shows, with one exception: on a 12-hour chip noon is read as hour 0
  and midnight as hour 12.
\<close>

theorem read_datetime_exact:
  assumes "t0 \<le> t" "\<And>i. t0 \<le> i \<Longrightarrow> i < t \<Longrightarrow> is_updating chip i" "\<not> is_updating chip t"
    and "clock_shows f s mi h d mo y chip t"
    and "s < 60" "mi < 60" "h < 24" "d \<le> 31" "mo \<le> 12"
    and "if has_century f then 100 \<le> y \<and> y < 10000 else 1980 \<le> y \<and> y < 2080"
  shows "read_datetime chip t0 =
    Some \<lparr>second = of_nat s, minute = of_nat mi,
          hour = of_nat (if \<not> is_24h f \<and> h mod 12 = 0 then (h + 12) mod 24 else h),
          day = of_nat d, month = of_nat mo, year = of_nat y\<rparr>"
  using assms(4) wait_ready_returns [OF assms(1-3)] assms(5-9) decode_enc_year [OF assms(10)]
    decode_enc_hour [OF assms(7), of f]
  by (simp add: read_datetime_def clock_shows_def decode_enc_field hour_read_def)

text \<open>A chip that is updating at first and then shows 12:34:56 on 2024-02-29 as a 12-hour BCD clock.\<close>

definition noon_chip :: cmos where
  "noon_chip t r =
     (if r = 0x0A then (if t < 2 then 0x80 else 0) else if r = 0x00 then 0x56 else if r = 0x02 then 0x34
      else if r = 0x04 then 0x92 else if r = 0x07 then 0x29 else if r = 0x08 then 0x02
      else if r = 0x09 then 0x24 else if r = 0x32 then 0x20 else 0)"

lemma read_datetime_exact_witness:
  "read_datetime noon_chip 0 = Some \<lparr>second = 56, minute = 34, hour = 0, day = 29, month = 2, year = 2024\<rparr>"
proof -
  let ?f = "\<lparr>is_binary = False, is_24h = False, has_century = True\<rparr>"
  have "clock_shows ?f 56 34 12 29 2 2024 noon_chip 2"
    by (simp add: clock_shows_def noon_chip_def enc_field_def enc_hour_def enc_b_def)
  moreover have "i < 2 \<Longrightarrow> is_updating noon_chip i" "\<not> is_updating noon_chip 2" for i
    by (simp_all add: is_updating_def noon_chip_def)
  ultimately show ?thesis
    using read_datetime_exact [of 0 2 noon_chip ?f 56 34 12 29 2 2024] by simp
qed

end
