(* ===== verification/Syscall.thy ===== *)
theory Syscall
  imports Loader Rtc
begin

text \<open>
  The system calls, \<^verbatim>\<open>kernel/src/syscall.rs\<close>. One definition per call takes the kernel to the
  kernel after it; \<open>handle\<close> is the dispatch on the number in \<^verbatim>\<open>rax\<close>. Devices, the memory around
  a file image, the kernel heap and the status texts of the drivers are the environment of a
  call. Calls act on the registers saved at the address \<open>ptr\<close> of the interrupted context and
  return the address of the context to resume.
\<close>

section \<open>The environment and the results of a call\<close>

record framebuffer =
  fb_addr :: u64
  fb_width :: u64
  fb_height :: u64
  fb_pitch :: u64
  fb_bpp :: u16

record 's env =
  env_disks :: "'s disks"
  env_port :: "u16 \<Rightarrow> u8"
  env_framebuffer :: "framebuffer option"
  env_clock :: "cmos \<times> nat"
  env_beyond :: "u64 \<Rightarrow> u8"
  env_stack :: "u64 option"
  env_pci_list :: bytes
  env_apic_status :: bytes
  env_xhci_status :: bytes
  env_ahci_status :: bytes

text \<open>
  A call resumes a context, powers the machine off, or is stuck: a kernel panic or a loop that
  does not end.
\<close>

datatype 's result = Resume u64 "'s kernel" | PowerOff "'s kernel" | Stuck

section \<open>User memory and registers\<close>

definition current :: "'s kernel \<Rightarrow> process option" where
  "current k = get_process (k_procs k) (k_current k)"

definition update_current :: "(process \<Rightarrow> process) \<Rightarrow> 's kernel \<Rightarrow> 's kernel" where
  "update_current f k = k\<lparr>k_procs := update_process (k_current k) f (k_procs k)\<rparr>"

definition set_ctx :: "u64 \<Rightarrow> (interrupt_context \<Rightarrow> interrupt_context) \<Rightarrow> 's kernel \<Rightarrow> 's kernel" where
  "set_ctx ptr f k = k\<lparr>k_ctxs := (k_ctxs k)(ptr := f (k_ctxs k ptr))\<rparr>"

text \<open>\<^verbatim>\<open>ctx.rax = v; context_ptr\<close>.\<close>

definition ret :: "u64 \<Rightarrow> u64 \<Rightarrow> 's kernel \<Rightarrow> 's result" where
  "ret ptr v k = Resume ptr (set_ctx ptr (\<lambda>c. c\<lparr>c_rax := v\<rparr>) k)"

definition resched :: "u64 \<Rightarrow> 's kernel \<Rightarrow> 's result" where
  "resched ptr k = (let (ptr', k') = schedule ptr k in Resume ptr' k')"

fun write_user_bytes :: "u64 \<Rightarrow> u64 \<Rightarrow> bytes \<Rightarrow> machine \<Rightarrow> machine" where
  "write_user_bytes pml4 v [] m = m"
| "write_user_bytes pml4 v (b # bs) m =
     write_user_bytes pml4 (v + 1) bs
       (case get_mapped_frame pml4 v m of
          None \<Rightarrow> m
        | Some phys \<Rightarrow> write8 (phys + (v AND 0xFFF)) b m)"

text \<open>The buffer the bytes are read into is cleared before; unmapped bytes stay 0.\<close>

definition read_user_bytes :: "u64 \<Rightarrow> u64 \<Rightarrow> nat \<Rightarrow> machine \<Rightarrow> bytes" where
  "read_user_bytes pml4 v n m =
     map (\<lambda>i. let a = v + of_nat i
              in case get_mapped_frame pml4 a m of None \<Rightarrow> 0 | Some phys \<Rightarrow> read8 m (phys + (a AND 0xFFF)))
       [0..<n]"

definition read_user_string :: "u64 \<Rightarrow> nat \<Rightarrow> nat \<Rightarrow> 's kernel \<Rightarrow> bytes option" where
  "read_user_string v max_len pid k =
     (case get_process (k_procs k) pid of
        None \<Rightarrow> None
      | Some p \<Rightarrow>
          (let found = map (\<lambda>i. map_option (read8 (k_mach k))
                                  (get_mapped_frame (p_pml4_phys p) (v + of_nat i) (k_mach k)))
                        [0..<min max_len 127]
           in if None \<in> set found then None
              else let s = map the found in if valid_utf8 s then Some s else None))"

definition write_current :: "u64 \<Rightarrow> bytes \<Rightarrow> 's kernel \<Rightarrow> 's kernel" where
  "write_current v bs k =
     (case current k of
        None \<Rightarrow> k
      | Some p \<Rightarrow> k\<lparr>k_mach := write_user_bytes (p_pml4_phys p) v bs (k_mach k)\<rparr>)"

text \<open>A text cut to the buffer and written to it: the end of the four report calls.\<close>

definition report :: "u64 \<Rightarrow> bytes \<Rightarrow> 's kernel \<Rightarrow> 's result" where
  "report ptr text k =
     (let c = k_ctxs k ptr; to_copy = min (length text) (unat (c_rsi c))
      in ret ptr (of_nat to_copy) (write_current (c_rdi c) (take to_copy text) k))"

section \<open>Messages and scheduling\<close>

definition sys_send :: "u64 \<Rightarrow> 's kernel \<Rightarrow> 's result" where
  "sys_send ptr k =
     (let c = k_ctxs k ptr;
          (ok, k1) = ipc_send (unat (c_rdi c)) (c_rsi c) (c_rdx c) (c_r10 c) (c_r8 c) (c_r9 c) (c_r11 c) 0 k
      in ret ptr (if ok then 0 else 1) k1)"

definition message_bytes :: "message \<Rightarrow> bytes" where
  "message_bytes msg =
     le_bytes 8 (of_nat (sender msg) :: u64) @ le_bytes 8 (msg_type msg) @ le_bytes 8 (arg1 msg) @
     le_bytes 8 (arg2 msg) @ le_bytes 8 (arg3 msg) @ le_bytes 8 (arg4 msg) @ le_bytes 8 (arg5 msg) @
     le_bytes 8 (arg6 msg)"

text \<open>A call that has to wait is repeated: the instruction \<^verbatim>\<open>int 0x80\<close> is two bytes long.\<close>

definition repeat_call :: "u64 \<Rightarrow> 's kernel \<Rightarrow> 's kernel" where
  "repeat_call ptr = set_ctx ptr (\<lambda>c. c\<lparr>c_rip := c_rip c - 2\<rparr>)"

definition sys_recv :: "u64 \<Rightarrow> 's kernel \<Rightarrow> 's result" where
  "sys_recv ptr k =
     (let c = k_ctxs k ptr
      in case try_receive k of
           (Some msg, k1) \<Rightarrow>
             ret ptr (of_nat (sender msg)) (write_current (c_rdi c) (message_bytes msg) k1)
         | (None, k1) \<Rightarrow>
             if c_rsi c = 1 then ret ptr U64_MAX k1
             else resched ptr (repeat_call ptr (block_current k1)))"

definition sys_exit :: "u64 \<Rightarrow> 's kernel \<Rightarrow> 's result" where
  "sys_exit ptr k = resched ptr (exit_process (k_current k) (c_rdi (k_ctxs k ptr)) k)"

definition sys_yield :: "u64 \<Rightarrow> 's kernel \<Rightarrow> 's result" where
  "sys_yield ptr k = resched ptr k"

definition sys_getpid :: "u64 \<Rightarrow> 's kernel \<Rightarrow> 's result" where
  "sys_getpid ptr k = ret ptr (of_nat (k_current k)) k"

definition block_on :: "nat \<Rightarrow> process \<Rightarrow> process" where
  "block_on child p = p\<lparr>p_state := Blocked, p_waiting_for_pid := Some child\<rparr>"

definition sys_waitpid :: "u64 \<Rightarrow> 's kernel \<Rightarrow> 's result" where
  "sys_waitpid ptr k =
     (let child_pid = unat (c_rdi (k_ctxs k ptr))
      in case get_process (k_procs k) child_pid of
           None \<Rightarrow> ret ptr U64_MAX k
         | Some child \<Rightarrow>
             if p_state child = Dead then
               ret ptr (case p_exit_code child of None \<Rightarrow> 0 | Some code \<Rightarrow> code)
                 (k\<lparr>k_procs := update_process child_pid (set_state Empty) (k_procs k)\<rparr>)
             else resched ptr (repeat_call ptr (update_current (block_on child_pid) k)))"

section \<open>Memory\<close>

text \<open>The loop of \<^verbatim>\<open>SYS_MAP_PHYSICAL\<close>: pages of the caller to consecutive physical pages.\<close>

fun map_physical_pages :: "u64 list \<Rightarrow> u64 \<Rightarrow> machine \<Rightarrow> machine option" where
  "map_physical_pages [] phys m = Some m"
| "map_physical_pages (v # vs) phys m =
     (case map_page v phys (USER OR WRITABLE OR WRITE_COMBINING) m of
        None \<Rightarrow> None
      | Some m' \<Rightarrow> map_physical_pages vs (phys + 0x1000) m')"

definition sys_map_physical :: "u64 \<Rightarrow> 's kernel \<Rightarrow> 's result" where
  "sys_map_physical ptr k =
     (let c = k_ctxs k ptr; virt = c_rdi c; phys = c_rsi c; sz = c_rdx c
      in case map_physical_pages (pages (align_down virt) (align_up (virt + sz))) (align_down phys) (k_mach k) of
           None \<Rightarrow> Stuck
         | Some m' \<Rightarrow> ret ptr 0 (k\<lparr>k_mach := m'\<rparr>))"

definition anonymous_vma :: "u64 \<Rightarrow> u64 \<Rightarrow> vma" where
  "anonymous_vma start fin =
     \<lparr>vma_start = start, vma_end = fin, vma_flags = VMA_USER OR VMA_READ OR VMA_WRITE, vma_backing = Anonymous\<rparr>"

text \<open>A process with one more region, up to the new break.\<close>

definition grow_heap :: "u64 \<Rightarrow> process \<Rightarrow> process" where
  "grow_heap increment p =
     (let old_break = p_heap_break p; new_break = old_break + increment
      in p\<lparr>p_vmas := vma_add (anonymous_vma (align_up old_break) (align_up new_break)) (p_vmas p),
           p_heap_break := new_break\<rparr>)"

definition sys_sbrk :: "u64 \<Rightarrow> 's kernel \<Rightarrow> 's result" where
  "sys_sbrk ptr k =
     (let increment = c_rdi (k_ctxs k ptr)
      in case current k of
           None \<Rightarrow> ret ptr U64_MAX k
         | Some p \<Rightarrow>
             if increment = 0 then ret ptr (p_heap_break p) k
             else if sint increment > 0 then
               ret ptr (p_heap_break p) (update_current (grow_heap increment) k)
             else ret ptr (p_heap_break p) k)"

definition add_region :: "u64 \<Rightarrow> u64 \<Rightarrow> process \<Rightarrow> process" where
  "add_region addr aligned_size p = p\<lparr>p_vmas := vma_add (anonymous_vma addr (addr + aligned_size)) (p_vmas p)\<rparr>"

definition sys_mmap :: "u64 \<Rightarrow> 's kernel \<Rightarrow> 's result" where
  "sys_mmap ptr k =
     (let c = k_ctxs k ptr
      in case current k of
           None \<Rightarrow> ret ptr U64_MAX k
         | Some p \<Rightarrow>
             (let aligned_size = align_up (c_rsi c);
                  hint = (if c_rdi c \<noteq> 0 then c_rdi c else 0x20000000)
              in case find_free_region (p_vmas p) hint aligned_size of
                   None \<Rightarrow> Stuck
                 | Some None \<Rightarrow> ret ptr U64_MAX k
                 | Some (Some addr) \<Rightarrow> ret ptr addr (update_current (add_region addr aligned_size) k)))"

definition remove_region :: "u64 \<Rightarrow> u64 \<Rightarrow> process \<Rightarrow> process" where
  "remove_region addr sz p =
     p\<lparr>p_vmas := filter (\<lambda>v. \<not> (vma_start v = addr \<and> vma_end v = addr + sz)) (p_vmas p)\<rparr>"

definition sys_munmap :: "u64 \<Rightarrow> 's kernel \<Rightarrow> 's result" where
  "sys_munmap ptr k =
     (let c = k_ctxs k ptr; addr = align_down (c_rdi c); sz = align_up (c_rsi c)
      in case current k of
           None \<Rightarrow> ret ptr U64_MAX k
         | Some p \<Rightarrow>
             (let k1 = update_current (remove_region addr sz) k
              in ret ptr 0 (k1\<lparr>k_mach := fold unmap_page (pages addr (addr + sz)) (k_mach k1)\<rparr>)))"

definition sys_shm_create :: "u64 \<Rightarrow> 's kernel \<Rightarrow> 's result" where
  "sys_shm_create ptr k =
     (case shm_create (c_rdi (k_ctxs k ptr)) (k_current k) (k_shm k) (k_mach k) of
        (r, shm', m') \<Rightarrow>
          ret ptr (case r of None \<Rightarrow> U64_MAX | Some rid \<Rightarrow> ucast rid) (k\<lparr>k_shm := shm', k_mach := m'\<rparr>))"

definition sys_shm_map :: "u64 \<Rightarrow> 's kernel \<Rightarrow> 's result" where
  "sys_shm_map ptr k =
     (let c = k_ctxs k ptr
      in case current k of
           None \<Rightarrow> ret ptr U64_MAX k
         | Some p \<Rightarrow>
             (case shm_map (ucast (c_rdi c)) (p_pml4_phys p) (c_rsi c) (k_shm k) (k_mach k) of
                None \<Rightarrow> Stuck
              | Some (r, shm', m') \<Rightarrow>
                  ret ptr (case r of Inl _ \<Rightarrow> U64_MAX | Inr sz \<Rightarrow> sz) (k\<lparr>k_shm := shm', k_mach := m'\<rparr>)))"

definition sys_shm_unmap :: "u64 \<Rightarrow> 's kernel \<Rightarrow> 's result" where
  "sys_shm_unmap ptr k =
     (let c = k_ctxs k ptr
      in case current k of
           None \<Rightarrow> ret ptr U64_MAX k
         | Some p \<Rightarrow>
             (case shm_unmap (ucast (c_rdi c)) (p_pml4_phys p) (c_rsi c) (k_shm k) (k_mach k) of
                (r, shm', m') \<Rightarrow>
                  ret ptr (case r of Inl _ \<Rightarrow> U64_MAX | Inr _ \<Rightarrow> 0) (k\<lparr>k_shm := shm', k_mach := m'\<rparr>)))"

section \<open>Programs and files\<close>

text \<open>\<^verbatim>\<open>fat32::read_file\<close> on the kernel's storage: a panic is \<open>None\<close>.\<close>

definition read_stored :: "'s env \<Rightarrow> bytes \<Rightarrow> 's kernel \<Rightarrow> (bytes option \<times> 's kernel) option" where
  "read_stored E name k =
     (case read_file (env_disks E) name (k_fs k) of
        None \<Rightarrow> None
      | Some (r, fs') \<Rightarrow> Some (r, k\<lparr>k_fs := fs'\<rparr>))"

definition sys_spawn :: "'s env \<Rightarrow> u64 \<Rightarrow> 's kernel \<Rightarrow> 's result" where
  "sys_spawn E ptr k =
     (let c = k_ctxs k ptr; pid = k_current k
      in case read_user_string (c_rdi c) (unat (c_rsi c)) pid k of
           None \<Rightarrow> ret ptr U64_MAX k
         | Some name \<Rightarrow>
             (case read_stored E name k of
                None \<Rightarrow> Stuck
              | Some (None, k1) \<Rightarrow> ret ptr U64_MAX k1
              | Some (Some file, k1) \<Rightarrow>
                  (case load_elf name file (env_beyond E) pid (env_stack E) k1 of
                     None \<Rightarrow> Stuck
                   | Some (None, k2) \<Rightarrow> ret ptr U64_MAX k2
                   | Some (Some child_pid, k2) \<Rightarrow> ret ptr (of_nat child_pid) k2)))"

definition sys_execve :: "'s env \<Rightarrow> u64 \<Rightarrow> 's kernel \<Rightarrow> 's result" where
  "sys_execve E ptr k =
     (let c = k_ctxs k ptr
      in case read_user_string (c_rdi c) (unat (c_rsi c)) (k_current k) k of
           None \<Rightarrow> ret ptr U64_MAX k
         | Some name \<Rightarrow>
             (case read_stored E name k of
                None \<Rightarrow> Stuck
              | Some (_, k1) \<Rightarrow> ret ptr U64_MAX k1))"

definition set_fds :: "fd_table \<Rightarrow> process \<Rightarrow> process" where
  "set_fds fds p = p\<lparr>p_fd_table := fds\<rparr>"

definition sys_open :: "'s env \<Rightarrow> u64 \<Rightarrow> 's kernel \<Rightarrow> 's result" where
  "sys_open E ptr k =
     (let c = k_ctxs k ptr
      in case read_user_string (c_rdi c) (unat (c_rsi c)) (k_current k) k of
           None \<Rightarrow> ret ptr U64_MAX k
         | Some name \<Rightarrow>
             (case current k of
                None \<Rightarrow> ret ptr U64_MAX k
              | Some p \<Rightarrow>
                  (case fd_open (read_file (env_disks E)) name (c_rdx c) (p_fd_table p) (k_fs k) of
                     None \<Rightarrow> Stuck
                   | Some (r, fds, fs') \<Rightarrow>
                       ret ptr (case r of None \<Rightarrow> U64_MAX | Some fd \<Rightarrow> of_nat fd)
                         (update_current (set_fds fds) (k\<lparr>k_fs := fs'\<rparr>)))))"

definition sys_read :: "u64 \<Rightarrow> 's kernel \<Rightarrow> 's result" where
  "sys_read ptr k =
     (let c = k_ctxs k ptr; n = min (unat (c_rdx c)) 4096
      in case current k of
           None \<Rightarrow> ret ptr 0 k
         | Some p \<Rightarrow>
             (case fd_read (unat (c_rdi c)) n n (p_fd_table p) of
                None \<Rightarrow> Stuck
              | Some (bs, fds) \<Rightarrow>
                  (let k1 = update_current (set_fds fds) k
                   in ret ptr (of_nat (length bs))
                        (k1\<lparr>k_mach := write_user_bytes (p_pml4_phys p) (c_rsi c) bs (k_mach k1)\<rparr>))))"

definition sys_write_file :: "u64 \<Rightarrow> 's kernel \<Rightarrow> 's result" where
  "sys_write_file ptr k =
     (let c = k_ctxs k ptr; n = min (unat (c_rdx c)) 4096
      in case current k of
           None \<Rightarrow> ret ptr 0 k
         | Some p \<Rightarrow>
             (let (written, fds) = fd_write (unat (c_rdi c))
                    (read_user_bytes (p_pml4_phys p) (c_rsi c) n (k_mach k)) n (p_fd_table p)
              in ret ptr (of_nat written) (update_current (set_fds fds) k)))"

definition sys_close :: "'s env \<Rightarrow> u64 \<Rightarrow> 's kernel \<Rightarrow> 's result" where
  "sys_close E ptr k =
     (case current k of
        None \<Rightarrow> ret ptr U64_MAX k
      | Some p \<Rightarrow>
          (case fd_close (write_file (env_disks E)) (unat (c_rdi (k_ctxs k ptr))) (p_fd_table p) (k_fs k) of
             (ok, fds, fs') \<Rightarrow>
               ret ptr (if ok then 0 else U64_MAX) (update_current (set_fds fds) (k\<lparr>k_fs := fs'\<rparr>))))"

definition sys_stat :: "u64 \<Rightarrow> 's kernel \<Rightarrow> 's result" where
  "sys_stat ptr k =
     (case current k of
        None \<Rightarrow> ret ptr U64_MAX k
      | Some p \<Rightarrow> ret ptr (fd_stat (unat (c_rdi (k_ctxs k ptr))) (p_fd_table p)) k)"

definition sys_unlink :: "'s env \<Rightarrow> u64 \<Rightarrow> 's kernel \<Rightarrow> 's result" where
  "sys_unlink E ptr k =
     (let c = k_ctxs k ptr
      in case read_user_string (c_rdi c) (unat (c_rsi c)) (k_current k) k of
           None \<Rightarrow> ret ptr U64_MAX k
         | Some name \<Rightarrow>
             (case delete_file (env_disks E) name (k_fs k) of
                None \<Rightarrow> Stuck
              | Some (ok, fs') \<Rightarrow> ret ptr (if ok then 0 else U64_MAX) (k\<lparr>k_fs := fs'\<rparr>)))"

section \<open>Reports\<close>

definition file_line :: "bytes \<times> u32 \<Rightarrow> bytes" where
  "file_line f = fst f @ [0x20] @ decimal (unat (snd f)) @ newline"

definition sys_listdir :: "'s env \<Rightarrow> u64 \<Rightarrow> 's kernel \<Rightarrow> 's result" where
  "sys_listdir E ptr k =
     (let (files, fs') = list_files (env_disks E) (k_fs k)
      in report ptr (concat (map file_line files)) (k\<lparr>k_fs := fs'\<rparr>))"

definition sys_proclist :: "u64 \<Rightarrow> 's kernel \<Rightarrow> 's result" where
  "sys_proclist ptr k = report ptr (format_process_list (k_procs k)) k"

definition memory_report :: "'s env \<Rightarrow> 's kernel \<Rightarrow> bytes" where
  "memory_report E k =
     (case frame_stats (frames (k_mach k)) of
        (total_f, used_f, free_f) \<Rightarrow>
          ascii ''Physical RAM : '' @ decimal (total_f * 4) @ ascii '' KiB total | '' @
          decimal (used_f * 4) @ ascii '' KiB used | '' @ decimal (free_f * 4) @ ascii '' KiB free'' @ newline @
          ascii ''Framebuffer  : PAT1 Write-Combining Enabled (1080p/4K Ready)'' @ newline @
          ascii ''ATA PIO Disk : '' @
          ascii (if dd_available (ata (env_disks E)) (disk (k_fs k)) then ''ONLINE (Primary Master LBA28)'' else ''STANDBY'') @ newline @
          env_ahci_status E)"

definition sys_sysinfo :: "'s env \<Rightarrow> u64 \<Rightarrow> 's kernel \<Rightarrow> 's result" where
  "sys_sysinfo E ptr k =
     (let mode = c_rdx (k_ctxs k ptr)
      in if mode = 4
         then (case format_disk_report (env_disks E) (k_fs k) of (s, fs') \<Rightarrow> report ptr s (k\<lparr>k_fs := fs'\<rparr>))
         else report ptr
           (if mode = 1 then env_pci_list E else if mode = 2 then env_apic_status E
            else if mode = 3 then env_xhci_status E else memory_report E k) k)"

definition install_report :: "install_error + nat \<Rightarrow> bytes" where
  "install_report r = (case r of
     Inr sectors \<Rightarrow>
       ascii ''[OK] GPT Partition Table written (LBA 0..2)'' @ newline @
       ascii ''  p1: EFI System Partition (LBA 64..2047)'' @ newline @
       ascii ''  p2: HUSEYNOS-ROOT Volume (LBA 2048..5120)'' @ newline @
       ascii ''[OK] Flashed '' @ decimal sectors @ ascii '' sectors (FAT volume + ELF apps + user files)'' @ newline @
       ascii ''[OK] HuseynOS is now permanently installed on disk!'' @ newline
   | Inl e \<Rightarrow>
       ascii ''[ERR] Disk install failed: '' @
       ascii (case e of NoPhysicalDisk \<Rightarrow> ''No physical disk attached''
                | GptLayoutFailed \<Rightarrow> ''Failed to write GPT partition layout'') @ newline)"

definition sys_install_os :: "'s env \<Rightarrow> u64 \<Rightarrow> 's kernel \<Rightarrow> 's result" where
  "sys_install_os E ptr k =
     (let (r, fs') = install_to_disk (env_disks E) (k_fs k)
      in report ptr (install_report r) (k\<lparr>k_fs := fs'\<rparr>))"

section \<open>Devices\<close>

definition sys_inb :: "'s env \<Rightarrow> u64 \<Rightarrow> 's kernel \<Rightarrow> 's result" where
  "sys_inb E ptr k = ret ptr (ucast (env_port E (ucast (c_rdi (k_ctxs k ptr))))) k"

definition sys_get_fb_info :: "'s env \<Rightarrow> u64 \<Rightarrow> 's kernel \<Rightarrow> 's result" where
  "sys_get_fb_info E ptr k =
     (case env_framebuffer E of
        None \<Rightarrow> ret ptr 0 k
      | Some fb \<Rightarrow>
          (let paddr = (case get_mapped_frame (get_pml4 (k_mach k)) (fb_addr fb) (k_mach k) of
                          None \<Rightarrow> 0 | Some a \<Rightarrow> a)
           in Resume ptr (set_ctx ptr (\<lambda>c. c\<lparr>c_rax := paddr, c_rdi := fb_width fb, c_rsi := fb_height fb,
                c_rdx := fb_pitch fb, c_r10 := ucast (fb_bpp fb div 8)\<rparr>) k)))"

definition sys_get_time :: "'s env \<Rightarrow> u64 \<Rightarrow> 's kernel \<Rightarrow> 's result" where
  "sys_get_time E ptr k =
     (case read_datetime (fst (env_clock E)) (snd (env_clock E)) of
        None \<Rightarrow> Stuck
      | Some dt \<Rightarrow>
          Resume ptr (set_ctx ptr (\<lambda>c. c\<lparr>c_rax := ucast (hour dt), c_rdi := ucast (minute dt),
            c_rsi := ucast (second dt), c_rdx := ucast (day dt), c_r10 := ucast (month dt),
            c_r8 := ucast (year dt)\<rparr>) k))"

text \<open>\<^verbatim>\<open>out 0x604, 0x2000\<close>: the machine is off.\<close>

definition sys_shutdown :: "'s kernel \<Rightarrow> 's result" where
  "sys_shutdown k = PowerOff k"

section \<open>Dispatch\<close>

definition handle :: "'s env \<Rightarrow> u64 \<Rightarrow> 's kernel \<Rightarrow> 's result" where
  "handle E ptr k =
     (let n = c_rax (k_ctxs k ptr)
      in if n = 1 then sys_send ptr k
         else if n = 2 then sys_recv ptr k
         else if n = 3 then sys_exit ptr k
         else if n = 4 then sys_yield ptr k
         else if n = 5 then sys_getpid ptr k
         else if n = 6 then sys_map_physical ptr k
         else if n = 7 then sys_inb E ptr k
         else if n = 8 then sys_get_fb_info E ptr k
         else if n = 9 then sys_mmap ptr k
         else if n = 10 then sys_munmap ptr k
         else if n = 11 then sys_sbrk ptr k
         else if n = 12 then sys_shm_create ptr k
         else if n = 13 then sys_shm_map ptr k
         else if n = 14 then sys_shm_unmap ptr k
         else if n = 15 then sys_spawn E ptr k
         else if n = 16 then sys_execve E ptr k
         else if n = 17 then sys_waitpid ptr k
         else if n = 18 then sys_open E ptr k
         else if n = 19 then sys_read ptr k
         else if n = 20 then sys_write_file ptr k
         else if n = 21 then sys_close E ptr k
         else if n = 22 then sys_stat ptr k
         else if n = 23 then sys_listdir E ptr k
         else if n = 24 then sys_shutdown k
         else if n = 25 then sys_get_time E ptr k
         else if n = 26 then sys_unlink E ptr k
         else if n = 27 then sys_proclist ptr k
         else if n = 28 then sys_sysinfo E ptr k
         else if n = 29 then sys_install_os E ptr k
         else ret ptr U64_MAX k)"

end
