(* ===== verification/Kernel_Inv.thy ===== *)
theory Kernel_Inv
  imports Syscall
begin

text \<open>
  The invariant of the kernel state and its preservation by every system call: process ids are
  unique and below the counter, only the current process is marked running, the message queues
  and descriptor tables are well formed, and every region ends on a page boundary. One lemma
  per operation, collected in \<open>inv\<close>; the dispatch follows by simplification.
\<close>

named_theorems inv

definition ends_aligned :: "vma_list \<Rightarrow> bool" where
  "ends_aligned regions \<longleftrightarrow> (\<forall>v\<in>set regions. page_aligned (vma_end v))"

definition proc_ok :: "process \<Rightarrow> bool" where
  "proc_ok p \<longleftrightarrow> fds_ok (p_fd_table p) \<and> ends_aligned (p_vmas p)"

definition procs_ok :: "proc_table \<Rightarrow> bool" where
  "procs_ok procs \<longleftrightarrow> (\<forall>p. Some p \<in> set procs \<longrightarrow> proc_ok p)"

definition kernel_inv :: "'s kernel \<Rightarrow> bool" where
  "kernel_inv k \<longleftrightarrow> kernel_ok k \<and> queues_ok k \<and> 0 < k_next_pid k \<and> procs_ok (k_procs k)"

definition result_inv :: "'s result \<Rightarrow> bool" where
  "result_inv r = (case r of Resume _ k \<Rightarrow> kernel_inv k | PowerOff k \<Rightarrow> kernel_inv k | Stuck \<Rightarrow> True)"

lemma result_inv_simps [simp]:
  "result_inv (Resume ptr k) = kernel_inv k" "result_inv (PowerOff k) = kernel_inv k" "result_inv Stuck"
  by (simp_all add: result_inv_def)

text \<open>The invariant reads the table, the counter, the current id and the queues only.\<close>

lemma kernel_inv_fields [simp]:
  "kernel_inv (k\<lparr>k_mach := m\<rparr>) = kernel_inv k" "kernel_inv (k\<lparr>k_shm := s\<rparr>) = kernel_inv k"
  "kernel_inv (k\<lparr>k_fs := fs\<rparr>) = kernel_inv k" "kernel_inv (k\<lparr>k_ctxs := c\<rparr>) = kernel_inv k"
  "kernel_inv (set_ctx ptr f k) = kernel_inv k"
  by (simp_all add: kernel_inv_def kernel_ok_def running_is_current_def queues_ok_def set_ctx_def)

lemma result_inv_ret [simp]: "result_inv (ret ptr v k) = kernel_inv k"
  by (simp add: ret_def)

section \<open>Changing one process\<close>

lemma update_process_in:
  assumes "Some q \<in> set (update_process pid f procs)"
  shows "Some q \<in> set procs \<or> (\<exists>p. get_process procs pid = Some p \<and> q = f p)"
proof (cases "proc_index procs pid")
  case (Some i)
  from assms Some have "Some q \<in> set (procs[i := map_option f (procs ! i)])" by (simp add: update_process_def)
  then have "Some q \<in> insert (map_option f (procs ! i)) (set procs)" by (rule subsetD [OF set_update_subset_insert])
  with Some show ?thesis by (cases "procs ! i") (auto simp: get_process_def)
qed (use assms in \<open>simp add: update_process_def\<close>)

lemma get_process_in: "get_process procs pid = Some p \<Longrightarrow> Some p \<in> set procs"
  by (auto simp: get_process_def split: option.splits dest!: proc_index_Some) (metis nth_mem)

lemma get_process_ok: "kernel_inv k \<Longrightarrow> get_process (k_procs k) pid = Some p \<Longrightarrow> proc_ok p"
  using get_process_in unfolding kernel_inv_def procs_ok_def by blast

lemma procs_ok_update:
  "procs_ok procs \<Longrightarrow> (\<And>p. get_process procs pid = Some p \<Longrightarrow> proc_ok p \<Longrightarrow> proc_ok (f p)) \<Longrightarrow>
   procs_ok (update_process pid f procs)"
  unfolding procs_ok_def using update_process_in get_process_in by metis

lemma kernel_inv_update:
  assumes "kernel_inv k" "\<And>p. p_pid (f p) = p_pid p" "\<And>p. p_state (f p) = Running \<Longrightarrow> p_state p = Running"
    and "\<And>p. get_process (k_procs k) pid = Some p \<Longrightarrow> proc_ok p \<Longrightarrow> proc_ok (f p)"
  shows "kernel_inv (k\<lparr>k_procs := update_process pid f (k_procs k)\<rparr>)"
  using assms update_process_kernel_ok [of k f "k\<lparr>k_procs := update_process pid f (k_procs k)\<rparr>" pid] procs_ok_update
  by (simp add: kernel_inv_def queues_ok_def)

lemma update_current_inv:
  assumes "kernel_inv k" "\<And>p. p_pid (f p) = p_pid p" "\<And>p. p_state (f p) = Running \<Longrightarrow> p_state p = Running"
    and "\<And>p. current k = Some p \<Longrightarrow> proc_ok p \<Longrightarrow> proc_ok (f p)"
  shows "kernel_inv (update_current f k)"
  using assms by (simp add: update_current_def current_def kernel_inv_update)

section \<open>The scheduler and messages\<close>

lemma proc_ok_fields [simp]:
  "proc_ok (p\<lparr>p_rsp := r\<rparr>) = proc_ok p" "proc_ok (p\<lparr>p_state := st\<rparr>) = proc_ok p"
  "proc_ok (p\<lparr>p_waiting_for_pid := w\<rparr>) = proc_ok p"
  "proc_ok (set_state st p) = proc_ok p" "proc_ok (wake p) = proc_ok p" "proc_ok (block_on c p) = proc_ok p"
  by (simp_all add: proc_ok_def set_state_def wake_def block_on_def)

lemma schedule_frame:
  "k_queues (snd (schedule ptr k)) = k_queues k" "k_next_pid (snd (schedule ptr k)) = k_next_pid k"
  "procs_ok (k_procs k) \<Longrightarrow> procs_ok (k_procs (snd (schedule ptr k)))"
  by (auto simp: schedule_def save_current_def Let_def split: option.split intro!: procs_ok_update)

lemma schedule_inv: "kernel_inv k \<Longrightarrow> kernel_inv (snd (schedule ptr k))"
  using schedule_kernel_ok [of k ptr "fst (schedule ptr k)" "snd (schedule ptr k)"]
  by (simp add: kernel_inv_def queues_ok_def schedule_frame)

lemma resched_inv [inv]: "kernel_inv k \<Longrightarrow> result_inv (resched ptr k)"
  using schedule_inv [of k ptr] by (simp add: resched_def Let_def split_def)

lemma block_current_inv [inv]: "kernel_inv k \<Longrightarrow> kernel_inv (block_current k)"
  by (auto simp: block_current_def intro!: kernel_inv_update)

lemma unblock_inv [inv]: "kernel_inv k \<Longrightarrow> kernel_inv (unblock pid k)"
  by (simp add: unblock_def, rule kernel_inv_update) (auto split: if_splits)

lemma queue_update_inv: "kernel_inv k \<Longrightarrow> queue_inv q \<Longrightarrow> kernel_inv (k\<lparr>k_queues := (k_queues k)[i := q]\<rparr>)"
  using queues_ok_update [of k q i] by (simp add: kernel_inv_def kernel_ok_def running_is_current_def)

lemma ipc_send_inv [inv]: "kernel_inv k \<Longrightarrow> kernel_inv (snd (ipc_send to_pid ty a1 a2 a3 a4 a5 a6 k))"
proof (cases "to_pid = 0 \<or> to_pid \<ge> 64")
  case False
  assume k: "kernel_inv k"
  let ?msg = "\<lparr>sender = k_current k, msg_type = ty, arg1 = a1, arg2 = a2, arg3 = a3, arg4 = a4,
    arg5 = a5, arg6 = a6\<rparr>"
  obtain ok q where p: "queue_push ?msg (k_queues k ! to_pid) = (ok, q)" by fastforce
  have "queue_inv (k_queues k ! to_pid)" using k False by (simp add: kernel_inv_def queues_ok_def)
  with ring.push_spec [OF this p] queue_update_inv [OF k, of q to_pid] False p show ?thesis
    by (simp add: ipc_send_def Let_def unblock_inv)
qed (simp add: ipc_send_def)

lemma try_receive_inv [inv]: "kernel_inv k \<Longrightarrow> kernel_inv (snd (try_receive k))"
proof (cases "k_current k < 64")
  case True
  assume k: "kernel_inv k"
  obtain r q where p: "queue_pop (k_queues k ! k_current k) = (r, q)" by fastforce
  have "queue_inv (k_queues k ! k_current k)" using k True by (simp add: kernel_inv_def queues_ok_def)
  with ring.pop_spec [OF this p] queue_update_inv [OF k, of q "k_current k"] p True show ?thesis
    by (simp add: try_receive_def)
qed (simp add: try_receive_def)

lemma write_current_inv [simp]: "kernel_inv (write_current v bs k) = kernel_inv k"
  by (simp add: write_current_def split: option.split)

lemma repeat_call_inv [simp]: "kernel_inv (repeat_call ptr k) = kernel_inv k"
  by (simp add: repeat_call_def)

lemma sys_send_inv [inv]: "kernel_inv k \<Longrightarrow> result_inv (sys_send ptr k)"
  using ipc_send_inv by (auto simp: sys_send_def Let_def split_def)

lemma sys_recv_inv [inv]: "kernel_inv k \<Longrightarrow> result_inv (sys_recv ptr k)"
  using try_receive_inv [of k]
  by (cases "try_receive k") (auto simp: sys_recv_def Let_def inv split: option.split)

lemma report_inv [simp]: "result_inv (report ptr text k) = kernel_inv k"
  by (simp add: report_def Let_def)

lemma sys_waitpid_inv [inv]: "kernel_inv k \<Longrightarrow> result_inv (sys_waitpid ptr k)"
  by (auto simp: sys_waitpid_def Let_def block_on_def intro!: kernel_inv_update resched_inv update_current_inv
      split: option.split)

section \<open>Memory\<close>

lemma sys_map_physical_inv [inv]: "kernel_inv k \<Longrightarrow> result_inv (sys_map_physical ptr k)"
  by (simp add: sys_map_physical_def Let_def split: option.split)

lemma ends_aligned_add [simp]: "ends_aligned (vma_add v vs) \<longleftrightarrow> ends_aligned vs \<and> page_aligned (vma_end v)"
  by (auto simp: ends_aligned_def vma_add_def)

lemma vma_end_anonymous [simp]: "vma_end (anonymous_vma a b) = b" "vma_start (anonymous_vma a b) = a"
  by (simp_all add: anonymous_vma_def)

lemma sys_sbrk_inv [inv]: "kernel_inv k \<Longrightarrow> result_inv (sys_sbrk ptr k)"
  by (auto simp: sys_sbrk_def Let_def grow_heap_def proc_ok_def intro!: update_current_inv split: option.split)

lemma page_aligned_add: "page_aligned a \<Longrightarrow> page_aligned b \<Longrightarrow> page_aligned (a + b)"
proof -
  assume "page_aligned a" "page_aligned b"
  then have "(unat a + unat b) mod 4096 = 0" by (simp add: page_aligned_nat mod_add_eq [symmetric])
  moreover have "unat (a + b) mod 4096 = (unat a + unat b) mod 4096"
    by (simp add: unat_word_ariths mod_mod_cancel)
  ultimately show "page_aligned (a + b)" by (simp add: page_aligned_nat)
qed

lemma find_free_region_returns:
  assumes "ends_aligned regions"
  shows "\<exists>r. find_free_region regions hint sz = Some r \<and> (\<forall>a. r = Some a \<longrightarrow> page_aligned a)"
  unfolding find_free_region_def
  by (rule free_region_loop_returns) (use assms in \<open>auto simp: ends_aligned_def\<close>)

lemma sys_mmap_inv [inv]: "kernel_inv k \<Longrightarrow> result_inv (sys_mmap ptr k)"
proof (cases "current k")
  case (Some p)
  assume k: "kernel_inv k"
  have "ends_aligned (p_vmas p)" using get_process_ok [OF k] Some by (simp add: current_def proc_ok_def)
  from find_free_region_returns [OF this] obtain r where
    r: "find_free_region (p_vmas p) (if c_rdi (k_ctxs k ptr) \<noteq> 0 then c_rdi (k_ctxs k ptr) else 0x20000000)
          (align_up (c_rsi (k_ctxs k ptr))) = Some r" "\<forall>a. r = Some a \<longrightarrow> page_aligned a"
    by blast
  show ?thesis
    using k Some r
    by (auto simp: sys_mmap_def Let_def add_region_def proc_ok_def page_aligned_add intro!: update_current_inv
        split: option.split)
qed (simp add: sys_mmap_def)

lemma ends_aligned_filter: "ends_aligned vs \<Longrightarrow> ends_aligned (filter P vs)"
  by (simp add: ends_aligned_def)

lemma sys_munmap_inv [inv]: "kernel_inv k \<Longrightarrow> result_inv (sys_munmap ptr k)"
  by (auto simp: sys_munmap_def Let_def remove_region_def proc_ok_def ends_aligned_filter
      intro!: update_current_inv split: option.split)

lemma sys_shm_inv [inv]:
  "kernel_inv k \<Longrightarrow> result_inv (sys_shm_create ptr k)" "kernel_inv k \<Longrightarrow> result_inv (sys_shm_map ptr k)"
  "kernel_inv k \<Longrightarrow> result_inv (sys_shm_unmap ptr k)"
  by (auto simp: sys_shm_create_def sys_shm_map_def sys_shm_unmap_def Let_def split: option.split prod.split)

section \<open>Files\<close>

lemma set_fds_inv: "kernel_inv k \<Longrightarrow> fds_ok fds \<Longrightarrow> kernel_inv (update_current (set_fds fds) k)"
  by (rule update_current_inv) (auto simp: set_fds_def proc_ok_def)

lemma current_fds: "kernel_inv k \<Longrightarrow> current k = Some p \<Longrightarrow> fds_ok (p_fd_table p)"
  using get_process_ok by (auto simp: current_def proc_ok_def)

lemma set_fds_fs: "update_current f (k\<lparr>k_fs := fs\<rparr>) = (update_current f k)\<lparr>k_fs := fs\<rparr>"
  by (simp add: update_current_def)

lemma read_stored_inv: "kernel_inv k \<Longrightarrow> read_stored E name k = Some (r, k') \<Longrightarrow> kernel_inv k'"
  by (auto simp: read_stored_def split: option.splits)

lemma sys_execve_inv [inv]: "kernel_inv k \<Longrightarrow> result_inv (sys_execve E ptr k)"
  by (auto simp: sys_execve_def Let_def split: option.split prod.split dest: read_stored_inv)

lemma sys_open_inv [inv]: "kernel_inv k \<Longrightarrow> result_inv (sys_open E ptr k)"
  by (auto simp: sys_open_def Let_def set_fds_fs split: option.split prod.split
      intro!: set_fds_inv dest: fd_open_ok [OF current_fds])

lemma sys_read_inv [inv]: "kernel_inv k \<Longrightarrow> result_inv (sys_read ptr k)"
  by (auto simp: sys_read_def Let_def split: option.split prod.split
      intro!: set_fds_inv dest: fd_read_ok [OF current_fds])

lemma sys_write_file_inv [inv]: "kernel_inv k \<Longrightarrow> result_inv (sys_write_file ptr k)"
  by (auto simp: sys_write_file_def Let_def split: option.split prod.split
      intro!: set_fds_inv dest: fd_write_ok [OF current_fds])

lemma sys_close_inv [inv]: "kernel_inv k \<Longrightarrow> result_inv (sys_close E ptr k)"
  by (auto simp: sys_close_def Let_def set_fds_fs split: option.split prod.split
      intro!: set_fds_inv dest: fd_close_ok [OF current_fds])

lemma sys_stat_inv [inv]: "kernel_inv k \<Longrightarrow> result_inv (sys_stat ptr k)"
  by (simp add: sys_stat_def split: option.split)

lemma sys_unlink_inv [inv]: "kernel_inv k \<Longrightarrow> result_inv (sys_unlink E ptr k)"
  by (simp add: sys_unlink_def Let_def split: option.split prod.split)

lemma report_calls_inv [inv]:
  "kernel_inv k \<Longrightarrow> result_inv (sys_listdir E ptr k)" "kernel_inv k \<Longrightarrow> result_inv (sys_proclist ptr k)"
  "kernel_inv k \<Longrightarrow> result_inv (sys_sysinfo E ptr k)" "kernel_inv k \<Longrightarrow> result_inv (sys_install_os E ptr k)"
  by (simp_all add: sys_listdir_def sys_proclist_def sys_sysinfo_def sys_install_os_def Let_def split: prod.split)

lemma device_calls_inv [inv]:
  "kernel_inv k \<Longrightarrow> result_inv (sys_inb E ptr k)" "kernel_inv k \<Longrightarrow> result_inv (sys_get_fb_info E ptr k)"
  "kernel_inv k \<Longrightarrow> result_inv (sys_get_time E ptr k)" "kernel_inv k \<Longrightarrow> result_inv (sys_getpid ptr k)"
  "kernel_inv k \<Longrightarrow> result_inv (sys_yield ptr k)"
  by (simp_all add: sys_inb_def sys_get_fb_info_def sys_get_time_def sys_getpid_def sys_yield_def Let_def
      resched_inv split: option.split)

section \<open>Creating and ending processes\<close>

lemma table_ok_Suc: "table_ok procs n \<Longrightarrow> table_ok procs (n + 1)"
  unfolding table_ok_def by fastforce

lemma next_pid_inv: "kernel_inv k \<Longrightarrow> kernel_inv (k\<lparr>k_next_pid := k_next_pid k + 1\<rparr>)"
  using table_ok_Suc by (auto simp: kernel_inv_def kernel_ok_def running_is_current_def queues_ok_def)

lemma install_inv:
  assumes k: "kernel_inv k" and p: "p_pid p = k_next_pid k" "p_state p = Ready" "proc_ok p"
    and slot: "\<And>procs i. slot_of procs = Some i \<Longrightarrow> i < length procs"
    and i: "install_process slot_of p (k\<lparr>k_next_pid := k_next_pid k + 1\<rparr>) = Some k'"
  shows "kernel_inv k'"
proof -
  have t: "table_ok (k_procs k) (k_next_pid k)" and r: "running_is_current k" and n: "0 < k_next_pid k"
    and po: "procs_ok (k_procs k)"
    using k by (simp_all add: kernel_inv_def kernel_ok_def)
  from i obtain j where j: "slot_of (k_procs k) = Some j"
    "k' = k\<lparr>k_next_pid := k_next_pid k + 1, k_procs := (k_procs k)[j := Some p]\<rparr>"
    by (auto simp: install_process_def split: option.splits)
  have lt: "j < MAX_PROCESSES" using slot [OF j(1)] table_okD(1) [OF t] by simp
  have "table_ok ((k_procs k)[j := Some p]) (k_next_pid k + 1)" by (rule table_ok_insert [OF t lt p(1) n])
  moreover have "running_is_current k'"
    using r p(2) lt table_okD(1) [OF t] by (auto simp: running_is_current_def j(2) nth_list_update)
  moreover have "procs_ok (k_procs k')"
    using po p(3) subsetD [OF set_update_subset_insert [of "k_procs k" j "Some p"]]
    by (fastforce simp: procs_ok_def j(2))
  ultimately show ?thesis
    using k by (simp add: kernel_inv_def kernel_ok_def j(2) queues_ok_def)
qed

lemma slot_lt: "reusable_slot procs = Some i \<Longrightarrow> i < length procs" "free_slot procs = Some i \<Longrightarrow> i < length procs"
  unfolding reusable_slot_def free_slot_def find_range_Some by auto

lemma load_all_ends:
  "load_all file beyond pml4 phs (vmas, mx, m) = Finished (vmas', mx', m') \<Longrightarrow> ends_aligned vmas \<Longrightarrow> ends_aligned vmas'"
  by (induction phs arbitrary: vmas mx m)
    (auto simp: Let_def segment_vma_def segment_end_def split: outcome.splits)

lemma stack_vma_end: "page_aligned (vma_end stack_vma)"
  by (simp add: stack_vma_def page_aligned_def)

lemma fd_table_new_ok: "fds_ok fd_table_new"
  by (simp add: fds_ok_def fd_table_new_def)

lemma load_elf_inv:
  assumes k: "kernel_inv k" and l: "load_elf name file beyond parent stack k = Some (r, k')"
  shows "kernel_inv k'"
proof (cases "elf_new file")
  case (Inl e)
  with k l show ?thesis by (simp add: load_elf_def)
next
  case (Inr h)
  let ?k1 = "k\<lparr>k_next_pid := k_next_pid k + 1\<rparr>"
  note k1 = next_pid_inv [OF k]
  obtain pml4 m1 where c: "create_user_page_table (k_mach k) = Some (pml4, m1)"
    using l Inr by (auto simp: load_elf_def Let_def split: option.splits)
  show ?thesis
  proof (cases "load_all file beyond pml4 (load_segments file beyond h) ([], 0, m1)")
    case Panic
    with l Inr c show ?thesis by (simp add: load_elf_def Let_def)
  next
    case (Failed x)
    with l Inr c k1 show ?thesis by (auto simp: load_elf_def Let_def split: prod.splits)
  next
    case (Finished x)
    obtain vmas mx m2 where x: "x = (vmas, mx, m2)" by (cases x)
    obtain m3 where m3: "map_stack_pages pml4 [USER_STACK_TOP - 0x1000, USER_STACK_TOP - 0x2000] m2 = Some m3"
      using l Inr c Finished x by (auto simp: load_elf_def Let_def split: option.splits)
    show ?thesis
    proof (cases stack)
      case None
      with l Inr c Finished x m3 have "k' = ?k1\<lparr>k_mach := m3\<rparr>" by (simp add: load_elf_def Let_def)
      with k1 show ?thesis by (simp only: kernel_inv_fields)
    next
      case (Some base)
      define p where "p = user_process (k_next_pid k) name parent pml4 (vma_add stack_vma vmas) (align_up mx) base"
      define k0 where "k0 = k\<lparr>k_mach := m3, k_ctxs := (k_ctxs k)(p_rsp p := user_context (e_entry h))\<rparr>"
      have k0: "kernel_inv k0" using k by (simp add: k0_def)
      have "ends_aligned vmas" using load_all_ends [OF Finished [unfolded x]] by (simp add: ends_aligned_def)
      then have "proc_ok p" "p_pid p = k_next_pid k0" "p_state p = Ready"
        by (simp_all add: p_def k0_def proc_ok_def user_process_def process_empty_def fd_table_new_ok stack_vma_end)
      note inst = install_inv [OF k0 this(2,3,1) slot_lt(1)]
      define k3 where "k3 = ?k1\<lparr>k_mach := m3, k_ctxs := (k_ctxs k)(p_rsp p := user_context (e_entry h))\<rparr>"
      have k3: "k0\<lparr>k_next_pid := k_next_pid k0 + 1\<rparr> = k3" by (cases k) (simp add: k0_def k3_def)
      have "(case install_process reusable_slot p k3 of
               Some k4 \<Rightarrow> Some (Some (k_next_pid k), k4) | None \<Rightarrow> Some (None, k3)) = Some (r, k')"
        using l Inr c Finished x m3 Some by (simp add: load_elf_def Let_def p_def k3_def cong: option.case_cong)
      then show ?thesis
        using inst next_pid_inv [OF k0] unfolding k3 by (auto split: option.splits)
    qed
  qed
qed

lemma sys_spawn_inv [inv]: "kernel_inv k \<Longrightarrow> result_inv (sys_spawn E ptr k)"
  by (auto simp: sys_spawn_def Let_def split: option.split prod.split dest: read_stored_inv load_elf_inv)

lemma wake_waiters_same: "same_pids procs (wake_waiters pid procs)"
  by (auto simp: same_pids_def wake_waiters_def option.map_comp o_def intro!: map_cong option.map_cong0)

lemma wake_waiters_inv: "kernel_inv k \<Longrightarrow> kernel_inv (k\<lparr>k_procs := wake_waiters pid (k_procs k)\<rparr>)"
proof -
  assume k: "kernel_inv k"
  have t0: "table_ok (k_procs k) (k_next_pid k)" using k by (simp add: kernel_inv_def kernel_ok_def)
  have l: "length (k_procs k) = MAX_PROCESSES" by (rule table_okD(1) [OF t0])
  have t: "table_ok (wake_waiters pid (k_procs k)) (k_next_pid k)"
    by (rule same_pids_table_ok [OF wake_waiters_same t0])
  have "running_is_current (k\<lparr>k_procs := wake_waiters pid (k_procs k)\<rparr>)"
    using k l by (auto simp: kernel_inv_def kernel_ok_def running_is_current_def wake_waiters_def split: if_splits)
  moreover have "procs_ok (wake_waiters pid (k_procs k))"
    using k by (auto simp: kernel_inv_def procs_ok_def wake_waiters_def map_option_case split: option.splits)
  ultimately show ?thesis using k t by (simp add: kernel_inv_def kernel_ok_def queues_ok_def)
qed

lemma exit_process_inv [inv]: "kernel_inv k \<Longrightarrow> kernel_inv (exit_process pid code k)"
proof -
  assume k: "kernel_inv k"
  obtain shm' m1 where s: "shm_cleanup_process pid (k_shm k) (k_mach k) = (shm', m1)" by fastforce
  define k1 where "k1 = k\<lparr>k_shm := shm', k_mach := m1, k_procs := wake_waiters pid (k_procs k)\<rparr>"
  have k1: "kernel_inv k1" using wake_waiters_inv [of "k\<lparr>k_shm := shm', k_mach := m1\<rparr>" pid] k by (simp add: k1_def)
  have "kernel_inv (k1\<lparr>k_mach := m, k_procs := update_process pid (end_process st code) (k_procs k1)\<rparr>)"
    if "st \<noteq> Running" for st m
    using that kernel_inv_update [of "k1\<lparr>k_mach := m\<rparr>" "end_process st code" pid] k1
    by (auto simp: end_process_def proc_ok_def vma_clear_def ends_aligned_def)
  from this [of Dead] this [of Empty] k1 show ?thesis
    by (auto simp: exit_process_def Let_def s k1_def split: option.split)
qed

lemma sys_exit_inv [inv]: "kernel_inv k \<Longrightarrow> result_inv (sys_exit ptr k)"
  by (simp add: sys_exit_def inv)

section \<open>Every call\<close>

lemma sys_shutdown_inv [inv]: "kernel_inv k \<Longrightarrow> result_inv (sys_shutdown k)"
  by (simp add: sys_shutdown_def result_inv_def)

lemma handle_inv: "kernel_inv k \<Longrightarrow> result_inv (handle E ptr k)"
  by (simp add: handle_def Let_def inv)

end
