(* ===== verification/User_Memory.thy ===== *)
theory User_Memory
  imports Address_Space
begin

text \<open>
  The memory a user process sees: the partial function \<open>umem\<close> from its addresses to bytes, an
  abstraction of page tables and physical memory. A page is \<open>plain\<close> if it is allocated and not a
  page table of any address space; an address space is private if its pages are plain and
  pairwise distinct. Allocating, mapping, clearing and writing plain pages are then updates of
  \<open>umem\<close>, without effect on the tables.
\<close>

definition umem :: "u64 \<Rightarrow> machine \<Rightarrow> u64 \<Rightarrow> u8 option" where
  "umem p m v = map_option (read8 m) (get_mapped_frame p v m)"

definition plain :: "u64 set \<Rightarrow> machine \<Rightarrow> u64 \<Rightarrow> bool" where
  "plain R m g \<longleftrightarrow> page_aligned g \<and> g \<notin> m_avail m \<and>
     (\<forall>q w k. q \<in> R \<longrightarrow> user_addr w \<longrightarrow> k \<le> 3 \<longrightarrow> tbl m q k w \<noteq> Some g)"

definition same_page :: "u64 \<Rightarrow> machine \<Rightarrow> machine \<Rightarrow> bool" where
  "same_page g m m' \<longleftrightarrow> (\<forall>c. drop_bit 9 c = drop_bit 12 g \<longrightarrow> mem m' c = mem m c)"

lemma plainD:
  assumes "plain R m g"
  shows "page_aligned g" "g \<notin> m_avail m" "q \<in> R \<Longrightarrow> user_addr w \<Longrightarrow> k \<le> 3 \<Longrightarrow> tbl m q k w \<noteq> Some g"
  using assms by (auto simp: plain_def)

lemma same_page_refl [simp]: "same_page g m m"
  by (simp add: same_page_def)

lemma same_page_trans: "same_page g m1 m2 \<Longrightarrow> same_page g m2 m3 \<Longrightarrow> same_page g m1 m3"
  by (simp add: same_page_def)

lemma page_number_inj: "page_aligned f \<Longrightarrow> page_aligned g \<Longrightarrow> drop_bit 12 f = drop_bit 12 g \<longleftrightarrow> f = g"
  using cell_entry_page [of f g 0 0] cell_entry_page [of f f 0 0] by auto

section \<open>Addresses inside a page\<close>

lemma cell_in_page:
  assumes "page_aligned g" "unat o' < 4096"
  shows "drop_bit 9 (cell (g + o')) = drop_bit 12 g"
proof -
  obtain k where k: "unat g = 4096 * k" using assms(1) by (metis page_aligned_nat mod_0_imp_dvd dvdE)
  have "unat g < 18446744073709551616" by simp
  with k assms(2) have "unat (g + o') = 4096 * k + unat o'" by (simp add: unat_word_ariths)
  then have "unat (drop_bit 9 (cell (g + o'))) = k"
    using assms(2) by (simp only: unat_drop_bit_eq unat_cell) (simp add: drop_bit_eq_div)
  moreover have "unat (drop_bit 12 g) = k"
    using k by (simp only: unat_drop_bit_eq) (simp add: drop_bit_eq_div)
  ultimately show ?thesis by (simp only: word_unat_eq_iff)
qed

lemma read8_same_page:
  "same_page g m m' \<Longrightarrow> page_aligned g \<Longrightarrow> unat o' < 4096 \<Longrightarrow> read8 m' (g + o') = read8 m (g + o')"
  by (simp add: read8_def same_page_def cell_in_page)

lemma offset_lt: "unat (v AND 0xFFF :: u64) < 4096"
  by (simp add: unat_and_mask12)

section \<open>Changes outside the tables\<close>

text \<open>A change of one plain page leaves the tables, and with them every translation, alone.\<close>

lemma change_plain:
  assumes fo: "user_forest R m" and g: "plain R m g"
    and m': "\<And>c. drop_bit 9 c \<noteq> drop_bit 12 g \<Longrightarrow> mem m' c = mem m c" "m_avail m' = m_avail m"
  shows "user_forest R m'" and "q \<in> R \<Longrightarrow> user_addr w \<Longrightarrow> get_mapped_frame q w m' = get_mapped_frame q w m"
    and "\<And>h. plain R m h \<Longrightarrow> plain R m' h"
proof -
  have entry: "read64 m' (entry_addr u k w) = read64 m (entry_addr u k w)"
    if "q \<in> R" "user_addr x" "j \<le> 3" "tbl m q j x = Some u" for q x j u k w
  proof -
    have u: "page_aligned u" "u \<noteq> g" using user_forestD(1) [OF fo that] plainD(3) [OF g that(1-3)] that(4) by auto
    then have "drop_bit 9 (cell (entry_addr u k w)) \<noteq> drop_bit 12 g"
      using cell_entry_page plainD(1) [OF g] by blast
    then show ?thesis by (simp add: read64_def m'(1))
  qed
  have tbl: "tbl m' q k w = tbl m q k w" if q: "q \<in> R" "user_addr w" "k \<le> 3" for q w k
    using q(3)
  proof (induction k)
    case (Suc k)
    show ?case
    proof (cases "tbl m q k w")
      case (Some u)
      have "read64 m' (entry_addr u k w) = read64 m (entry_addr u k w)"
        using Suc.prems by (intro entry [OF q(1,2) _ Some]) simp
      with Suc Some show ?thesis by (simp add: tbl.simps(2))
    qed (use Suc in \<open>simp add: tbl.simps(2)\<close>)
  qed simp
  show fo': "user_forest R m'" unfolding user_forest_def
  proof (intro ballI allI impI)
    fix q w k u
    assume q: "q \<in> R" "user_addr w" "k \<le> 3" "tbl m' q k w = Some u"
    then have old: "tbl m q k w = Some u" by (simp add: tbl)
    show "page_aligned u \<and> u \<notin> m_avail m' \<and>
        (k = 1 \<or> k = 2 \<longrightarrow> read64 m' (entry_addr u k w) AND PRESENT \<noteq> 0 \<longrightarrow>
          read64 m' (entry_addr u k w) AND HUGE = 0) \<and>
        (\<forall>q'\<in>R. \<forall>w' k'. user_addr w' \<longrightarrow> k' \<le> 3 \<longrightarrow> tbl m' q' k' w' = Some u \<longrightarrow>
          q = q' \<and> k = k' \<and> same_path k w w')"
      using user_forestD [OF fo q(1-3) old] entry [OF q(1-3) old] m'(2) tbl by auto
  qed
  show "get_mapped_frame q w m' = get_mapped_frame q w m" if q: "q \<in> R" "user_addr w"
  proof -
    have "leaf m' q w = leaf m q w"
      using tbl [OF q, of 3] entry [OF q, of 3] by (cases "tbl m q 3 w") (auto simp: leaf_def)
    then show ?thesis using lookup_walk_leaf [OF fo' q] lookup_walk_leaf [OF fo q] by simp
  qed
  show "plain R m' h" if "plain R m h" for h
    using that by (simp add: plain_def m'(2) tbl)
qed

section \<open>Mapping a page leaves plain pages alone\<close>

lemma grown_plain:
  assumes gr: "grown R p v l t f m m'" and g: "plain R m g"
  shows "plain R m' g" "same_page g m m'"
proof -
  have fo: "user_forest R m" "p \<in> R" "user_addr v" "l < 3" "tbl m p l v = Some t"
    using gr by (auto simp: grown_def)
  have ne: "f \<noteq> g" "t \<noteq> g" using grown_alloc(1) [OF gr] plainD(2) [OF g] plainD(3) [OF g fo(2,3)] fo(4,5) by auto
  have t: "page_aligned t" using user_forestD(1) [OF fo(1-3) _ fo(5)] fo(4) by simp
  show "plain R m' g"
    using plainD [OF g] ne(1) grown_alloc(2) [OF gr] grown_tbl [OF gr] by (auto simp: plain_def split: if_splits)
  from gr obtain m1 where a: "m_alloc_zeroed m = Some (f, m1)"
    and m': "m' = write64 (entry_addr t l v) (f OR PRESENT OR WRITABLE OR USER) m1"
    unfolding grown_def by blast
  have "drop_bit 12 f \<noteq> drop_bit 12 g" "drop_bit 9 (cell (entry_addr t l v)) \<noteq> drop_bit 12 g"
    using page_number_inj [OF grown_alloc(4) [OF gr] plainD(1) [OF g]] cell_entry_page [OF t plainD(1) [OF g]] ne
    by simp_all
  then show "same_page g m m'"
    by (auto simp: same_page_def m' write64_def m_alloc_zeroed_mem [OF a])
qed

lemma map_walk_plain:
  assumes "user_forest R m" "p \<in> R" "user_addr v" "l \<le> 3" "tbl m p l v = Some t"
    and "map_walk [l..<3] v t m = Some (pt, m')" "plain R m g"
  shows "plain R m' g \<and> same_page g m m'"
  using assms
proof (induction "3 - l" arbitrary: l t m)
  case 0
  then show ?case by simp
next
  case (Suc n)
  then have l: "l < 3" and next_l: "[l..<3] = l # [Suc l..<3]" "n = 3 - Suc l"
    by (simp_all add: upt_conv_Cons)
  let ?e = "read64 m (entry_addr t l v)"
  show ?case
  proof (cases "?e AND PRESENT = 0")
    case False
    have "map_walk [Suc l..<3] v (?e AND ADDR_MASK) m = Some (pt, m')"
      using Suc.prems(6) False unfolding next_l(1) by (simp add: Let_def)
    moreover have "tbl m p (Suc l) v = Some (?e AND ADDR_MASK)"
      using Suc.prems(5) False by (simp add: tbl.simps(2))
    ultimately show ?thesis
      using Suc.hyps(1) [OF next_l(2) Suc.prems(1-3)] l Suc.prems(7) by simp
  next
    case True
    then obtain f m1 where a: "m_alloc_zeroed m = Some (f, m1)"
      using Suc.prems(6) unfolding next_l(1) by (auto simp: Let_def split: option.splits)
    define m2 where "m2 = write64 (entry_addr t l v) (f OR PRESENT OR WRITABLE OR USER) m1"
    have g: "grown R p v l t f m m2"
      unfolding grown_def m2_def using Suc.prems(1-3,5) l True a by blast
    have "map_walk [Suc l..<3] v f m2 = Some (pt, m')"
      using Suc.prems(6) True a unfolding next_l(1) m2_def by (simp add: Let_def)
    moreover have "tbl m2 p (Suc l) v = Some f"
      using grown_tbl [OF g Suc.prems(2,3), of "Suc l"] l by simp
    ultimately have "plain R m' g \<and> same_page g m2 m'"
      using Suc.hyps(1) [OF next_l(2) grown_forest [OF g] Suc.prems(2,3)] l grown_plain(1) [OF g Suc.prems(7)]
      by simp
    then show ?thesis using same_page_trans [OF grown_plain(2) [OF g Suc.prems(7)]] by blast
  qed
qed

lemma map_page_plain:
  assumes "user_forest R m" "p \<in> R" "user_addr v"
    and "map_page_in_table p v phys flags m = Some m'" "plain R m g"
  shows "plain R m' g" "same_page g m m'"
proof -
  from assms(4) obtain pt m1 where w: "map_walk [0..<3] v p m = Some (pt, m1)"
    and m': "m' = write64 (entry_addr pt 3 v) (phys OR flags OR PRESENT) m1"
    by (auto simp: map_page_in_table_def upt_rec numeral_2_eq_2 split: option.splits)
  from map_walk_spec [OF assms(1-3) _ _ w]
  have fo: "user_forest R m1" "tbl m1 p 3 v = Some pt" by simp_all
  from map_walk_plain [OF assms(1-3) _ _ w assms(5)] have g: "plain R m1 g" "same_page g m m1" by simp_all
  have pt: "page_aligned pt" "pt \<noteq> g"
    using user_forestD(1) [OF fo(1) assms(2,3) _ fo(2)] plainD(3) [OF g(1) assms(2,3)] fo(2) by auto
  have other: "drop_bit 9 (cell (entry_addr pt 3 v)) \<noteq> drop_bit 12 g"
    using cell_entry_page [OF pt(1) plainD(1) [OF g(1)]] pt(2) by simp
  show "same_page g m m'"
    by (rule same_page_trans [OF g(2)]) (auto simp: same_page_def m' write64_def other)
  have "tbl m' q k w = tbl m1 q k w" if q: "q \<in> R" "user_addr w" "k \<le> 3" for q w k
    using q(3)
  proof (induction k)
    case (Suc k)
    show ?case
    proof (cases "tbl m1 q k w")
      case (Some u)
      have "page_aligned u" using user_forestD(1) [OF fo(1) q(1,2) _ Some] Suc.prems by simp
      moreover have "u \<noteq> pt"
        using user_forestD(4) [OF fo(1) q(1,2) _ Some assms(2,3) _ , of 3] fo(2) Suc.prems by auto
      ultimately have "read64 m' (entry_addr u k w) = read64 m1 (entry_addr u k w)"
        by (simp add: m' read64_write64 cell_entry_eq [OF _ pt(1)])
      with Suc Some show ?thesis by (simp add: tbl.simps(2))
    qed (use Suc in \<open>simp add: tbl.simps(2)\<close>)
  qed simp
  moreover have "m_avail m' = m_avail m1" by (simp add: m' m_avail_def)
  ultimately show "plain R m' g" using g(1) by (simp add: plain_def)
qed

text \<open>A frame fresh from the allocator is plain, and taking it disturbs no plain page.\<close>

lemma alloc_plain:
  assumes fo: "user_forest R m" and a: "m_alloc m = Some (f, m1)"
  shows "plain R m1 f" "user_forest R m1" "plain R m g \<Longrightarrow> plain R m1 g \<and> g \<noteq> f" "valid_frame f"
proof -
  have f: "f \<in> m_avail m" "m_avail m1 = m_avail m - {f}" using fp.acq_Some [OF a] by auto
  have t: "tbl m1 q k w = tbl m q k w" for q k w using tbl_mem_cong m_alloc_frame [OF a] by blast
  show v: "valid_frame f" by (rule fp.avail_valid [OF f(1)])
  show "plain R m1 f"
    using f user_forestD(2) [OF fo] v by (auto simp: plain_def t valid_frame_def)
  show "plain R m g \<Longrightarrow> plain R m1 g \<and> g \<noteq> f" using f by (auto simp: plain_def t)
  have r: "read64 m1 = read64 m" using m_alloc_frame [OF a] by (simp add: read64_def fun_eq_iff)
  show "user_forest R m1"
    unfolding user_forest_def t r f(2) using user_forestD [OF fo] by blast
qed

section \<open>The pages of an address space\<close>

definition page_of :: "u64 \<Rightarrow> machine \<Rightarrow> u64 \<Rightarrow> u64 option" where
  "page_of p m v = map_option (\<lambda>e. e AND ADDR_MASK) (leaf m p v)"

definition private_space :: "u64 set \<Rightarrow> u64 \<Rightarrow> machine \<Rightarrow> bool" where
  "private_space R p m \<longleftrightarrow> user_forest R m \<and> p \<in> R \<and>
     (\<forall>v g. user_addr v \<longrightarrow> page_of p m v = Some g \<longrightarrow> plain R m g) \<and>
     (\<forall>v w g. user_addr v \<longrightarrow> user_addr w \<longrightarrow> page_of p m v = Some g \<longrightarrow> page_of p m w = Some g \<longrightarrow>
        same_path 4 v w)"

lemma privateD:
  assumes "private_space R p m"
  shows "user_forest R m" "p \<in> R" "user_addr v \<Longrightarrow> page_of p m v = Some g \<Longrightarrow> plain R m g"
    "user_addr v \<Longrightarrow> user_addr w \<Longrightarrow> page_of p m v = Some g \<Longrightarrow> page_of p m w = Some g \<Longrightarrow> same_path 4 v w"
  using assms unfolding private_space_def by blast+

lemma mapped_page:
  assumes "user_forest R m" "q \<in> R" "user_addr v"
  shows "get_mapped_frame q v m = map_option (\<lambda>g. g + (v AND 0xFFF)) (page_of q m v)"
  using lookup_walk_leaf [OF assms] by (simp add: page_of_def option.map_comp o_def)

lemma umem_page:
  assumes "user_forest R m" "q \<in> R" "user_addr v"
  shows "umem q m v = map_option (\<lambda>g. read8 m (g + (v AND 0xFFF))) (page_of q m v)"
  by (simp add: umem_def mapped_page [OF assms] option.map_comp o_def)

lemma page_of_aligned: "page_of q m v = Some g \<Longrightarrow> page_aligned g"
  by (auto simp: page_of_def)

lemma page_of_mapped:
  assumes "user_forest R m" "user_forest R m'" "q \<in> R" "user_addr v"
    and "get_mapped_frame q v m' = get_mapped_frame q v m"
  shows "page_of q m' v = page_of q m v"
  using assms(5) unfolding mapped_page [OF assms(1,3,4)] mapped_page [OF assms(2-4)]
  by (cases "page_of q m v"; cases "page_of q m' v") auto

lemma same_offset: "x AND 0xFFF = y AND 0xFFF \<longleftrightarrow> unat x mod 4096 = unat (y :: u64) mod 4096"
  by (simp only: word_unat_eq_iff unat_and_mask12)

lemma page_of_same_path: "same_path 4 v w \<Longrightarrow> page_of q m v = page_of q m w"
proof -
  assume s: "same_path 4 v w"
  then have "tbl m q 3 v = tbl m q 3 w" by (intro tbl_same_path same_path_mono [OF s]) simp
  moreover have "entry_addr t 3 v = entry_addr t 3 w" for t
    using s by (intro entry_addr_index) (simp add: same_path_def)
  ultimately show "page_of q m v = page_of q m w" by (simp only: page_of_def leaf_def)
qed

text \<open>Mapping a plain page that the space does not use yet.\<close>

lemma map_fresh:
  assumes pr: "private_space R p m" and v: "user_addr v" and f: "plain R m f" "valid_frame f"
    and unused: "\<forall>w. user_addr w \<longrightarrow> page_of p m w \<noteq> Some f"
    and m': "map_page_in_table p v f (WRITABLE OR USER) m = Some m'"
  shows "private_space R p m'"
    and "user_addr w \<Longrightarrow> page_of p m' w = (if same_path 4 v w then Some f else page_of p m w)"
    and "user_addr w \<Longrightarrow> umem p m' w = (if same_path 4 v w then Some (read8 m (f + (w AND 0xFFF))) else umem p m w)"
    and "q \<in> R \<Longrightarrow> user_addr w \<Longrightarrow> q \<noteq> p \<Longrightarrow> page_of q m' w = page_of q m w"
proof -
  note fo = privateD(1,2) [OF pr]
  note mp = map_page_translation [OF fo(1,2) v valid_frame_mappable [OF f(2) refl] m']
  have fo': "user_forest R m'" using mp [OF fo(2) v] by blast
  have po: "page_of p m' w = (if same_path 4 v w then Some f else page_of p m w)" if w: "user_addr w" for w
  proof (cases "same_path 4 v w")
    case True
    then have "get_mapped_frame p w m' = Some (f + (w AND 0xFFF))" using mp [OF fo(2) w] by simp
    then show ?thesis using True mapped_page [OF fo' fo(2) w] by (cases "page_of p m' w") auto
  next
    case False
    then show ?thesis using mp [OF fo(2) w] page_of_mapped [OF fo(1) fo' fo(2) w] by simp
  qed
  then show "user_addr w \<Longrightarrow> page_of p m' w = (if same_path 4 v w then Some f else page_of p m w)" .
  show "q \<in> R \<Longrightarrow> user_addr w \<Longrightarrow> q \<noteq> p \<Longrightarrow> page_of q m' w = page_of q m w"
    using mp [of q w] page_of_mapped [OF fo(1) fo', of q w] by simp
  note keep = map_page_plain [OF fo(1,2) v m']
  show "private_space R p m'"
    unfolding private_space_def
  proof (intro conjI allI impI)
    fix x g assume x: "user_addr x" "page_of p m' x = Some g"
    show "plain R m' g"
    proof (cases "same_path 4 v x")
      case True
      with x po [OF x(1)] keep(1) [OF f(1)] show ?thesis by simp
    next
      case False
      with x po [OF x(1)] privateD(3) [OF pr x(1)] keep(1) show ?thesis by simp
    qed
  next
    fix x y g
    assume xy: "user_addr x" "user_addr y" "page_of p m' x = Some g" "page_of p m' y = Some g"
    show "same_path 4 x y"
    proof (cases "same_path 4 v x \<or> same_path 4 v y")
      case True
      with xy po [OF xy(1)] po [OF xy(2)] unused
      have "same_path 4 v x" "same_path 4 v y" by (auto split: if_splits)
      then show ?thesis by (simp add: same_path_def)
    next
      case False
      with xy po [OF xy(1)] po [OF xy(2)] privateD(4) [OF pr xy(1,2)] show ?thesis by simp
    qed
  qed (use fo' fo in auto)
  show "umem p m' w = (if same_path 4 v w then Some (read8 m (f + (w AND 0xFFF))) else umem p m w)"
    if w: "user_addr w"
  proof (cases "same_path 4 v w")
    case True
    with umem_page [OF fo' fo(2) w] po [OF w] read8_same_page [OF keep(2) [OF f(1)] plainD(1) [OF f(1)] offset_lt]
    show ?thesis by simp
  next
    case False
    show ?thesis
    proof (cases "page_of p m w")
      case None
      with False umem_page [OF fo' fo(2) w] umem_page [OF fo w] po [OF w] show ?thesis by simp
    next
      case (Some g)
      have g: "plain R m g" by (rule privateD(3) [OF pr w Some])
      from False Some umem_page [OF fo' fo(2) w] umem_page [OF fo w] po [OF w]
        read8_same_page [OF keep(2) [OF g] plainD(1) [OF g] offset_lt]
      show ?thesis by simp
    qed
  qed
qed

text \<open>Changing the bytes of one page of the space.\<close>

lemma change_page:
  assumes pr: "private_space R p m" and v: "user_addr v" "page_of p m v = Some g"
    and m': "\<forall>c. drop_bit 9 c \<noteq> drop_bit 12 g \<longrightarrow> mem m' c = mem m c" "m_avail m' = m_avail m"
  shows "private_space R p m'" and "user_addr w \<Longrightarrow> page_of p m' w = page_of p m w"
    and "user_addr w \<Longrightarrow> umem p m' w = (if same_path 4 v w then Some (read8 m' (g + (w AND 0xFFF))) else umem p m w)"
proof -
  note fo = privateD(1,2) [OF pr] and g = privateD(3) [OF pr v]
  have ch: "user_forest R m'" "\<And>q w. q \<in> R \<Longrightarrow> user_addr w \<Longrightarrow> get_mapped_frame q w m' = get_mapped_frame q w m"
    "\<And>h. plain R m h \<Longrightarrow> plain R m' h"
    using change_plain [OF fo(1) g, of m'] m' by blast+
  show po: "page_of p m' w = page_of p m w" if "user_addr w" for w
    using ch(2) [OF fo(2) that] by (intro page_of_mapped [OF fo(1) ch(1) fo(2) that])
  show "private_space R p m'"
    unfolding private_space_def
  proof (intro conjI allI impI)
    fix x h assume x: "user_addr x" "page_of p m' x = Some h"
    with po [OF x(1)] have "page_of p m x = Some h" by simp
    from ch(3) [OF privateD(3) [OF pr x(1) this]] show "plain R m' h" .
  next
    fix x y h assume "user_addr x" "user_addr y" "page_of p m' x = Some h" "page_of p m' y = Some h"
    with po privateD(4) [OF pr, of x y h] show "same_path 4 x y" by simp
  qed (use ch(1) fo(2) in auto)
  show "umem p m' w = (if same_path 4 v w then Some (read8 m' (g + (w AND 0xFFF))) else umem p m w)"
    if w: "user_addr w" for w
  proof (cases "same_path 4 v w")
    case True
    then have "page_of p m' w = Some g" using page_of_same_path [OF True, of p m] v(2) po [OF w] by simp
    with True umem_page [OF ch(1) fo(2) w] show ?thesis by simp
  next
    case False
    show ?thesis
    proof (cases "page_of p m w")
      case None
      with False umem_page [OF ch(1) fo(2) w] umem_page [OF fo w] po [OF w] show ?thesis by simp
    next
      case (Some h)
      have h: "plain R m h" by (rule privateD(3) [OF pr w Some])
      have "h \<noteq> g" using privateD(4) [OF pr v(1) w v(2)] Some False by blast
      then have "same_page h m m'"
        using m'(1) page_number_inj [OF plainD(1) [OF h] plainD(1) [OF g]] by (simp add: same_page_def)
      from read8_same_page [OF this plainD(1) [OF h] offset_lt] False Some
        umem_page [OF ch(1) fo(2) w] umem_page [OF fo w] po [OF w]
      show ?thesis by simp
    qed
  qed
qed

lemma read8_zero_page: "page_aligned g \<Longrightarrow> unat o' < 4096 \<Longrightarrow> read8 (zero_page g m) (g + o') = 0"
  by (simp add: read8_def zero_page_def cell_in_page)

lemma write_bytes_outside:
  assumes "page_aligned g" "unat o' + length bs \<le> 4096" "drop_bit 9 c \<noteq> drop_bit 12 g"
  shows "mem (write_bytes (g + o') bs m) c = mem m c"
  using assms(2)
proof (induction bs arbitrary: o' m)
  case (Cons b bs)
  have lt: "unat o' < 4096" using Cons.prems by simp
  then have o1: "unat (o' + 1) = unat o' + 1" by (simp add: unat_word_ariths)
  have "cell (g + o') \<noteq> c" using cell_in_page [OF assms(1) lt] assms(3) by auto
  then have "mem (write8 (g + o') b m) c = mem m c" by (simp add: write8_def)
  with Cons.IH [of "o' + 1" "write8 (g + o') b m"] Cons.prems o1 show ?case by (simp add: add.assoc)
qed simp

section \<open>A fresh page\<close>

text \<open>A frame that is allocated is plain, and no address space sees a difference.\<close>

lemma alloc_private:
  assumes pr: "private_space R p m" and a: "m_alloc m = Some (f, m1)"
  shows "private_space R p m1" "plain R m1 f" "valid_frame f"
    and "\<forall>w. user_addr w \<longrightarrow> page_of p m1 w \<noteq> Some f"
    and "umem q m1 w = umem q m w"
    and "get_mapped_frame q w m1 = get_mapped_frame q w m"
proof -
  note fo = privateD(1,2) [OF pr]
  note al = alloc_plain [OF fo(1) a]
  have mem1: "get_mapped_frame q x m1 = get_mapped_frame q x m" for q x
    using m_alloc_frame [OF a] get_mapped_frame_mem_cong by blast
  have po1: "page_of p m1 x = page_of p m x" if "user_addr x" for x
    using page_of_mapped [OF fo(1) al(2) fo(2) that mem1] .
  show "private_space R p m1"
    unfolding private_space_def using al(2) fo(2) al(3) privateD(3,4) [OF pr] po1 by simp
  show "\<forall>w. user_addr w \<longrightarrow> page_of p m1 w \<noteq> Some f"
    using privateD(3) [OF pr] al(3) po1 by auto
  show "umem q m1 w = umem q m w"
    using m_alloc_frame [OF a] by (simp add: umem_def mem1 read8_def [abs_def])
qed (use alloc_plain [OF privateD(1) [OF pr] a] m_alloc_frame [OF a] get_mapped_frame_mem_cong in blast)+

text \<open>A plain page that the space does not use is cleared without a trace in the space.\<close>

lemma zero_unused:
  assumes pr: "private_space R p m" and f: "plain R m f"
    and unused: "\<forall>w. user_addr w \<longrightarrow> page_of p m w \<noteq> Some f"
  shows "private_space R p (zero_page f m)" "plain R (zero_page f m) f"
    and "user_addr w \<Longrightarrow> page_of p (zero_page f m) w = page_of p m w"
    and "user_addr w \<Longrightarrow> umem p (zero_page f m) w = umem p m w"
    and "q \<in> R \<Longrightarrow> user_addr w \<Longrightarrow> get_mapped_frame q w (zero_page f m) = get_mapped_frame q w m"
proof -
  let ?m = "zero_page f m"
  note fo = privateD(1,2) [OF pr]
  have same: "mem ?m c = mem m c" if "drop_bit 9 c \<noteq> drop_bit 12 f" for c
    using that by (simp add: zero_page_def)
  have av: "m_avail ?m = m_avail m" by (simp add: zero_page_def m_avail_def)
  have ch: "user_forest R ?m" "\<And>q w. q \<in> R \<Longrightarrow> user_addr w \<Longrightarrow> get_mapped_frame q w ?m = get_mapped_frame q w m"
    "\<And>h. plain R m h \<Longrightarrow> plain R ?m h"
    using change_plain [OF fo(1) f, of ?m] same av by blast+
  have po: "page_of p ?m x = page_of p m x" if "user_addr x" for x
    using page_of_mapped [OF fo(1) ch(1) fo(2) that ch(2) [OF fo(2) that]] .
  show "private_space R p ?m"
    unfolding private_space_def using ch(1,3) fo(2) privateD(3,4) [OF pr] po by simp
  show "plain R ?m f" by (rule ch(3) [OF f])
  show "user_addr w \<Longrightarrow> page_of p ?m w = page_of p m w" by (rule po)
  show "q \<in> R \<Longrightarrow> user_addr w \<Longrightarrow> get_mapped_frame q w ?m = get_mapped_frame q w m" by (rule ch(2))
  show "umem p ?m w = umem p m w" if w: "user_addr w"
  proof (cases "page_of p m w")
    case (Some g)
    have g: "plain R m g" by (rule privateD(3) [OF pr w Some])
    have "drop_bit 12 f \<noteq> drop_bit 12 g"
      using page_number_inj [OF plainD(1) [OF f] plainD(1) [OF g]] unused w Some by auto
    then have "same_page g m ?m" using same by (simp add: same_page_def)
    with Some umem_page [OF fo w] umem_page [OF ch(1) fo(2) w] po [OF w]
      read8_same_page [OF _ plainD(1) [OF g] offset_lt] show ?thesis by simp
  qed (use umem_page [OF fo w] umem_page [OF ch(1) fo(2) w] po [OF w] in simp)
qed

end
