(* ===== verification/Loader_Image.thy ===== *)
theory Loader_Image
  imports Loader User_Memory
begin

text \<open>
  The ELF loader refines a simple specification: \<open>segments_image\<close>, the user memory that a list of segments
  describes. Each page gets a fresh cleared frame once, and the bytes of the file that lie in
  it; the lemmas follow one page, one segment and the list of segments.
\<close>

section \<open>The specification\<close>

text \<open>The lower half of the address space below 2^47, where an address is its page and its offset.\<close>

definition low :: "u64 \<Rightarrow> bool" where
  "low w \<longleftrightarrow> unat w < 2 ^ 47"

definition file_part :: "u8 list \<Rightarrow> elf_phdr \<Rightarrow> nat \<Rightarrow> u8 option" where
  "file_part file ph w =
     (if unat (ph_vaddr ph) \<le> w \<and> w < unat (ph_vaddr ph) + unat (ph_filesz ph)
      then Some (file ! (unat (ph_offset ph) + (w - unat (ph_vaddr ph)))) else None)"

text \<open>A page becomes present and cleared, unless it was there, and takes its part of the file.\<close>

definition load_page_spec :: "u8 list \<Rightarrow> elf_phdr \<Rightarrow> nat \<Rightarrow> (nat \<Rightarrow> u8 option) \<Rightarrow> nat \<Rightarrow> u8 option" where
  "load_page_spec file ph page mem0 w =
     (if w div PAGE_SIZE = page then
        (case file_part file ph w of
           Some b \<Rightarrow> Some b
         | None \<Rightarrow> (case mem0 w of None \<Rightarrow> Some 0 | Some b \<Rightarrow> Some b))
      else mem0 w)"

definition segment_pages :: "elf_phdr \<Rightarrow> nat list" where
  "segment_pages ph =
     [unat (ph_vaddr ph) div PAGE_SIZE..<
      (unat (ph_vaddr ph) + unat (ph_memsz ph) + (PAGE_SIZE - 1)) div PAGE_SIZE]"

definition load_segment_spec :: "u8 list \<Rightarrow> elf_phdr \<Rightarrow> (nat \<Rightarrow> u8 option) \<Rightarrow> nat \<Rightarrow> u8 option" where
  "load_segment_spec file ph = fold (load_page_spec file ph) (segment_pages ph)"

definition segments_image :: "u8 list \<Rightarrow> elf_phdr list \<Rightarrow> nat \<Rightarrow> u8 option" where
  "segments_image file phs = fold (load_segment_spec file) phs (\<lambda>w. None)"

text \<open>What a byte of the image is: the last segment on its page whose file part has it, or 0.\<close>

lemma load_pages_spec_byte:
  "distinct ps \<Longrightarrow> fold (load_page_spec file ph) ps m w =
     (if w div PAGE_SIZE \<in> set ps then
        (case file_part file ph w of
           Some b \<Rightarrow> Some b | None \<Rightarrow> (case m w of None \<Rightarrow> Some 0 | Some b \<Rightarrow> Some b))
      else m w)"
  by (induction ps arbitrary: m) (auto simp: load_page_spec_def split: option.splits)

lemma image_byte:
  "segments_image file (phs @ [ph]) w =
     (if w div PAGE_SIZE \<in> set (segment_pages ph) then
        (case file_part file ph w of
           Some b \<Rightarrow> Some b
         | None \<Rightarrow> (case segments_image file phs w of None \<Rightarrow> Some 0 | Some b \<Rightarrow> Some b))
      else segments_image file phs w)"
  by (simp add: segments_image_def load_segment_spec_def load_pages_spec_byte segment_pages_def cong: option.case_cong)

text \<open>Segments in the lower half whose file part lies in the file.\<close>

definition segment_ok :: "u8 list \<Rightarrow> elf_phdr \<Rightarrow> bool" where
  "segment_ok file ph \<longleftrightarrow>
     length file < 2 ^ 62 \<and> unat (ph_offset ph) + unat (ph_filesz ph) \<le> length file \<and>
     unat (ph_vaddr ph) + unat (ph_memsz ph) \<le> 2 ^ 47 - PAGE_SIZE"

section \<open>Pages of low addresses\<close>

lemma low_user: "low w \<Longrightarrow> user_addr w"
  by (simp add: low_def user_addr_def pt_index_mod less_mult_imp_div_less)

lemma digits_512:
  assumes "(a :: nat) < 512 ^ 4"
  shows "a = a mod 512 + 512 * (a div 512 mod 512) + 262144 * (a div 262144 mod 512) + 134217728 * (a div 134217728 mod 512)"
proof -
  have "a = 512 * (a div 512) + a mod 512" by simp
  moreover have "a div 512 = 512 * (a div 262144) + a div 512 mod 512"
    using div_mult2_eq [of a 512 512] by simp
  moreover have "a div 262144 = 512 * (a div 134217728) + a div 262144 mod 512"
    using div_mult2_eq [of a 262144 512] by simp
  moreover have "a div 134217728 mod 512 = a div 134217728"
    using assms by (simp add: less_mult_imp_div_less)
  ultimately show ?thesis by linarith
qed

lemma same_path_low:
  assumes "low v" "low w"
  shows "same_path 4 v w \<longleftrightarrow> unat v div PAGE_SIZE = unat w div PAGE_SIZE"
proof -
  have idx: "unat (pt_index 3 x) = unat x div 4096 mod 512"
    "unat (pt_index 2 x) = unat x div 4096 div 512 mod 512"
    "unat (pt_index 1 x) = unat x div 4096 div 262144 mod 512"
    "unat (pt_index 0 x) = unat x div 4096 div 134217728 mod 512" for x
    by (simp_all add: pt_index_mod div_mult2_eq [symmetric])
  have all: "same_path 4 v w \<longleftrightarrow> (\<forall>k\<in>{0, 1, 2, 3}. unat (pt_index k v) = unat (pt_index k w))"
    by (auto simp: same_path_def word_unat_eq_iff less_Suc_eq numeral_eq_Suc)
  have lt: "unat x div 4096 < 512 ^ 4" if "low x" for x
    using that by (simp add: low_def less_mult_imp_div_less)
  show ?thesis
  proof
    assume "same_path 4 v w"
    then show "unat v div PAGE_SIZE = unat w div PAGE_SIZE"
      unfolding all using digits_512 [OF lt [OF assms(1)]] digits_512 [OF lt [OF assms(2)]]
      by (simp add: idx del: One_nat_def)
  next
    assume "unat v div PAGE_SIZE = unat w div PAGE_SIZE"
    then show "same_path 4 v w" unfolding all by (simp add: idx del: One_nat_def)
  qed
qed

section \<open>One page\<close>

lemma page_frame_step:
  assumes pr: "private_space R p m" and v: "user_addr v" "page_aligned v"
    and s: "page_frame p v m = Some (Some g, m')"
  shows "private_space R p m'" "page_of p m' v = Some g"
    "user_addr w \<Longrightarrow> umem p m' w = (if same_path 4 v w \<and> umem p m v = None then Some 0 else umem p m w)"
proof -
  note fo = privateD(1,2) [OF pr]
  have off: "v AND 0xFFF = 0" using v(2) by (simp add: page_aligned_def)
  have "private_space R p m' \<and> page_of p m' v = Some g \<and>
    (\<forall>w. user_addr w \<longrightarrow> umem p m' w = (if same_path 4 v w \<and> umem p m v = None then Some 0 else umem p m w))"
  proof (cases "page_of p m v")
    case (Some h)
    then have "get_mapped_frame p v m = Some h" using mapped_page [OF fo v(1)] off by simp
    then have "m' = m" "g = h" using s page_of_aligned [OF Some] by (simp_all add: page_frame_def)
    with pr Some umem_page [OF fo v(1)] show ?thesis by simp
  next
    case None
    then have "get_mapped_frame p v m = None" using mapped_page [OF fo v(1)] by simp
    then obtain m1 m2 where a: "m_alloc m = Some (g, m1)"
      and mp: "map_page_in_table p v g (WRITABLE OR USER) m1 = Some m2" and m': "m' = zero_page g m2"
      using s by (auto simp: page_frame_def split: option.splits)
    note al = alloc_private [OF pr a]
    note mf = map_fresh [OF al(1) v(1) al(2,3,4) mp]
    have pv: "page_of p m2 v = Some g" using mf(2) [OF v(1)] by simp
    have "m_avail m' = m_avail m2" "\<forall>c. drop_bit 9 c \<noteq> drop_bit 12 g \<longrightarrow> mem m' c = mem m2 c"
      by (simp_all add: m' zero_page_def m_avail_def)
    note ch = change_page [OF mf(1) v(1) pv this(2,1)]
    have z: "read8 m' (g + (x AND 0xFFF)) = 0" for x
      unfolding m' by (rule read8_zero_page [OF plainD(1) [OF al(2)] offset_lt])
    have "umem p m v = None" using umem_page [OF fo v(1)] None by simp
    then show ?thesis
      using ch(1) ch(2) [OF v(1)] pv ch(3) z mf(3) al(5) by simp
  qed
  then show "private_space R p m'" "page_of p m' v = Some g"
    "user_addr w \<Longrightarrow> umem p m' w = (if same_path 4 v w \<and> umem p m v = None then Some 0 else umem p m w)"
    by blast+
qed

lemma page_frame_progress:
  assumes "4 \<le> card (m_avail m)"
  shows "\<exists>g m'. page_frame p v m = Some (Some g, m') \<and> card (m_avail m) \<le> card (m_avail m') + 4"
proof (cases "get_mapped_frame p v m")
  case None
  have "m_avail m \<noteq> {}" using assms by auto
  then obtain f m1 where a: "m_alloc m = Some (f, m1)" using fp.acq_None [of m] by (cases "m_alloc m") auto
  have c: "card (m_avail m) = Suc (card (m_avail m1))"
    using fp.acq_Some [OF a] card_Suc_Diff1 [OF fp.avail_finite [of m], of f] by simp
  then obtain m2 where "map_page_in_table p v f (WRITABLE OR USER) m1 = Some m2"
    using map_page_progress [of m1 p v f "WRITABLE OR USER"] assms by fastforce
  with None a c map_page_card [OF this] show ?thesis by (simp add: page_frame_def)
qed (simp add: page_frame_def)

lemma read8_write_bytes_page:
  assumes "unat x < 4096" "unat o' + length bs \<le> 4096"
  shows "read8 (write_bytes (g + o') bs m) (g + x) =
    (if unat o' \<le> unat x \<and> unat x < unat o' + length bs then bs ! (unat x - unat o') else read8 m (g + x))"
proof (cases "unat o' \<le> unat x \<and> unat x < unat o' + length bs")
  case True
  then have "g + o' + of_nat (unat x - unat o') = g + x"
    by (simp add: word_unat_eq_iff unat_word_ariths unat_of_nat add.assoc)
  moreover have "unat x - unat o' < length bs" "length bs \<le> 2 ^ 64" using True assms(2) by auto
  ultimately show ?thesis using True read8_write_bytes [of bs "unat x - unat o'" "g + o'" m] by simp
next
  case False
  have "g + x \<noteq> g + o' + of_nat i" if "i < length bs" for i
  proof
    assume "g + x = g + o' + of_nat i"
    then have "x = o' + of_nat i" by (simp add: add.assoc)
    then have "unat x = unat o' + i" using that assms(2) by (simp add: unat_word_ariths unat_of_nat)
    with False that show False by simp
  qed
  then have "read8 (write_bytes (g + o') bs m) (g + x) = read8 m (g + x)" by (rule read8_write_bytes_other)
  then show ?thesis by (simp only: if_not_P [OF False])
qed

lemma offset_in_page: "unat (w AND 0xFFF :: u64) = unat w mod PAGE_SIZE"
  by (simp add: unat_and_mask12)

text \<open>The copy of the part of the file that lies in page \<open>v\<close>.\<close>

lemma copy_page_step:
  assumes pr: "private_space R p m" and v: "low v" "page_aligned v" "page_of p m v = Some g"
    and ok: "segment_ok file ph"
  shows "\<exists>m'. copy_page file beyond ph v g m = Some m' \<and> private_space R p m' \<and> m_avail m' = m_avail m \<and>
    (\<forall>w. low w \<longrightarrow> page_of p m' w = page_of p m w \<and>
       umem p m' w = (if unat w div PAGE_SIZE = unat v div PAGE_SIZE \<and> file_part file ph (unat w) \<noteq> None
                      then file_part file ph (unat w) else umem p m w))"
proof -
  let ?va = "unat (ph_vaddr ph)" and ?fs = "unat (ph_filesz ph)" and ?of = "unat (ph_offset ph)"
  have len: "length file < 2 ^ 62" "?of + ?fs \<le> length file" "?va < 2 ^ 47"
    using ok by (auto simp: segment_ok_def)
  have v47: "unat v < 2 ^ 47" "unat v mod 4096 = 0" using v(1,2) by (simp_all add: low_def page_aligned_nat)
  define start where "start = max (ph_vaddr ph) v"
  define fin where "fin = min (ph_vaddr ph + ph_filesz ph) (v + of_nat PAGE_SIZE)"
  have us: "unat start = max ?va (unat v)"
    by (auto simp: start_def max_def word_le_nat_alt)
  have uf: "unat fin = min (?va + ?fs) (unat v + 4096)"
    using len v47 by (auto simp: fin_def min_def word_le_nat_alt unat_word_ariths)
  have cp: "copy_page file beyond ph v g m =
      (if start < fin then
         (if unat (ph_offset ph + (start - ph_vaddr ph)) > length file then None
          else Some (write_bytes (g + (start - v))
                 (elf_bytes file beyond (ph_offset ph + (start - ph_vaddr ph)) (unat (fin - start))) m))
       else Some m)"
    by (simp only: copy_page_def Let_def start_def fin_def)
  show ?thesis
  proof (cases "start < fin")
    case False
    then have "copy_page file beyond ph v g m = Some m" by (simp add: cp)
    moreover have "file_part file ph (unat w) = None" if "unat w div PAGE_SIZE = unat v div PAGE_SIZE" for w :: u64
    proof -
      have "unat v \<le> unat w \<and> unat w < unat v + 4096" using that v47(2) by (metis div_mult_mod_eq
        add.right_neutral le_add1 mod_less_divisor nat_add_left_cancel_less zero_less_numeral)
      with False us uf show ?thesis by (auto simp: file_part_def word_less_nat_alt)
    qed
    ultimately show ?thesis using pr by auto
  next
    case True
    define n where "n = unat (fin - start)"
    define src where "src = ph_offset ph + (start - ph_vaddr ph)"
    define dst where "dst = start - v"
    have lt: "unat start < unat fin" using True by (simp add: word_less_nat_alt)
    have n: "n = unat fin - unat start" using lt by (simp add: n_def unat_sub word_le_nat_alt)
    have d: "unat (start - ph_vaddr ph) = unat start - ?va" using us by (simp add: unat_sub word_le_nat_alt)
    have src: "unat src = ?of + (unat start - ?va)"
    proof -
      have "unat start < ?va + ?fs" using lt uf by simp
      then have "unat start - ?va \<le> ?fs" by simp
      then have "?of + (unat start - ?va) < 2 ^ 64" using len(1,2) by simp
      then show ?thesis by (simp add: src_def unat_word_ariths d del: diff_is_0_eq)
    qed
    have dst: "unat dst = unat start - unat v" using us by (simp add: dst_def unat_sub word_le_nat_alt)
    have b: "?va \<le> unat start" "unat v \<le> unat start" "unat fin \<le> ?va + ?fs" "unat fin \<le> unat v + 4096"
      using us uf by auto
    have sums: "n + unat start = unat fin" "unat dst + unat v = unat start" "unat src + ?va = ?of + unat start"
      using n dst src b lt by simp_all
    have fit: "unat dst + n \<le> 4096" "unat src + n \<le> length file"
      using sums b len(2) by linarith+
    define bs where "bs = take n (drop (unat src) file)"
    have bs: "elf_bytes file beyond src n = bs" "length bs = n"
      using fit(2) len(1) elf_bytes_inside [OF fit(2)] by (simp_all add: bs_def)
    define m' where "m' = write_bytes (g + dst) bs m"
    have c: "copy_page file beyond ph v g m = Some m'"
      using True fit(2) bs(1)
      by (simp add: cp n_def [symmetric] src_def [symmetric] dst_def [symmetric] m'_def)
    have g: "page_aligned g" by (rule page_of_aligned [OF v(3)])
    have frame: "\<forall>c. drop_bit 9 c \<noteq> drop_bit 12 g \<longrightarrow> mem m' c = mem m c" "m_avail m' = m_avail m"
      using write_bytes_outside [OF g] fit(1) bs(2) by (simp_all add: m'_def m_avail_def)
    note ch = change_page [OF pr low_user [OF v(1)] v(3) frame]
    have "umem p m' w = (if unat w div PAGE_SIZE = unat v div PAGE_SIZE \<and> file_part file ph (unat w) \<noteq> None
                      then file_part file ph (unat w) else umem p m w)" if w: "low w" for w
    proof (cases "unat w div PAGE_SIZE = unat v div PAGE_SIZE")
      case False
      with ch(3) [OF low_user [OF w]] same_path_low [OF v(1) w] show ?thesis by auto
    next
      case same: True
      define x where "x = w AND 0xFFF"
      have x: "unat x = unat w - unat v" "unat v \<le> unat w" "unat x < 4096"
      proof -
        have "unat w = 4096 * (unat w div 4096) + unat w mod 4096" by simp
        moreover have "unat v = 4096 * (unat w div 4096)"
          using v47(2) same by (metis add.right_neutral mult_div_mod_eq)
        moreover have "unat x = unat w mod 4096" by (simp add: x_def offset_in_page)
        moreover have "unat w mod 4096 < 4096" by simp
        ultimately show "unat x = unat w - unat v" "unat v \<le> unat w" "unat x < 4096" by linarith+
      qed
      have path: "same_path 4 v w" using same same_path_low [OF v(1) w] by simp
      have um: "umem p m' w = Some (read8 m' (g + x))" using ch(3) [OF low_user [OF w]] path by (simp add: x_def)
      have old: "umem p m w = Some (read8 m (g + x))"
      proof -
        have "page_of p m w = Some g" using page_of_same_path [OF path, of p m] v(3) by simp
        with umem_page [OF privateD(1,2) [OF pr] low_user [OF w]] show ?thesis by (simp add: x_def)
      qed
      have rd: "read8 m' (g + x) =
          (if unat dst \<le> unat x \<and> unat x < unat dst + n then bs ! (unat x - unat dst) else read8 m (g + x))"
        using read8_write_bytes_page [OF x(3), of dst bs g m] fit(1) bs(2) by (simp add: m'_def)
      have inside: "unat dst \<le> unat x \<and> unat x < unat dst + n \<longleftrightarrow> ?va \<le> unat w \<and> unat w < ?va + ?fs"
      proof -
        have "unat dst \<le> unat x \<longleftrightarrow> unat start \<le> unat w" using x(1,2) sums(2) by linarith
        moreover have "unat x < unat dst + n \<longleftrightarrow> unat w < unat fin" using x(1,2) sums(1,2) by linarith
        moreover have "unat w < unat v + 4096" using x by linarith
        ultimately show ?thesis using us uf x(2) by auto
      qed
      have "bs ! (unat x - unat dst) = file ! (?of + (unat w - ?va))"
        if "unat dst \<le> unat x \<and> unat x < unat dst + n"
      proof -
        have "unat src + (unat x - unat dst) = ?of + (unat w - ?va)"
          using that x(1,2) sums(2,3) b(1) by linarith
        moreover have "unat x - unat dst < n" using that by linarith
        ultimately show ?thesis using fit(2) by (simp add: bs_def)
      qed
      then show ?thesis using um old rd inside same by (auto simp: file_part_def)
    qed
    then show ?thesis using c ch(1) ch(2) low_user frame(2) by blast
  qed
qed

section \<open>The pages of a segment\<close>

definition holds :: "u64 set \<Rightarrow> u64 \<Rightarrow> machine \<Rightarrow> (nat \<Rightarrow> u8 option) \<Rightarrow> bool" where
  "holds R p m contents \<longleftrightarrow> private_space R p m \<and> (\<forall>w. low w \<longrightarrow> umem p m w = contents (unat w))"

lemma umem_page_present:
  assumes "user_forest R m" "p \<in> R" "low v" "low w" "unat v div PAGE_SIZE = unat w div PAGE_SIZE"
  shows "umem p m v = None \<longleftrightarrow> umem p m w = None"
  using page_of_same_path [of v w p m] same_path_low [OF assms(3,4)] assms(5)
    umem_page [OF assms(1,2) low_user [OF assms(3)]] umem_page [OF assms(1,2) low_user [OF assms(4)]]
  by simp

lemma load_page_step:
  assumes h: "holds R p m contents" and v: "low v" "page_aligned v" and ok: "segment_ok file ph"
    and card: "4 \<le> card (m_avail m)"
  shows "\<exists>g m1 m2. page_frame p v m = Some (Some g, m1) \<and> copy_page file beyond ph v g m1 = Some m2 \<and>
    holds R p m2 (load_page_spec file ph (unat v div PAGE_SIZE) contents) \<and>
    card (m_avail m) \<le> card (m_avail m2) + 4"
proof -
  have pr: "private_space R p m" and um: "\<And>w. low w \<Longrightarrow> umem p m w = contents (unat w)"
    using h by (auto simp: holds_def)
  obtain g m1 where s: "page_frame p v m = Some (Some g, m1)" and c: "card (m_avail m) \<le> card (m_avail m1) + 4"
    using page_frame_progress [OF card] by blast
  note st = page_frame_step [OF pr low_user [OF v(1)] v(2) s]
  obtain m2 where m2: "copy_page file beyond ph v g m1 = Some m2" "private_space R p m2" "m_avail m2 = m_avail m1"
    "\<forall>w. low w \<longrightarrow> umem p m2 w =
       (if unat w div PAGE_SIZE = unat v div PAGE_SIZE \<and> file_part file ph (unat w) \<noteq> None
        then file_part file ph (unat w) else umem p m1 w)"
    using copy_page_step [OF st(1) v st(2) ok] by blast
  have "umem p m2 w = load_page_spec file ph (unat v div PAGE_SIZE) contents (unat w)" if w: "low w" for w
  proof (cases "unat w div PAGE_SIZE = unat v div PAGE_SIZE")
    case True
    then have "umem p m v = None \<longleftrightarrow> umem p m w = None"
      using umem_page_present [OF privateD(1,2) [OF pr] v(1) w] by simp
    then have "umem p m1 w = (case contents (unat w) of None \<Rightarrow> Some 0 | Some b \<Rightarrow> Some b)"
      using st(3) [OF low_user [OF w]] same_path_low [OF v(1) w] True um [OF w] by (auto split: option.split)
    with True m2(4) w show ?thesis by (auto simp: load_page_spec_def split: option.split)
  next
    case False
    with m2(4) w st(3) [OF low_user [OF w]] same_path_low [OF v(1) w] um [OF w] show ?thesis
      by (auto simp: load_page_spec_def)
  qed
  with s m2 c show ?thesis by (auto simp: holds_def)
qed

lemma load_pages_spec:
  assumes "holds R p m contents" "segment_ok file ph"
    and "\<forall>v\<in>set vs. low v \<and> page_aligned v" "4 * length vs \<le> card (m_avail m)"
  shows "\<exists>m'. load_pages file beyond ph p vs m = Finished m' \<and>
    holds R p m' (fold (load_page_spec file ph) (map (\<lambda>v. unat v div PAGE_SIZE) vs) contents) \<and>
    card (m_avail m) \<le> card (m_avail m') + 4 * length vs"
  using assms(1,3,4)
proof (induction vs arbitrary: m contents)
  case (Cons v vs)
  have v: "low v" "page_aligned v" using Cons.prems(2) by simp_all
  obtain g m1 m2 where st: "page_frame p v m = Some (Some g, m1)" "copy_page file beyond ph v g m1 = Some m2"
    "holds R p m2 (load_page_spec file ph (unat v div PAGE_SIZE) contents)" "card (m_avail m) \<le> card (m_avail m2) + 4"
    using load_page_step [OF Cons.prems(1) v assms(2), of beyond] Cons.prems(3) by fastforce
  have rest: "\<forall>v\<in>set vs. low v \<and> page_aligned v" "4 * length vs \<le> card (m_avail m2)"
    using Cons.prems(2,3) st(4) by simp_all
  from Cons.IH [OF st(3) rest] st show ?case by (auto simp: algebra_simps)
qed simp

lemma segment_pages_eq:
  assumes "segment_ok file ph"
  shows "map (\<lambda>v. unat v div PAGE_SIZE) (pages (segment_start ph) (segment_end ph)) = segment_pages ph"
    "\<forall>v\<in>set (pages (segment_start ph) (segment_end ph)). low v \<and> page_aligned v"
proof -
  let ?va = "unat (ph_vaddr ph)" and ?ms = "unat (ph_memsz ph)"
  have b: "?va + ?ms \<le> 2 ^ 47 - PAGE_SIZE" using assms by (simp add: segment_ok_def)
  define a where "a = ?va div 4096"
  define c where "c = (?va + ?ms + 4095) div 4096"
  have s: "unat (segment_start ph) = 4096 * a"
    by (simp add: segment_start_def unat_align_down a_def minus_mod_eq_mult_div)
  have "unat (ph_vaddr ph + ph_memsz ph) = ?va + ?ms" using b by (simp add: unat_word_ariths)
  then have e: "unat (segment_end ph) = 4096 * c"
    using b by (simp add: segment_end_def unat_align_up c_def minus_mod_eq_mult_div)
  have cl: "c < 2 ^ 35" using b by (simp add: c_def less_mult_imp_div_less)
  have n: "(unat (segment_end ph) - unat (segment_start ph) + 4095) div PAGE_SIZE = c - a"
    by (simp add: s e diff_mult_distrib2 [symmetric])
  have u: "unat (segment_start ph + of_nat PAGE_SIZE * of_nat i) = 4096 * (a + i)" if "i < c - a" for i
  proof -
    have lt: "i < 2 ^ 35" "4096 * a + 4096 * i < 18446744073709551616" using that cl by simp_all
    have "unat (of_nat i :: u64) = i" using lt(1) by (simp add: unat_of_nat take_bit_nat_eq_self)
    then have "unat (of_nat PAGE_SIZE * of_nat i :: u64) = 4096 * i" using lt(1) by (simp add: unat_word_ariths)
    then show ?thesis using lt(2) by (simp add: unat_word_ariths(1) s)
  qed
  show "map (\<lambda>v. unat v div PAGE_SIZE) (pages (segment_start ph) (segment_end ph)) = segment_pages ph"
    unfolding pages_def n segment_pages_def
    by (rule nth_equalityI) (simp_all add: u [simplified] a_def c_def)
  show "\<forall>v\<in>set (pages (segment_start ph) (segment_end ph)). low v \<and> page_aligned v"
    unfolding pages_def n using u cl by (auto simp: low_def page_aligned_nat)
qed

section \<open>All segments\<close>

definition image_pages :: "elf_phdr list \<Rightarrow> nat" where
  "image_pages phs = sum_list (map (\<lambda>ph. length (segment_pages ph)) phs)"

lemma load_all_spec:
  assumes "holds R p m contents" "\<forall>ph\<in>set phs. segment_ok file ph" "4 * image_pages phs \<le> card (m_avail m)"
  shows "\<exists>mx' m'. load_all file beyond p phs (vmas, mx, m) = Finished (vmas @ map segment_vma phs, mx', m') \<and>
    holds R p m' (fold (load_segment_spec file) phs contents) \<and>
    card (m_avail m) \<le> card (m_avail m') + 4 * image_pages phs"
  using assms
proof (induction phs arbitrary: m contents vmas mx)
  case (Cons ph phs)
  have ok: "segment_ok file ph" using Cons.prems(2) by simp
  note pg = segment_pages_eq [OF ok]
  have len: "length (pages (segment_start ph) (segment_end ph)) = length (segment_pages ph)"
    using arg_cong [OF pg(1), of length] by simp
  obtain m1 where m1: "load_pages file beyond ph p (pages (segment_start ph) (segment_end ph)) m = Finished m1"
    "holds R p m1 (load_segment_spec file ph contents)"
    "card (m_avail m) \<le> card (m_avail m1) + 4 * length (segment_pages ph)"
    using load_pages_spec [OF Cons.prems(1) ok pg(2), of beyond] Cons.prems(3)
    by (auto simp: image_pages_def len pg(1) load_segment_spec_def)
  have rest: "\<forall>ph\<in>set phs. segment_ok file ph" "4 * image_pages phs \<le> card (m_avail m1)"
    using Cons.prems(2,3) m1(3) by (simp_all add: image_pages_def)
  show ?case
    using Cons.IH [OF m1(2) rest, of "vmas @ [segment_vma ph]" "if segment_end ph > mx then segment_end ph else mx"] m1(1,3)
    by (auto simp: Let_def vma_add_def image_pages_def)
qed simp

section \<open>A new process\<close>

lemma new_space_holds:
  assumes fo: "user_forest R m" and c: "create_user_page_table m = Some (p, m')"
  shows "holds (insert p R) p m' (\<lambda>w. None)" "card (m_avail m) = Suc (card (m_avail m'))"
proof -
  from c obtain m1 where a: "m_alloc m = Some (p, m1)"
    and m': "m' = copy_kernel_half (get_pml4 m) p (zero_page p m1)"
    by (auto simp: create_user_page_table_def split: option.splits)
  have p: "p \<in> m_avail m" "m_avail m1 = m_avail m - {p}" using fp.acq_Some [OF a] by auto
  have pa: "page_aligned p" using fp.avail_valid [OF p(1)] by (simp add: valid_frame_def)
  have "m_avail m' = m_avail m - {p}"
    using copy_kernel_half_cells [OF pa, of "[256..<512]" "get_pml4 m" "zero_page p m1"]
    unfolding m' copy_kernel_half_def p(2) [symmetric] Let_def by (simp_all only: set_upt order_refl m_avail_zero_page)
  then show "card (m_avail m) = Suc (card (m_avail m'))"
    using card_Suc_Diff1 [OF fp.avail_finite [of m] p(1)] by simp
  have fo': "user_forest (insert p R) m'" and none: "\<And>w. user_addr w \<Longrightarrow> get_mapped_frame p w m' = None"
    using new_space_fresh [OF fo c] by auto
  have "page_of p m' w = None" if "user_addr w" for w
    using mapped_page [OF fo' _ that, of p] none [OF that] by simp
  then have "private_space (insert p R) p m'" using fo' by (simp add: private_space_def)
  moreover have "umem p m' w = None" if "low w" for w using none [OF low_user [OF that]] by (simp add: umem_def)
  ultimately show "holds (insert p R) p m' (\<lambda>w. None)" by (simp add: holds_def)
qed

definition with_zero_page :: "nat \<Rightarrow> (nat \<Rightarrow> u8 option) \<Rightarrow> nat \<Rightarrow> u8 option" where
  "with_zero_page page contents w = (if w div PAGE_SIZE = page then Some 0 else contents w)"

lemma stack_page_step:
  assumes h: "holds R p m contents" and v: "low v" "page_aligned v" "contents (unat v) = None"
    and card: "4 \<le> card (m_avail m)"
  shows "\<exists>m'. map_stack_pages p (v # vs) m = map_stack_pages p vs m' \<and>
    holds R p m' (with_zero_page (unat v div PAGE_SIZE) contents) \<and> card (m_avail m) \<le> card (m_avail m') + 4"
proof -
  have pr: "private_space R p m" and um: "\<And>w. low w \<Longrightarrow> umem p m w = contents (unat w)"
    using h by (auto simp: holds_def)
  have none: "get_mapped_frame p v m = None" using um [OF v(1)] v(3) by (simp add: umem_def)
  obtain g m1 where s: "page_frame p v m = Some (Some g, m1)" and c: "card (m_avail m) \<le> card (m_avail m1) + 4"
    using page_frame_progress [OF card] by blast
  note st = page_frame_step [OF pr low_user [OF v(1)] v(2) s]
  have "map_stack_pages p (v # vs) m = map_stack_pages p vs m1"
    using s none by (auto simp: page_frame_def split: option.splits)
  moreover have "umem p m1 w = with_zero_page (unat v div PAGE_SIZE) contents (unat w)" if "low w" for w
    using st(3) [OF low_user [OF that]] same_path_low [OF v(1) that] um [OF that] um [OF v(1)] v(3)
    by (auto simp: with_zero_page_def)
  ultimately show ?thesis using st(1) c by (auto simp: holds_def)
qed

definition stack_pages :: "nat list" where
  "stack_pages = [0x7FFFFFFEF, 0x7FFFFFFEE]"

definition process_image :: "u8 list \<Rightarrow> elf_phdr list \<Rightarrow> nat \<Rightarrow> u8 option" where
  "process_image file phs = fold with_zero_page stack_pages (segments_image file phs)"

lemma image_outside:
  "\<forall>ph\<in>set phs. (unat (ph_vaddr ph) + unat (ph_memsz ph) + 4095) div PAGE_SIZE \<le> w div PAGE_SIZE \<Longrightarrow>
   segments_image file phs w = None"
  by (induction phs rule: rev_induct) (auto simp: image_byte segment_pages_def, simp add: segments_image_def)

definition below_stack :: "elf_phdr \<Rightarrow> bool" where
  "below_stack ph \<longleftrightarrow> unat (ph_vaddr ph) + unat (ph_memsz ph) \<le> unat (USER_STACK_TOP - USER_STACK_SIZE)"

lemma load_all_new:
  assumes fo: "user_forest R m" and ok: "\<forall>ph\<in>set phs. segment_ok file ph \<and> below_stack ph"
    and card: "4 * image_pages phs + 9 \<le> card (m_avail m)"
  shows "\<exists>p m1 mx m2 m3. create_user_page_table m = Some (p, m1) \<and>
    load_all file beyond p phs ([], 0, m1) = Finished (map segment_vma phs, mx, m2) \<and>
    map_stack_pages p [USER_STACK_TOP - 0x1000, USER_STACK_TOP - 0x2000] m2 = Some m3 \<and>
    holds (insert p R) p m3 (process_image file phs)"
proof -
  have "m_avail m \<noteq> {}" using card by auto
  then obtain p m1 where c: "create_user_page_table m = Some (p, m1)"
    using fp.acq_None [of m] by (cases "m_alloc m") (auto simp: create_user_page_table_def)
  note new = new_space_holds [OF fo c]
  have ok1: "\<forall>ph\<in>set phs. segment_ok file ph" using ok by blast
  have card1: "4 * image_pages phs \<le> card (m_avail m1)" using card new(2) by simp
  obtain mx m2 where l: "load_all file beyond p phs ([], 0, m1) = Finished (map segment_vma phs, mx, m2)"
    and h2: "holds (insert p R) p m2 (segments_image file phs)" and card2: "8 \<le> card (m_avail m2)"
    using load_all_spec [OF new(1) ok1 card1, of beyond "[]" 0] card new(2) by (auto simp: segments_image_def)
  have out: "segments_image file phs w = None" if "unat (USER_STACK_TOP - USER_STACK_SIZE) + 4095 \<le> w" for w
  proof (rule image_outside, rule ballI)
    fix ph assume "ph \<in> set phs"
    with ok have "unat (ph_vaddr ph) + unat (ph_memsz ph) + 4095 \<le> w" using that by (auto simp: below_stack_def)
    then show "(unat (ph_vaddr ph) + unat (ph_memsz ph) + 4095) div PAGE_SIZE \<le> w div PAGE_SIZE" by (rule div_le_mono)
  qed
  let ?v1 = "USER_STACK_TOP - 0x1000" and ?v2 = "USER_STACK_TOP - 0x2000"
  have v: "low ?v1" "page_aligned ?v1" "low ?v2" "page_aligned ?v2"
    by (simp_all add: low_def page_aligned_def)
  have n1: "segments_image file phs (unat ?v1) = None" by (rule out) simp
  obtain m3 where m3: "map_stack_pages p [?v1, ?v2] m2 = map_stack_pages p [?v2] m3"
    "holds (insert p R) p m3 (with_zero_page (unat ?v1 div PAGE_SIZE) (segments_image file phs))"
    "card (m_avail m2) \<le> card (m_avail m3) + 4"
    using stack_page_step [OF h2 v(1,2) n1, of "[?v2]"] card2 by auto
  have n2: "with_zero_page (unat ?v1 div PAGE_SIZE) (segments_image file phs) (unat ?v2) = None"
    using out [of "unat ?v2"] by (simp add: with_zero_page_def)
  obtain m4 where "map_stack_pages p [?v2] m3 = map_stack_pages p [] m4"
    "holds (insert p R) p m4 (with_zero_page (unat ?v2 div PAGE_SIZE)
       (with_zero_page (unat ?v1 div PAGE_SIZE) (segments_image file phs)))"
    using stack_page_step [OF m3(2) v(3,4) n2, of "[]"] m3(3) card2 by auto
  then show ?thesis
    using c l m3(1) by (auto simp: process_image_def stack_pages_def)
qed

text \<open>
  C3: loading a program. Given enough frames and a free slot, a well-formed executable becomes a
  new ready process whose memory is exactly what its segments describe (bytes of the file, then
  zeros), with a cleared stack, nothing else mapped below 2^47, and whose saved context starts in
  user mode at the entry point; the page tables stay disjoint trees.
\<close>

theorem load_elf_image:
  assumes "kernel_ok k" "0 < k_next_pid k" "user_forest R (k_mach k)" "elf_new file = Inr h"
    and "\<forall>ph\<in>set (load_segments file beyond h). segment_ok file ph \<and> below_stack ph"
    and "4 * image_pages (load_segments file beyond h) + 9 \<le> card (m_avail (k_mach k))"
    and "reusable_slot (k_procs k) = Some i"
  shows "\<exists>k' p. load_elf name file beyond parent (Some base) k = Some (Some (k_next_pid k), k') \<and>
    get_process (k_procs k') (k_next_pid k) = Some p \<and> p_state p = Ready \<and> p_parent_pid p = parent \<and>
    p_vmas p = map segment_vma (load_segments file beyond h) @ [stack_vma] \<and>
    k_ctxs k' (p_rsp p) = user_context (e_entry h) \<and>
    user_forest (insert (p_pml4_phys p) R) (k_mach k') \<and>
    (\<forall>w. low w \<longrightarrow> umem (p_pml4_phys p) (k_mach k') w = process_image file (load_segments file beyond h) (unat w))"
proof -
  let ?phs = "load_segments file beyond h"
  obtain pml4 m1 mx m2 m3 where c: "create_user_page_table (k_mach k) = Some (pml4, m1)"
    "load_all file beyond pml4 ?phs ([], 0, m1) = Finished (map segment_vma ?phs, mx, m2)"
    "map_stack_pages pml4 [USER_STACK_TOP - 0x1000, USER_STACK_TOP - 0x2000] m2 = Some m3"
    and h: "holds (insert pml4 R) pml4 m3 (process_image file ?phs)"
    using load_all_new [OF assms(3,5,6), of beyond] by blast
  define p where "p = user_process (k_next_pid k) name parent pml4 (map segment_vma ?phs @ [stack_vma]) (align_up mx) base"
  define k' where "k' = k\<lparr>k_next_pid := k_next_pid k + 1, k_mach := m3,
    k_ctxs := (k_ctxs k)(p_rsp p := user_context (e_entry h)), k_procs := (k_procs k)[i := Some p]\<rparr>"
  have l: "load_elf name file beyond parent (Some base) k = Some (Some (k_next_pid k), k')"
    using assms(4,7) c by (simp add: load_elf_def Let_def install_process_def p_def k'_def vma_add_def)
  have t: "table_ok (k_procs k) (k_next_pid k)" using assms(1) by (simp add: kernel_ok_def)
  have i: "i < MAX_PROCESSES"
    using assms(7) table_okD(1) [OF t] unfolding reusable_slot_def find_range_Some by simp
  have pid: "p_pid p = k_next_pid k" by (simp add: p_def user_process_def)
  have t': "table_ok (k_procs k') (k_next_pid k + 1)"
    unfolding k'_def using table_ok_insert [OF t i pid assms(2)] by simp
  have slot: "k_procs k' ! i = Some p" using i table_okD(1) [OF t] by (simp add: k'_def)
  have "get_process (k_procs k') (k_next_pid k) = Some p"
    using proc_index_unique [OF t' i slot] slot pid by (simp add: get_process_def)
  moreover have "p_state p = Ready \<and> p_parent_pid p = parent \<and> p_vmas p = map segment_vma ?phs @ [stack_vma] \<and>
      p_pml4_phys p = pml4"
    by (simp add: p_def user_process_def)
  moreover have "k_ctxs k' (p_rsp p) = user_context (e_entry h)" "k_mach k' = m3" by (simp_all add: k'_def)
  ultimately show ?thesis
    using l h by (auto simp: holds_def private_space_def)
qed

text \<open>Sixteen free frames, and the process table of the demonstration kernel.\<close>

definition roomy_machine :: machine where
  "roomy_machine =
     \<lparr>frames = \<lparr>bitmap = (\<lambda>i. if i < 2 then 0 else 0xFF), total_frames = 16, used_frames = 0\<rparr>,
      mem = (\<lambda>_. 0), cr3 = 0x100000\<rparr>"

lemma card_roomy_machine: "card (m_avail roomy_machine) = 16"
proof -
  have "is_free (frames roomy_machine) f \<longleftrightarrow> f < 16" for f
    using byte_not_full [of "0xFF"]
    by (cases "f div 8 < 2") (auto simp: is_free_bit roomy_machine_def)
  then have "m_avail roomy_machine = frame_addr ` {..<16}"
    by (auto simp: m_avail_def avail_frames_def free_frames_def)
  moreover have "inj_on frame_addr {..<16}" by (intro inj_onI) (simp add: frame_addr_inj)
  ultimately show ?thesis by (simp add: card_image)
qed

definition roomy_kernel :: "unit kernel" where
  "roomy_kernel = demo_kernel\<lparr>k_mach := roomy_machine\<rparr>"

lemma load_elf_image_witness:
  "\<exists>k' p. load_elf (ascii ''tiny'') tiny_elf (\<lambda>_. 0) 1 (Some 0x80000) roomy_kernel = Some (Some 3, k') \<and>
     get_process (k_procs k') 3 = Some p \<and> umem (p_pml4_phys p) (k_mach k') 0x400000 = Some 1 \<and>
     umem (p_pml4_phys p) (k_mach k') 0x400004 = Some 0 \<and> umem (p_pml4_phys p) (k_mach k') 0x401000 = None"
proof -
  have e: "elf_new tiny_elf = Inr (elf_header_of tiny_elf)" by code_simp
  have pages: "segment_pages tiny_segment = [0x400]"
    by (simp add: segment_pages_def tiny_segment_def upt_rec)
  have len: "length tiny_elf = 120" "tiny_elf ! 64 = 1"
    by (simp_all add: tiny_elf_def ELF_MAGIC_def tiny_phdr_def, code_simp)
  have ok: "\<forall>ph\<in>set (load_segments tiny_elf (\<lambda>_. 0) (elf_header_of tiny_elf)). segment_ok tiny_elf ph \<and> below_stack ph"
    by (simp add: tiny_segments segment_ok_def below_stack_def len(1), simp add: tiny_segment_def)
  have img: "process_image tiny_elf [tiny_segment] 0x400000 = Some 1"
    "process_image tiny_elf [tiny_segment] 0x400004 = Some 0" "process_image tiny_elf [tiny_segment] 0x401000 = None"
    by (simp_all add: process_image_def stack_pages_def with_zero_page_def segments_image_def load_segment_spec_def
        pages load_page_spec_def file_part_def len) (simp_all add: tiny_segment_def len)
  have k: "kernel_ok roomy_kernel" "0 < k_next_pid roomy_kernel"
    using demo_kernel_ok(1) by (simp_all add: roomy_kernel_def kernel_ok_def running_is_current_def demo_kernel_def)
  have fo: "user_forest {} (k_mach roomy_kernel)" by (simp only: user_forest_def ball_empty)
  have card: "4 * image_pages (load_segments tiny_elf (\<lambda>_. 0) (elf_header_of tiny_elf)) + 9 \<le> card (m_avail (k_mach roomy_kernel))"
    by (simp add: tiny_segments image_pages_def pages roomy_kernel_def card_roomy_machine)
  have "k_procs roomy_kernel ! 2 = None" "length (k_procs roomy_kernel) = 64"
    by (simp_all add: roomy_kernel_def demo_kernel_def demo_procs_nth demo_procs_def)
  then have "reusable_slot (k_procs roomy_kernel) \<noteq> None"
    unfolding reusable_slot_def find_range_None by (auto simp: slot_reusable_def intro!: exI [of _ 2])
  then obtain i where "reusable_slot (k_procs roomy_kernel) = Some i" by blast
  from load_elf_image [OF k fo e ok card this, of "ascii ''tiny''" 1 "0x80000"] obtain k' p where
    l: "load_elf (ascii ''tiny'') tiny_elf (\<lambda>_. 0) 1 (Some 0x80000) roomy_kernel = Some (Some (k_next_pid roomy_kernel), k')"
      "get_process (k_procs k') (k_next_pid roomy_kernel) = Some p"
    and um: "\<forall>w. low w \<longrightarrow> umem (p_pml4_phys p) (k_mach k') w = process_image tiny_elf [tiny_segment] (unat w)"
    by (auto simp: tiny_segments)
  have "k_next_pid roomy_kernel = 3" by (simp add: roomy_kernel_def demo_kernel_def)
  moreover have "low 0x400000" "low 0x400004" "low 0x401000" by (simp_all add: low_def)
  ultimately show ?thesis using l um img by (intro exI [of _ k'] exI [of _ p]) simp
qed

end
