(* ===== verification/Exit_Wait.thy ===== *)
theory Exit_Wait
  imports Kernel_Inv
begin

text \<open>
  The end of a process and \<^verbatim>\<open>waitpid\<close>: what \<^verbatim>\<open>exit_process\<close> does to every process and to the
  frames, that a parent which waits first gets the exit code, and that one which waits after
  the exit blocks.
\<close>

section \<open>Lookups after an update\<close>

lemma get_process_Some:
  assumes "table_ok procs n"
  shows "get_process procs pid = Some p \<longleftrightarrow> (\<exists>i<MAX_PROCESSES. procs ! i = Some p \<and> p_pid p = pid)"
proof
  assume g: "get_process procs pid = Some p"
  then obtain i where i: "proc_index procs pid = Some i" "procs ! i = Some p"
    by (auto simp: get_process_def split: option.splits)
  then show "\<exists>i<MAX_PROCESSES. procs ! i = Some p \<and> p_pid p = pid"
    using proc_index_Some [OF i(1)] table_okD(1) [OF assms] by auto
next
  assume "\<exists>i<MAX_PROCESSES. procs ! i = Some p \<and> p_pid p = pid"
  then show "get_process procs pid = Some p"
    using proc_index_unique [OF assms] by (auto simp: get_process_def)
qed

lemma get_process_update:
  assumes "table_ok procs n" "\<And>p. p_pid (f p) = p_pid p"
  shows "get_process (update_process pid f procs) pid' =
    (if pid' = pid then map_option f (get_process procs pid') else get_process procs pid')"
proof -
  let ?procs = "update_process pid f procs"
  have sp: "same_pids procs ?procs" by (rule same_pids_update [OF assms(2)])
  have idx: "proc_index ?procs pid' = proc_index procs pid'" by (rule same_pids_index [OF sp])
  show ?thesis
  proof (cases "proc_index procs pid'")
    case (Some i)
    from proc_index_Some [OF Some] obtain p where p: "i < length procs" "procs ! i = Some p" "p_pid p = pid'" by auto
    then have "i < MAX_PROCESSES" using table_okD(1) [OF assms(1)] by simp
    with Some idx p update_process_nth [OF assms(1), of i pid f] show ?thesis by (auto simp: get_process_def)
  qed (use idx in \<open>auto simp: get_process_def\<close>)
qed

lemma get_process_wake:
  assumes "table_ok procs n"
  shows "get_process (wake_waiters pid procs) pid' =
    map_option (\<lambda>p. if waits_for pid p then p\<lparr>p_state := Ready, p_waiting_for_pid := None\<rparr> else p)
      (get_process procs pid')"
proof -
  have idx: "proc_index (wake_waiters pid procs) pid' = proc_index procs pid'"
    by (rule same_pids_index [OF wake_waiters_same])
  show ?thesis
  proof (cases "proc_index procs pid'")
    case (Some i)
    with proc_index_Some [OF Some] idx show ?thesis by (auto simp: get_process_def wake_waiters_def)
  qed (simp add: get_process_def idx)
qed

lemma has_waiter_iff:
  assumes "table_ok procs n"
  shows "has_waiter pid procs \<longleftrightarrow> (\<exists>q p. get_process procs q = Some p \<and> waits_for pid p)"
proof
  assume "has_waiter pid procs"
  then obtain p where p: "Some p \<in> set procs" "waits_for pid p"
    by (auto simp: has_waiter_def list_ex_iff split: option.splits)
  then obtain i where "i < MAX_PROCESSES" "procs ! i = Some p"
    using table_okD(1) [OF assms] by (auto simp: in_set_conv_nth)
  then have "get_process procs (p_pid p) = Some p" using get_process_Some [OF assms] by blast
  with p show "\<exists>q p. get_process procs q = Some p \<and> waits_for pid p" by blast
next
  assume "\<exists>q p. get_process procs q = Some p \<and> waits_for pid p"
  then show "has_waiter pid procs"
    by (auto simp: has_waiter_def list_ex_iff dest!: get_process_in split: option.splits intro!: bexI)
qed

section \<open>Frames given back\<close>

lemma m_dealloc_grows: "m_avail m \<subseteq> m_avail (m_dealloc f m)"
  by (auto simp: m_avail_def m_dealloc_def avail_frames_def frame_dealloc_def Let_def free_frames_def is_free_mark_free)

lemma free_pages_mem: "mem (free_pages p vs m) = mem m"
  by (induction vs arbitrary: m) (auto simp: m_dealloc_def split: option.split)

lemma free_pages_avail:
  "m_avail m \<subseteq> m_avail (free_pages p vs m) \<and>
   (\<forall>v phys. v \<in> set vs \<longrightarrow> get_mapped_frame p v m = Some phys \<longrightarrow> valid_frame (align_down phys) \<longrightarrow>
      align_down phys \<in> m_avail (free_pages p vs m))"
proof (induction vs arbitrary: m)
  case (Cons v vs)
  define m1 where "m1 = (case get_mapped_frame p v m of None \<Rightarrow> m | Some phys \<Rightarrow> m_dealloc (align_down phys) m)"
  have mem1: "mem m1 = mem m" by (simp add: m1_def m_dealloc_def split: option.split)
  have map1: "get_mapped_frame p w m1 = get_mapped_frame p w m" for w by (rule get_mapped_frame_mem_cong [OF mem1])
  have grow: "m_avail m \<subseteq> m_avail m1"
    using m_dealloc_grows by (auto simp: m1_def split: option.splits)
  have here: "align_down phys \<in> m_avail m1" if "get_mapped_frame p v m = Some phys" "valid_frame (align_down phys)" for phys
    using that m_dealloc_avail [OF that(2), of m] by (simp add: m1_def)
  have step: "free_pages p (v # vs) m = free_pages p vs m1" by (simp add: m1_def)
  show ?case
    unfolding step using Cons.IH [of m1] grow here map1 by auto
qed simp

section \<open>The end of a process\<close>

lemma inv_table: "kernel_inv k \<Longrightarrow> table_ok (k_procs k) (k_next_pid k)"
  by (simp add: kernel_inv_def kernel_ok_def)

lemma end_process_fields [simp]:
  "p_pid (end_process st code p) = p_pid p" "p_state (end_process st code p) = st"
  "p_exit_code (end_process st code p) = Some code" "p_vmas (end_process st code p) = []"
  "p_pml4_phys (end_process st code p) = p_pml4_phys p"
  by (simp_all add: end_process_def vma_clear_def)

lemma exit_process_procs:
  assumes "kernel_inv k" "get_process (k_procs k) pid = Some p"
  shows "k_procs (exit_process pid code k) =
    update_process pid (end_process (if has_waiter pid (k_procs k) then Dead else Empty) code)
      (wake_waiters pid (k_procs k))"
proof -
  obtain shm' m1 where s: "shm_cleanup_process pid (k_shm k) (k_mach k) = (shm', m1)" by fastforce
  obtain q where q: "get_process (wake_waiters pid (k_procs k)) pid = Some q"
    using get_process_wake [OF inv_table [OF assms(1)], of pid pid] assms(2) by simp
  show ?thesis by (simp add: exit_process_def Let_def s q)
qed

lemma exit_process_lookup:
  assumes k: "kernel_inv k" and p: "get_process (k_procs k) pid = Some p"
  shows "get_process (k_procs (exit_process pid code k)) pid' =
    (let woken = map_option (\<lambda>q. if waits_for pid q then q\<lparr>p_state := Ready, p_waiting_for_pid := None\<rparr> else q)
                   (get_process (k_procs k) pid')
     in if pid' = pid then map_option (end_process (if has_waiter pid (k_procs k) then Dead else Empty) code) woken
        else woken)"
  unfolding exit_process_procs [OF assms] Let_def
  by (simp add: get_process_update [OF same_pids_table_ok [OF wake_waiters_same inv_table [OF k]]]
      get_process_wake [OF inv_table [OF k]])

lemma exit_process_frames:
  assumes k: "kernel_inv k" and p: "get_process (k_procs k) pid = Some p" "p_pml4_phys p \<noteq> 0"
    and v: "v \<in> set (vma_pages (p_vmas p))" "get_mapped_frame (p_pml4_phys p) v (k_mach k) = Some phys"
      "valid_frame (align_down phys)"
  shows "align_down phys \<in> m_avail (k_mach (exit_process pid code k))"
proof -
  obtain shm' m1 where s: "shm_cleanup_process pid (k_shm k) (k_mach k) = (shm', m1)" by fastforce
  have m1: "mem m1 = mem (k_mach k)"
    using s cleanup_regions_mem by (auto simp: shm_cleanup_process_def split: prod.splits)
  obtain q where q: "get_process (wake_waiters pid (k_procs k)) pid = Some q"
    "p_pml4_phys q = p_pml4_phys p" "p_vmas q = p_vmas p"
    using get_process_wake [OF inv_table [OF k], of pid pid] p(1) by auto
  have "get_mapped_frame (p_pml4_phys p) v m1 = Some phys" using v(2) get_mapped_frame_mem_cong [OF m1] by simp
  with free_pages_avail [of m1 "p_pml4_phys p" "vma_pages (p_vmas p)"] v(1,3)
  have "align_down phys \<in> m_avail (free_pages (p_pml4_phys p) (vma_pages (p_vmas p)) m1)" by blast
  then show ?thesis using q p(2) by (simp add: exit_process_def Let_def s)
qed

text \<open>
  C15: the end of a process. It loses its regions and keeps its exit code, as a zombie if another
  process waits for it and as an empty slot otherwise; those that wait for it become ready; no
  other process changes; and every frame mapped in its regions is free again.
\<close>

theorem exit_process_effect:
  assumes "kernel_inv k" "get_process (k_procs k) pid = Some p" "\<not> waits_for pid p"
  shows "kernel_inv (exit_process pid code k) \<and>
    get_process (k_procs (exit_process pid code k)) pid =
      Some (p\<lparr>p_vmas := [], p_exit_code := Some code,
             p_state := (if \<exists>q r. get_process (k_procs k) q = Some r \<and> waits_for pid r then Dead else Empty)\<rparr>) \<and>
    (\<forall>pid' q. pid' \<noteq> pid \<longrightarrow> get_process (k_procs k) pid' = Some q \<longrightarrow>
       get_process (k_procs (exit_process pid code k)) pid' =
         Some (if waits_for pid q then q\<lparr>p_state := Ready, p_waiting_for_pid := None\<rparr> else q)) \<and>
    (\<forall>v phys. p_pml4_phys p \<noteq> 0 \<longrightarrow> v \<in> set (vma_pages (p_vmas p)) \<longrightarrow>
       get_mapped_frame (p_pml4_phys p) v (k_mach k) = Some phys \<longrightarrow> valid_frame (align_down phys) \<longrightarrow>
       align_down phys \<in> m_avail (k_mach (exit_process pid code k)))"
  using exit_process_inv [OF assms(1)] exit_process_lookup [OF assms(1,2), of code] assms(2,3)
    exit_process_frames [OF assms(1,2)] has_waiter_iff [OF inv_table [OF assms(1)], of pid]
  by (auto simp: Let_def end_process_def vma_clear_def)

section \<open>Waiting\<close>

text \<open>A process that is neither ready nor running only has its stack pointer saved by a turn.\<close>

lemma schedule_keeps_sleeping:
  assumes ok: "kernel_ok k" and p: "get_process (k_procs k) pid = Some p" "p_state p \<noteq> Ready" "p_state p \<noteq> Running"
    and s: "schedule ctx k = (r, k')"
  shows "\<exists>x. get_process (k_procs k') pid = Some (p\<lparr>p_rsp := x\<rparr>)"
proof -
  have t: "table_ok (k_procs k) (k_next_pid k)" using ok by (simp add: kernel_ok_def)
  let ?procs = "k_procs (save_current ctx k)"
  have t1: "table_ok ?procs (k_next_pid k)" using same_pids_table_ok [OF save_current_fields(5) t] .
  define f where "f = (\<lambda>p. (if p_state p = Running then set_state Ready else (\<lambda>p. p)) (p\<lparr>p_rsp := ctx\<rparr>))"
  have fp: "p_pid (f q) = p_pid q" for q by (simp add: f_def)
  have "get_process ?procs pid = Some (if k_current k \<noteq> 0 \<and> pid = k_current k then f p else p)"
    using get_process_update [OF t fp, of "k_current k" pid] p(1)
    by (auto simp: save_current_def f_def [symmetric])
  moreover have "f p = p\<lparr>p_rsp := ctx\<rparr>" using p(3) by (simp add: f_def)
  ultimately have "get_process ?procs pid =
    Some (p\<lparr>p_rsp := if k_current k \<noteq> 0 \<and> pid = k_current k then ctx else p_rsp p\<rparr>)" by simp
  then obtain x where x: "get_process ?procs pid = Some (p\<lparr>p_rsp := x\<rparr>)" by blast
  from schedule_cases [OF ok s] show ?thesis
  proof (elim disjE exE conjE)
    fix i q
    assume i: "i < MAX_PROCESSES" "?procs ! i = Some q" "p_state q = Ready"
      and pr: "k_procs k' = update_process (p_pid q) (set_state Running) ?procs"
    have "get_process ?procs (p_pid q) = Some q" using i get_process_Some [OF t1] by blast
    then have "pid \<noteq> p_pid q" using x i(3) p(2) by auto
    then have "get_process (k_procs k') pid = Some (p\<lparr>p_rsp := x\<rparr>)"
      using get_process_update [OF t1, of "set_state Running" "p_pid q" pid] x by (simp add: pr)
    then show ?thesis by (rule exI [of _ x])
  qed (use x in auto)
qed

lemma exit_switch_inv:
  assumes "kernel_inv k" "k_current k = pid" "get_process (k_procs k) pid = Some p"
  shows "kernel_inv ((exit_process pid code k)\<lparr>k_current := x\<rparr>)"
proof -
  let ?k = "exit_process pid code k"
  have inv: "kernel_inv ?k" by (rule exit_process_inv [OF assms(1)])
  have none: "p_state q \<noteq> Running" if q: "i < MAX_PROCESSES" "k_procs ?k ! i = Some q" for i q
  proof
    assume r: "p_state q = Running"
    have "k_current ?k = pid" using assms(2) by (simp add: exit_process_def Let_def split: prod.split option.split)
    with inv q r have "p_pid q = pid" unfolding kernel_inv_def kernel_ok_def running_is_current_def by metis
    then have "get_process (k_procs ?k) pid = Some q" using get_process_Some [OF inv_table [OF inv]] q by blast
    then show False using exit_process_lookup [OF assms(1,3), of code pid] assms(3) r by (auto simp: Let_def split: if_splits)
  qed
  then have "running_is_current (?k\<lparr>k_current := x\<rparr>)" by (auto simp: running_is_current_def)
  with inv show ?thesis by (simp add: kernel_inv_def kernel_ok_def queues_ok_def)
qed

text \<open>
  C29: a parent that waits for its child before the child exits is made ready by the exit, and
  its repeated call returns the exit code and empties the child's slot.
\<close>

theorem waitpid_gets_exit_code:
  assumes "kernel_inv k" "get_process (k_procs k) parent = Some p" "waits_for child p"
    and "get_process (k_procs k) child = Some c" "\<not> waits_for child c"
    and "k' = (exit_process child code k)\<lparr>k_current := parent\<rparr>"
    and "c_rdi (k_ctxs k' ptr) = of_nat child" "child < 2 ^ 64"
  shows "get_process (k_procs k') parent = Some (p\<lparr>p_state := Ready, p_waiting_for_pid := None\<rparr>) \<and>
    (\<exists>k'' c'. sys_waitpid ptr k' = Resume ptr k'' \<and> c_rax (k_ctxs k'' ptr) = code \<and>
       get_process (k_procs k'') child = Some c' \<and> p_state c' = Empty \<and>
       get_process (k_procs k'') parent = Some (p\<lparr>p_state := Ready, p_waiting_for_pid := None\<rparr>))"
proof -
  have pc: "parent \<noteq> child" using assms(2-5) by auto
  note look = exit_process_lookup [OF assms(1,4), of code]
  have w: "has_waiter child (k_procs k)" using has_waiter_iff [OF inv_table [OF assms(1)]] assms(2,3) by blast
  have par: "get_process (k_procs k') parent = Some (p\<lparr>p_state := Ready, p_waiting_for_pid := None\<rparr>)"
    using look [of parent] pc assms(2,3,6) by simp
  have ch: "get_process (k_procs k') child = Some (end_process Dead code c)"
    using look [of child] w assms(4,5,6) by simp
  have t: "table_ok (k_procs k') (k_next_pid (exit_process child code k))"
    using inv_table [OF exit_process_inv [OF assms(1)]] by (simp add: assms(6))
  have id: "unat (c_rdi (k_ctxs k' ptr)) = child" using assms(7,8) by (simp add: unat_of_nat)
  note up = get_process_update [OF t, of "set_state Empty" child]
  have "sys_waitpid ptr k' = ret ptr code (k'\<lparr>k_procs := update_process child (set_state Empty) (k_procs k')\<rparr>)"
    by (simp add: sys_waitpid_def Let_def id ch)
  then show ?thesis
    using par ch pc up [of child] up [of parent] by (simp add: ret_def set_ctx_def)
qed

text \<open>
  C30: a parent that calls \<^verbatim>\<open>waitpid\<close> after its child has exited does not get the exit code: no one
  waited, so the child's slot is already empty, and the parent blocks, waiting for an event that
  has happened. (The call is repeated if a message wakes it, and blocks again.)
\<close>

theorem waitpid_after_exit_blocks:
  assumes "kernel_inv k" "get_process (k_procs k) child = Some c" "\<forall>q r. get_process (k_procs k) q = Some r \<longrightarrow> \<not> waits_for child r"
    and "get_process (k_procs k) parent = Some p" "parent \<noteq> child" "parent \<noteq> 0"
    and "p_state p = Ready \<or> p_state p = Running"
    and "k_current k = child" "k' = (exit_process child code k)\<lparr>k_current := parent\<rparr>"
    and "c_rdi (k_ctxs k' ptr) = of_nat child" "child < 2 ^ 64"
  shows "\<exists>ptr' k'' q c'. sys_waitpid ptr k' = Resume ptr' k'' \<and>
    get_process (k_procs k'') parent = Some q \<and> p_state q = Blocked \<and> p_waiting_for_pid q = Some child \<and>
    get_process (k_procs k'') child = Some c' \<and> p_state c' = Empty \<and> p_exit_code c' = Some code"
proof -
  note look = exit_process_lookup [OF assms(1,2), of code]
  have w: "\<not> has_waiter child (k_procs k)" using has_waiter_iff [OF inv_table [OF assms(1)]] assms(3) by blast
  have par: "get_process (k_procs k') parent = Some p"
    using look [of parent] assms(3,4,5,9) by simp
  have ch: "get_process (k_procs k') child = Some (end_process Empty code c)"
    using look [of child] w assms(2,3,9) by auto
  have id: "unat (c_rdi (k_ctxs k' ptr)) = child" using assms(10,11) by (simp add: unat_of_nat)
  define k1 where "k1 = repeat_call ptr (update_current (block_on child) k')"
  have cur: "k_current k' = parent" by (simp add: assms(9))
  have inv': "kernel_inv k'"
    unfolding assms(9) by (rule exit_switch_inv [OF assms(1,8,2)])
  have k1: "k_procs k1 = update_process parent (block_on child) (k_procs k')"
    by (simp add: k1_def repeat_call_def set_ctx_def update_current_def cur)
  have ok1: "kernel_inv k1"
    unfolding k1_def repeat_call_inv by (rule update_current_inv [OF inv']) (simp_all add: block_on_def proc_ok_def)
  obtain r k'' where s: "schedule ptr k1 = (r, k'')" by fastforce
  have sys: "sys_waitpid ptr k' = Resume r k''"
    by (simp add: sys_waitpid_def Let_def id ch k1_def [symmetric] resched_def s)
  note up = get_process_update [OF inv_table [OF inv'], of "block_on child" parent]
  have par1: "get_process (k_procs k1) parent = Some (block_on child p)"
    and ch1: "get_process (k_procs k1) child = Some (end_process Empty code c)"
    using up [of parent] up [of child] par ch assms(5) by (simp_all add: k1 block_on_def)
  have kok: "kernel_ok k1" using ok1 by (simp add: kernel_inv_def)
  from schedule_keeps_sleeping [OF kok par1 _ _ s] schedule_keeps_sleeping [OF kok ch1 _ _ s]
  obtain x y where "get_process (k_procs k'') parent = Some ((block_on child p)\<lparr>p_rsp := x\<rparr>)"
    "get_process (k_procs k'') child = Some ((end_process Empty code c)\<lparr>p_rsp := y\<rparr>)"
    by (auto simp: block_on_def)
  with sys show ?thesis by (auto simp: block_on_def end_process_def)
qed

section \<open>A concrete family\<close>

text \<open>Process 1, in a given state, is the parent of process 2, which runs.\<close>

definition family :: "process_state \<Rightarrow> nat option \<Rightarrow> unit kernel" where
  "family st w = demo_kernel\<lparr>k_current := 2, k_ctxs := (\<lambda>_. zero_context\<lparr>c_rdi := 2\<rparr>),
     k_procs := Some ((demo_process 1 st)\<lparr>p_waiting_for_pid := w\<rparr>) # Some (demo_process 2 Running)
       # replicate 62 None\<rparr>"

lemma family_nth: "i < MAX_PROCESSES \<Longrightarrow> k_procs (family st w) ! i =
    (if i = 0 then Some ((demo_process 1 st)\<lparr>p_waiting_for_pid := w\<rparr>)
     else if i = 1 then Some (demo_process 2 Running) else None)"
  by (auto simp: family_def nth_Cons split: nat.split)

lemma family_inv: "st \<noteq> Running \<Longrightarrow> kernel_inv (family st w)"
proof -
  assume st: "st \<noteq> Running"
  have len: "length (k_procs (family st w)) = MAX_PROCESSES" by (simp add: family_def)
  have "proc_ok (demo_process 2 Running)" "proc_ok ((demo_process 1 st)\<lparr>p_waiting_for_pid := w\<rparr>)"
    by (simp_all add: proc_ok_def demo_process_def process_empty_def fd_table_new_ok ends_aligned_def)
  then have "procs_ok (k_procs (family st w))" by (auto simp: procs_ok_def family_def)
  moreover have "table_ok (k_procs (family st w)) 3" using len by (auto simp: table_ok_def family_nth split: if_splits)
  moreover have "running_is_current (family st w)" using st
    by (auto simp: running_is_current_def family_nth split: if_splits) (simp add: family_def)
  moreover have "queues_ok (family st w)" using demo_kernel_ok(2) by (simp add: queues_ok_def family_def)
  moreover have "k_next_pid (family st w) = 3" by (simp add: family_def demo_kernel_def)
  ultimately show ?thesis by (simp add: kernel_inv_def kernel_ok_def)
qed

lemma family_get:
  "get_process (k_procs (family st w)) 1 = Some ((demo_process 1 st)\<lparr>p_waiting_for_pid := w\<rparr>)"
  "get_process (k_procs (family st w)) 2 = Some (demo_process 2 Running)"
  "pid \<noteq> 1 \<Longrightarrow> pid \<noteq> 2 \<Longrightarrow> get_process (k_procs (family st w)) pid = None"
proof -
  have len: "length (k_procs (family st w)) = MAX_PROCESSES" by (simp add: family_def)
  then have t: "table_ok (k_procs (family st w)) 3" by (auto simp: table_ok_def family_nth split: if_splits)
  show "get_process (k_procs (family st w)) 1 = Some ((demo_process 1 st)\<lparr>p_waiting_for_pid := w\<rparr>)"
    "get_process (k_procs (family st w)) 2 = Some (demo_process 2 Running)"
    unfolding get_process_Some [OF t] using family_nth [of 0 st w] family_nth [of 1 st w]
    by (intro exI [of _ 0], simp, intro exI [of _ 1], simp)
  show "get_process (k_procs (family st w)) pid = None" if "pid \<noteq> 1" "pid \<noteq> 2"
  proof (rule ccontr)
    assume "get_process (k_procs (family st w)) pid \<noteq> None"
    then obtain q where "get_process (k_procs (family st w)) pid = Some q" by blast
    then show False unfolding get_process_Some [OF t] using that by (auto simp: family_nth split: if_splits)
  qed
qed

lemma exit_process_effect_witness:
  "get_process (k_procs (exit_process 2 7 (family Blocked (Some 2)))) 2 =
     Some ((demo_process 2 Running)\<lparr>p_vmas := [], p_exit_code := Some 7, p_state := Dead\<rparr>) \<and>
   get_process (k_procs (exit_process 2 7 (family Ready None))) 2 =
     Some ((demo_process 2 Running)\<lparr>p_vmas := [], p_exit_code := Some 7, p_state := Empty\<rparr>)"
proof -
  have nw: "\<not> waits_for 2 (demo_process 2 Running)" by (simp add: waits_for_def)
  have "waits_for 2 ((demo_process 1 Blocked)\<lparr>p_waiting_for_pid := Some 2\<rparr>)" by (simp add: waits_for_def)
  then have w: "\<exists>q r. get_process (k_procs (family Blocked (Some 2))) q = Some r \<and> waits_for 2 r"
    using family_get(1) by blast
  have "\<not> waits_for 2 r" if "get_process (k_procs (family Ready None)) q = Some r" for q r
    using that family_get(1,2) [of Ready None] family_get(3) [of q Ready None] by (cases "q = 1"; cases "q = 2") (auto simp: waits_for_def)
  then have n: "\<not> (\<exists>q r. get_process (k_procs (family Ready None)) q = Some r \<and> waits_for 2 r)" by blast
  show ?thesis
    using exit_process_effect [OF family_inv family_get(2) nw, of Blocked 7 "Some 2"] w
      exit_process_effect [OF family_inv family_get(2) nw, of Ready 7 None] n by simp
qed

lemma waitpid_gets_exit_code_witness:
  "\<exists>k''. sys_waitpid 0x7000 ((exit_process 2 7 (family Blocked (Some 2)))\<lparr>k_current := 1\<rparr>) = Resume 0x7000 k'' \<and>
     c_rax (k_ctxs k'' 0x7000) = 7"
proof -
  let ?k = "family Blocked (Some 2)"
  have w: "waits_for 2 ((demo_process 1 Blocked)\<lparr>p_waiting_for_pid := Some 2\<rparr>)"
    "\<not> waits_for 2 (demo_process 2 Running)" by (simp_all add: waits_for_def)
  have c: "c_rdi (k_ctxs ((exit_process 2 7 ?k)\<lparr>k_current := 1\<rparr>) 0x7000) = of_nat 2"
    by (simp add: exit_process_def Let_def family_def split: prod.split option.split)
  have "kernel_inv ?k" by (rule family_inv) simp
  from waitpid_gets_exit_code [OF this family_get(1) w(1) family_get(2) w(2) refl c] show ?thesis by auto
qed

lemma waitpid_after_exit_blocks_witness:
  "\<exists>ptr' k'' q. sys_waitpid 0x7000 ((exit_process 2 7 (family Ready None))\<lparr>k_current := 1\<rparr>) = Resume ptr' k'' \<and>
     get_process (k_procs k'') 1 = Some q \<and> p_state q = Blocked"
proof -
  let ?k = "family Ready None"
  have inv: "kernel_inv ?k" by (rule family_inv) simp
  have n: "\<forall>q r. get_process (k_procs ?k) q = Some r \<longrightarrow> \<not> waits_for 2 r"
  proof (intro allI impI)
    fix q r assume "get_process (k_procs ?k) q = Some r"
    then show "\<not> waits_for 2 r"
      using family_get(1,2) [of Ready None] family_get(3) [of q Ready None] by (cases "q = 1"; cases "q = 2") (auto simp: waits_for_def)
  qed
  have c: "c_rdi (k_ctxs ((exit_process 2 7 ?k)\<lparr>k_current := 1\<rparr>) 0x7000) = of_nat 2"
    by (simp add: exit_process_def Let_def family_def split: prod.split option.split)
  have cur: "k_current ?k = 2" by (simp add: family_def)
  from waitpid_after_exit_blocks [OF inv family_get(2) n family_get(1) _ _ _ cur refl c] show ?thesis by auto
qed

end
