(* ===== verification/Interrupts.thy ===== *)
theory Interrupts
  imports Kernel_Inv
begin

text \<open>
  Descriptor tables and interrupts: \<^verbatim>\<open>kernel/src/gdt.rs\<close>, \<^verbatim>\<open>kernel/src/idt.rs\<close>, the interrupt
  controller and timer \<^verbatim>\<open>kernel/src/pic.rs\<close> and \<^verbatim>\<open>kernel/src/pit.rs\<close>. The loads of the tables and the
  assembly that saves and restores the registers are in the theory Stubs: here an interrupt finds
  its registers saved at \<open>ptr\<close>, with the vector and the error code.
\<close>

section \<open>Segment descriptors\<close>

record gdt_entry =
  limit_low :: u16
  base_low :: u16
  base_mid :: u8
  access :: u8
  flags_limit_high :: u8
  base_high :: u8

definition gdt_null :: gdt_entry where
  "gdt_null = \<lparr>limit_low = 0, base_low = 0, base_mid = 0, access = 0, flags_limit_high = 0, base_high = 0\<rparr>"

definition gdt_entry_new :: "u8 \<Rightarrow> u8 \<Rightarrow> gdt_entry" where
  "gdt_entry_new acc flags =
     \<lparr>limit_low = 0xFFFF, base_low = 0, base_mid = 0, access = acc,
      flags_limit_high = push_bit 4 flags OR 0x0F, base_high = 0\<rparr>"

text \<open>\<^verbatim>\<open>transmute\<close> of the packed structure to a little-endian number.\<close>

definition gdt_bits :: "gdt_entry \<Rightarrow> u64" where
  "gdt_bits e =
     ucast (limit_low e) OR push_bit 16 (ucast (base_low e)) OR push_bit 32 (ucast (base_mid e)) OR
     push_bit 40 (ucast (access e)) OR push_bit 48 (ucast (flags_limit_high e)) OR push_bit 56 (ucast (base_high e))"

definition tss_low :: "u64 \<Rightarrow> u64 \<Rightarrow> u64" where
  "tss_low tss_ptr tss_size =
     (tss_size AND 0xFFFF) OR push_bit 16 (tss_ptr AND 0xFFFF) OR
     push_bit 32 (drop_bit 16 tss_ptr AND 0xFF) OR push_bit 40 0x89 OR
     push_bit 48 (drop_bit 16 tss_size AND 0xF) OR push_bit 56 (drop_bit 24 tss_ptr AND 0xFF)"

abbreviation KERNEL_CODE_SEL :: u16 where "KERNEL_CODE_SEL \<equiv> 0x08"
abbreviation KERNEL_DATA_SEL :: u16 where "KERNEL_DATA_SEL \<equiv> 0x10"
abbreviation USER_DATA_SEL :: u16 where "USER_DATA_SEL \<equiv> 0x18"
abbreviation USER_CODE_SEL :: u16 where "USER_CODE_SEL \<equiv> 0x20"
abbreviation TSS_SIZE :: u64 where "TSS_SIZE \<equiv> 104"

definition gdt_init :: "u64 \<Rightarrow> u64 list" where
  "gdt_init tss_ptr =
     [gdt_bits gdt_null, gdt_bits (gdt_entry_new 0x9A 0xA), gdt_bits (gdt_entry_new 0x92 0xC),
      gdt_bits (gdt_entry_new 0xF2 0xC), gdt_bits (gdt_entry_new 0xFA 0xA),
      tss_low tss_ptr (TSS_SIZE - 1), drop_bit 32 tss_ptr]"

text \<open>The task state segment: the stacks of ring 0 and of the double fault.\<close>

record tss =
  tss_rsp :: "u64 list"
  tss_ist :: "u64 list"
  iopb_offset :: u16

definition tss_new :: tss where
  "tss_new = \<lparr>tss_rsp = replicate 3 0, tss_ist = replicate 7 0, iopb_offset = 104\<rparr>"

definition tss_init :: "u64 \<Rightarrow> tss" where
  "tss_init stack_end =
     tss_new\<lparr>tss_ist := (tss_ist tss_new)[0 := stack_end], tss_rsp := (tss_rsp tss_new)[0 := stack_end]\<rparr>"

definition set_tss_stack :: "u64 \<Rightarrow> tss \<Rightarrow> tss" where
  "set_tss_stack stack_ptr t = t\<lparr>tss_rsp := (tss_rsp t)[0 := stack_ptr]\<rparr>"

section \<open>Interrupt gates\<close>

record idt_entry =
  offset_low :: u16
  selector :: u16
  ist :: u8
  type_attr :: u8
  offset_mid :: u16
  offset_high :: u32

definition idt_missing :: idt_entry where
  "idt_missing = \<lparr>offset_low = 0, selector = 0, ist = 0, type_attr = 0, offset_mid = 0, offset_high = 0\<rparr>"

definition set_gate :: "u8 \<Rightarrow> u64 \<Rightarrow> u8 \<Rightarrow> idt_entry" where
  "set_gate attr handler ist_index =
     \<lparr>offset_low = ucast handler, selector = KERNEL_CODE_SEL, ist = ist_index, type_attr = attr,
      offset_mid = ucast (drop_bit 16 handler), offset_high = ucast (drop_bit 32 handler)\<rparr>"

definition set_handler :: "u64 \<Rightarrow> u8 \<Rightarrow> idt_entry" where
  "set_handler = set_gate 0x8E"

definition set_handler_user :: "u64 \<Rightarrow> u8 \<Rightarrow> idt_entry" where
  "set_handler_user = set_gate 0xEE"

text \<open>The table over the addresses \<open>stub n\<close> of the entry stubs.\<close>

definition idt_init :: "(nat \<Rightarrow> u64) \<Rightarrow> idt_entry list" where
  "idt_init stub =
     (let exceptions = fold (\<lambda>n t. t[n := set_handler (stub n) (if n = 8 then 1 else 0)]) [0..<20]
                         (replicate 256 idt_missing)
      in exceptions[32 := set_handler (stub 32) 0, 33 := set_handler (stub 33) 0,
                    44 := set_handler (stub 44) 0, 0x80 := set_handler_user (stub 0x80) 0])"

text \<open>The address the processor jumps to.\<close>

definition gate_target :: "idt_entry \<Rightarrow> u64" where
  "gate_target e =
     ucast (offset_low e) OR push_bit 16 (ucast (offset_mid e)) OR push_bit 32 (ucast (offset_high e))"

definition gate_present :: "idt_entry \<Rightarrow> bool" where
  "gate_present e \<longleftrightarrow> type_attr e AND 0x80 \<noteq> 0"

definition gate_dpl :: "idt_entry \<Rightarrow> u8" where
  "gate_dpl e = drop_bit 5 (type_attr e) AND 3"

section \<open>The interrupt controller and the timer\<close>

type_synonym port_writes = "(u16 \<times> u8) list"

definition io_wait :: "u16 \<times> u8" where
  "io_wait = (0x80, 0)"

definition pic_init :: port_writes where
  "pic_init =
     [(0x20, 0x10 OR 0x01), io_wait, (0xA0, 0x10 OR 0x01), io_wait, (0x21, 32), io_wait, (0xA1, 40), io_wait,
      (0x21, 4), io_wait, (0xA1, 2), io_wait, (0x21, 0x01), io_wait, (0xA1, 0x01), io_wait,
      (0x21, 0xF8), (0xA1, 0xEF)]"

definition pic_disable :: port_writes where
  "pic_disable = [(0x21, 0xFF), (0xA1, 0xFF)]"

definition send_eoi :: "u8 \<Rightarrow> port_writes" where
  "send_eoi irq = (if irq \<ge> 8 then [(0xA0, 0x20)] else []) @ [(0x20, 0x20)]"

abbreviation PIT_BASE_FREQUENCY :: u32 where "PIT_BASE_FREQUENCY \<equiv> 1193182"

text \<open>A frequency of 0 is the panic of the division.\<close>

definition write_pit :: "u32 \<Rightarrow> port_writes option" where
  "write_pit freq_hz =
     (if freq_hz = 0 then None
      else let divisor = PIT_BASE_FREQUENCY div freq_hz
      in Some [(0x43, 0x36), (0x40, ucast (divisor AND 0xFF)), (0x40, ucast (drop_bit 8 divisor AND 0xFF))])"

text \<open>
  The PS/2 mouse: the commands to the controller, over the configuration byte it answers. The
  waits for the controller are bounded and give up without an effect on what is sent.
\<close>

definition init_mouse :: "u8 \<Rightarrow> port_writes" where
  "init_mouse config =
     [(0x64, 0xA8), (0x64, 0x20), (0x64, 0x60), (0x60, (config OR 0x02) AND NOT 0x20),
      (0x64, 0xD4), (0x60, 0xFF), (0x64, 0xD4), (0x60, 0xF6), (0x64, 0xD4), (0x60, 0xF4)]"

section \<open>The interrupt handler\<close>

text \<open>\<open>None\<close> is the panic of the mapping; otherwise whether the fault was resolved.\<close>

definition demand_page :: "u64 \<Rightarrow> 's kernel \<Rightarrow> (bool \<times> 's kernel) option" where
  "demand_page cr2 k =
     (case current k of
        None \<Rightarrow> Some (False, k)
      | Some p \<Rightarrow>
          if vma_find (p_vmas p) cr2 = None then Some (False, k)
          else (case m_alloc (k_mach k) of
                  None \<Rightarrow> Some (False, k)
                | Some (f, m1) \<Rightarrow>
                    (case map_page_in_table (p_pml4_phys p) (align_down cr2) f (WRITABLE OR USER) (zero_page f m1) of
                       None \<Rightarrow> None
                     | Some m2 \<Rightarrow> Some (True, k\<lparr>k_mach := m2\<rparr>))))"

definition page_fault :: "u64 \<Rightarrow> u64 \<Rightarrow> 's kernel \<Rightarrow> 's result" where
  "page_fault cr2 ptr k =
     (if c_error_code (k_ctxs k ptr) AND 0x4 \<noteq> 0 then
        (case demand_page cr2 k of
           None \<Rightarrow> Stuck
         | Some (True, k1) \<Rightarrow> Resume ptr k1
         | Some (False, k1) \<Rightarrow> resched ptr (exit_process (k_current k1) U64_MAX k1))
      else Stuck)"

text \<open>The port writes of an interrupt and its result. A halt loop is \<open>Stuck\<close>.\<close>

definition interrupt :: "'s env \<Rightarrow> u64 \<Rightarrow> u64 \<Rightarrow> 's kernel \<Rightarrow> port_writes \<times> 's result" where
  "interrupt E cr2 ptr k =
     (let n = c_int_num (k_ctxs k ptr)
      in if n = 0 \<or> n = 6 \<or> n = 8 \<or> n = 13 then ([], Stuck)
         else if n = 14 then ([], page_fault cr2 ptr k)
         else if n = 32 then (send_eoi 0, resched ptr k)
         else if n = 33 then
           (send_eoi 1, Resume ptr (snd (ipc_send 3 0x30 (ucast (env_port E 0x60)) 0 0 0 0 0 k)))
         else if n = 0x80 then ([], handle E ptr k)
         else if n = 44 then
           (send_eoi 12, Resume ptr (snd (ipc_send 4 0x40 (ucast (env_port E 0x60)) 0 0 0 0 0 k)))
         else (if n \<ge> 32 \<and> n < 48 then send_eoi (ucast (n - 32)) else [], Resume ptr k))"

end
