(* ===== verification/Faults.thy ===== *)
theory Faults
  imports Interrupts Loader_Image Exit_Wait
begin

text \<open>
  What the descriptor tables tell the processor, and page faults: demand paging adds one cleared
  page to one address space, and a fault outside the regions ends the process.
\<close>

section \<open>Gates and descriptors\<close>

lemma gate_target_set [simp]: "gate_target (set_gate attr handler i) = handler"
proof (rule bit_word_eqI)
  fix n assume "n < LENGTH(64)"
  then show "bit (gate_target (set_gate attr handler i)) n = bit handler n"
    by (cases "n < 16"; cases "n < 32") (auto simp: gate_target_def set_gate_def bit_simps)
qed

lemma set_gate_fields [simp]:
  "selector (set_gate attr h i) = KERNEL_CODE_SEL" "ist (set_gate attr h i) = i"
  "type_attr (set_gate attr h i) = attr"
  by (simp_all add: set_gate_def)

lemma gates_nth:
  "n < 256 \<Longrightarrow> m \<le> 256 \<Longrightarrow>
   fold (\<lambda>n t. t[n := g n]) [0..<m] (replicate 256 e) ! n = (if n < m then g n else e) \<and>
   length (fold (\<lambda>n t. t[n := g n]) [0..<m] (replicate 256 e)) = 256"
  by (induction m) (auto simp: less_Suc_eq nth_list_update)

lemma idt_init_nth:
  assumes "n < 256"
  shows "idt_init stub ! n =
    (if n = 0x80 then set_gate 0xEE (stub n) 0
     else if n < 20 \<or> n = 32 \<or> n = 33 \<or> n = 44 then set_gate 0x8E (stub n) (if n = 8 then 1 else 0)
     else idt_missing)"
  using gates_nth [OF assms, of 20 "\<lambda>n. set_gate 0x8E (stub n) (if n = 8 then 1 else 0)" idt_missing] assms
  by (auto simp: idt_init_def set_handler_def set_handler_user_def nth_list_update)

text \<open>The base address a task descriptor holds, as the processor puts it together.\<close>

definition tss_base :: "u64 \<Rightarrow> u64 \<Rightarrow> u64" where
  "tss_base lo hi =
     (drop_bit 16 lo AND 0xFFFF) OR push_bit 16 (drop_bit 32 lo AND 0xFF) OR
     push_bit 24 (drop_bit 56 lo) OR push_bit 32 hi"

text \<open>The privilege of a code or data descriptor.\<close>

definition descriptor_dpl :: "u64 \<Rightarrow> u64" where
  "descriptor_dpl d = drop_bit 45 d AND 3"

lemma mask_words: "(0xFFFF :: u64) = mask 16" "(0xFF :: u64) = mask 8"
  by (simp_all add: mask_eq_decr_exp)

lemma small_bits: "bit (103 :: u64) k \<Longrightarrow> k < 8" "bit (0x89 :: u64) k \<Longrightarrow> k < 8"
  using bit_take_bit_iff [of 8 "103 :: u64" k] bit_take_bit_iff [of 8 "0x89 :: u64" k] by simp_all

lemma tss_base_split:
  assumes "\<And>k. bit (a :: u64) k \<Longrightarrow> k < 8" "\<And>k. bit (b :: u64) k \<Longrightarrow> k < 8"
  shows "tss_base (a OR push_bit 16 (p AND mask 16) OR push_bit 32 (drop_bit 16 p AND mask 8) OR
    push_bit 40 b OR push_bit 56 (drop_bit 24 p AND mask 8)) (drop_bit 32 p) = p"
proof (rule bit_word_eqI)
  fix n assume n: "n < LENGTH(64)"
  then show "bit (tss_base (a OR push_bit 16 (p AND mask 16) OR push_bit 32 (drop_bit 16 p AND mask 8) OR
    push_bit 40 b OR push_bit 56 (drop_bit 24 p AND mask 8)) (drop_bit 32 p)) n = bit p n"
    unfolding tss_base_def mask_words
    by (cases "n < 16"; cases "n < 24"; cases "n < 32") (auto simp: bit_simps dest: assms)
qed

lemma tss_base_init: "tss_base (gdt_init p ! 5) (gdt_init p ! 6) = p"
proof -
  have lo: "gdt_init p ! 5 = 103 OR push_bit 16 (p AND mask 16) OR push_bit 32 (drop_bit 16 p AND mask 8) OR
    push_bit 40 0x89 OR push_bit 56 (drop_bit 24 p AND mask 8)"
    by (simp add: gdt_init_def tss_low_def mask_words [symmetric])
  have hi: "gdt_init p ! 6 = drop_bit 32 p" by (simp add: gdt_init_def)
  show ?thesis unfolding lo hi by (rule tss_base_split) (erule small_bits)+
qed



section \<open>Demand paging\<close>

lemma low_align_down: "low v \<Longrightarrow> low (align_down v)"
  by (simp add: low_def unat_align_down)

lemma same_page_down:
  assumes "low v" "low w"
  shows "same_path 4 (align_down v) w \<longleftrightarrow> unat w div PAGE_SIZE = unat v div PAGE_SIZE"
  unfolding same_path_low [OF low_align_down [OF assms(1)] assms(2)]
  by (auto simp: unat_align_down minus_mod_eq_mult_div)

lemma demand_page_step:
  assumes cur: "current k = Some p" and vma: "vma_find (p_vmas p) cr2 \<noteq> None"
    and pr: "private_space R (p_pml4_phys p) (k_mach k)" and low: "low cr2"
    and card: "4 \<le> card (m_avail (k_mach k))"
  shows "\<exists>m'. demand_page cr2 k = Some (True, k\<lparr>k_mach := m'\<rparr>) \<and> private_space R (p_pml4_phys p) m' \<and>
    (\<forall>w. low w \<longrightarrow> umem (p_pml4_phys p) m' w =
       (if unat w div PAGE_SIZE = unat cr2 div PAGE_SIZE then Some 0 else umem (p_pml4_phys p) (k_mach k) w)) \<and>
    (\<forall>q w. q \<in> R \<longrightarrow> q \<noteq> p_pml4_phys p \<longrightarrow> low w \<longrightarrow> page_of q m' w = page_of q (k_mach k) w)"
proof -
  let ?p = "p_pml4_phys p" and ?m = "k_mach k" and ?v = "align_down cr2"
  have v: "user_addr ?v" by (rule low_user [OF low_align_down [OF low]])
  have "m_avail ?m \<noteq> {}" using card by auto
  then obtain f m1 where a: "m_alloc ?m = Some (f, m1)" using fp.acq_None [of ?m] by (cases "m_alloc ?m") auto
  note al = alloc_private [OF pr a] and fo = privateD(1) [OF pr]
  note ze = zero_unused [OF al(1,2,4)]
  have c1: "card (m_avail (zero_page f m1)) \<ge> 3"
    using fp.acq_Some [OF a] card_Suc_Diff1 [OF fp.avail_finite [of ?m], of f] card
    by (simp add: zero_page_def m_avail_def)
  then obtain m2 where mp: "map_page_in_table ?p ?v f (WRITABLE OR USER) (zero_page f m1) = Some m2"
    using map_page_progress [of "zero_page f m1" ?p ?v f "WRITABLE OR USER"] by fastforce
  have un: "\<forall>w. user_addr w \<longrightarrow> page_of ?p (zero_page f m1) w \<noteq> Some f" using ze(3) al(4) by simp
  note mf = map_fresh [OF ze(1) v ze(2) al(3) un mp]
  have "demand_page cr2 k = Some (True, k\<lparr>k_mach := m2\<rparr>)"
    using cur vma a mp by (simp add: demand_page_def)
  moreover have "umem ?p m2 w = (if unat w div PAGE_SIZE = unat cr2 div PAGE_SIZE then Some 0 else umem ?p ?m w)"
    if w: "low w" for w
    using mf(3) [OF low_user [OF w]] ze(4) [OF low_user [OF w]] al(5) same_page_down [OF low w]
      read8_zero_page [OF plainD(1) [OF al(2)] offset_lt] by simp
  moreover have "page_of q m2 w = page_of q ?m w" if "q \<in> R" "q \<noteq> ?p" "low w" for q w
  proof -
    note u = low_user [OF that(3)]
    have "get_mapped_frame q w (zero_page f m1) = get_mapped_frame q w ?m"
      using ze(5) [OF that(1) u] al(6) by simp
    with mf(4) [OF that(1) u that(2)] page_of_mapped [OF fo privateD(1) [OF ze(1)] that(1) u] show ?thesis by simp
  qed
  ultimately show ?thesis using mf(1) by blast
qed

text \<open>
  C4: demand paging. A fault of user code inside one of its regions, in a private address space
  and with four free frames (the page and up to three tables), resumes the instruction with one
  more page that reads as zeros; every other byte of the process is unchanged, every other
  address space has the same pages, and nothing but the memory of the kernel's state changes.
\<close>

theorem demand_paging:
  assumes "current k = Some p" "vma_find (p_vmas p) cr2 \<noteq> None"
    and "c_error_code (k_ctxs k ptr) AND 0x4 \<noteq> 0"
    and "private_space R (p_pml4_phys p) (k_mach k)" "low cr2" "4 \<le> card (m_avail (k_mach k))"
  shows "\<exists>m'. page_fault cr2 ptr k = Resume ptr (k\<lparr>k_mach := m'\<rparr>) \<and> private_space R (p_pml4_phys p) m' \<and>
    (\<forall>w. low w \<longrightarrow> umem (p_pml4_phys p) m' w =
       (if unat w div PAGE_SIZE = unat cr2 div PAGE_SIZE then Some 0 else umem (p_pml4_phys p) (k_mach k) w)) \<and>
    (\<forall>q w. q \<in> R \<longrightarrow> q \<noteq> p_pml4_phys p \<longrightarrow> low w \<longrightarrow> page_of q m' w = page_of q (k_mach k) w)"
  using demand_page_step [OF assms(1,2,4-6)] assms(3) by (fastforce simp: page_fault_def)

section \<open>Faults that end the process\<close>

text \<open>
  C14: a fault of user code outside its regions, or without a free frame, ends the process with
  the code \<^verbatim>\<open>u64::MAX\<close> and turns to another one: the kernel's invariant holds, the process has
  no regions and does not run again, and the processor never returns to it.
\<close>

theorem segfault_ends_process:
  assumes "kernel_inv k" "current k = Some p" "k_current k \<noteq> 0"
    and "vma_find (p_vmas p) cr2 = None \<or> m_alloc (k_mach k) = None"
    and "c_error_code (k_ctxs k ptr) AND 0x4 \<noteq> 0"
  shows "\<exists>ptr' k' q. page_fault cr2 ptr k = Resume ptr' k' \<and> kernel_inv k' \<and> k_current k' \<noteq> k_current k \<and>
    get_process (k_procs k') (k_current k) = Some q \<and> p_state q \<in> {Dead, Empty} \<and>
    p_exit_code q = Some U64_MAX \<and> p_vmas q = []"
proof -
  let ?pid = "k_current k"
  define k1 where "k1 = exit_process ?pid U64_MAX k"
  obtain ptr' k' where s: "schedule ptr k1 = (ptr', k')" by fastforce
  have d: "demand_page cr2 k = Some (False, k)" using assms(2,4) by (auto simp: demand_page_def)
  have pf: "page_fault cr2 ptr k = Resume ptr' k'"
    using assms(5) by (simp add: page_fault_def d k1_def [symmetric] resched_def s)
  have inv1: "kernel_inv k1" unfolding k1_def by (rule exit_process_inv [OF assms(1)])
  then have ok1: "kernel_ok k1" by (simp add: kernel_inv_def)
  have inv: "kernel_inv k'" using schedule_inv [OF inv1, of ptr] by (simp add: s)
  have g: "get_process (k_procs k) ?pid = Some p" using assms(2) by (simp add: current_def)
  obtain q where q: "get_process (k_procs k1) ?pid = Some q" "p_state q \<in> {Dead, Empty}"
      "p_exit_code q = Some U64_MAX" "p_vmas q = []"
    using exit_process_lookup [OF assms(1) g, of U64_MAX ?pid] g by (auto simp: k1_def Let_def)
  obtain x where x: "get_process (k_procs k') ?pid = Some (q\<lparr>p_rsp := x\<rparr>)"
    using schedule_keeps_sleeping [OF ok1 q(1) _ _ s] q(2) by auto
  have "k_current k' \<noteq> ?pid"
    using conjunct2 [OF schedule_current [OF ok1 s]] x q(2) assms(3) by (auto split: if_splits)
  with pf inv x q show ?thesis by auto
qed

section \<open>Concrete faults\<close>

definition fault_context :: interrupt_context where
  "fault_context = zero_context\<lparr>c_error_code := 4\<rparr>"

text \<open>A kernel on a given machine whose process 1 runs, with one region.\<close>

definition lone :: "u64 \<Rightarrow> machine \<Rightarrow> unit kernel" where
  "lone pml4 m = demo_kernel\<lparr>k_mach := m, k_ctxs := (\<lambda>_. fault_context),
     k_procs := Some ((demo_process 1 Running)\<lparr>p_pml4_phys := pml4,
       p_vmas := [anonymous_vma 0x400000 0x410000]\<rparr>) # replicate 63 None\<rparr>"

lemma lone_current:
  "current (lone pml4 m) = Some ((demo_process 1 Running)\<lparr>p_pml4_phys := pml4,
     p_vmas := [anonymous_vma 0x400000 0x410000]\<rparr>)"
proof -
  have nth: "i < MAX_PROCESSES \<Longrightarrow> k_procs (lone pml4 m) ! i =
      (if i = 0 then Some ((demo_process 1 Running)\<lparr>p_pml4_phys := pml4,
         p_vmas := [anonymous_vma 0x400000 0x410000]\<rparr>) else None)" for i
    by (auto simp: lone_def nth_Cons split: nat.split)
  have "length (k_procs (lone pml4 m)) = MAX_PROCESSES" by (simp add: lone_def)
  then have t: "table_ok (k_procs (lone pml4 m)) 3" by (auto simp: table_ok_def nth split: if_splits)
  have "k_current (lone pml4 m) = 1" by (simp add: lone_def demo_kernel_def)
  then show ?thesis unfolding current_def get_process_Some [OF t] using nth [of 0] by (intro exI [of _ 0]) simp
qed

lemma demand_paging_witness:
  "\<exists>(k :: unit kernel) p k'. current k = Some p \<and> umem (p_pml4_phys p) (k_mach k) 0x400010 = None \<and>
     page_fault 0x400010 0x7000 k = Resume 0x7000 k' \<and>
     umem (p_pml4_phys p) (k_mach k') 0x400010 = Some 0 \<and> umem (p_pml4_phys p) (k_mach k') 0x401000 = None"
proof -
  have "m_avail roomy_machine \<noteq> {}" using card_roomy_machine by auto
  then obtain pml4 m where c: "create_user_page_table roomy_machine = Some (pml4, m)"
    using fp.acq_None [of roomy_machine]
    by (cases "m_alloc roomy_machine") (auto simp: create_user_page_table_def)
  have fo: "user_forest {} roomy_machine" by (simp only: user_forest_def ball_empty)
  note new = new_space_holds [OF fo c]
  have pr: "private_space {pml4} pml4 m" and um: "\<And>w. low w \<Longrightarrow> umem pml4 m w = None"
    using new(1) by (simp_all add: holds_def)
  let ?k = "lone pml4 m" and ?p = "(demo_process 1 Running)\<lparr>p_pml4_phys := pml4,
    p_vmas := [anonymous_vma 0x400000 0x410000]\<rparr>"
  have "vma_find (p_vmas ?p) 0x400010 \<noteq> None"
    by (simp add: vma_find_def vma_contains_def anonymous_vma_def)
  moreover have "c_error_code (k_ctxs ?k 0x7000) AND 0x4 \<noteq> 0" by (simp add: lone_def fault_context_def)
  moreover have k: "k_mach ?k = m" by (simp add: lone_def)
  moreover have "low 0x400010" and l: "low 0x401000" by (simp_all add: low_def)
  moreover have "4 \<le> card (m_avail m)" using new(2) card_roomy_machine by simp
  ultimately obtain m' where m': "page_fault 0x400010 0x7000 ?k = Resume 0x7000 (?k\<lparr>k_mach := m'\<rparr>)"
    "\<forall>w. low w \<longrightarrow> umem pml4 m' w =
       (if unat w div PAGE_SIZE = unat (0x400010 :: u64) div PAGE_SIZE then Some 0 else umem pml4 m w)"
    using demand_paging [OF lone_current [of pml4 m], of "0x400010" "0x7000" "{pml4}"] pr by auto
  have "low 0x400010" by (simp add: low_def)
  with m' um l lone_current [of pml4 m] k show ?thesis
    by (intro exI [of _ ?k] exI [of _ ?p] exI [of _ "?k\<lparr>k_mach := m'\<rparr>"]) simp
qed

lemma segfault_ends_process_witness:
  "\<exists>ptr' k' q. page_fault 0xDEAD000 0x7000 ((family Ready None)\<lparr>k_ctxs := (\<lambda>_. fault_context)\<rparr>) = Resume ptr' k' \<and>
     k_current k' \<noteq> 2 \<and> get_process (k_procs k') 2 = Some q \<and> p_exit_code q = Some U64_MAX"
proof -
  let ?k = "(family Ready None)\<lparr>k_ctxs := (\<lambda>_. fault_context)\<rparr>"
  have inv: "kernel_inv ?k" using family_inv [of Ready None] by simp
  have cur: "k_current ?k = 2" by (simp add: family_def)
  then have p: "current ?k = Some (demo_process 2 Running)" using family_get(2) by (simp add: current_def)
  have "vma_find (p_vmas (demo_process 2 Running)) 0xDEAD000 = None"
    by (simp add: demo_process_def process_empty_def vma_find_def)
  then show ?thesis
    using segfault_ends_process [OF inv p, of "0xDEAD000" "0x7000"] cur by (auto simp: fault_context_def)
qed

end
