(* ===== verification/User_Access.thy ===== *)
theory User_Access
  imports Loader_Image Exit_Wait
begin

text \<open>
  How the kernel reaches the memory of a process: \<^verbatim>\<open>write_user_bytes\<close> and \<^verbatim>\<open>read_user_bytes\<close> agree
  with each other and not with the process, since they add the offset in the page to an address
  that contains it; and the regions that \<^verbatim>\<open>mmap\<close> hands out.
\<close>

section \<open>Bytes at twice the offset\<close>

lemma offset_twice:
  assumes "page_aligned g" "2 * (unat v mod 4096) < 4096"
  shows "unat ((v AND 0xFFF) + (v AND 0xFFF) :: u64) = 2 * (unat v mod 4096)"
    "drop_bit 9 (cell (g + (v AND 0xFFF) + (v AND 0xFFF))) = drop_bit 12 g"
proof -
  show o: "unat ((v AND 0xFFF) + (v AND 0xFFF)) = 2 * (unat v mod 4096)"
    using assms(2) by (simp add: unat_word_ariths unat_and_mask12)
  show "drop_bit 9 (cell (g + (v AND 0xFFF) + (v AND 0xFFF))) = drop_bit 12 g"
    using cell_in_page [OF assms(1), of "(v AND 0xFFF) + (v AND 0xFFF)"] o assms(2) by (simp add: add.assoc)
qed

text \<open>What user code finds at \<open>w\<close> after the kernel wrote \<open>bs\<close> for it to \<open>v\<close>.\<close>

definition strided :: "u64 \<Rightarrow> bytes \<Rightarrow> (u64 \<Rightarrow> u8 option) \<Rightarrow> u64 \<Rightarrow> u8 option" where
  "strided v bs before w =
     (let d = unat w mod 4096; s = unat v mod 4096
      in if unat w div 4096 = unat v div 4096 \<and> even d \<and> 2 * s \<le> d \<and> d < 2 * (s + length bs)
         then Some (bs ! (d div 2 - s)) else before w)"

lemma write_one_byte:
  assumes pr: "private_space R p m" and v: "low v" "page_of p m v = Some g" "2 * (unat v mod 4096) < 4096"
    and m': "m' = write_user_bytes p v [b] m"
  shows "private_space R p m'" "\<And>w. low w \<Longrightarrow> page_of p m' w = page_of p m w"
    "\<And>w. low w \<Longrightarrow> umem p m' w = strided v [b] (umem p m) w"
proof -
  note fo = privateD(1,2) [OF pr] and u = low_user [OF v(1)]
  have ga: "page_aligned g" by (rule page_of_aligned [OF v(2)])
  note off = offset_twice [OF ga v(3)]
  let ?a = "g + (v AND 0xFFF) + (v AND 0xFFF)"
  have m': "m' = write8 ?a b m" using mapped_page [OF fo u] v(2) by (simp add: m')
  have out: "\<forall>c. drop_bit 9 c \<noteq> drop_bit 12 g \<longrightarrow> mem m' c = mem m c"
    using off(2) by (auto simp: m' mem_write8)
  have av: "m_avail m' = m_avail m" by (simp add: m' write8_def m_avail_def)
  note ch = change_page [OF pr u v(2) out av]
  show "private_space R p m'" by (rule ch(1))
  show "page_of p m' w = page_of p m w" if "low w" for w by (rule ch(2) [OF low_user [OF that]])
  fix w assume w: "low w"
  have iff: "g + (w AND 0xFFF) = ?a \<longleftrightarrow> unat w mod 4096 = 2 * (unat v mod 4096)"
    using off(1) by (simp add: add.assoc word_unat_eq_iff [of "w AND 0xFFF"] unat_and_mask12)
  have r: "read8 m' (g + (w AND 0xFFF)) =
      (if unat w mod 4096 = 2 * (unat v mod 4096) then b else read8 m (g + (w AND 0xFFF)))"
    by (simp only: m' read8_write8 iff)
  have um: "umem p m w = Some (read8 m (g + (w AND 0xFFF)))" if "same_path 4 v w"
    using umem_page [OF fo low_user [OF w]] v(2) page_of_same_path [OF that] by simp
  show "umem p m' w = strided v [b] (umem p m) w"
    using ch(3) [OF low_user [OF w]] um r same_path_low [OF v(1) w]
    by (auto simp: strided_def Let_def)
qed

lemma strided_Cons:
  assumes "unat v mod 4096 + 1 < 4096" "unat (v + 1) = unat v + 1"
  shows "strided (v + 1) bs (strided v [b] before) w = strided v (b # bs) before w"
proof -
  have v1: "unat (v + 1) mod 4096 = Suc (unat v mod 4096)" "unat (v + 1) div 4096 = unat v div 4096"
    using assms by (simp_all add: mod_Suc div_Suc)
  show ?thesis
  proof (cases "unat w div 4096 = unat v div 4096 \<and> even (unat w mod 4096)")
    case True
    then obtain e where e: "unat w mod 4096 = 2 * e" by (auto elim: evenE)
    have "strided u xs f w = (if unat u mod 4096 \<le> e \<and> e < unat u mod 4096 + length xs
        then Some (xs ! (e - unat u mod 4096)) else f w)" if "unat u div 4096 = unat v div 4096" for u xs f
      using True that by (simp add: strided_def Let_def e)
    moreover have "x - y = Suc n \<Longrightarrow> x - Suc y = n" for x y n :: nat by simp
    ultimately show ?thesis
      using v1 by (cases "e - unat v mod 4096") auto
  next
    case False
    then have "strided u xs f w = f w" if "unat u div 4096 = unat v div 4096" for u xs f
      using that by (auto simp: strided_def Let_def)
    with v1(2) show ?thesis by simp
  qed
qed

lemma write_user_strided:
  assumes "private_space R p m" "low v" "page_of p m v = Some g" "2 * (unat v mod 4096 + length bs) \<le> 4096"
  shows "private_space R p (write_user_bytes p v bs m) \<and>
    (\<forall>w. low w \<longrightarrow> page_of p (write_user_bytes p v bs m) w = page_of p m w \<and>
       umem p (write_user_bytes p v bs m) w = strided v bs (umem p m) w)"
  using assms
proof (induction bs arbitrary: v m)
  case (Cons b bs)
  define m1 where "m1 = write_user_bytes p v [b] m"
  have s: "2 * (unat v mod 4096) < 4096" using Cons.prems(4) by simp
  note one = write_one_byte [OF Cons.prems(1-3) s m1_def]
  have step: "write_user_bytes p v (b # bs) m = write_user_bytes p (v + 1) bs m1" by (simp add: m1_def)
  have lt: "unat v mod 4096 + 1 < 4096" using Cons.prems(4) by simp
  have v1: "unat (v + 1) = unat v + 1" using Cons.prems(2) by (simp add: low_def unat_word_ariths)
  have pg: "unat (v + 1) mod 4096 = unat v mod 4096 + 1" "unat (v + 1) div 4096 = unat v div 4096"
    using lt v1 by (simp_all add: mod_Suc div_Suc)
  have l1: "low (v + 1)"
  proof -
    have "unat v < 2 ^ 47" using Cons.prems(2) by (simp add: low_def)
    moreover have "unat (v + 1) mod 4096 \<noteq> 0" using pg by simp
    then have "unat (v + 1) \<noteq> 2 ^ 47" by auto
    ultimately show ?thesis using v1 by (simp add: low_def)
  qed
  have "page_of p m1 (v + 1) = Some g"
    using one(2) [OF l1] page_of_same_path [of v "v + 1" p m] same_path_low [OF Cons.prems(2) l1] pg Cons.prems(3)
    by simp
  from Cons.IH [OF one(1) l1 this] pg Cons.prems(4)
  show ?case
    unfolding step using one(2,3) strided_Cons [OF lt v1] by (auto simp: strided_def Let_def)
qed (auto simp: strided_def Let_def)

text \<open>The address of the byte that stands for \<open>v + i\<close>.\<close>

lemma twice_addr:
  assumes "low v" "2 * (unat v mod 4096 + i) < 4096"
  defines "w \<equiv> align_down v + of_nat (2 * (unat v mod 4096 + i))"
  shows "low w" "unat w mod 4096 = 2 * (unat v mod 4096 + i)" "unat w div 4096 = unat v div 4096"
proof -
  define x where "x = 2 * (unat v mod 4096 + i)"
  have x: "x < 4096" using assms(2) by (simp add: x_def)
  have wx: "w = align_down v + of_nat x" by (simp only: w_def x_def)
  from x have "unat (of_nat x :: u64) = x" by (simp add: unat_of_nat)
  moreover have "unat v < 2 ^ 47" using assms(1) by (simp add: low_def)
  moreover have a: "unat (align_down v) = 4096 * (unat v div 4096)"
    by (simp add: unat_align_down minus_mod_eq_mult_div)
  ultimately have w: "unat w = 4096 * (unat v div 4096) + x" using x
    unfolding wx by (simp add: unat_word_ariths)
  then show "unat w mod 4096 = 2 * (unat v mod 4096 + i)" "unat w div 4096 = unat v div 4096"
    using x by (simp_all add: x_def)
  have "unat v div 4096 < 2 ^ 35" using \<open>unat v < 2 ^ 47\<close> by (simp add: less_mult_imp_div_less)
  with w x show "low w" by (simp add: low_def)
qed

lemma read_user_byte:
  assumes pr: "private_space R p m" and v: "low v" "page_of p m v = Some g" and i: "2 * (unat v mod 4096 + i) < 4096"
  shows "(case get_mapped_frame p (v + of_nat i) m of None \<Rightarrow> 0
          | Some phys \<Rightarrow> read8 m (phys + ((v + of_nat i) AND 0xFFF))) =
         the (umem p m (align_down v + of_nat (2 * (unat v mod 4096 + i))))"
proof -
  note fo = privateD(1,2) [OF pr] and tw = twice_addr [OF v(1) i]
  let ?w = "align_down v + of_nat (2 * (unat v mod 4096 + i))" and ?x = "v + of_nat i"
  have vi: "unat ?x = unat v + i"
    using v(1) i by (simp add: low_def unat_word_ariths unat_of_nat)
  have eq: "unat ?x = (unat v mod 4096 + i) + unat v div 4096 * 4096" unfolding vi by simp
  have x: "unat ?x mod 4096 = unat v mod 4096 + i" "unat ?x div 4096 = unat v div 4096"
    using i unfolding eq by (simp_all only: mod_mult_self1 div_mult_self1) simp_all
  have lx: "low ?x"
  proof -
    have "unat v div 4096 < 2 ^ 35" using v(1) by (simp add: low_def less_mult_imp_div_less)
    moreover have "unat ?x = 4096 * (unat ?x div 4096) + unat ?x mod 4096" by simp
    ultimately show ?thesis using x i by (simp add: low_def)
  qed
  have pg: "page_of p m ?x = Some g" "page_of p m ?w = Some g"
    using page_of_same_path [of v ?x p m] page_of_same_path [of v ?w p m]
      same_path_low [OF v(1) lx] same_path_low [OF v(1) tw(1)] x tw(3) v(2) by simp_all
  have "?w AND 0xFFF = (?x AND 0xFFF) + (?x AND 0xFFF)"
    unfolding word_unat_eq_iff [of "?w AND 0xFFF"] unat_and_mask12 tw(2)
    using i x(1) by (simp only: unat_word_ariths unat_and_mask12) simp
  then show ?thesis
    using mapped_page [OF fo low_user [OF lx]] umem_page [OF fo low_user [OF tw(1)]] pg
    by (simp add: add.assoc)
qed

text \<open>
  C13: bytes for user code. In a private space, and as far as twice the offset stays in the page,
  the kernel reads back the bytes it wrote for a process. The process finds them elsewhere: the
  \<open>i\<close>-th byte for offset \<open>o\<close> of a page is at offset \<open>2 * (o + i)\<close>, and no other byte changes. So of a
  message or a text of more than one byte only the first byte of a page-aligned buffer arrives
  where the process looks for it.
\<close>

theorem user_bytes_stride:
  assumes "private_space R p m" "low v" "page_of p m v = Some g" "2 * (unat v mod 4096 + length bs) \<le> 4096"
  shows "read_user_bytes p v (length bs) (write_user_bytes p v bs m) = bs \<and>
    private_space R p (write_user_bytes p v bs m) \<and>
    (\<forall>w. low w \<longrightarrow> umem p (write_user_bytes p v bs m) w =
       (let d = unat w mod 4096; s = unat v mod 4096
        in if unat w div 4096 = unat v div 4096 \<and> even d \<and> 2 * s \<le> d \<and> d < 2 * (s + length bs)
           then Some (bs ! (d div 2 - s)) else umem p m w))"
proof -
  let ?m = "write_user_bytes p v bs m"
  note st = write_user_strided [OF assms]
  have pg: "page_of p ?m v = Some g" using st assms(2,3) by simp
  have "read_user_bytes p v (length bs) ?m ! i = bs ! i" if i: "i < length bs" for i
  proof -
    have i2: "2 * (unat v mod 4096 + i) < 4096" using i assms(4) by simp
    define w where "w = align_down v + of_nat (2 * (unat v mod 4096 + i))"
    note tw = twice_addr [OF assms(2) i2, folded w_def]
    have "read_user_bytes p v (length bs) ?m ! i = the (umem p ?m w)"
      using read_user_byte [OF conjunct1 [OF st] assms(2) pg i2, folded w_def] i
      by (simp add: read_user_bytes_def Let_def cong: option.case_cong)
    also have "umem p ?m w = strided v bs (umem p m) w" using st tw(1) by blast
    finally show ?thesis using tw(2,3) i by (simp add: strided_def)
  qed
  then have "read_user_bytes p v (length bs) ?m = bs"
    by (intro nth_equalityI) (simp_all add: read_user_bytes_def)
  then show ?thesis using st by (simp add: strided_def)
qed

lemma user_bytes_stride_witness:
  "\<exists>p m. umem p m 0x400000 = Some 0 \<and> umem p m 0x400001 = Some 0 \<and>
     umem p (write_user_bytes p 0x400000 [7, 8, 9] m) 0x400001 = Some 0 \<and>
     umem p (write_user_bytes p 0x400000 [7, 8, 9] m) 0x400002 = Some 8 \<and>
     read_user_bytes p 0x400000 3 (write_user_bytes p 0x400000 [7, 8, 9] m) = [7, 8, 9]"
proof -
  have "m_avail roomy_machine \<noteq> {}" using card_roomy_machine by auto
  then obtain p m0 where c: "create_user_page_table roomy_machine = Some (p, m0)"
    using fp.acq_None [of roomy_machine]
    by (cases "m_alloc roomy_machine") (auto simp: create_user_page_table_def)
  have fo: "user_forest {} roomy_machine" by (simp only: user_forest_def ball_empty)
  note new = new_space_holds [OF fo c]
  have low: "low 0x400000" "low 0x400001" "low 0x400002" by (simp_all add: low_def)
  have pr: "private_space {p} p m0" and um: "umem p m0 0x400000 = None"
    using new(1) low by (simp_all add: holds_def)
  obtain g m where s: "page_frame p 0x400000 m0 = Some (Some g, m)"
    using page_frame_progress [of m0 p "0x400000"] new(2) card_roomy_machine by auto
  have "page_aligned 0x400000" by (simp add: page_aligned_def)
  note ps = page_frame_step [OF pr low_user [OF low(1)] this s]
  have z: "umem p m w = Some 0" if "low w" "unat w div 4096 = 0x400" for w
    using ps(3) [OF low_user [OF that(1)]] um same_path_low [OF low(1) that(1)] that(2) by simp
  have len: "2 * (unat (0x400000 :: u64) mod 4096 + length [7, 8, 9 :: u8]) \<le> 4096" by simp
  from user_bytes_stride [OF ps(1) low(1) ps(2) len] low z [OF low(1)] z [OF low(2)]
  show ?thesis by (intro exI [of _ p] exI [of _ m]) (auto simp: numeral_3_eq_3 Let_def)
qed

section \<open>Anonymous regions\<close>

lemma align_up_idem:
  assumes "unat sz \<le> 2 ^ 61"
  shows "unat (align_up sz) \<le> 2 ^ 61" "align_up (align_up sz) = align_up sz"
proof -
  have a: "unat (align_up sz) = (unat sz + 4095) div 4096 * 4096"
    using assms by (simp add: unat_align_up minus_mod_eq_div_mult)
  have "(unat sz + 4095) div 4096 \<le> (2 ^ 61 + 4095) div 4096" using assms by (intro div_le_mono) simp
  then show b: "unat (align_up sz) \<le> 2 ^ 61" unfolding a by simp
  show "align_up (align_up sz) = align_up sz" by simp
qed

text \<open>
  C27: \<^verbatim>\<open>mmap\<close>. For a process whose regions are disjoint and below \<open>2 ^ 63\<close>, and a size and a hint up to
  \<open>2 ^ 61\<close>, the call returns: either with \<^verbatim>\<open>u64::MAX\<close>, and then no gap at or above the hint (or above
  the default address) holds the rounded size; or with the page-aligned address of a new last
  region of exactly that size, in user space, disjoint from the others. No memory changes and
  no other process.
\<close>

theorem mmap_region:
  assumes "kernel_inv k" "current k = Some p" "vma_ends_ok (p_vmas p)" "vmas_disjoint (p_vmas p)"
    and "unat (c_rsi (k_ctxs k ptr)) \<le> 2 ^ 61" "unat (c_rdi (k_ctxs k ptr)) \<le> 2 ^ 61"
    and "hint = (if c_rdi (k_ctxs k ptr) \<noteq> 0 then c_rdi (k_ctxs k ptr) else 0x20000000)"
    and "sz = align_up (c_rsi (k_ctxs k ptr))"
  shows "\<exists>k' r. sys_mmap ptr k = Resume ptr k' \<and> c_rax (k_ctxs k' ptr) = r \<and> k_mach k' = k_mach k \<and>
    (\<forall>pid. pid \<noteq> k_current k \<longrightarrow> get_process (k_procs k') pid = get_process (k_procs k) pid) \<and>
    (if r = U64_MAX then k_procs k' = k_procs k \<and> (\<forall>c\<ge>unat (align_up hint). \<not> fits (p_vmas p) (unat sz) c)
     else page_aligned r \<and> unat hint \<le> unat r \<and> fits (p_vmas p) (unat sz) (unat r) \<and>
       current k' = Some (p\<lparr>p_vmas := p_vmas p @ [anonymous_vma r (r + sz)]\<rparr>) \<and>
       vmas_disjoint (p_vmas p @ [anonymous_vma r (r + sz)]) \<and> vma_ends_ok (p_vmas p @ [anonymous_vma r (r + sz)]))"
proof -
  have sz: "unat sz \<le> 2 ^ 61" "align_up sz = sz" using align_up_idem [OF assms(5)] by (simp_all add: assms(8))
  have h: "unat hint \<le> 2 ^ 61" using assms(6) by (simp add: assms(7))
  have hu: "unat hint \<le> unat (align_up hint)" using h by (simp add: unat_align_up)
  obtain r where r: "find_free_region (p_vmas p) hint sz = Some r" "first_fit (p_vmas p) (unat sz) (unat (align_up hint)) r"
    using first_fit_found [OF assms(3) sz(1) h] by (auto simp: sz(2))
  show ?thesis
  proof (cases r)
    case None
    then show ?thesis
      using r assms(2) by (simp add: sys_mmap_def Let_def assms(7,8) ret_def set_ctx_def first_fit_def)
  next
    case (Some a)
    let ?k = "update_current (add_region a sz) k" and ?v = "anonymous_vma a (a + sz)"
    have ff: "page_aligned a" "fits (p_vmas p) (unat sz) (unat a)" "unat (align_up hint) \<le> unat a"
      using r(2) Some by (auto simp: first_fit_def)
    have d: "vmas_disjoint (vma_add ?v (p_vmas p)) \<and> vma_ends_ok (vma_add ?v (p_vmas p))"
      using r(1) Some by (intro mapped_region_disjoint [OF assms(3,4) sz(1) h]) (simp_all add: anonymous_vma_def sz(2))
    have pid: "p_pid (add_region a sz q) = p_pid q" for q by (simp add: add_region_def)
    note up = get_process_update [OF inv_table [OF assms(1)] pid, of "k_current k"]
    have cur: "get_process (k_procs k) (k_current k) = Some p" using assms(2) by (simp add: current_def)
    have "a \<noteq> U64_MAX"
      using ff(2) by (auto simp: fits_def unsigned_minus_1_eq_mask mask_eq_exp_minus_1)
    moreover have "add_region a sz p = p\<lparr>p_vmas := p_vmas p @ [?v]\<rparr>" by (simp add: add_region_def vma_add_def)
    moreover have "vmas_disjoint (p_vmas p @ [?v]) \<and> vma_ends_ok (p_vmas p @ [?v])" using d by (simp add: vma_add_def)
    ultimately show ?thesis
      using r(1) assms(2) Some ff hu cur
      by (simp add: sys_mmap_def Let_def assms(7,8) [symmetric] ret_def set_ctx_def update_current_def current_def up)
  qed
qed

lemma mmap_region_witness:
  "\<exists>k' r. sys_mmap 0x7000 ((family Ready None)\<lparr>k_ctxs := (\<lambda>_. zero_context\<lparr>c_rsi := 0x2001\<rparr>)\<rparr>) = Resume 0x7000 k' \<and>
     current k' = Some ((demo_process 2 Running)\<lparr>p_vmas := [anonymous_vma r (r + 0x3000)]\<rparr>) \<and> page_aligned r"
proof -
  let ?k = "(family Ready None)\<lparr>k_ctxs := (\<lambda>_. zero_context\<lparr>c_rsi := 0x2001\<rparr>)\<rparr>"
  have inv: "kernel_inv ?k" using family_inv [of Ready None] by simp
  have "k_current ?k = 2" by (simp add: family_def)
  then have p: "current ?k = Some (demo_process 2 Running)" using family_get(2) by (simp add: current_def)
  have v: "p_vmas (demo_process 2 Running) = []" by (simp add: demo_process_def process_empty_def)
  then have ok: "vma_ends_ok (p_vmas (demo_process 2 Running))" "vmas_disjoint (p_vmas (demo_process 2 Running))"
    by (simp_all add: vma_ends_ok_def vmas_disjoint_def)
  have c: "c_rsi (k_ctxs ?k 0x7000) = 0x2001" "c_rdi (k_ctxs ?k 0x7000) = 0" by (simp_all add: zero_context_def)
  have sz: "align_up 0x2001 = (0x3000 :: u64)" by (simp add: align_up_def)
  have "fits [] 0x3000 0x20000000" by (simp add: fits_def)
  moreover have "unat (align_up 0x20000000) = 0x20000000" by (simp add: align_up_def)
  ultimately show ?thesis
    using mmap_region [OF inv p ok, of "0x7000", unfolded c sz v, OF _ _ refl refl] by (auto split: if_splits)
qed

end
