(* ===== verification/Heap.thy ===== *)
theory Heap
  imports Address_Space
begin

text \<open>
  The memory of the kernel at its start: the set-up of paging (\<^verbatim>\<open>init\<close> of
  \<^verbatim>\<open>kernel/src/memory/paging.rs\<close>) and the heap (\<^verbatim>\<open>kernel/src/memory/heap.rs\<close>), 256 pages that are mapped
  one by one. The allocator that hands out the heap is a crate and not modelled.
\<close>

section \<open>Paging\<close>

text \<open>The page attribute table: entry 1, which \<^verbatim>\<open>WRITE_COMBINING\<close> selects, becomes write-combining.\<close>

definition pat_low :: "u32 \<Rightarrow> u32" where
  "pat_low low = (low AND NOT (push_bit 8 0xFF)) OR push_bit 8 0x01"

text \<open>The offset of the direct map, the attribute table and the page table of the kernel.\<close>

definition paging_init :: "u64 \<Rightarrow> u32 \<Rightarrow> machine \<Rightarrow> u64 \<times> u32 \<times> u64" where
  "paging_init hhdm low m = (hhdm, pat_low low, get_pml4 m)"

lemma bit_pat_low: "bit (pat_low low) n \<longleftrightarrow> (if 8 \<le> n \<and> n < 16 then n = 8 else bit low n)"
proof -
  have m: "(0xFF :: u32) = mask 8" by (simp add: mask_eq_exp_minus_1)
  show ?thesis
    unfolding pat_low_def m bit_or_iff bit_and_iff bit_not_iff bit_push_bit_iff bit_mask_iff bit_1_iff
    by (auto dest: bit_imp_le_length)
qed

lemma pat_low_entries:
  "ucast (drop_bit 8 (pat_low low)) = (1 :: u8)"
  "i \<noteq> 1 \<Longrightarrow> (ucast (drop_bit (8 * i) (pat_low low)) :: u8) = ucast (drop_bit (8 * i) low)"
proof -
  show "ucast (drop_bit 8 (pat_low low)) = (1 :: u8)"
    by (rule bit_word_eqI) (auto simp: bit_unsigned_iff bit_drop_bit_eq bit_pat_low bit_1_iff)
  show "(ucast (drop_bit (8 * i) (pat_low low)) :: u8) = ucast (drop_bit (8 * i) low)" if "i \<noteq> 1"
  proof (rule bit_word_eqI)
    fix n :: nat assume "n < LENGTH(8)"
    then have "\<not> (8 \<le> 8 * i + n \<and> 8 * i + n < 16)" using that by simp
    then have "bit (pat_low low) (8 * i + n) = bit low (8 * i + n)" by (simp only: bit_pat_low if_False)
    then show "bit (ucast (drop_bit (8 * i) (pat_low low)) :: u8) n = bit (ucast (drop_bit (8 * i) low) :: u8) n"
      by (simp add: bit_unsigned_iff bit_drop_bit_eq)
  qed
qed

section \<open>The heap\<close>

abbreviation HEAP_START :: u64 where "HEAP_START \<equiv> 0xFFFFC00000000000"
abbreviation HEAP_SIZE :: nat where "HEAP_SIZE \<equiv> 1024 * 1024"

text \<open>\<open>None\<close> is the panic of \<^verbatim>\<open>expect\<close> and of a mapping without frames.\<close>

definition heap_page :: "nat \<Rightarrow> u64" where
  "heap_page i = HEAP_START + of_nat i * of_nat PAGE_SIZE"

definition map_heap_page :: "nat \<Rightarrow> machine \<Rightarrow> machine option" where
  "map_heap_page i m = Option.bind (m_alloc m) (\<lambda>(phys, m'). map_page (heap_page i) phys WRITABLE m')"

definition heap_init :: "machine \<Rightarrow> machine option" where
  "heap_init m = fold (\<lambda>i om. Option.bind om (map_heap_page i)) [0..<HEAP_SIZE div PAGE_SIZE] (Some m)"

section \<open>One step of a walk that makes a table\<close>

definition new_table :: "u64 \<Rightarrow> nat \<Rightarrow> u64 \<Rightarrow> u64 \<Rightarrow> machine \<Rightarrow> machine \<Rightarrow> bool" where
  "new_table t l v f m m' \<longleftrightarrow> f \<in> m_avail m \<and> m_avail m' = m_avail m - {f} \<and> cr3 m' = cr3 m \<and>
     read64 m' (entry_addr t l v) = f OR 7 \<and> (\<forall>k w. read64 m' (entry_addr f k w) = 0) \<and>
     (\<forall>u k w. page_aligned u \<longrightarrow> u \<noteq> t \<longrightarrow> u \<noteq> f \<longrightarrow> read64 m' (entry_addr u k w) = read64 m (entry_addr u k w))"

lemma new_tableD:
  assumes "new_table t l v f m m'"
  shows "f \<in> m_avail m" "m_avail m' = m_avail m - {f}" "cr3 m' = cr3 m" "read64 m' (entry_addr t l v) = f OR 7"
    "read64 m' (entry_addr f k w) = 0"
    "page_aligned u \<Longrightarrow> u \<noteq> t \<Longrightarrow> u \<noteq> f \<Longrightarrow> read64 m' (entry_addr u k w) = read64 m (entry_addr u k w)"
    "valid_frame f" "page_aligned f" "f \<notin> m_avail m'" "card (m_avail m) = Suc (card (m_avail m'))"
  using assms m_avail_valid [of f m] card_Suc_Diff1 [OF finite_m_avail [of m], of f]
  by (auto simp: new_table_def valid_frame_def)

lemma walk_new_table:
  assumes "page_aligned t" "t \<notin> m_avail m" "read64 m (entry_addr t l v) AND PRESENT = 0" "m_avail m \<noteq> {}"
  shows "\<exists>f m'. map_walk (l # ls) v t m = map_walk ls v f m' \<and> new_table t l v f m m'"
proof -
  obtain f m1 where a: "m_alloc_zeroed m = Some (f, m1)"
    using zp.acq_None [of m] assms(4) by (cases "m_alloc_zeroed m") auto
  note fr = zp.acq_Some [OF a]
  have f: "page_aligned f" "f \<noteq> t" using fr assms(2) m_avail_valid [of f m] by (auto simp: valid_frame_def)
  define m' where "m' = write64 (entry_addr t l v) (f OR PRESENT OR WRITABLE OR USER) m1"
  have r1: "read64 m1 (entry_addr u k w) = (if u = f then 0 else read64 m (entry_addr u k w))" if "page_aligned u" for u k w
    by (simp only: read64_def m_alloc_zeroed_mem [OF a] cell_entry_page [OF that f(1)])
  have r: "read64 m' (entry_addr u k w) = (if u = t \<and> pt_index k w = pt_index l v then f OR PRESENT OR WRITABLE OR USER
      else if u = f then 0 else read64 m (entry_addr u k w))" if "page_aligned u" for u k w
    by (simp only: m'_def read64_write64 cell_entry_eq [OF that assms(1)] r1 [OF that])
  have "map_walk (l # ls) v t m = map_walk ls v f m'" using assms(3) by (simp add: a m'_def Let_def)
  moreover have "f \<in> m_avail m" "m_avail m' = m_avail m - {f}" "cr3 m' = cr3 m"
    using fr m_alloc_zeroed_mem [OF a] by (simp_all add: m'_def m_avail_def)
  moreover have "read64 m' (entry_addr t l v) = f OR 7" using r [OF assms(1), of l v] by simp
  moreover have "read64 m' (entry_addr f k w) = 0" for k w using r [OF f(1), of k w] f(2) by simp
  moreover have "read64 m' (entry_addr u k w) = read64 m (entry_addr u k w)" if "page_aligned u" "u \<noteq> t" "u \<noteq> f" for u k w
    using r [OF that(1), of k w] that(2,3) by simp
  ultimately show ?thesis unfolding new_table_def by blast
qed

section \<open>The tables of the heap\<close>

lemma heap_page_index:
  assumes "i < 256"
  shows "k < 3 \<Longrightarrow> pt_index k (heap_page i) = pt_index k HEAP_START" "unat (pt_index 3 (heap_page i)) = i"
proof -
  have u: "unat (heap_page i) = 0xFFFFC00000000000 + 4096 * i"
    using assms by (simp add: heap_page_def unat_word_ariths unat_of_nat)
  have q: "x < c \<Longrightarrow> (q * c + x) div c = q" for x c q :: nat by simp
  have d: "(18446673704965373952 + 4096 * i) div 549755813888 = 33554304"
    "(18446673704965373952 + 4096 * i) div 1073741824 = 17179803648"
    "(18446673704965373952 + 4096 * i) div 2097152 = 8796059467776"
    using assms q [of "4096 * i" 549755813888 33554304] q [of "4096 * i" 1073741824 17179803648]
      q [of "4096 * i" 2097152 8796059467776] by simp_all
  have "unat (pt_index k (heap_page i)) = unat (pt_index k HEAP_START)" if "k = 0 \<or> k = 1 \<or> k = 2"
    using that by (elim disjE) (simp_all add: pt_index_mod u d)
  moreover have "k = 0 \<or> k = 1 \<or> k = 2" if "k < 3" using that by linarith
  ultimately show "pt_index k (heap_page i) = pt_index k HEAP_START" if "k < 3"
    using that by (simp only: word_unat_eq_iff)
  have "i < c \<Longrightarrow> (q * c + i) mod c = i" for c q :: nat by simp
  from this [of 512 8796059467776] have "(4503582447501312 + i) mod 512 = i" using assms by simp
  then show "unat (pt_index 3 (heap_page i)) = i" using assms by (simp add: pt_index_mod u)
qed

lemma heap_page_entry: "i < 256 \<Longrightarrow> k < 3 \<Longrightarrow> entry_addr t k (heap_page i) = entry_addr t k HEAP_START"
  by (simp add: entry_addr_def heap_page_index)

definition heap_tables :: "u64 \<Rightarrow> u64 \<Rightarrow> u64 \<Rightarrow> u64 \<Rightarrow> machine \<Rightarrow> bool" where
  "heap_tables p t1 t2 t3 m \<longleftrightarrow>
     distinct [p, t1, t2, t3] \<and> (\<forall>t\<in>{p, t1, t2, t3}. page_aligned t \<and> t \<notin> m_avail m) \<and>
     valid_frame t1 \<and> valid_frame t2 \<and> valid_frame t3 \<and> read64 m (entry_addr p 0 HEAP_START) = t1 OR 7 \<and>
     read64 m (entry_addr t1 1 HEAP_START) = t2 OR 7 \<and> read64 m (entry_addr t2 2 HEAP_START) = t3 OR 7"

lemma heap_walk:
  assumes "heap_tables p t1 t2 t3 m" "i < 256"
  shows "map_walk [0, 1, 2] (heap_page i) p m = Some (t3, m)" "lookup_walk [0, 1, 2] (heap_page i) p m = Inr t3"
proof -
  have d: "read64 m (entry_addr p 0 (heap_page i)) = t1 OR 7" "read64 m (entry_addr t1 1 (heap_page i)) = t2 OR 7"
    "read64 m (entry_addr t2 2 (heap_page i)) = t3 OR 7" "valid_frame t1" "valid_frame t2" "valid_frame t3"
    using assms by (simp_all add: heap_tables_def heap_page_entry)
  then show "map_walk [0, 1, 2] (heap_page i) p m = Some (t3, m)" by (simp add: Let_def)
  have h: "(t OR 7) AND HUGE = 0" if "valid_frame t" for t using that by simp
  show "lookup_walk [0, 1, 2] (heap_page i) p m = Inr t3"
    by (simp only: lookup_walk.simps Let_def d h table_entry_present table_entry_addr simp_thms if_False refl)
qed

lemma heap_write:
  assumes "heap_tables p t1 t2 t3 m" "i < 256"
  shows "heap_tables p t1 t2 t3 (write64 (entry_addr t3 3 (heap_page i)) e m)"
    "j < 256 \<Longrightarrow> read64 (write64 (entry_addr t3 3 (heap_page i)) e m) (entry_addr t3 3 (heap_page j)) =
      (if j = i then e else read64 m (entry_addr t3 3 (heap_page j)))"
proof -
  have al: "page_aligned p" "page_aligned t1" "page_aligned t2" "page_aligned t3" "distinct [p, t1, t2, t3]"
    using assms(1) by (simp_all add: heap_tables_def)
  have "read64 (write64 (entry_addr t3 3 (heap_page i)) e m) (entry_addr u k w) = read64 m (entry_addr u k w)"
    if "page_aligned u" "u \<noteq> t3" for u k w
    using that by (simp only: read64_write64 cell_entry_eq [OF that(1) al(4)] simp_thms if_False)
  moreover have "m_avail (write64 a x m) = m_avail m" for a x by (simp add: m_avail_def)
  ultimately show "heap_tables p t1 t2 t3 (write64 (entry_addr t3 3 (heap_page i)) e m)"
    using assms(1) al by (simp add: heap_tables_def)
  show "read64 (write64 (entry_addr t3 3 (heap_page i)) e m) (entry_addr t3 3 (heap_page j)) =
      (if j = i then e else read64 m (entry_addr t3 3 (heap_page j)))" if j: "j < 256"
  proof -
    have "pt_index 3 (heap_page j) = pt_index 3 (heap_page i) \<longleftrightarrow> j = i"
      using heap_page_index(2) [OF assms(2)] heap_page_index(2) [OF j] by metis
    then show ?thesis by (simp only: read64_write64 cell_entry_eq [OF al(4) al(4)] simp_thms)
  qed
qed

text \<open>What a page of the heap adds, once its tables exist.\<close>

definition heap_entry :: "u64 \<Rightarrow> u64" where
  "heap_entry f = f OR WRITABLE OR PRESENT"

lemma map_heap_page_step:
  assumes t: "heap_tables p t1 t2 t3 m" "get_pml4 m = p" "m_avail m \<noteq> {}" "i < 256"
  shows "\<exists>f m'. map_heap_page i m = Some m' \<and> f \<in> m_avail m \<and> m_avail m' = m_avail m - {f} \<and> cr3 m' = cr3 m \<and>
    heap_tables p t1 t2 t3 m' \<and>
    (\<forall>j<256. read64 m' (entry_addr t3 3 (heap_page j)) =
       (if j = i then heap_entry f else read64 m (entry_addr t3 3 (heap_page j))))"
proof -
  obtain f m1 where a: "m_alloc m = Some (f, m1)" using m_alloc_laws(1) [of m] t(3) by (cases "m_alloc m") auto
  note fr = m_alloc_laws(2) [OF a] m_alloc_frame [OF a]
  have p: "get_pml4 m1 = p" using t(2) fr by (simp add: get_pml4_def)
  have r: "read64 m1 = read64 m" using fr by (simp add: read64_def fun_eq_iff)
  have h1: "heap_tables p t1 t2 t3 m1" using t(1) fr r by (auto simp: heap_tables_def)
  define m' where "m' = write64 (entry_addr t3 3 (heap_page i)) (heap_entry f) m1"
  have "map_heap_page i m = Some m'"
    by (simp only: map_heap_page_def a bind.bind_lunit prod.case map_page_def map_page_in_table_def p
        heap_walk(1) [OF h1 t(4)] option.case m'_def heap_entry_def)
  moreover have "m_avail m' = m_avail m - {f}" using fr by (simp add: m'_def m_avail_def)
  ultimately show ?thesis using fr heap_write [OF h1 t(4), where e = "heap_entry f"] r by (auto simp: m'_def)
qed

lemma map_heap_pages:
  assumes "heap_tables p t1 t2 t3 m" "get_pml4 m = p" "k \<le> n" "n \<le> 256" "n - k \<le> card (m_avail m)"
  shows "\<exists>fs m'. fold (\<lambda>i om. Option.bind om (map_heap_page i)) [k..<n] (Some m) = Some m' \<and> length fs = n - k \<and>
    distinct fs \<and> set fs \<subseteq> m_avail m \<and> m_avail m' = m_avail m - set fs \<and> cr3 m' = cr3 m \<and> heap_tables p t1 t2 t3 m' \<and>
    (\<forall>j<256. read64 m' (entry_addr t3 3 (heap_page j)) =
       (if k \<le> j \<and> j < n then heap_entry (fs ! (j - k)) else read64 m (entry_addr t3 3 (heap_page j))))"
  using assms(3-5)
proof (induction n)
  case 0
  then show ?case using assms(1) by (intro exI [of _ "[]"]) auto
next
  case (Suc n)
  show ?case
  proof (cases "k = Suc n")
    case True
    then show ?thesis using assms(1) by (intro exI [of _ "[]"]) auto
  next
    case False
    with Suc.prems have kn: "k \<le> n" and n: "n \<le> 256" "n - k \<le> card (m_avail m)" by simp_all
    from Suc.IH [OF this] obtain fs m1 where 1: "fold (\<lambda>i om. Option.bind om (map_heap_page i)) [k..<n] (Some m) = Some m1"
      "length fs = n - k" "distinct fs" "set fs \<subseteq> m_avail m" "m_avail m1 = m_avail m - set fs" "cr3 m1 = cr3 m"
      "heap_tables p t1 t2 t3 m1"
      "\<forall>j<256. read64 m1 (entry_addr t3 3 (heap_page j)) =
         (if k \<le> j \<and> j < n then heap_entry (fs ! (j - k)) else read64 m (entry_addr t3 3 (heap_page j)))"
      by blast
    have "card (m_avail m1) = card (m_avail m) - (n - k)"
      using 1 card_Diff_subset [of "set fs" "m_avail m"] distinct_card [of fs] by simp
    with Suc.prems kn have "m_avail m1 \<noteq> {}" by auto
    moreover have "get_pml4 m1 = p" using assms(2) 1(6) by (simp add: get_pml4_def)
    ultimately obtain f m2 where 2: "map_heap_page n m1 = Some m2" "f \<in> m_avail m1" "m_avail m2 = m_avail m1 - {f}"
      "cr3 m2 = cr3 m1" "heap_tables p t1 t2 t3 m2"
      "\<forall>j<256. read64 m2 (entry_addr t3 3 (heap_page j)) =
         (if j = n then heap_entry f else read64 m1 (entry_addr t3 3 (heap_page j)))"
      using map_heap_page_step [OF 1(7)] Suc.prems(2) by (metis Suc_le_lessD)
    have "read64 m2 (entry_addr t3 3 (heap_page j)) =
       (if k \<le> j \<and> j < Suc n then heap_entry ((fs @ [f]) ! (j - k)) else read64 m (entry_addr t3 3 (heap_page j)))"
      if "j < 256" for j
      using 1(2,8) 2(6) that kn by (auto simp: nth_append)
    moreover have "fold (\<lambda>i om. Option.bind om (map_heap_page i)) [k..<Suc n] (Some m) = Some m2"
      using kn 1(1) 2(1) by simp
    ultimately show ?thesis
      using 1 2 kn by (intro exI [of _ "fs @ [f]"] exI [of _ m2]) auto
  qed
qed

text \<open>The first page makes the three tables.\<close>

lemma page_aligned_pml4: "page_aligned (get_pml4 m)"
  by (simp add: get_pml4_def page_aligned_align_down)

lemma map_first_page:
  assumes "get_pml4 m \<notin> m_avail m" "read64 m (entry_addr (get_pml4 m) 0 HEAP_START) AND PRESENT = 0" "4 \<le> card (m_avail m)"
  shows "\<exists>f t1 t2 t3 m'. map_heap_page 0 m = Some m' \<and> distinct [f, t1, t2, t3] \<and> {f, t1, t2, t3} \<subseteq> m_avail m \<and>
    m_avail m' = m_avail m - {f, t1, t2, t3} \<and> get_pml4 m' = get_pml4 m \<and> heap_tables (get_pml4 m) t1 t2 t3 m' \<and>
    read64 m' (entry_addr t3 3 (heap_page 0)) = heap_entry f"
proof -
  define p where "p = get_pml4 m"
  have h0: "heap_page 0 = HEAP_START" by (simp add: heap_page_def)
  have some: "m_avail n \<noteq> {}" if "Suc k \<le> card (m_avail n)" for n k using that by auto
  obtain f m1 where a: "m_alloc m = Some (f, m1)"
    using m_alloc_laws(1) [of m] some [of 3 m] assms(3) by (cases "m_alloc m") auto
  note fr = m_alloc_laws(2) [OF a] m_alloc_frame [OF a]
  have p: "page_aligned p" "p \<notin> m_avail m1" "read64 m1 (entry_addr p 0 HEAP_START) AND PRESENT = 0" "get_pml4 m1 = p"
    using assms fr page_aligned_pml4 [of m] by (simp_all add: p_def get_pml4_def read64_def)
  have c1: "3 \<le> card (m_avail m1)" using fr assms(3) by (simp add: card_Diff_singleton)
  obtain t1 m2 where 1: "map_walk [0, 1, 2] HEAP_START p m1 = map_walk [1, 2] HEAP_START t1 m2" "new_table p 0 HEAP_START t1 m1 m2"
    using walk_new_table [OF p(1-3) some [of 2], of "[1, 2]"] c1 by auto
  note t1 = new_tableD [OF 1(2)]
  obtain t2 m3 where 2: "map_walk [1, 2] HEAP_START t1 m2 = map_walk [2] HEAP_START t2 m3" "new_table t1 1 HEAP_START t2 m2 m3"
    using walk_new_table [OF t1(8,9) _ some [of 1], of 1 HEAP_START "[2]"] t1(5,10) c1 by auto
  note t2 = new_tableD [OF 2(2)]
  obtain t3 m4 where 3: "map_walk [2] HEAP_START t2 m3 = map_walk [] HEAP_START t3 m4" "new_table t2 2 HEAP_START t3 m3 m4"
    using walk_new_table [OF t2(8,9) _ some [of 0], of 2 HEAP_START "[]"] t2(5,10) t1(10) c1 by auto
  note t3 = new_tableD [OF 3(2)]
  have av: "m_avail m4 = m_avail m - {f, t1, t2, t3}" "distinct [f, t1, t2, t3]" "{f, t1, t2, t3} \<subseteq> m_avail m"
    using fr t1(1,2) t2(1,2) t3(1,2) by auto
  have pd: "p \<noteq> t1" "p \<noteq> t2" "p \<noteq> t3" "p \<notin> m_avail m4" using p(2) t1(1,2) t2(1,2) t3(1,2) by auto
  have e: "read64 m4 (entry_addr p 0 HEAP_START) = t1 OR 7" "read64 m4 (entry_addr t1 1 HEAP_START) = t2 OR 7"
    "read64 m4 (entry_addr t2 2 HEAP_START) = t3 OR 7"
    using t3(6) [OF p(1) pd(2,3)] t2(6) [OF p(1) pd(1,2)] t1(4) t2(4) t3(4) t3(6) [OF t1(8)] av(2) by simp_all
  have tabs: "heap_tables p t1 t2 t3 m4"
    using t1(7,8) t2(7,8) t3(7,8) av pd p(1) e by (auto simp: heap_tables_def)
  define m' where "m' = write64 (entry_addr t3 3 (heap_page 0)) (heap_entry f) m4"
  have "map_walk [0, 1, 2] (heap_page 0) p m1 = Some (t3, m4)" by (simp only: h0 1(1) 2(1) 3(1) map_walk.simps(1))
  then have "map_heap_page 0 m = Some m'"
    by (simp only: map_heap_page_def a bind.bind_lunit prod.case map_page_def map_page_in_table_def p(4) option.case
        m'_def heap_entry_def)
  moreover have "m_avail m' = m_avail m4" "get_pml4 m' = p"
    using t1(3) t2(3) t3(3) p(4) by (simp_all add: m'_def m_avail_def get_pml4_def)
  moreover have "heap_tables p t1 t2 t3 m'" "read64 m' (entry_addr t3 3 (heap_page 0)) = heap_entry f"
    using heap_write [OF tabs, of 0, where e = "heap_entry f"] by (simp_all add: m'_def)
  ultimately show ?thesis
    using av unfolding p_def
    by (intro exI [of _ f] exI [of _ t1] exI [of _ t2] exI [of _ t3] exI [of _ m']) simp
qed

section \<open>The heap is mapped\<close>

lemma heap_entry_frame: "valid_frame f \<Longrightarrow> heap_entry f AND ADDR_MASK = f" "heap_entry f AND PRESENT \<noteq> 0"
proof -
  have 3: "heap_entry f = f OR 3" "(3 :: u64) = mask 2" by (simp_all add: heap_entry_def or.assoc mask_eq_exp_minus_1)
  show "valid_frame f \<Longrightarrow> heap_entry f AND ADDR_MASK = f"
    unfolding 3 by (rule valid_frame_addr_mask) (auto simp only: bit_mask_iff)
  show "heap_entry f AND PRESENT \<noteq> 0"
    unfolding 3(1) present_bit bit_or_iff unfolding 3(2) bit_mask_iff by simp
qed

lemma heap_page_offset: "i < 256 \<Longrightarrow> heap_page i AND 0xFFF = 0"
proof -
  assume i: "i < 256"
  then have "unat (heap_page i) = 4096 * (4503582447501312 + i)"
    by (simp add: heap_page_def unat_word_ariths unat_of_nat)
  then have "unat (heap_page i AND 0xFFF) = 0" by (simp only: unat_and_mask12) simp
  then show ?thesis by (simp add: unat_eq_zero)
qed

lemma heap_mapped_at:
  assumes "get_pml4 m \<notin> m_avail m" "read64 m (entry_addr (get_pml4 m) 0 HEAP_START) AND PRESENT = 0"
    and "259 \<le> card (m_avail m)"
  shows "\<exists>m' fs. heap_init m = Some m' \<and> length fs = 256 \<and> distinct fs \<and> set fs \<subseteq> m_avail m \<and> set fs \<inter> m_avail m' = {} \<and>
    (\<forall>i<256. get_mapped_frame (get_pml4 m) (heap_page i) m' = Some (fs ! i)) \<and> get_pml4 m' = get_pml4 m \<and>
    m_avail m' \<subseteq> m_avail m \<and> card (m_avail m') + 259 = card (m_avail m)"
proof -
  have four: "4 \<le> card (m_avail m)" using assms(3) by simp
  obtain f t1 t2 t3 m1 where 1: "map_heap_page 0 m = Some m1" "distinct [f, t1, t2, t3]" "{f, t1, t2, t3} \<subseteq> m_avail m"
    "m_avail m1 = m_avail m - {f, t1, t2, t3}" "get_pml4 m1 = get_pml4 m" "heap_tables (get_pml4 m) t1 t2 t3 m1"
    "read64 m1 (entry_addr t3 3 (heap_page 0)) = heap_entry f"
    using map_first_page [OF assms(1,2) four] by (elim exE conjE) (rule that)
  have c1: "card (m_avail m1) + 4 = card (m_avail m)"
  proof -
    have "card {f, t1, t2, t3} = 4" using 1(2) by simp
    then show ?thesis using 1(3,4) card_Diff_subset [of "{f, t1, t2, t3}" "m_avail m"] assms(3) by simp
  qed
  have le: "1 \<le> (256 :: nat)" "256 \<le> (256 :: nat)" by simp_all
  have rest: "256 - 1 \<le> card (m_avail m1)" using c1 assms(3) by simp
  obtain fs m' where 2: "fold (\<lambda>i om. Option.bind om (map_heap_page i)) [1..<256] (Some m1) = Some m'" "length fs = 256 - 1"
    "distinct fs" "set fs \<subseteq> m_avail m1" "m_avail m' = m_avail m1 - set fs" "cr3 m' = cr3 m1"
    "heap_tables (get_pml4 m) t1 t2 t3 m'"
    "\<forall>j<256. read64 m' (entry_addr t3 3 (heap_page j)) =
       (if 1 \<le> j \<and> j < 256 then heap_entry (fs ! (j - 1)) else read64 m1 (entry_addr t3 3 (heap_page j)))"
    using map_heap_pages [OF 1(6,5) le rest] by (elim exE conjE) (rule that)
  have upt: "[0..<HEAP_SIZE div PAGE_SIZE] = 0 # [1..<256]" using upt_conv_Cons [of 0 256] by (simp del: upt_rec_numeral)
  have "heap_init m = Some m'" by (simp only: heap_init_def upt fold_Cons comp_apply bind.bind_lunit 1(1) 2(1))
  moreover have "get_mapped_frame (get_pml4 m) (heap_page i) m' = Some ((f # fs) ! i)" if "i < 256" for i
  proof -
    have "read64 m' (entry_addr t3 3 (heap_page i)) = heap_entry ((f # fs) ! i)"
      using 2(8) 1(7) that by (cases i) auto
    moreover have "valid_frame ((f # fs) ! i)"
      using m_avail_valid [of "(f # fs) ! i" m] nth_mem [of i "f # fs"] that 1(3,4) 2(2,4) by auto
    ultimately show ?thesis
      using heap_walk(2) [OF 2(7) that] by (simp add: get_mapped_frame_def heap_entry_frame heap_page_offset [OF that])
  qed
  moreover have "card (m_avail m') + 259 = card (m_avail m)"
    using c1 2(2-5) card_Diff_subset [of "set fs" "m_avail m1"] distinct_card [OF 2(3)] assms(3) by simp
  moreover have "get_pml4 m' = get_pml4 m" using 1(5) 2(6) by (simp add: get_pml4_def)
  moreover have "length (f # fs) = 256" "distinct (f # fs)" "set (f # fs) \<subseteq> m_avail m" "set (f # fs) \<inter> m_avail m' = {}"
    "m_avail m' \<subseteq> m_avail m"
    using 1(3,4) 2(2-5) by auto
  ultimately show ?thesis by blast
qed

text \<open>The memory at the end of the set-up, over the memory map of the boot loader.\<close>

definition boot_memory :: "mmap_entry list \<Rightarrow> machine \<Rightarrow> machine option" where
  "boot_memory mmap m = heap_init (m\<lparr>frames := frame_init mmap frame_allocator_new\<rparr>)"

text \<open>Four MiB above the first one, and empty page tables below it.\<close>

definition four_mib :: "mmap_entry list" where
  "four_mib = [\<lparr>me_base = 0x100000, me_length = 0x400000, me_usable = True\<rparr>]"

definition bare_machine :: machine where
  "bare_machine = \<lparr>frames = frame_allocator_new, mem = (\<lambda>_. 0), cr3 = 0x1000\<rparr>"

lemma four_mib_avail: "m_avail (m\<lparr>frames := frame_init four_mib frame_allocator_new\<rparr>) = frame_addr ` {256..<1280}"
proof -
  have "usable_frames four_mib = [256..<1280]"
    by (simp add: usable_frames_def four_mib_def entry_frames_def del: upt_rec_numeral)
  then have "free_frames (frame_init four_mib frame_allocator_new) = {256..<1280}"
    by (auto simp: frame_init_free simp del: upt_rec_numeral)
  then show ?thesis by (simp add: m_avail_def avail_frames_def)
qed

lemma card_four_mib: "card (m_avail (m\<lparr>frames := frame_init four_mib frame_allocator_new\<rparr>)) = 1024"
proof -
  have "inj_on frame_addr {256..<1280}" by (intro inj_onI) (simp add: frame_addr_inj)
  then show ?thesis by (simp add: four_mib_avail card_image)
qed

text \<open>Where that memory meets the assumptions.\<close>

lemma four_mib_ready:
  fixes m :: machine
  defines "m \<equiv> bare_machine\<lparr>frames := frame_init four_mib frame_allocator_new\<rparr>"
  shows "get_pml4 m = 0x1000" "get_pml4 m \<notin> m_avail m" "read64 m (entry_addr (get_pml4 m) 0 HEAP_START) AND PRESENT = 0"
    "259 \<le> card (m_avail m)" "boot_memory four_mib bare_machine = heap_init m"
proof -
  show p: "get_pml4 m = 0x1000" by (simp add: m_def bare_machine_def get_pml4_def align_down_def)
  have "frame_addr f \<noteq> 0x1000" if "256 \<le> f" "f < 1280" for f
    using that frame_addr_inj [of f 1] by (auto simp: frame_addr_def)
  then have "0x1000 \<notin> m_avail m" unfolding m_def four_mib_avail by force
  then show "get_pml4 m \<notin> m_avail m" by (simp only: p not_False_eq_True)
  show "read64 m (entry_addr (get_pml4 m) 0 HEAP_START) AND PRESENT = 0" by (simp add: read64_def m_def bare_machine_def)
  show "259 \<le> card (m_avail m)" unfolding m_def card_four_mib by simp
  show "boot_memory four_mib bare_machine = heap_init m" by (simp only: boot_memory_def m_def)
qed

lemma four_mib_boots: "\<exists>m'. boot_memory four_mib bare_machine = Some m' \<and> card (m_avail m') = 765"
  using heap_mapped_at [OF four_mib_ready(2-4)] card_four_mib [of bare_machine] by (auto simp: four_mib_ready(5))

text \<open>
  C21: with a page table that has no entry for the region of the heap and at least 259 free frames, the
  kernel gets its heap: the set-up returns, and all 256 pages of the heap are mapped, each to a frame
  of its own that is no longer available; with the three tables it takes exactly 259 frames.
\<close>

theorem heap_mapped:
  assumes "get_pml4 m \<notin> m_avail m" "read64 m (entry_addr (get_pml4 m) 0 HEAP_START) AND PRESENT = 0"
    and "259 \<le> card (m_avail m)"
  shows "\<exists>m' fs. heap_init m = Some m' \<and> length fs = 256 \<and> distinct fs \<and> set fs \<subseteq> m_avail m \<and> set fs \<inter> m_avail m' = {} \<and>
    (\<forall>i<256. get_mapped_frame (get_pml4 m) (heap_page i) m' = Some (fs ! i)) \<and> get_pml4 m' = get_pml4 m \<and>
    m_avail m' \<subseteq> m_avail m \<and> card (m_avail m') + 259 = card (m_avail m)"
  by (rule heap_mapped_at [OF assms])

lemma heap_mapped_witness:
  "\<exists>m'. boot_memory four_mib bare_machine = Some m' \<and> card (m_avail m') = 765 \<and>
     get_mapped_frame 0x1000 (heap_page 0) m' \<noteq> get_mapped_frame 0x1000 (heap_page 255) m'"
proof -
  define m where "m = bare_machine\<lparr>frames := frame_init four_mib frame_allocator_new\<rparr>"
  note r = four_mib_ready [folded m_def]
  obtain m' fs where h: "heap_init m = Some m'" "length fs = 256" "distinct fs"
    "\<forall>i<256. get_mapped_frame (get_pml4 m) (heap_page i) m' = Some (fs ! i)" "card (m_avail m') + 259 = card (m_avail m)"
    using heap_mapped [OF r(2-4)] by blast
  have "fs ! 0 \<noteq> fs ! 255" using h(2) nth_eq_iff_index_eq [OF h(3), of 0 255] by simp
  moreover have "card (m_avail m') = 765" using h(5) card_four_mib unfolding m_def by simp
  ultimately show ?thesis using h(1,4) by (intro exI [of _ m']) (simp add: r(1,5))
qed

end
