(* ===== verification/Pci.thy ===== *)
theory Pci
  imports Format
begin

text \<open>
  The PCI bus, \<^verbatim>\<open>kernel/src/pci.rs\<close>: configuration addresses, the scan of all buses, the search of a
  capability list, and the report. The configuration space is an argument that maps an address
  as written to port \<^verbatim>\<open>0xCF8\<close> to the double word read from port \<^verbatim>\<open>0xCFC\<close>.
\<close>

section \<open>Configuration space\<close>

type_synonym config_space = "u32 \<Rightarrow> u32"

definition config_address :: "u8 \<Rightarrow> u8 \<Rightarrow> u8 \<Rightarrow> u8 \<Rightarrow> u32" where
  "config_address bus slot func offset =
     push_bit 31 1 OR push_bit 16 (ucast bus) OR push_bit 11 (ucast slot) OR push_bit 8 (ucast func) OR
     (ucast offset AND 0xFC)"

definition pci_config_read_dword :: "config_space \<Rightarrow> u8 \<Rightarrow> u8 \<Rightarrow> u8 \<Rightarrow> u8 \<Rightarrow> u32" where
  "pci_config_read_dword cfg bus slot func offset = cfg (config_address bus slot func offset)"

text \<open>A write: the two port writes, as (address, value).\<close>

definition pci_config_write_dword :: "u8 \<Rightarrow> u8 \<Rightarrow> u8 \<Rightarrow> u8 \<Rightarrow> u32 \<Rightarrow> u32 \<times> u32" where
  "pci_config_write_dword bus slot func offset val = (config_address bus slot func offset, val)"

definition pci_config_read_word :: "config_space \<Rightarrow> u8 \<Rightarrow> u8 \<Rightarrow> u8 \<Rightarrow> u8 \<Rightarrow> u16" where
  "pci_config_read_word cfg bus slot func offset =
     ucast (drop_bit (unat ((offset AND 2) * 8)) (pci_config_read_dword cfg bus slot func offset) AND 0xFFFF)"

definition class_description :: "u8 \<Rightarrow> u8 \<Rightarrow> bytes" where
  "class_description class_id subclass_id = ascii
     (if class_id = 0x01 \<and> subclass_id = 0x01 then ''IDE/ATA Storage''
      else if class_id = 0x01 \<and> subclass_id = 0x06 then ''AHCI SATA 3.0''
      else if class_id = 0x01 \<and> subclass_id = 0x08 then ''NVMe PCIe SSD''
      else if class_id = 0x02 \<and> subclass_id = 0x00 then ''Ethernet NIC''
      else if class_id = 0x03 \<and> subclass_id = 0x00 then ''VGA/Framebuffer''
      else if class_id = 0x06 \<and> subclass_id = 0x00 then ''Host Bridge''
      else if class_id = 0x06 \<and> subclass_id = 0x01 then ''ISA Bridge''
      else if class_id = 0x06 \<and> subclass_id = 0x80 then ''PCI Bridge''
      else if class_id = 0x0C \<and> subclass_id = 0x03 then ''USB xHCI/eHCI''
      else ''PCI Device'')"

section \<open>Devices\<close>

record pci_device =
  pci_bus :: u8
  pci_slot :: u8
  pci_func :: u8
  vendor_id :: u16
  device_id :: u16
  class_id :: u8
  subclass_id :: u8
  prog_if :: u8
  bar0 :: u32
  bar5 :: u32
  msi_cap_offset :: u8

text \<open>The walk of the capability list, at most 48 entries.\<close>

fun msi_walk :: "config_space \<Rightarrow> u8 \<Rightarrow> u8 \<Rightarrow> u8 \<Rightarrow> nat \<Rightarrow> u8 \<Rightarrow> u8" where
  "msi_walk cfg bus slot func 0 cap_ptr = 0"
| "msi_walk cfg bus slot func (Suc n) cap_ptr =
     (if cap_ptr = 0 \<or> cap_ptr AND 3 \<noteq> 0 then 0
      else let cap_header = pci_config_read_dword cfg bus slot func cap_ptr
           in if cap_header AND 0xFF = 0x05 then cap_ptr
              else msi_walk cfg bus slot func n (ucast (drop_bit 8 cap_header AND 0xFF)))"

definition find_msi_capability :: "config_space \<Rightarrow> u8 \<Rightarrow> u8 \<Rightarrow> u8 \<Rightarrow> u8" where
  "find_msi_capability cfg bus slot func =
     (if pci_config_read_word cfg bus slot func 0x06 AND push_bit 4 1 = 0 then 0
      else msi_walk cfg bus slot func 48 (ucast (pci_config_read_dword cfg bus slot func 0x34 AND 0xFF)))"

text \<open>The writes that route a device's interrupt; \<open>None\<close> is the answer \<^verbatim>\<open>false\<close>.\<close>

definition enable_pci_msi :: "config_space \<Rightarrow> u8 \<Rightarrow> u8 \<Rightarrow> u8 \<Rightarrow> u8 \<Rightarrow> u8 \<Rightarrow> u8 \<Rightarrow> (u32 \<times> u32) list option" where
  "enable_pci_msi cfg bus slot func cap_offset dest_apic_id vector =
     (if cap_offset = 0 then None
      else Some
        [pci_config_write_dword bus slot func (cap_offset + 0x04) (0xFEE00000 OR push_bit 12 (ucast dest_apic_id)),
         pci_config_write_dword bus slot func (cap_offset + 0x08) (ucast vector),
         pci_config_write_dword bus slot func cap_offset
           (pci_config_read_dword cfg bus slot func cap_offset OR push_bit 16 1)])"

definition check_function :: "config_space \<Rightarrow> u8 \<Rightarrow> u8 \<Rightarrow> u8 \<Rightarrow> pci_device option" where
  "check_function cfg bus slot func =
     (let rd = pci_config_read_word cfg bus slot func
      in if rd 0x00 = 0xFFFF then None
         else Some \<lparr>pci_bus = bus, pci_slot = slot, pci_func = func, vendor_id = rd 0x00, device_id = rd 0x02,
           class_id = ucast (drop_bit 8 (rd 0x0A)), subclass_id = ucast (rd 0x0A AND 0xFF),
           prog_if = ucast (drop_bit 8 (rd 0x08)),
           bar0 = pci_config_read_dword cfg bus slot func 0x10,
           bar5 = pci_config_read_dword cfg bus slot func 0x24,
           msi_cap_offset = find_msi_capability cfg bus slot func\<rparr>)"

section \<open>The scan\<close>

definition opt_list :: "'a option \<Rightarrow> 'a list" where
  "opt_list x = (case x of None \<Rightarrow> [] | Some a \<Rightarrow> [a])"

definition multifunction :: "config_space \<Rightarrow> u8 \<Rightarrow> u8 \<Rightarrow> bool" where
  "multifunction cfg bus slot \<longleftrightarrow>
     (ucast (pci_config_read_word cfg bus slot 0 0x0E AND 0xFF) :: u8) AND 0x80 \<noteq> 0"

definition scan_slot :: "config_space \<Rightarrow> u8 \<Rightarrow> u8 \<Rightarrow> pci_device list" where
  "scan_slot cfg bus slot =
     (if pci_config_read_word cfg bus slot 0 0x00 = 0xFFFF then []
      else opt_list (check_function cfg bus slot 0) @
        (if multifunction cfg bus slot
         then concat (map (\<lambda>func. opt_list (check_function cfg bus slot (of_nat func))) [1..<8]) else []))"

definition enumerate_pci :: "config_space \<Rightarrow> pci_device list" where
  "enumerate_pci cfg =
     concat (map (\<lambda>bus. concat (map (\<lambda>slot. scan_slot cfg (of_nat bus) (of_nat slot)) [0..<32])) [0..<256])"

definition find_ahci_bar5 :: "pci_device list \<Rightarrow> u32 option" where
  "find_ahci_bar5 devs = map_option bar5 (find (\<lambda>d. class_id d = 0x01 \<and> subclass_id d = 0x06 \<and> bar5 d \<noteq> 0) devs)"

definition find_xhci_bar0 :: "pci_device list \<Rightarrow> u32 option" where
  "find_xhci_bar0 devs = map_option bar0 (find (\<lambda>d. class_id d = 0x0C \<and> subclass_id d = 0x03 \<and> bar0 d \<noteq> 0) devs)"

definition find_nvme_bar0 :: "pci_device list \<Rightarrow> u32 option" where
  "find_nvme_bar0 devs = map_option bar0 (find (\<lambda>d. class_id d = 0x01 \<and> subclass_id d = 0x08 \<and> bar0 d \<noteq> 0) devs)"

section \<open>The report\<close>

definition pci_line :: "pci_device \<Rightarrow> bytes" where
  "pci_line d =
     hex_upper 2 (unat (pci_bus d)) @ ascii '':'' @ hex_upper 2 (unat (pci_slot d)) @ ascii ''.'' @ decimal (unat (pci_func d)) @
     ascii ''   '' @ hex_upper 4 (unat (vendor_id d)) @ ascii '':'' @ hex_upper 4 (unat (device_id d)) @ ascii ''  '' @
     hex_upper 2 (unat (class_id d)) @ ascii ''/'' @ hex_upper 2 (unat (subclass_id d)) @ ascii ''  '' @
     pad_right 4 (ascii (if msi_cap_offset d \<noteq> 0 then ''YES'' else ''NO'')) @ ascii '' '' @
     class_description (class_id d) (subclass_id d) @ newline"

definition format_pci_list :: "pci_device list \<Rightarrow> bytes" where
  "format_pci_list devs = ascii ''BDF       VEN:DEV    CLASS  MSI  TYPE'' @ newline @ concat (map pci_line devs)"

section \<open>The scan against a reference\<close>

text \<open>The functions that a scan is to find, over all addresses in order.\<close>

definition all_functions :: "(u8 \<times> u8 \<times> u8) list" where
  "all_functions = concat (map (\<lambda>bus. concat (map (\<lambda>slot. map (\<lambda>func. (of_nat bus, of_nat slot, of_nat func)) [0..<8])
     [0..<32])) [0..<256])"

definition visible :: "config_space \<Rightarrow> u8 \<times> u8 \<times> u8 \<Rightarrow> bool" where
  "visible cfg = (\<lambda>(bus, slot, func).
     pci_config_read_word cfg bus slot func 0x00 \<noteq> 0xFFFF \<and>
     (func = 0 \<or> pci_config_read_word cfg bus slot 0 0x00 \<noteq> 0xFFFF \<and> multifunction cfg bus slot))"

definition location :: "pci_device \<Rightarrow> u8 \<times> u8 \<times> u8" where
  "location d = (pci_bus d, pci_slot d, pci_func d)"

lemma check_function_None [simp]:
  "check_function cfg bus slot func = None \<longleftrightarrow> pci_config_read_word cfg bus slot func 0x00 = 0xFFFF"
  by (simp add: check_function_def Let_def)

lemma check_function_location:
  "check_function cfg bus slot func = Some d \<Longrightarrow> location d = (bus, slot, func)"
  by (auto simp: check_function_def location_def Let_def split: if_splits)

lemma opt_list_check:
  "map location (opt_list (check_function cfg bus slot func)) =
     (if pci_config_read_word cfg bus slot func 0x00 = 0xFFFF then [] else [(bus, slot, func)])"
  by (simp add: check_function_def opt_list_def location_def Let_def)

lemma set_opt_list: "set (opt_list x) = set_option x"
  by (cases x) (auto simp: opt_list_def)

lemma concat_map_cong: "(\<And>x. x \<in> set xs \<Longrightarrow> f x = g x) \<Longrightarrow> concat (map f xs) = concat (map g xs)"
  by (induction xs) auto

lemma func_of_nat_zero: "n < 8 \<Longrightarrow> (of_nat n :: u8) = 0 \<longleftrightarrow> n = 0"
  by (auto simp: word_of_nat_eq_0_iff dest: dvd_imp_le)

lemma map_location_concat_opt:
  "map location (concat (map (\<lambda>n. opt_list (check_function cfg bus slot (of_nat n))) ns)) =
     map (\<lambda>n. (bus, slot, of_nat n)) (filter (\<lambda>n. pci_config_read_word cfg bus slot (of_nat n) 0x00 \<noteq> 0xFFFF) ns)"
  by (induction ns) (auto simp: opt_list_check)

lemma scan_slot_locations:
  "map location (scan_slot cfg bus slot) = filter (visible cfg) (map (\<lambda>func. (bus, slot, of_nat func)) [0..<8])"
proof -
  have split8: "[0..<8] = 0 # [Suc 0..<8]"
    by (simp add: upt_conv_Cons)
  have vis: "filter (\<lambda>n. visible cfg (bus, slot, of_nat n)) [Suc 0..<8] =
      (if pci_config_read_word cfg bus slot 0 0x00 \<noteq> 0xFFFF \<and> multifunction cfg bus slot
       then filter (\<lambda>n. pci_config_read_word cfg bus slot (of_nat n) 0x00 \<noteq> 0xFFFF) [Suc 0..<8] else [])"
    by (auto simp: visible_def filter_empty_conv func_of_nat_zero simp del: upt_rec_numeral intro!: filter_cong)
  have vis0: "visible cfg (bus, slot, 0) \<longleftrightarrow> pci_config_read_word cfg bus slot 0 0x00 \<noteq> 0xFFFF"
    by (simp add: visible_def)
  show ?thesis
    unfolding split8
    by (simp add: vis vis0 scan_slot_def map_location_concat_opt opt_list_check filter_map o_def
        del: upt_rec_numeral)
qed

lemma filter_concat: "filter P (concat xss) = concat (map (filter P) xss)"
  by (induction xss) auto

lemma map_concat': "map f (concat xss) = concat (map (map f) xss)"
  by (induction xss) auto

lemma enumerate_locations: "map location (enumerate_pci cfg) = filter (visible cfg) all_functions"
  by (simp add: enumerate_pci_def all_functions_def filter_concat map_concat' o_def scan_slot_locations
      del: upt_rec_numeral)

lemma scan_slot_devices:
  "d \<in> set (scan_slot cfg bus slot) \<Longrightarrow> \<exists>func. check_function cfg bus slot func = Some d"
  by (auto simp: scan_slot_def set_opt_list split: if_splits)

lemma enumerate_devices:
  "d \<in> set (enumerate_pci cfg) \<Longrightarrow> check_function cfg (pci_bus d) (pci_slot d) (pci_func d) = Some d"
proof -
  assume "d \<in> set (enumerate_pci cfg)"
  then obtain bus slot func where "check_function cfg bus slot func = Some d"
    by (auto simp: enumerate_pci_def dest!: scan_slot_devices simp del: upt_rec_numeral)
  moreover from this have "location d = (bus, slot, func)" by (rule check_function_location)
  ultimately show ?thesis by (simp add: location_def)
qed

subsection \<open>Addresses\<close>

lemma bit_below: "x < 2 ^ n \<Longrightarrow> n < LENGTH('a) \<Longrightarrow> bit (x :: 'a::len word) k \<Longrightarrow> k < n"
  by (metis bit_take_bit_iff less_mask_eq take_bit_eq_mask)

lemma bit_0xFC: "bit (0xFC :: u32) n \<longleftrightarrow> 2 \<le> n \<and> n < 8"
proof -
  have "(0xFC :: u32) = mask 8 AND NOT (mask 2)"
    by (simp add: mask_eq_exp_minus_1)
  then show ?thesis
    by (simp only: bit_and_iff bit_not_iff bit_mask_iff) auto
qed

lemma bit_config_address:
  "bit (config_address bus slot func off) n \<longleftrightarrow> n < 32 \<and>
     (n = 31 \<or> 16 \<le> n \<and> bit bus (n - 16) \<or> 11 \<le> n \<and> bit slot (n - 11) \<or> 8 \<le> n \<and> bit func (n - 8) \<or>
      bit off n \<and> 2 \<le> n \<and> n < 8)"
  unfolding config_address_def bit_or_iff bit_and_iff bit_push_bit_iff bit_0xFC
  by (auto simp: bit_unsigned_iff bit_1_iff dest: bit_imp_le_length)

lemma config_address_fields:
  assumes "slot < 32" "func < 8"
  shows "ucast (drop_bit 16 (config_address bus slot func off)) = bus"
    and "ucast (drop_bit 11 (config_address bus slot func off) AND 31) = slot"
    and "ucast (drop_bit 8 (config_address bus slot func off) AND 7) = func"
    and "ucast (config_address bus slot func off) = off AND 0xFC"
proof -
  have s: "\<And>k. bit slot k \<Longrightarrow> k < 5" and f: "\<And>k. bit func k \<Longrightarrow> k < 3"
    using assms bit_below [of slot 5] bit_below [of func 3] by auto
  have m5: "(31 :: u32) = mask 5" and m3: "(7 :: u32) = mask 3"
    by (simp_all add: mask_eq_exp_minus_1)
  show "ucast (drop_bit 16 (config_address bus slot func off)) = bus"
    by (intro bit_word_eqI)
      (auto simp: bit_unsigned_iff bit_drop_bit_eq bit_config_address dest: s f)
  show "ucast (drop_bit 11 (config_address bus slot func off) AND 31) = slot"
    unfolding m5 by (intro bit_word_eqI)
      (auto simp: bit_unsigned_iff bit_drop_bit_eq bit_config_address bit_and_iff bit_mask_iff dest: s f)
  show "ucast (drop_bit 8 (config_address bus slot func off) AND 7) = func"
    unfolding m3 by (intro bit_word_eqI)
      (auto simp: bit_unsigned_iff bit_drop_bit_eq bit_config_address bit_and_iff bit_mask_iff dest: s f)
  have m8: "(0xFC :: u8) = NOT (mask 2)"
    by (simp add: mask_eq_exp_minus_1)
  show "ucast (config_address bus slot func off) = off AND 0xFC"
    unfolding m8 by (intro bit_word_eqI)
      (auto simp: bit_unsigned_iff bit_config_address bit_and_iff bit_not_iff bit_mask_iff dest: s f)
qed

lemma config_address_inj:
  assumes "slot < 32" "func < 8" "slot' < 32" "func' < 8"
    and "config_address bus slot func off = config_address bus' slot' func' off'"
  shows "bus = bus' \<and> slot = slot' \<and> func = func' \<and> off AND 0xFC = off' AND 0xFC"
  using config_address_fields [OF assms(1,2), of bus off] config_address_fields [OF assms(3,4), of bus' off']
  by (simp add: assms(5))

lemma of_nat_u8_inj: "n < 256 \<Longrightarrow> m < 256 \<Longrightarrow> (of_nat n :: u8) = of_nat m \<longleftrightarrow> n = m"
  by (simp add: word_unat_eq_iff unat_of_nat)

lemma distinct_concat_map:
  assumes "distinct xs" "\<And>x. x \<in> set xs \<Longrightarrow> distinct (f x)"
    and "\<And>x y. x \<in> set xs \<Longrightarrow> y \<in> set xs \<Longrightarrow> x \<noteq> y \<Longrightarrow> set (f x) \<inter> set (f y) = {}"
  shows "distinct (concat (map f xs))"
  using assms by (induction xs) (auto simp: disjoint_iff)

lemma distinct_all_functions: "distinct all_functions"
  unfolding all_functions_def
  by (intro distinct_concat_map) (auto simp: distinct_map inj_on_def of_nat_u8_inj simp del: upt_rec_numeral)

lemma set_all_functions: "(bus, slot, func) \<in> set all_functions \<Longrightarrow> slot < 32 \<and> func < 8"
  by (auto simp: all_functions_def word_less_nat_alt unat_of_nat simp del: upt_rec_numeral)

subsection \<open>The result of the scan\<close>

text \<open>
  C19: The scan of the bus finds exactly the functions of the machine that can be addressed: its
  result lists, in the order of bus, slot and function and without repetition, every function
  that answers with a vendor, provided that function 0 of its slot answers too and, for a
  function above 0, declares the slot multifunctional; each entry holds what the configuration
  space of that function holds. No two functions share a configuration register, so that the
  scan never takes one function for another.
\<close>
theorem pci_scan_complete:
  "map location (enumerate_pci cfg) = filter (visible cfg) all_functions \<and>
   distinct (map location (enumerate_pci cfg)) \<and>
   map (\<lambda>d. check_function cfg (pci_bus d) (pci_slot d) (pci_func d)) (enumerate_pci cfg) =
     map Some (enumerate_pci cfg) \<and>
   inj_on (\<lambda>(bus, slot, func). config_address bus slot func off) (set all_functions)"
proof (intro conjI)
  show "map location (enumerate_pci cfg) = filter (visible cfg) all_functions"
    by (rule enumerate_locations)
  then show "distinct (map location (enumerate_pci cfg))"
    by (simp add: distinct_all_functions)
  show "map (\<lambda>d. check_function cfg (pci_bus d) (pci_slot d) (pci_func d)) (enumerate_pci cfg) =
      map Some (enumerate_pci cfg)"
    by (simp add: enumerate_devices)
  show "inj_on (\<lambda>(bus, slot, func). config_address bus slot func off) (set all_functions)"
    by (auto simp: inj_on_def dest!: set_all_functions dest: config_address_inj)
qed

end
