(* ===== verification/Acpi.thy ===== *)
theory Acpi
  imports Paging Format
begin

text \<open>
  The ACPI tables, \<^verbatim>\<open>kernel/src/acpi.rs\<close>: from the root pointer that the boot loader reports over
  the table of tables to the MADT, which lists the processors and interrupt controllers. The code
  reads all of them through the direct map, whose offset \<open>hhdm\<close> is an argument; it first maps what
  is not mapped yet. \<open>None\<close> is the panic of a mapping without frames.
\<close>

section \<open>The topology\<close>

record ioapic_info =
  io_id :: u8
  io_address :: u32
  gsi_base :: u32

record acpi_topology =
  rsdp_revision :: u8
  lapic_addr :: u64
  cpu_apic_ids :: "u8 list"
  ioapics :: "ioapic_info list"
  iso_count :: nat

definition acpi_topology_new :: acpi_topology where
  "acpi_topology_new = \<lparr>rsdp_revision = 0, lapic_addr = 0xFEE00000, cpu_apic_ids = [], ioapics = [], iso_count = 0\<rparr>"

section \<open>The MADT\<close>

text \<open>Unaligned reads of \<open>n\<close> bytes at an offset of memory, which is a function of offsets.\<close>

definition bytes_at :: "(nat \<Rightarrow> u8) \<Rightarrow> nat \<Rightarrow> nat \<Rightarrow> bytes" where
  "bytes_at b off n = map b [off..<off + n]"

definition word_at :: "(nat \<Rightarrow> u8) \<Rightarrow> nat \<Rightarrow> nat \<Rightarrow> 'a::len word" where
  "word_at b off n = le_word (bytes_at b off n)"

abbreviation SDT_HEADER :: nat where "SDT_HEADER \<equiv> 36"

definition madt_entry :: "(nat \<Rightarrow> u8) \<Rightarrow> nat \<Rightarrow> u8 \<Rightarrow> nat \<Rightarrow> acpi_topology \<Rightarrow> acpi_topology" where
  "madt_entry b offset entry_type entry_len info =
     (if entry_type = 0 then
        if entry_len \<ge> 8 \<and> (word_at b (offset + 4) 4 :: u32) AND 1 \<noteq> 0
        then info\<lparr>cpu_apic_ids := cpu_apic_ids info @ [b (offset + 3)]\<rparr> else info
      else if entry_type = 1 then
        if entry_len \<ge> 12
        then info\<lparr>ioapics := ioapics info @
               [\<lparr>io_id = b (offset + 2), io_address = word_at b (offset + 4) 4, gsi_base = word_at b (offset + 8) 4\<rparr>]\<rparr>
        else info
      else if entry_type = 2 then info\<lparr>iso_count := iso_count info + 1\<rparr>
      else if entry_type = 5 then
        if entry_len \<ge> 12 then info\<lparr>lapic_addr := word_at b (offset + 4) 8\<rparr> else info
      else info)"

function madt_entries :: "(nat \<Rightarrow> u8) \<Rightarrow> nat \<Rightarrow> nat \<Rightarrow> acpi_topology \<Rightarrow> acpi_topology" where
  "madt_entries b total_len offset info =
     (if offset + 2 \<le> total_len then
        let entry_type = b offset; entry_len = unat (b (offset + 1))
        in if entry_len < 2 \<or> offset + entry_len > total_len then info
           else madt_entries b total_len (offset + entry_len) (madt_entry b offset entry_type entry_len info)
      else info)"
  by pat_completeness auto
termination by (relation "measure (\<lambda>(b, total_len, offset, info). total_len - offset)") auto

declare madt_entries.simps [simp del]

definition parse_madt :: "(nat \<Rightarrow> u8) \<Rightarrow> acpi_topology \<Rightarrow> acpi_topology" where
  "parse_madt b info =
     (let total_len = unat (word_at b 4 4 :: u32)
      in if total_len < SDT_HEADER + 8 then info
         else madt_entries b total_len (SDT_HEADER + 8)
                (info\<lparr>lapic_addr := ucast (word_at b SDT_HEADER 4 :: u32)\<rparr>))"

section \<open>The search\<close>

definition pages_of :: "u64 \<Rightarrow> nat \<Rightarrow> u64 list" where
  "pages_of phys sz =
     (let start_page = align_down phys; end_page = align_down (phys + of_nat sz + 0xFFF)
      in map (\<lambda>k. start_page + of_nat k * 0x1000) [0..<(unat end_page - unat start_page) div 4096])"

definition map_if_absent :: "u64 \<Rightarrow> u64 \<Rightarrow> machine \<Rightarrow> machine option" where
  "map_if_absent hhdm page m =
     (if get_mapped_frame (get_pml4 m) (page + hhdm) m = None then map_page (page + hhdm) page WRITABLE m else Some m)"

fun map_pages :: "u64 \<Rightarrow> u64 list \<Rightarrow> machine \<Rightarrow> machine option" where
  "map_pages hhdm [] m = Some m"
| "map_pages hhdm (p # ps) m = Option.bind (map_if_absent hhdm p m) (map_pages hhdm ps)"

definition ensure_mapped :: "u64 \<Rightarrow> u64 \<Rightarrow> nat \<Rightarrow> machine \<Rightarrow> (u64 \<times> machine) option" where
  "ensure_mapped hhdm phys sz m = map_option (\<lambda>m'. (phys + hhdm, m')) (map_pages hhdm (pages_of phys sz) m)"

text \<open>The memory at an address \<open>v\<close> of the direct map.\<close>

definition seen :: "u64 \<Rightarrow> machine \<Rightarrow> u64 \<Rightarrow> nat \<Rightarrow> u8" where
  "seen hhdm m v off = read8 m (v + of_nat off - hhdm)"

type_synonym acpi_state = "acpi_topology \<times> machine"

definition visit_table :: "u64 \<Rightarrow> u64 \<Rightarrow> acpi_state \<Rightarrow> acpi_state option" where
  "visit_table hhdm sdt_phys = (\<lambda>(info, m).
     Option.bind (ensure_mapped hhdm sdt_phys 4096 m) (\<lambda>(sdt_virt, m1).
     Option.bind (ensure_mapped hhdm sdt_phys (unat (word_at (seen hhdm m1 sdt_virt) 4 4 :: u32)) m1) (\<lambda>(sdt_virt, m2).
       Some (if bytes_at (seen hhdm m2 sdt_virt) 0 4 = ascii ''APIC''
             then parse_madt (seen hhdm m2 sdt_virt) info else info, m2))))"

fun visit_tables :: "u64 \<Rightarrow> nat \<Rightarrow> u64 \<Rightarrow> nat list \<Rightarrow> acpi_state \<Rightarrow> acpi_state option" where
  "visit_tables hhdm width table_ptrs [] s = Some s"
| "visit_tables hhdm width table_ptrs (i # is) s =
     Option.bind (visit_table hhdm (word_at (seen hhdm (snd s) table_ptrs) (i * width) width) s)
       (visit_tables hhdm width table_ptrs is)"

text \<open>The table of tables, with pointers of 8 bytes (XSDT) or 4 (RSDT).\<close>

definition visit_root :: "u64 \<Rightarrow> nat \<Rightarrow> u64 \<Rightarrow> acpi_state \<Rightarrow> acpi_state option" where
  "visit_root hhdm width root_phys = (\<lambda>(info, m).
     Option.bind (ensure_mapped hhdm root_phys 4096 m) (\<lambda>(root_virt, m1).
     let total_len = unat (word_at (seen hhdm m1 root_virt) 4 4 :: u32)
     in Option.bind (ensure_mapped hhdm root_phys total_len m1) (\<lambda>(root_virt, m2).
       visit_tables hhdm width (root_virt + of_nat SDT_HEADER) [0..<(total_len - SDT_HEADER) div width] (info, m2))))"

text \<open>\<open>resp\<close> is the address that the boot loader reports, when it does.\<close>

definition acpi_init :: "u64 \<Rightarrow> u64 option \<Rightarrow> acpi_state \<Rightarrow> acpi_state option" where
  "acpi_init hhdm resp = (\<lambda>(info, m0).
     case resp of None \<Rightarrow> Some (info, m0)
     | Some rsdp_addr \<Rightarrow>
         Option.bind (if rsdp_addr < 0xFFFF800000000000 then ensure_mapped hhdm rsdp_addr 36 m0 else Some (rsdp_addr, m0))
           (\<lambda>(rsdp_virt, m).
              let rsdp = seen hhdm m rsdp_virt;
                  rev = rsdp 15; rsdt_address = word_at rsdp 16 4 :: u32; xsdt_address = word_at rsdp 24 8 :: u64;
                  info1 = info\<lparr>rsdp_revision := rev\<rparr>
              in if bytes_at rsdp 0 8 \<noteq> ascii ''RSD PTR '' then Some (info, m)
                 else if rev \<ge> 2 \<and> xsdt_address \<noteq> 0 then visit_root hhdm 8 xsdt_address (info1, m)
                 else if rsdt_address \<noteq> 0 then visit_root hhdm 4 (ucast rsdt_address) (info1, m)
                 else Some (info1, m)))"

definition get_lapic_and_ioapic :: "acpi_topology \<Rightarrow> u64 \<times> ioapic_info option \<times> nat" where
  "get_lapic_and_ioapic info =
     (lapic_addr info, (case ioapics info of [] \<Rightarrow> None | io # _ \<Rightarrow> Some io), max 1 (length (cpu_apic_ids info)))"

definition ioapic_line :: "ioapic_info \<Rightarrow> bytes" where
  "ioapic_line io =
     ascii ''I/O APIC #'' @ decimal (unat (io_id io)) @ ascii ''  : '' @ hex_prefixed 8 (unat (io_address io)) @
     ascii '' (GSI base '' @ decimal (unat (gsi_base io)) @ ascii '')'' @ newline"

definition acpi_format_status :: "acpi_topology \<Rightarrow> bytes" where
  "acpi_format_status info =
     ascii ''ACPI Rev     : v'' @ decimal (unat (rsdp_revision info)) @ ascii '' (ISO overrides: '' @
     decimal (iso_count info) @ ascii '')'' @ newline @
     ascii ''CPU Topology : '' @ decimal (max 1 (length (cpu_apic_ids info))) @ ascii '' hardware core(s) detected '' @
     debug_list (map unat (cpu_apic_ids info)) @ newline @
     ascii ''Local APIC   : '' @ hex_prefixed 8 (unat (lapic_addr info)) @ newline @
     concat (map ioapic_line (ioapics info))"


section \<open>Encoded tables\<close>

definition holds_at :: "(nat \<Rightarrow> u8) \<Rightarrow> nat \<Rightarrow> bytes \<Rightarrow> bool" where
  "holds_at b off bs \<longleftrightarrow> bytes_at b off (length bs) = bs"

lemma holds_at_Nil [simp]: "holds_at b off []"
  by (simp add: holds_at_def bytes_at_def)

lemma holds_at_Cons [simp]: "holds_at b off (x # xs) \<longleftrightarrow> b off = x \<and> holds_at b (off + 1) xs"
  by (auto simp: holds_at_def bytes_at_def upt_rec simp del: upt_Suc)

lemma holds_at_append [simp]: "holds_at b off (xs @ ys) \<longleftrightarrow> holds_at b off xs \<and> holds_at b (off + length xs) ys"
  by (induction xs arbitrary: off) auto

lemma holds_at_word: "holds_at b off (le_bytes n x) \<Longrightarrow> LENGTH('a) \<le> 8 * n \<Longrightarrow> word_at b off n = (x :: 'a::len word)"
  by (simp add: holds_at_def word_at_def)

lemma holds_at_bytes: "holds_at b off bs \<Longrightarrow> n = length bs \<Longrightarrow> bytes_at b off n = bs"
  by (simp add: holds_at_def)

text \<open>The records of a MADT and what they say.\<close>

datatype madt_record =
    LocalApic u8 u8 u32
  | IoApic u8 u32 u32
  | SourceOverride bytes
  | AddressOverride u64
  | OtherRecord u8 bytes

primrec record_bytes :: "madt_record \<Rightarrow> bytes" where
  "record_bytes (LocalApic processor apic_id flags) = [0, 8, processor, apic_id] @ le_bytes 4 flags"
| "record_bytes (IoApic ident address base) = [1, 12, ident, 0] @ le_bytes 4 address @ le_bytes 4 base"
| "record_bytes (SourceOverride body) = [2, of_nat (length body + 2)] @ body"
| "record_bytes (AddressOverride address) = [5, 12, 0, 0] @ le_bytes 8 address"
| "record_bytes (OtherRecord t body) = [t, of_nat (length body + 2)] @ body"

primrec record_ok :: "madt_record \<Rightarrow> bool" where
  "record_ok (LocalApic processor apic_id flags) \<longleftrightarrow> True"
| "record_ok (IoApic ident address base) \<longleftrightarrow> True"
| "record_ok (SourceOverride body) \<longleftrightarrow> length body \<le> 253"
| "record_ok (AddressOverride address) \<longleftrightarrow> True"
| "record_ok (OtherRecord t body) \<longleftrightarrow> t \<notin> {0, 1, 2, 5} \<and> length body \<le> 253"

primrec describe :: "madt_record \<Rightarrow> acpi_topology \<Rightarrow> acpi_topology" where
  "describe (LocalApic processor apic_id flags) info =
     (if flags AND 1 \<noteq> 0 then info\<lparr>cpu_apic_ids := cpu_apic_ids info @ [apic_id]\<rparr> else info)"
| "describe (IoApic ident address base) info =
     info\<lparr>ioapics := ioapics info @ [\<lparr>io_id = ident, io_address = address, gsi_base = base\<rparr>]\<rparr>"
| "describe (SourceOverride body) info = info\<lparr>iso_count := iso_count info + 1\<rparr>"
| "describe (AddressOverride address) info = info\<lparr>lapic_addr := address\<rparr>"
| "describe (OtherRecord t body) info = info"

lemma unat_short: "n \<le> 253 \<Longrightarrow> unat (2 + of_nat n :: u8) = n + 2"
  using unat_of_nat [of "n + 2", where 'a = 8] by (simp add: add.commute)

lemma offsets:
  "n + 3 = Suc (Suc (Suc n))" "n + 4 = Suc (Suc (Suc (Suc n)))" "n + 8 = Suc (Suc (Suc (Suc (Suc (Suc (Suc (Suc n)))))))"
  by simp_all

lemma record_length_byte:
  "holds_at b off (record_bytes r) \<Longrightarrow> record_ok r \<Longrightarrow> unat (b (off + 1)) = length (record_bytes r)"
  by (cases r) (auto simp: unat_short)

lemma record_at_least_2: "2 \<le> length (record_bytes r)"
  by (cases r) auto

lemma record_described:
  assumes "holds_at b off (record_bytes r)" "record_ok r"
  shows "madt_entry b off (b off) (length (record_bytes r)) info = describe r info"
  using assms by (cases r) (auto simp: madt_entry_def holds_at_word offsets)

lemma madt_entries_described:
  "holds_at b off (concat (map record_bytes rs)) \<Longrightarrow> list_all record_ok rs \<Longrightarrow>
   madt_entries b (off + length (concat (map record_bytes rs))) off info = fold describe rs info"
proof (induction rs arbitrary: off info)
  case Nil
  then show ?case by (simp add: madt_entries.simps)
next
  case (Cons r rs)
  let ?n = "length (record_bytes r)"
  have r: "holds_at b off (record_bytes r)" "record_ok r" using Cons.prems by auto
  have l: "unat (b (Suc off)) = ?n" using record_length_byte [OF r] by simp
  have "madt_entries b (off + length (concat (map record_bytes (r # rs)))) off info =
      madt_entries b (off + ?n + length (concat (map record_bytes rs))) (off + ?n) (describe r info)"
    using record_at_least_2 [of r]
    by (subst madt_entries.simps) (simp add: l record_described [OF r] Let_def add.assoc)
  with Cons.IH [of "off + ?n" "describe r info"] Cons.prems show ?case by simp
qed

text \<open>Tables with their header, of which only the signature and the length are read.\<close>

definition sdt_bytes :: "bytes \<Rightarrow> bytes \<Rightarrow> bytes" where
  "sdt_bytes sig body = sig @ le_bytes 4 (of_nat (36 + length body) :: u32) @ replicate 28 0 @ body"

datatype acpi_table = Madt u32 u32 "madt_record list" | OtherTable bytes bytes

primrec table_bytes :: "acpi_table \<Rightarrow> bytes" where
  "table_bytes (Madt lapic flags rs) =
     sdt_bytes (ascii ''APIC'') (le_bytes 4 lapic @ le_bytes 4 flags @ concat (map record_bytes rs))"
| "table_bytes (OtherTable sig body) = sdt_bytes sig body"

primrec sdt_ok :: "acpi_table \<Rightarrow> bool" where
  "sdt_ok (Madt lapic flags rs) \<longleftrightarrow> list_all record_ok rs \<and> 44 + length (concat (map record_bytes rs)) < 2 ^ 32"
| "sdt_ok (OtherTable sig body) \<longleftrightarrow> length sig = 4 \<and> sig \<noteq> ascii ''APIC'' \<and> 36 + length body < 2 ^ 32"

primrec describe_table :: "acpi_table \<Rightarrow> acpi_topology \<Rightarrow> acpi_topology" where
  "describe_table (Madt lapic flags rs) info = fold describe rs (info\<lparr>lapic_addr := ucast lapic\<rparr>)"
| "describe_table (OtherTable sig body) info = info"

lemma sdt_read:
  assumes "holds_at b 0 (sdt_bytes sig body)" "length sig = 4" "36 + length body < 2 ^ 32"
  shows "bytes_at b 0 4 = sig" "unat (word_at b 4 4 :: u32) = 36 + length body" "holds_at b 36 body"
proof -
  show "bytes_at b 0 4 = sig" "holds_at b 36 body"
    using assms(1,2) by (auto simp: sdt_bytes_def holds_at_bytes)
  have "word_at b 4 4 = (of_nat (36 + length body) :: u32)"
    using assms(1,2) by (simp add: sdt_bytes_def holds_at_word)
  then show "unat (word_at b 4 4 :: u32) = 36 + length body"
    using assms(3) by (simp only: unat_of_nat) simp
qed

lemma madt_described:
  assumes "holds_at b 0 (table_bytes (Madt lapic flags rs))" "sdt_ok (Madt lapic flags rs)"
  shows "parse_madt b info = describe_table (Madt lapic flags rs) info"
proof -
  have len: "length (ascii ''APIC'') = 4" by (simp add: ascii_def)
  note r = sdt_read [OF assms(1) [unfolded table_bytes.simps] len]
  have "holds_at b 36 (le_bytes 4 lapic @ le_bytes 4 flags @ concat (map record_bytes rs))"
    using r assms(2) by simp
  then have "word_at b 36 4 = lapic" "holds_at b 44 (concat (map record_bytes rs))"
    by (auto simp: holds_at_word)
  moreover have "unat (word_at b 4 4 :: u32) = 44 + length (concat (map record_bytes rs))"
    using r(2) assms(2) by simp
  ultimately show ?thesis
    using madt_entries_described [of b 44 rs] assms(2) by (simp add: parse_madt_def)
qed

section \<open>Tables in memory\<close>

definition phys_bytes :: "machine \<Rightarrow> u64 \<Rightarrow> nat \<Rightarrow> u8" where
  "phys_bytes m p off = read8 m (p + of_nat off)"

definition direct_mapped :: "u64 \<Rightarrow> machine \<Rightarrow> u64 \<Rightarrow> nat \<Rightarrow> bool" where
  "direct_mapped hhdm m p n \<longleftrightarrow> (\<forall>page \<in> set (pages_of p n). get_mapped_frame (get_pml4 m) (page + hhdm) m \<noteq> None)"

text \<open>A table lies at \<open>p\<close>, and the direct map covers it and the page the code assumes for it.\<close>

definition table_at :: "u64 \<Rightarrow> machine \<Rightarrow> u64 \<Rightarrow> bytes \<Rightarrow> bool" where
  "table_at hhdm m p bs \<longleftrightarrow>
     holds_at (phys_bytes m p) 0 bs \<and> direct_mapped hhdm m p 4096 \<and> direct_mapped hhdm m p (length bs)"

lemma seen_direct: "seen hhdm m (p + hhdm) = phys_bytes m p"
  by (rule ext) (simp add: seen_def phys_bytes_def algebra_simps)

lemma word_at_direct: "word_at (seen hhdm m (p + hhdm + of_nat k)) off n = word_at (phys_bytes m p) (k + off) n"
proof -
  have "bytes_at (seen hhdm m (p + hhdm + of_nat k)) off n = bytes_at (phys_bytes m p) (k + off) n"
    by (intro nth_equalityI) (simp_all add: bytes_at_def seen_def phys_bytes_def algebra_simps)
  then show ?thesis by (simp add: word_at_def)
qed

lemma map_pages_mapped:
  "\<forall>page \<in> set ps. get_mapped_frame (get_pml4 m) (page + hhdm) m \<noteq> None \<Longrightarrow> map_pages hhdm ps m = Some m"
  by (induction ps) (auto simp: map_if_absent_def)

lemma ensure_mapped_direct: "direct_mapped hhdm m p n \<Longrightarrow> ensure_mapped hhdm p n m = Some (p + hhdm, m)"
  by (simp add: ensure_mapped_def direct_mapped_def map_pages_mapped)

lemma length_sdt_bytes: "length sig = 4 \<Longrightarrow> length (sdt_bytes sig body) = 36 + length body"
  by (simp add: sdt_bytes_def)

lemma table_visited:
  assumes "table_at hhdm m p (table_bytes t)" "sdt_ok t"
  shows "visit_table hhdm p (info, m) = Some (describe_table t info, m)"
proof -
  have apic: "length (ascii ''APIC'') = 4" by (simp add: ascii_def)
  obtain sig body where t: "table_bytes t = sdt_bytes sig body" "length sig = 4" "36 + length body < 2 ^ 32"
    using assms(2) apic by (cases t) auto
  have h: "holds_at (phys_bytes m p) 0 (table_bytes t)" using assms(1) by (simp add: table_at_def)
  note r = sdt_read [OF h [unfolded t(1)] t(2,3)]
  have maps: "ensure_mapped hhdm p 4096 m = Some (p + hhdm, m)"
    "ensure_mapped hhdm p (36 + length body) m = Some (p + hhdm, m)"
    using assms(1) by (simp_all add: table_at_def t(1) length_sdt_bytes [OF t(2)] ensure_mapped_direct)
  have "(if sig = ascii ''APIC'' then parse_madt (phys_bytes m p) info else info) = describe_table t info"
  proof (cases t)
    case (Madt lapic flags rs)
    have "take 4 (table_bytes t) = sig" using t(1,2) by (simp add: sdt_bytes_def)
    then have "sig = ascii ''APIC''" using apic by (simp add: Madt sdt_bytes_def)
    with madt_described [OF h [unfolded Madt] assms(2) [unfolded Madt]] show ?thesis by (simp add: Madt)
  next
    case (OtherTable sig' body')
    have "take 4 (table_bytes t) = sig" using t(1,2) by (simp add: sdt_bytes_def)
    then have "sig = sig'" using assms(2) by (simp add: OtherTable sdt_bytes_def)
    with assms(2) show ?thesis by (simp add: OtherTable)
  qed
  then show ?thesis by (auto simp: visit_table_def maps seen_direct r split: if_split_asm)
qed

lemma holds_at_concat:
  "holds_at b off (concat (map (le_bytes w) ps)) \<Longrightarrow> i < length ps \<Longrightarrow> holds_at b (off + i * w) (le_bytes w (ps ! i))"
proof (induction ps arbitrary: off i)
  case (Cons p ps)
  show ?case
  proof (cases i)
    case (Suc j)
    with Cons.IH [of "off + w" j] Cons.prems show ?thesis by (simp add: add.assoc)
  qed (use Cons.prems in simp)
qed simp

lemma length_concat_le_bytes [simp]: "length (concat (map (le_bytes w) ps)) = length ps * w"
  by (induction ps) auto

definition entry_ok :: "u64 \<Rightarrow> machine \<Rightarrow> nat \<Rightarrow> u64 \<times> acpi_table \<Rightarrow> bool" where
  "entry_ok hhdm m width = (\<lambda>(p, t).
     take_bit (8 * width) p = p \<and> sdt_ok t \<and> table_at hhdm m p (table_bytes t))"

lemma tables_visited:
  assumes "holds_at (phys_bytes m root) 36 (concat (map (le_bytes width) (map fst ts)))" "\<forall>e \<in> set ts. entry_ok hhdm m width e"
  shows "\<forall>i \<in> set is. i < length ts \<Longrightarrow>
    visit_tables hhdm width (root + hhdm + of_nat SDT_HEADER) is (info, m) =
      Some (fold (\<lambda>i. describe_table (snd (ts ! i))) is info, m)"
proof (induction "is" arbitrary: info)
  case (Cons i "is")
  then have i: "i < length ts" by simp
  have ok: "entry_ok hhdm m width (ts ! i)" using assms(2) i by simp
  have "holds_at (phys_bytes m root) (36 + i * width) (le_bytes width (fst (ts ! i)))"
    using holds_at_concat [OF assms(1)] i by simp
  then have "word_at (phys_bytes m root) (36 + i * width) width = fst (ts ! i)"
    using ok by (simp add: word_at_def holds_at_def le_word_le_bytes entry_ok_def case_prod_unfold)
  then have "word_at (seen hhdm m (root + hhdm + of_nat SDT_HEADER)) (i * width) width = fst (ts ! i)"
    by (simp only: word_at_direct)
  then have "visit_table hhdm (word_at (seen hhdm m (root + hhdm + of_nat SDT_HEADER)) (i * width) width) (info, m) =
      Some (describe_table (snd (ts ! i)) info, m)"
    using table_visited [of hhdm m "fst (ts ! i)" "snd (ts ! i)" info] ok by (simp add: entry_ok_def case_prod_unfold)
  with Cons show ?case by simp
qed simp

lemma fold_nth: "fold (\<lambda>i. f (xs ! i)) [0..<length xs] a = fold f xs a"
proof -
  have "fold f (map ((!) xs) [0..<length xs]) a = fold (\<lambda>i. f (xs ! i)) [0..<length xs] a"
    by (simp add: fold_map comp_def)
  then show ?thesis by (simp add: map_nth)
qed

lemma root_visited:
  assumes "table_at hhdm m root (sdt_bytes sig (concat (map (le_bytes width) (map fst ts))))" "length sig = 4"
    and "36 + length ts * width < 2 ^ 32" "0 < width" "\<forall>e \<in> set ts. entry_ok hhdm m width e"
  shows "visit_root hhdm width root (info, m) = Some (fold (\<lambda>(p, t). describe_table t) ts info, m)"
proof -
  let ?body = "concat (map (le_bytes width) (map fst ts))"
  have len: "length ?body = length ts * width" by (simp only: length_concat_le_bytes length_map)
  have h: "holds_at (phys_bytes m root) 0 (sdt_bytes sig ?body)" using assms(1) by (simp add: table_at_def)
  note r = sdt_read [OF h assms(2), unfolded len, OF assms(3)]
  have maps: "ensure_mapped hhdm root 4096 m = Some (root + hhdm, m)"
    "ensure_mapped hhdm root (36 + length ts * width) m = Some (root + hhdm, m)"
    using assms(1) unfolding table_at_def length_sdt_bytes [OF assms(2)] len by (simp_all add: ensure_mapped_direct)
  have "visit_tables hhdm width (root + hhdm + of_nat SDT_HEADER) [0..<length ts] (info, m) =
      Some (fold (\<lambda>i. describe_table (snd (ts ! i))) [0..<length ts] info, m)"
    by (rule tables_visited [OF r(3) assms(5)]) simp
  then show ?thesis
    using assms(4) by (simp add: visit_root_def maps seen_direct r(2) fold_nth [of "\<lambda>e. describe_table (snd e)"] case_prod_unfold)
qed

section \<open>The topology is found\<close>

definition rsdp_bytes :: "u8 \<Rightarrow> bytes \<Rightarrow> u8 \<Rightarrow> u32 \<Rightarrow> u32 \<Rightarrow> u64 \<Rightarrow> bytes" where
  "rsdp_bytes checksum oem revision rsdt rsdp_len xsdt =
     ascii ''RSD PTR '' @ [checksum] @ oem @ [revision] @ le_bytes 4 rsdt @ le_bytes 4 rsdp_len @ le_bytes 8 xsdt"

lemma rsdp_read:
  assumes "holds_at b 0 (rsdp_bytes checksum oem revision rsdt rsdp_len xsdt)" "length oem = 6"
  shows "bytes_at b 0 8 = ascii ''RSD PTR ''" "b 15 = revision" "word_at b 16 4 = rsdt" "word_at b 24 8 = xsdt"
proof -
  have "length (ascii ''RSD PTR '') = 8" by (simp add: ascii_def)
  with assms show "bytes_at b 0 8 = ascii ''RSD PTR ''" "b 15 = revision" "word_at b 16 4 = rsdt" "word_at b 24 8 = xsdt"
    by (auto simp: rsdp_bytes_def holds_at_word intro: holds_at_bytes)
qed



section \<open>An example machine\<close>

lemma holds_at_write_bytes: "length bs \<le> 2 ^ 64 \<Longrightarrow> holds_at (phys_bytes (write_bytes p bs m) p) 0 bs"
  using read_write_bytes [of bs p m] by (simp add: holds_at_def bytes_at_def phys_bytes_def [abs_def] read_bytes_def del: read_write_bytes)

lemma holds_at_write_bytes_other:
  assumes "holds_at (phys_bytes m p) 0 bs" "unat p + length bs < 2 ^ 64" "unat q + length cs < 2 ^ 64"
    and "unat p + length bs \<le> unat q \<or> unat q + length cs \<le> unat p"
  shows "holds_at (phys_bytes (write_bytes q cs m) p) 0 bs"
proof -
  have "read8 (write_bytes q cs m) (p + of_nat i) = read8 m (p + of_nat i)" if "i < length bs" for i
  proof (rule read8_write_bytes_other)
    fix j assume j: "j < length cs"
    have "unat (p + of_nat i) = unat p + i" "unat (q + of_nat j) = unat q + j"
      using assms(2,3) that j by (simp_all add: unat_word_ariths unat_of_nat)
    then show "p + of_nat i \<noteq> q + of_nat j" using assms(4) that j by auto
  qed
  then have "bytes_at (phys_bytes (write_bytes q cs m) p) 0 (length bs) = bytes_at (phys_bytes m p) 0 (length bs)"
    by (intro nth_equalityI) (simp_all add: bytes_at_def phys_bytes_def)
  with assms(1) show ?thesis by (simp add: holds_at_def)
qed

lemma cell_write_bytes_other:
  assumes "unat q + length cs < 2 ^ 64" "unat p + 8 \<le> unat q" "p AND 7 = 0"
  shows "read64 (write_bytes q cs m) p = read64 m p"
  using assms
proof (induction cs arbitrary: q m)
  case (Cons c cs)
  have "unat (q + 1) = unat q + 1" using Cons.prems(1) by (simp add: unat_word_ariths)
  then have "read64 (write_bytes (q + 1) cs (write8 q c m)) p = read64 (write8 q c m) p"
    using Cons.prems by (intro Cons.IH) auto
  moreover have "cell p \<noteq> cell q"
  proof
    assume "cell p = cell q"
    then have "unat p div 8 = unat q div 8" using unat_cell by metis
    with Cons.prems(2) show False by simp
  qed
  ultimately show ?case by (simp add: read64_def write8_def)
qed simp

definition demo_facp :: acpi_table where
  "demo_facp = OtherTable (ascii ''FACP'') [1, 2, 3]"

definition demo_madt :: acpi_table where
  "demo_madt = Madt 0xFEE00000 1 [LocalApic 0 0 1, LocalApic 1 1 0, IoApic 0 0xFEC00000 0, SourceOverride (replicate 8 0)]"

definition demo_tables :: "(u64 \<times> acpi_table) list" where
  "demo_tables = [(0x7000, demo_facp), (0x8000, demo_madt)]"

definition demo_paged :: machine where
  "demo_paged =
     \<lparr>frames = frame_allocator_new, mem = (\<lambda>_. 0)(0x300 := 0x2001, 0x400 := 0x81), cr3 = 0x1000\<rparr>"

definition demo_rsdp :: bytes where
  "demo_rsdp = rsdp_bytes 0 (ascii ''BOCHS '') 2 0 36 0x6000"

definition demo_xsdt :: bytes where
  "demo_xsdt = sdt_bytes (ascii ''XSDT'') (concat (map (le_bytes 8) (map fst demo_tables)))"

definition demo_acpi :: machine where
  "demo_acpi =
     write_bytes 0x8000 (table_bytes demo_madt) (write_bytes 0x7000 (table_bytes demo_facp)
       (write_bytes 0x6000 demo_xsdt (write_bytes 0x5000 demo_rsdp demo_paged)))"

lemma demo_lengths:
  "length demo_rsdp = 32" "length demo_xsdt = 52"
  "length (table_bytes demo_facp) = 39" "length (table_bytes demo_madt) = 82"
  by (simp_all add: demo_rsdp_def demo_xsdt_def demo_tables_def demo_facp_def demo_madt_def rsdp_bytes_def sdt_bytes_def ascii_def)

lemma demo_holds:
  "holds_at (phys_bytes demo_acpi 0x5000) 0 demo_rsdp" "holds_at (phys_bytes demo_acpi 0x6000) 0 demo_xsdt"
  "holds_at (phys_bytes demo_acpi 0x7000) 0 (table_bytes demo_facp)"
  "holds_at (phys_bytes demo_acpi 0x8000) 0 (table_bytes demo_madt)"
  unfolding demo_acpi_def
  by (simp_all add: holds_at_write_bytes_other holds_at_write_bytes demo_lengths)

lemma demo_mapped:
  "get_mapped_frame (get_pml4 demo_acpi) (0x5000 + 0xFFFF800000000000) demo_acpi \<noteq> None"
  "get_mapped_frame (get_pml4 demo_acpi) (0x6000 + 0xFFFF800000000000) demo_acpi \<noteq> None"
  "get_mapped_frame (get_pml4 demo_acpi) (0x7000 + 0xFFFF800000000000) demo_acpi \<noteq> None"
  "get_mapped_frame (get_pml4 demo_acpi) (0x8000 + 0xFFFF800000000000) demo_acpi \<noteq> None"
proof -
  have r: "read64 demo_acpi 0x1800 = 0x2001" "read64 demo_acpi 0x2000 = 0x81"
    by (simp_all add: demo_acpi_def cell_write_bytes_other demo_lengths) (simp_all add: read64_def demo_paged_def cell_def)
  have c: "cr3 demo_acpi = 0x1000" by (simp add: demo_acpi_def demo_paged_def)
  note defs = get_mapped_frame_def get_pml4_def c align_down_def entry_addr_def pt_index_def r Let_def
  show "get_mapped_frame (get_pml4 demo_acpi) (0x5000 + 0xFFFF800000000000) demo_acpi \<noteq> None"
    "get_mapped_frame (get_pml4 demo_acpi) (0x6000 + 0xFFFF800000000000) demo_acpi \<noteq> None"
    "get_mapped_frame (get_pml4 demo_acpi) (0x7000 + 0xFFFF800000000000) demo_acpi \<noteq> None"
    "get_mapped_frame (get_pml4 demo_acpi) (0x8000 + 0xFFFF800000000000) demo_acpi \<noteq> None"
    by (simp_all add: defs)
qed

lemma pages_of_page: "phys AND 0xFFF = 0 \<Longrightarrow> 0 < n \<Longrightarrow> n \<le> 4096 \<Longrightarrow> unat phys + 8192 < 2 ^ 64 \<Longrightarrow> pages_of phys n = [phys]"
proof -
  assume a: "phys AND 0xFFF = 0" "0 < n" "n \<le> 4096" "unat phys + 8192 < 2 ^ 64"
  have d: "align_down phys = phys" using align_down_plus_offset [of phys] a(1) by simp
  have "unat phys mod 4096 = 0" using unat_align_down [of phys] unfolding d
    by (metis diff_is_0_eq' diff_diff_cancel mod_less_eq_dividend le_refl)
  then obtain k where k: "unat phys = 4096 * k" by (metis mod_0_imp_dvd dvdE)
  have "unat (phys + of_nat n + 0xFFF) = 4096 * k + (n + 4095)"
    using a(3,4) k by (simp add: unat_word_ariths unat_of_nat)
  moreover have "(4096 * k + (n + 4095)) mod 4096 = n - 1"
  proof -
    have "4096 * k + (n + 4095) = (n - 1) + 4096 * (k + 1)" using a(2) by simp
    moreover have "((n - 1) + 4096 * (k + 1)) mod 4096 = (n - 1) mod 4096" by (rule mod_mult_self2)
    ultimately show ?thesis using a(2,3) by (simp only: mod_less)
  qed
  ultimately have "unat (align_down (phys + of_nat n + 0xFFF)) = 4096 * k + 4096"
    using a(2) by (simp only: unat_align_down)
  then show ?thesis using k by (simp add: pages_of_def d Let_def)
qed

lemma demo_direct:
  assumes "p \<in> {0x5000, 0x6000, 0x7000, 0x8000}" "0 < n" "n \<le> 4096"
  shows "direct_mapped 0xFFFF800000000000 demo_acpi p n"
proof -
  have "p AND 0xFFF = 0" "unat p + 8192 < 2 ^ 64" using assms(1) by auto
  then have "pages_of p n = [p]" using pages_of_page assms(2,3) by blast
  then show ?thesis using demo_mapped assms(1) by (auto simp: direct_mapped_def simp del: not_None_eq)
qed


end
