(* ===== verification/Apic.thy ===== *)
theory Apic
  imports Acpi
begin

text \<open>
  The interrupt controllers, \<^verbatim>\<open>kernel/src/apic.rs\<close>: the start-up of the local APIC and the redirection
  table of the I/O APIC. Memory-mapped registers are an argument, by physical address; the code
  reaches them through the direct map.
\<close>

record 'd mmio =
  mm_read :: "u64 \<Rightarrow> 'd \<Rightarrow> u32 \<times> 'd"
  mm_write :: "u64 \<Rightarrow> u32 \<Rightarrow> 'd \<Rightarrow> 'd"
  mm_write64 :: "u64 \<Rightarrow> u64 \<Rightarrow> 'd \<Rightarrow> 'd"

record apic_state =
  ap_lapic_phys :: u64
  ap_lapic_id :: u8
  ap_lapic_ver :: u8
  ap_ioapic_phys :: u64
  ap_ioapic_max_redir :: u8
  ap_cores :: nat
  ap_active :: bool

definition apic_state_new :: apic_state where
  "apic_state_new =
     \<lparr>ap_lapic_phys = 0xFEE00000, ap_lapic_id = 0, ap_lapic_ver = 0, ap_ioapic_phys = 0xFEC00000,
      ap_ioapic_max_redir = 0, ap_cores = 1, ap_active = False\<rparr>"

definition write_ioapic_redirection :: "'d mmio \<Rightarrow> apic_state \<Rightarrow> u32 \<Rightarrow> u8 \<Rightarrow> u8 \<Rightarrow> bool \<Rightarrow> 'd \<Rightarrow> 'd" where
  "write_ioapic_redirection P st gsi vector dest_apic_id masked d =
     (let io = ap_ioapic_phys st; iowin = io + 0x10;
          reg_low = 0x10 + gsi * 2; reg_high = reg_low + 1;
          low_val = (ucast vector :: u32) OR (if masked then push_bit 16 1 else 0);
          high_val = push_bit 24 (ucast dest_apic_id :: u32)
      in mm_write P iowin high_val (mm_write P io reg_high (mm_write P iowin low_val (mm_write P io reg_low d))))"

text \<open>\<open>None\<close> is the panic of a mapping without frames.\<close>

definition apic_init ::
  "u64 \<Rightarrow> 'd mmio \<Rightarrow> acpi_topology \<Rightarrow> apic_state \<times> machine \<times> 'd \<Rightarrow> (apic_state \<times> machine \<times> 'd) option" where
  "apic_init hhdm P info = (\<lambda>(st, m0, d0).
     case get_lapic_and_ioapic info of (lapic_phys, ioapic_opt, cores) \<Rightarrow>
     Option.bind (map_page (lapic_phys + hhdm) lapic_phys (WRITABLE OR CACHE_DISABLE) m0) (\<lambda>m1.
       case mm_read P (lapic_phys + 0x020) d0 of (id_reg, d1) \<Rightarrow>
       case mm_read P (lapic_phys + 0x030) d1 of (ver_reg, d2) \<Rightarrow>
       case mm_read P (lapic_phys + 0x0F0) d2 of (svr, d3) \<Rightarrow>
       let d4 = mm_write P (lapic_phys + 0x0F0) (svr OR 0x1FF) d3;
           finish = (\<lambda>io_phys max_redir m d. Some
             (st\<lparr>ap_lapic_phys := lapic_phys, ap_lapic_id := ucast (drop_bit 24 id_reg AND 0xFF),
                 ap_lapic_ver := ucast (ver_reg AND 0xFF), ap_ioapic_phys := io_phys,
                 ap_ioapic_max_redir := max_redir, ap_cores := cores, ap_active := True\<rparr>, m, d))
       in case ioapic_opt of
            None \<Rightarrow> finish 0xFEC00000 23 m1 d4
          | Some io \<Rightarrow>
              let io_phys = ucast (io_address io) :: u64
              in Option.bind (map_page (io_phys + hhdm) io_phys (WRITABLE OR CACHE_DISABLE) m1) (\<lambda>m2.
                 case mm_read P (io_phys + 0x10) (mm_write P io_phys 0x01 d4) of (io_ver, d5) \<Rightarrow>
                   finish io_phys (ucast (drop_bit 16 io_ver AND 0xFF)) m2 d5)))"

text \<open>The number of pins is an 8-bit sum.\<close>

definition apic_format_status :: "apic_state \<Rightarrow> acpi_topology \<Rightarrow> bytes" where
  "apic_format_status st info =
     ascii ''APIC Status  : '' @ (if ap_active st then ascii ''ONLINE (Redirection Ready)'' else ascii ''LEGACY-PIC'') @
     ascii '' (BSP LAPIC ID '' @ decimal (unat (ap_lapic_id st)) @ ascii '', v0x'' @ hex_lower 0 (unat (ap_lapic_ver st)) @
     ascii '', '' @ decimal (unat (ap_ioapic_max_redir st + 1)) @ ascii '' IRQ pins)'' @ newline @
     acpi_format_status info"

section \<open>Redirection\<close>

text \<open>
  An I/O APIC as its data sheet describes it: the selected register and the registers behind the
  window.
\<close>

definition ioapic_laws :: "'d mmio \<Rightarrow> u64 \<Rightarrow> ('d \<Rightarrow> u32) \<Rightarrow> ('d \<Rightarrow> u32 \<Rightarrow> u32) \<Rightarrow> bool" where
  "ioapic_laws P io selected regs \<longleftrightarrow>
     (\<forall>v d. selected (mm_write P io v d) = v \<and> regs (mm_write P io v d) = regs d) \<and>
     (\<forall>v d. selected (mm_write P (io + 0x10) v d) = selected d \<and>
        regs (mm_write P (io + 0x10) v d) = (regs d)(selected d := v))"

text \<open>A redirection sets exactly the two registers of its line, whatever was selected before.\<close>

lemma redirection_written:
  assumes "ioapic_laws P (ap_ioapic_phys st) selected regs"
  shows "regs (write_ioapic_redirection P st gsi vector dest masked d) =
    (regs d)(0x10 + gsi * 2 := ucast vector OR (if masked then push_bit 16 1 else 0),
             0x11 + gsi * 2 := push_bit 24 (ucast dest))"
proof -
  have "selected (mm_write P (ap_ioapic_phys st) v e) = v" "regs (mm_write P (ap_ioapic_phys st) v e) = regs e"
    "selected (mm_write P (ap_ioapic_phys st + 0x10) v e) = selected e"
    "regs (mm_write P (ap_ioapic_phys st + 0x10) v e) = (regs e)(selected e := v)" for v e
    using assms unfolding ioapic_laws_def by blast+
  then show ?thesis by (simp add: write_ioapic_redirection_def Let_def add.commute add.left_commute)
qed

text \<open>
  Two lines do not share a register, so that a later redirection keeps an earlier one, as long as
  the numbers stay below the 2^31 at which the index wraps.
\<close>

lemma redirections_apart:
  fixes gsi gsi' :: u32
  assumes "gsi \<noteq> gsi'" "gsi < 0x7FFFFFF0" "gsi' < 0x7FFFFFF0"
  shows "{0x10 + gsi * 2, 0x11 + gsi * 2} \<inter> {0x10 + gsi' * 2, 0x11 + gsi' * 2} = {}"
proof -
  have u: "unat (0x10 + g * 2) = 16 + 2 * unat g" "unat (0x11 + g * 2) = 17 + 2 * unat g" if "g < 0x7FFFFFF0" for g :: u32
    using that by (simp_all add: word_less_nat_alt unat_word_ariths)
  have "unat gsi \<noteq> unat gsi'" using assms(1) by (simp add: word_unat_eq_iff)
  moreover have "16 + 2 * unat gsi \<noteq> 17 + 2 * unat gsi'" "17 + 2 * unat gsi \<noteq> 16 + 2 * unat gsi'" by presburger+
  ultimately show ?thesis
    using u [OF assms(2)] u [OF assms(3)] by (auto simp: word_unat_eq_iff)
qed

end
