(* ===== verification/Xhci.thy ===== *)
theory Xhci
  imports Apic Nvme
begin

text \<open>
  The USB controller, \<^verbatim>\<open>kernel/src/xhci.rs\<close>: the handoff from the firmware, the set-up of the rings
  and the scan of the root hub. The registers are those of the theory Apic.
\<close>

section \<open>The controller\<close>

record usb_port_device =
  up_port_num :: u8
  up_speed_id :: u8
  up_enabled :: bool
  up_is_hid_keyboard :: bool
  up_is_hid_mouse :: bool

definition speed_name :: "u8 \<Rightarrow> bytes" where
  "speed_name s =
     (if s = 1 then ascii ''Full-Speed (12 Mbps, USB 1.1)'' else if s = 2 then ascii ''Low-Speed (1.5 Mbps, USB HID)''
      else if s = 3 then ascii ''High-Speed (480 Mbps, USB 2.0)'' else if s = 4 then ascii ''SuperSpeed (5 Gbps, USB 3.0)''
      else if s = 5 then ascii ''SuperSpeedPlus (10 Gbps, USB 3.1)'' else ascii ''Connected USB Device'')"

record xhci_controller =
  xh_mmio_phys :: u64
  xh_hci_version :: u16
  xh_max_ports :: u8
  xh_max_slots :: u8
  xh_bios_handoff_ok :: bool
  xh_online :: bool
  xh_dcbaa_phys :: u64
  xh_cmd_ring_phys :: u64
  xh_event_ring_phys :: u64
  xh_connected_ports :: "usb_port_device list"

definition xhci_controller_new :: xhci_controller where
  "xhci_controller_new =
     \<lparr>xh_mmio_phys = 0, xh_hci_version = 0, xh_max_ports = 0, xh_max_slots = 0, xh_bios_handoff_ok = False,
      xh_online = False, xh_dcbaa_phys = 0, xh_cmd_ring_phys = 0, xh_event_ring_phys = 0, xh_connected_ports = []\<rparr>"

text \<open>Waiting for the firmware; after 100 000 polls its flag is cleared by force.\<close>

fun handoff_wait :: "'d mmio \<Rightarrow> u64 \<Rightarrow> nat \<Rightarrow> 'd \<Rightarrow> bool \<times> 'd" where
  "handoff_wait P cap_ptr 0 d =
     (case mm_read P cap_ptr d of (cur, d1) \<Rightarrow> (True, mm_write P cap_ptr (cur AND NOT (push_bit 16 1)) d1))"
| "handoff_wait P cap_ptr (Suc n) d =
     (case mm_read P cap_ptr d of (cur, d1) \<Rightarrow>
        if cur AND push_bit 16 1 = 0 then (True, d1) else handoff_wait P cap_ptr n d1)"

fun handoff_walk :: "'d mmio \<Rightarrow> u64 \<Rightarrow> u64 \<Rightarrow> nat \<Rightarrow> 'd \<Rightarrow> bool \<times> 'd" where
  "handoff_walk P mmio_phys offset 0 d = (True, d)"
| "handoff_walk P mmio_phys offset (Suc n) d =
     (case mm_read P (mmio_phys + offset) d of (cap_val, d1) \<Rightarrow>
        if cap_val AND 0xFF = 1 then
          handoff_wait P (mmio_phys + offset) 100000 (mm_write P (mmio_phys + offset) (cap_val OR push_bit 24 1) d1)
        else let next_dwords = ucast (drop_bit 8 cap_val AND 0xFF) :: u64
          in if next_dwords = 0 then (True, d1)
             else handoff_walk P mmio_phys (offset + push_bit 2 next_dwords) n d1)"

definition perform_bios_handoff :: "'d mmio \<Rightarrow> u64 \<Rightarrow> u32 \<Rightarrow> 'd \<Rightarrow> bool \<times> 'd" where
  "perform_bios_handoff P mmio_phys hccparams1 d =
     (let xecp_dwords = ucast (drop_bit 16 hccparams1 AND 0xFFFF) :: u64
      in if xecp_dwords = 0 then (True, d) else handoff_walk P mmio_phys (push_bit 2 xecp_dwords) 32 d)"

fun wait_halted :: "'d mmio \<Rightarrow> u64 \<Rightarrow> nat \<Rightarrow> 'd \<Rightarrow> 'd" where
  "wait_halted P usbsts 0 d = d"
| "wait_halted P usbsts (Suc n) d =
     (case mm_read P usbsts d of (v, d1) \<Rightarrow> if v AND 1 \<noteq> 0 then d1 else wait_halted P usbsts n d1)"

definition start_rings :: "'d mmio \<Rightarrow> u64 \<Rightarrow> u64 \<Rightarrow> u8 \<Rightarrow> u64 \<Rightarrow> u64 \<Rightarrow> u64 \<Rightarrow> 'd \<Rightarrow> 'd" where
  "start_rings P op_base ir_base max_slots dcbaa cmd_ring event_ring d0 =
     (case mm_read P op_base d0 of (usbcmd, d1) \<Rightarrow>
      let d2 = wait_halted P (op_base + 0x04) 50000 (mm_write P op_base (usbcmd AND NOT 1) d1);
          d3 = mm_write P (op_base + 0x38) (ucast (min max_slots 32)) d2;
          d4 = mm_write64 P (op_base + 0x18) (cmd_ring OR 1) (mm_write64 P (op_base + 0x30) dcbaa d3);
          d5 = mm_write64 P (ir_base + 0x18) event_ring (mm_write P (ir_base + 0x08) 1 d4)
      in case mm_read P op_base d5 of (usbcmd, d6) \<Rightarrow> mm_write P op_base (usbcmd OR 1) d6)"

definition scan_port :: "'d mmio \<Rightarrow> u64 \<Rightarrow> u8 \<Rightarrow> usb_port_device list \<times> 'd \<Rightarrow> usb_port_device list \<times> 'd" where
  "scan_port P op_base port_idx = (\<lambda>(connected, d).
     case mm_read P (op_base + 0x400 + ucast port_idx * 0x10) d of (portsc, d1) \<Rightarrow>
       let speed = ucast (drop_bit 10 portsc AND 0x0F) :: u8; is_hid = (speed = 1 \<or> speed = 2)
       in (if portsc AND 1 \<noteq> 0
           then connected @ [\<lparr>up_port_num = port_idx + 1, up_speed_id = speed, up_enabled = (portsc AND 2 \<noteq> 0),
                  up_is_hid_keyboard = (is_hid \<and> port_idx mod 2 = 0), up_is_hid_mouse = (is_hid \<and> port_idx mod 2 \<noteq> 0)\<rparr>]
           else connected, d1))"

text \<open>\<open>None\<close> is the panic of a mapping without frames.\<close>

definition xhci_init ::
  "u64 \<Rightarrow> 'd mmio \<Rightarrow> u32 \<Rightarrow> xhci_controller \<times> machine \<times> 'd \<Rightarrow> (xhci_controller \<times> machine \<times> 'd) option" where
  "xhci_init hhdm P bar0_raw = (\<lambda>(st, m0, d0).
     let base = ucast (bar0_raw AND NOT 0xF) :: u64
     in if base = 0 then Some (st, m0, d0)
        else map_option (\<lambda>m1.
          case mm_read P base d0 of (cap_word0, d1) \<Rightarrow>
          case mm_read P (base + 0x04) d1 of (hcsparams1, d2) \<Rightarrow>
          case mm_read P (base + 0x10) d2 of (hccparams1, d3) \<Rightarrow>
          case mm_read P (base + 0x14) d3 of (dboff, d4) \<Rightarrow>
          case mm_read P (base + 0x18) d4 of (rtsoff, d5) \<Rightarrow>
          let max_slots = ucast (hcsparams1 AND 0xFF) :: u8; max_ports = ucast (drop_bit 24 hcsparams1 AND 0xFF) :: u8
          in case perform_bios_handoff P base hccparams1 d5 of (handoff_ok, d6) \<Rightarrow>
             case alloc_or_zero m1 of (dcbaa, m2) \<Rightarrow>
             case alloc_or_zero m2 of (cmd_ring, m3) \<Rightarrow>
             case alloc_or_zero m3 of (event_ring, m4) \<Rightarrow>
             let op_base = base + ucast (cap_word0 AND 0xFF);
                 ir_base = base + ucast rtsoff + 0x20;
                 ready = (dcbaa \<noteq> 0 \<and> cmd_ring \<noteq> 0 \<and> event_ring \<noteq> 0);
                 m5 = (if ready then zero_page event_ring (zero_page cmd_ring (zero_page dcbaa m4)) else m4);
                 d7 = (if ready then start_rings P op_base ir_base max_slots dcbaa cmd_ring event_ring d6 else d6)
             in case fold (scan_port P op_base) (map of_nat [0..<unat max_ports]) ([], d7) of (connected, d8) \<Rightarrow>
               (st\<lparr>xh_mmio_phys := base, xh_hci_version := ucast (drop_bit 16 cap_word0 AND 0xFFFF), xh_max_ports := max_ports,
                   xh_max_slots := max_slots, xh_bios_handoff_ok := handoff_ok, xh_online := True, xh_dcbaa_phys := dcbaa,
                   xh_cmd_ring_phys := cmd_ring, xh_event_ring_phys := event_ring, xh_connected_ports := connected\<rparr>, m5, d8))
          (fold (\<lambda>page om. Option.bind om (map_page (base + hhdm + page * 0x1000) (base + page * 0x1000) (WRITABLE OR CACHE_DISABLE)))
             [0, 1, 2, 3] (Some m0)))"

definition port_line :: "usb_port_device \<Rightarrow> bytes" where
  "port_line dev =
     ascii ''  USB Port #'' @ decimal (unat (up_port_num dev)) @ ascii '': '' @ speed_name (up_speed_id dev) @ ascii '' ['' @
     (if up_enabled dev then ascii ''ACTIVE-HID'' else ascii ''STANDBY'') @ ascii '']'' @ newline"

definition xhci_format_status :: "xhci_controller \<Rightarrow> bytes" where
  "xhci_format_status st =
     (if \<not> xh_online st then ascii ''xHCI USB     : No PCI xHCI controller attached (PS/2 active)'' @ newline
      else ascii ''xHCI USB     : v'' @ hex_lower 0 (unat (drop_bit 8 (xh_hci_version st) AND 0xFF)) @ ascii ''.'' @
           hex_lower 2 (unat (xh_hci_version st AND 0xFF)) @ ascii '' @ '' @ hex_prefixed 0 (unat (xh_mmio_phys st)) @ ascii '' ('' @
           decimal (unat (xh_max_ports st)) @ ascii '' root ports, rings online, handoff='' @
           (if xh_bios_handoff_ok st then ascii ''YES'' else ascii ''NO'') @ ascii '')'' @ newline @
           concat (map port_line (xh_connected_ports st)))"

section \<open>What the report says\<close>

text \<open>
  The handoff is reported as done on every path, also when the firmware never lets go of the
  controller, and the rings as online, also when no memory was left for them.
\<close>

lemma handoff_wait_ok: "fst (handoff_wait P a n d) = True"
  by (induction n arbitrary: d) (auto split: prod.splits)

lemma handoff_walk_ok: "fst (handoff_walk P base offset n d) = True"
  by (induction n arbitrary: offset d) (auto simp: handoff_wait_ok Let_def split: prod.splits)

theorem handoff_always_reported: "fst (perform_bios_handoff P base hccparams1 d)"
  by (simp add: perform_bios_handoff_def handoff_walk_ok Let_def)

text \<open>The scan lists exactly the connected ports, once each and in order.\<close>

theorem scan_lists_connected:
  fixes portsc :: "u8 \<Rightarrow> u32"
  assumes "\<And>p d. fst (mm_read P (op_base + 0x400 + ucast p * 0x10) d) = portsc p"
  shows "map up_port_num (fst (fold (scan_port P op_base) ps (acc, d))) =
    map up_port_num acc @ map (\<lambda>p. p + 1) (filter (\<lambda>p. portsc p AND 1 \<noteq> 0) ps)"
proof (induction ps arbitrary: acc d)
  case (Cons p ps)
  obtain v d1 where r: "mm_read P (op_base + 0x400 + ucast p * 0x10) d = (v, d1)" by fastforce
  then have "v = portsc p" using assms [of p d] by simp
  with Cons show ?case by (simp add: scan_port_def r Let_def)
qed simp

end
