(* ===== verification/Ata.thy ===== *)
theory Ata
  imports Disk
begin

text \<open>
  The ATA driver, \<^verbatim>\<open>kernel/src/ata.rs\<close>: sectors moved word by word through the ports of the primary
  channel. The ports are an argument, functions on the state of the device; \<^verbatim>\<open>ATA_PRESENT\<close> is the
  first component of the driver's state. The behaviour that the ATA specification documents is
  stated as laws on a view of the device, with any delays below the 100 000 polls that the code
  allows.
\<close>

section \<open>The driver\<close>

record 'd ports =
  inb :: "u16 \<Rightarrow> 'd \<Rightarrow> u8 \<times> 'd"
  outb :: "u16 \<Rightarrow> u8 \<Rightarrow> 'd \<Rightarrow> 'd"
  inw :: "u16 \<Rightarrow> 'd \<Rightarrow> u16 \<times> 'd"
  outw :: "u16 \<Rightarrow> u16 \<Rightarrow> 'd \<Rightarrow> 'd"

abbreviation ATA_PRIMARY_DATA :: u16 where "ATA_PRIMARY_DATA \<equiv> 0x1F0"
abbreviation ATA_PRIMARY_SECCOUNT :: u16 where "ATA_PRIMARY_SECCOUNT \<equiv> 0x1F2"
abbreviation ATA_PRIMARY_LBA_LO :: u16 where "ATA_PRIMARY_LBA_LO \<equiv> 0x1F3"
abbreviation ATA_PRIMARY_LBA_MID :: u16 where "ATA_PRIMARY_LBA_MID \<equiv> 0x1F4"
abbreviation ATA_PRIMARY_LBA_HI :: u16 where "ATA_PRIMARY_LBA_HI \<equiv> 0x1F5"
abbreviation ATA_PRIMARY_DRIVE_HEAD :: u16 where "ATA_PRIMARY_DRIVE_HEAD \<equiv> 0x1F6"
abbreviation ATA_PRIMARY_STATUS_CMD :: u16 where "ATA_PRIMARY_STATUS_CMD \<equiv> 0x1F7"
abbreviation ATA_PRIMARY_CTRL :: u16 where "ATA_PRIMARY_CTRL \<equiv> 0x3F6"
abbreviation ATA_CMD_READ_PIO :: u8 where "ATA_CMD_READ_PIO \<equiv> 0x20"
abbreviation ATA_CMD_WRITE_PIO :: u8 where "ATA_CMD_WRITE_PIO \<equiv> 0x30"
abbreviation ATA_CMD_CACHE_FLUSH :: u8 where "ATA_CMD_CACHE_FLUSH \<equiv> 0xE7"
abbreviation ATA_CMD_IDENTIFY :: u8 where "ATA_CMD_IDENTIFY \<equiv> 0xEC"
abbreviation ATA_SR_BSY :: u8 where "ATA_SR_BSY \<equiv> 0x80"
abbreviation ATA_SR_DRQ :: u8 where "ATA_SR_DRQ \<equiv> 0x08"
abbreviation ATA_SR_ERR :: u8 where "ATA_SR_ERR \<equiv> 0x01"

definition io_delay :: "'d ports \<Rightarrow> 'd \<Rightarrow> 'd" where
  "io_delay P = fold (\<lambda>_ d. snd (inb P ATA_PRIMARY_CTRL d)) [0..<4]"

fun poll_not_busy :: "'d ports \<Rightarrow> nat \<Rightarrow> 'd \<Rightarrow> bool \<times> 'd" where
  "poll_not_busy P 0 d = (False, d)"
| "poll_not_busy P (Suc n) d =
     (case inb P ATA_PRIMARY_STATUS_CMD d of (status, d') \<Rightarrow>
        if status = 0xFF then (False, d')
        else if status AND ATA_SR_BSY = 0 then (True, d')
        else poll_not_busy P n d')"

definition wait_not_busy :: "'d ports \<Rightarrow> 'd \<Rightarrow> bool \<times> 'd" where
  "wait_not_busy P = poll_not_busy P 100000"

fun poll_drq :: "'d ports \<Rightarrow> nat \<Rightarrow> 'd \<Rightarrow> bool \<times> 'd" where
  "poll_drq P 0 d = (False, d)"
| "poll_drq P (Suc n) d =
     (case inb P ATA_PRIMARY_STATUS_CMD d of (status, d') \<Rightarrow>
        if status AND ATA_SR_ERR \<noteq> 0 then (False, d')
        else if status AND ATA_SR_BSY = 0 \<and> status AND ATA_SR_DRQ \<noteq> 0 then (True, d')
        else poll_drq P n d')"

definition wait_drq :: "'d ports \<Rightarrow> 'd \<Rightarrow> bool \<times> 'd" where
  "wait_drq P = poll_drq P 100000"

fun read_words :: "'d ports \<Rightarrow> nat \<Rightarrow> 'd \<Rightarrow> u16 list \<times> 'd" where
  "read_words P 0 d = ([], d)"
| "read_words P (Suc n) d =
     (case inw P ATA_PRIMARY_DATA d of (w, d1) \<Rightarrow> case read_words P n d1 of (ws, d2) \<Rightarrow> (w # ws, d2))"

definition ata_init :: "'d ports \<Rightarrow> bool \<times> 'd \<Rightarrow> bool \<times> 'd" where
  "ata_init P = (\<lambda>(present, d0).
     case inb P ATA_PRIMARY_STATUS_CMD d0 of (status, d1) \<Rightarrow>
     if status = 0xFF then (present, d1)
     else let
       d2 = io_delay P (outb P ATA_PRIMARY_DRIVE_HEAD 0xA0 d1);
       d3 = outb P ATA_PRIMARY_LBA_HI 0 (outb P ATA_PRIMARY_LBA_MID 0 (outb P ATA_PRIMARY_LBA_LO 0
              (outb P ATA_PRIMARY_SECCOUNT 0 d2)));
       d4 = io_delay P (outb P ATA_PRIMARY_STATUS_CMD ATA_CMD_IDENTIFY d3)
     in case inb P ATA_PRIMARY_STATUS_CMD d4 of (st, d5) \<Rightarrow>
        if st = 0 then (present, d5)
        else case wait_not_busy P d5 of (free, d6) \<Rightarrow>
          if \<not> free then (present, d6)
          else case inb P ATA_PRIMARY_LBA_MID d6 of (lba_mid, d7) \<Rightarrow>
               case inb P ATA_PRIMARY_LBA_HI d7 of (lba_hi, d8) \<Rightarrow>
            if lba_mid \<noteq> 0 \<or> lba_hi \<noteq> 0 then (present, d8)
            else case wait_drq P d8 of (drq, d9) \<Rightarrow>
              if \<not> drq then (present, d9)
              else case read_words P 256 d9 of (ident, d10) \<Rightarrow>
                ((ucast (ident ! 60) OR push_bit 16 (ucast (ident ! 61)) :: u32) > 0, d10))"

definition ata_available :: "bool \<times> 'd \<Rightarrow> bool" where
  "ata_available s = fst s"

text \<open>The registers of a transfer: one sector at a 28-bit address.\<close>

definition select_sector :: "'d ports \<Rightarrow> u32 \<Rightarrow> 'd \<Rightarrow> 'd" where
  "select_sector P lba d =
     outb P ATA_PRIMARY_LBA_HI (ucast (drop_bit 16 lba AND 0xFF))
       (outb P ATA_PRIMARY_LBA_MID (ucast (drop_bit 8 lba AND 0xFF))
         (outb P ATA_PRIMARY_LBA_LO (ucast (lba AND 0xFF))
           (outb P ATA_PRIMARY_SECCOUNT 1
             (outb P ATA_PRIMARY_DRIVE_HEAD (0xE0 OR ucast (drop_bit 24 lba AND 0x0F)) d))))"

definition bytes_of_words :: "u16 list \<Rightarrow> sector" where
  "bytes_of_words ws = concat (map (\<lambda>w. [ucast (w AND 0xFF), ucast (drop_bit 8 w)]) ws)"

definition sector_words :: "sector \<Rightarrow> u16 list" where
  "sector_words buf = map (\<lambda>i. ucast (buf ! (2 * i)) OR push_bit 8 (ucast (buf ! (2 * i + 1)))) [0..<256]"

definition ata_read_sector :: "'d ports \<Rightarrow> u32 \<Rightarrow> bool \<times> 'd \<Rightarrow> sector option \<times> bool \<times> 'd" where
  "ata_read_sector P lba = (\<lambda>(present, d0).
     if \<not> present then (None, present, d0)
     else case wait_not_busy P d0 of (free, d1) \<Rightarrow>
       if \<not> free then (None, present, d1)
       else case wait_drq P (outb P ATA_PRIMARY_STATUS_CMD ATA_CMD_READ_PIO (select_sector P lba d1)) of (drq, d2) \<Rightarrow>
         if \<not> drq then (None, present, d2)
         else case read_words P 256 d2 of (ws, d3) \<Rightarrow> (Some (bytes_of_words ws), present, d3))"

definition ata_write_sector :: "'d ports \<Rightarrow> u32 \<Rightarrow> sector \<Rightarrow> bool \<times> 'd \<Rightarrow> bool \<times> bool \<times> 'd" where
  "ata_write_sector P lba buf = (\<lambda>(present, d0).
     if \<not> present then (False, present, d0)
     else case wait_not_busy P d0 of (free, d1) \<Rightarrow>
       if \<not> free then (False, present, d1)
       else case wait_drq P (outb P ATA_PRIMARY_STATUS_CMD ATA_CMD_WRITE_PIO (select_sector P lba d1)) of (drq, d2) \<Rightarrow>
         if \<not> drq then (False, present, d2)
         else case wait_not_busy P (outb P ATA_PRIMARY_STATUS_CMD ATA_CMD_CACHE_FLUSH
                (fold (outw P ATA_PRIMARY_DATA) (sector_words buf) d2)) of (ok, d3) \<Rightarrow> (ok, present, d3))"

definition ata_driver :: "'d ports \<Rightarrow> (u32, bool \<times> 'd) disk_driver" where
  "ata_driver P = \<lparr>dd_available = ata_available, dd_read = ata_read_sector P, dd_write = ata_write_sector P\<rparr>"

section \<open>The documented behaviour of a disk\<close>

text \<open>
  The view of a device: how many polls it stays busy, the transfer that is under way with the words
  still to read or already written, the registers of the task file and the sectors.
\<close>

datatype ata_phase = Idle | Reading "u16 list" | Writing u32 "u16 list"

record ata_view =
  at_busy :: nat
  at_phase :: ata_phase
  at_drive :: u8
  at_count :: u8
  at_lo :: u8
  at_mid :: u8
  at_hi :: u8
  at_sectors :: "u32 \<Rightarrow> sector"

definition at_lba :: "ata_view \<Rightarrow> u32" where
  "at_lba v = ucast (at_lo v) OR push_bit 8 (ucast (at_mid v)) OR push_bit 16 (ucast (at_hi v)) OR
     push_bit 24 (ucast (at_drive v AND 0x0F))"

text \<open>The status register: busy, or free with the data request on during a transfer; no error.\<close>

definition status_ok :: "ata_view \<Rightarrow> u8 \<Rightarrow> bool" where
  "status_ok v st \<longleftrightarrow> st AND ATA_SR_ERR = 0 \<and> (st AND ATA_SR_BSY = 0 \<longleftrightarrow> at_busy v = 0) \<and>
     (at_busy v = 0 \<longrightarrow> (st AND ATA_SR_DRQ \<noteq> 0 \<longleftrightarrow> at_phase v \<noteq> Idle))"

definition free :: "ata_view \<Rightarrow> bool" where
  "free v \<longleftrightarrow> at_busy v = 0 \<and> at_phase v = Idle"

definition soon :: "nat \<Rightarrow> bool" where
  "soon n \<longleftrightarrow> n < 100000"

definition status_laws :: "'d ports \<Rightarrow> ('d \<Rightarrow> ata_view) \<Rightarrow> bool" where
  "status_laws P view \<longleftrightarrow>
     (\<forall>d. status_ok (view d) (fst (inb P ATA_PRIMARY_STATUS_CMD d)) \<and>
        view (snd (inb P ATA_PRIMARY_STATUS_CMD d)) = (view d)\<lparr>at_busy := at_busy (view d) - 1\<rparr>) \<and>
     (\<forall>d. view (snd (inb P ATA_PRIMARY_CTRL d)) = view d) \<and>
     (\<forall>d. free (view d) \<or> at_busy (view d) = 0 \<longrightarrow>
        fst (inb P ATA_PRIMARY_LBA_MID d) = at_mid (view d) \<and> view (snd (inb P ATA_PRIMARY_LBA_MID d)) = view d \<and>
        fst (inb P ATA_PRIMARY_LBA_HI d) = at_hi (view d) \<and> view (snd (inb P ATA_PRIMARY_LBA_HI d)) = view d)"

definition register_laws :: "'d ports \<Rightarrow> ('d \<Rightarrow> ata_view) \<Rightarrow> bool" where
  "register_laws P view \<longleftrightarrow>
     (\<forall>d b. free (view d) \<longrightarrow>
        view (outb P ATA_PRIMARY_DRIVE_HEAD b d) = (view d)\<lparr>at_drive := b\<rparr> \<and>
        view (outb P ATA_PRIMARY_SECCOUNT b d) = (view d)\<lparr>at_count := b\<rparr> \<and>
        view (outb P ATA_PRIMARY_LBA_LO b d) = (view d)\<lparr>at_lo := b\<rparr> \<and>
        view (outb P ATA_PRIMARY_LBA_MID b d) = (view d)\<lparr>at_mid := b\<rparr> \<and>
        view (outb P ATA_PRIMARY_LBA_HI b d) = (view d)\<lparr>at_hi := b\<rparr>)"

text \<open>
  The commands. The driver sends the flush right after the last word of a sector, when a device may
  still be busy with it; that it takes the command then is part of the laws.
\<close>

definition command_laws :: "'d ports \<Rightarrow> ('d \<Rightarrow> ata_view) \<Rightarrow> bool" where
  "command_laws P view \<longleftrightarrow>
     (\<forall>d. free (view d) \<longrightarrow> at_drive (view d) AND 0xF0 = 0xE0 \<longrightarrow> at_count (view d) = 1 \<longrightarrow>
        (\<exists>n. soon n \<and> view (outb P ATA_PRIMARY_STATUS_CMD ATA_CMD_READ_PIO d) =
           (view d)\<lparr>at_busy := n, at_phase := Reading (sector_words (at_sectors (view d) (at_lba (view d))))\<rparr>) \<and>
        (\<exists>n. soon n \<and> view (outb P ATA_PRIMARY_STATUS_CMD ATA_CMD_WRITE_PIO d) =
           (view d)\<lparr>at_busy := n, at_phase := Writing (at_lba (view d)) []\<rparr>)) \<and>
     (\<forall>d. at_phase (view d) = Idle \<longrightarrow>
        (\<exists>n. soon n \<and> view (outb P ATA_PRIMARY_STATUS_CMD ATA_CMD_CACHE_FLUSH d) = (view d)\<lparr>at_busy := n\<rparr>))"

definition data_laws :: "'d ports \<Rightarrow> ('d \<Rightarrow> ata_view) \<Rightarrow> bool" where
  "data_laws P view \<longleftrightarrow>
     (\<forall>d w ws. at_busy (view d) = 0 \<longrightarrow> at_phase (view d) = Reading (w # ws) \<longrightarrow>
        fst (inw P ATA_PRIMARY_DATA d) = w \<and>
        view (snd (inw P ATA_PRIMARY_DATA d)) = (view d)\<lparr>at_phase := (if ws = [] then Idle else Reading ws)\<rparr>) \<and>
     (\<forall>d lba ws w. at_busy (view d) = 0 \<longrightarrow> at_phase (view d) = Writing lba ws \<longrightarrow>
        (length ws < 255 \<longrightarrow> view (outw P ATA_PRIMARY_DATA w d) = (view d)\<lparr>at_phase := Writing lba (ws @ [w])\<rparr>) \<and>
        (length ws = 255 \<longrightarrow> (\<exists>n. view (outw P ATA_PRIMARY_DATA w d) =
           (view d)\<lparr>at_busy := n, at_phase := Idle, at_sectors := (at_sectors (view d))(lba := bytes_of_words (ws @ [w]))\<rparr>)))"

text \<open>A device with \<open>capacity\<close> sectors identifies itself with 256 words.\<close>

definition identify_laws :: "'d ports \<Rightarrow> ('d \<Rightarrow> ata_view) \<Rightarrow> u32 \<Rightarrow> bool" where
  "identify_laws P view capacity \<longleftrightarrow>
     (\<forall>d. free (view d) \<longrightarrow>
        (\<exists>n ws. soon n \<and> length ws = 256 \<and> ucast (ws ! 60) OR push_bit 16 (ucast (ws ! 61)) = capacity \<and>
           view (outb P ATA_PRIMARY_STATUS_CMD ATA_CMD_IDENTIFY d) = (view d)\<lparr>at_busy := n, at_phase := Reading ws\<rparr>))"

definition ata_laws :: "'d ports \<Rightarrow> ('d \<Rightarrow> ata_view) \<Rightarrow> u32 \<Rightarrow> bool" where
  "ata_laws P view capacity \<longleftrightarrow>
     status_laws P view \<and> register_laws P view \<and> command_laws P view \<and> data_laws P view \<and>
     identify_laws P view capacity"

section \<open>Waiting and transfers\<close>

lemma poll_not_busy_ends:
  assumes "status_laws P view"
  shows "at_busy (view d) < n \<Longrightarrow> \<exists>d'. poll_not_busy P n d = (True, d') \<and> view d' = (view d)\<lparr>at_busy := 0\<rparr>"
proof (induction n arbitrary: d)
  case (Suc n)
  obtain st d1 where i: "inb P ATA_PRIMARY_STATUS_CMD d = (st, d1)" by fastforce
  then have st: "status_ok (view d) st" and d1: "view d1 = (view d)\<lparr>at_busy := at_busy (view d) - 1\<rparr>"
    using assms by (auto simp: status_laws_def dest: spec [of _ d])
  have ff: "st \<noteq> 0xFF" using st by (auto simp: status_ok_def)
  show ?case
  proof (cases "at_busy (view d) = 0")
    case True
    then have "view d1 = (view d)\<lparr>at_busy := 0\<rparr>" using d1 by simp
    with True st ff i show ?thesis by (simp add: status_ok_def)
  next
    case False
    then have "at_busy (view d1) < n" using Suc.prems d1 by simp
    from Suc.IH [OF this] obtain d' where "poll_not_busy P n d1 = (True, d')" "view d' = (view d)\<lparr>at_busy := 0\<rparr>"
      by (auto simp: d1)
    with False st ff i show ?thesis by (simp add: status_ok_def)
  qed
qed simp

lemma poll_drq_ends:
  assumes "status_laws P view"
  shows "at_busy (view d) < n \<Longrightarrow> at_phase (view d) \<noteq> Idle \<Longrightarrow>
    \<exists>d'. poll_drq P n d = (True, d') \<and> view d' = (view d)\<lparr>at_busy := 0\<rparr>"
proof (induction n arbitrary: d)
  case (Suc n)
  obtain st d1 where i: "inb P ATA_PRIMARY_STATUS_CMD d = (st, d1)" by fastforce
  then have st: "status_ok (view d) st" and d1: "view d1 = (view d)\<lparr>at_busy := at_busy (view d) - 1\<rparr>"
    using assms by (auto simp: status_laws_def dest: spec [of _ d])
  show ?case
  proof (cases "at_busy (view d) = 0")
    case True
    then have "view d1 = (view d)\<lparr>at_busy := 0\<rparr>" using d1 by simp
    with True st Suc.prems i show ?thesis by (simp add: status_ok_def)
  next
    case False
    then have "at_busy (view d1) < n" "at_phase (view d1) \<noteq> Idle" using Suc.prems d1 by simp_all
    from Suc.IH [OF this] obtain d' where "poll_drq P n d1 = (True, d')" "view d' = (view d)\<lparr>at_busy := 0\<rparr>"
      by (auto simp: d1)
    with False st i show ?thesis by (simp add: status_ok_def)
  qed
qed simp

lemma words_read:
  assumes "data_laws P view"
  shows "at_busy (view d) = 0 \<Longrightarrow> at_phase (view d) = Reading ws \<Longrightarrow> ws \<noteq> [] \<Longrightarrow>
    \<exists>d'. read_words P (length ws) d = (ws, d') \<and> view d' = (view d)\<lparr>at_phase := Idle\<rparr>"
proof (induction ws arbitrary: d)
  case (Cons w ws)
  obtain w' d1 where i: "inw P ATA_PRIMARY_DATA d = (w', d1)" by fastforce
  have "fst (inw P ATA_PRIMARY_DATA d) = w \<and>
      view (snd (inw P ATA_PRIMARY_DATA d)) = (view d)\<lparr>at_phase := (if ws = [] then Idle else Reading ws)\<rparr>"
    using assms Cons.prems(1,2) unfolding data_laws_def by blast
  then have d1: "w' = w" "view d1 = (view d)\<lparr>at_phase := (if ws = [] then Idle else Reading ws)\<rparr>" using i by simp_all
  show ?case
  proof (cases "ws = []")
    case False
    with Cons.IH [of d1] Cons.prems(1) d1(2) obtain d' where
      "read_words P (length ws) d1 = (ws, d')" "view d' = (view d)\<lparr>at_phase := Idle\<rparr>" by auto
    with i d1(1) show ?thesis by simp
  qed (use i d1 in simp)
qed simp

lemma words_written:
  assumes "data_laws P view"
  shows "at_busy (view d) = 0 \<Longrightarrow> at_phase (view d) = Writing lba vs \<Longrightarrow> ws \<noteq> [] \<Longrightarrow> length vs + length ws = 256 \<Longrightarrow>
    \<exists>n. view (fold (outw P ATA_PRIMARY_DATA) ws d) =
      (view d)\<lparr>at_busy := n, at_phase := Idle, at_sectors := (at_sectors (view d))(lba := bytes_of_words (vs @ ws))\<rparr>"
proof (induction ws arbitrary: vs d)
  case (Cons w ws)
  let ?d = "outw P ATA_PRIMARY_DATA w d"
  have law: "(length vs < 255 \<longrightarrow> view ?d = (view d)\<lparr>at_phase := Writing lba (vs @ [w])\<rparr>) \<and>
      (length vs = 255 \<longrightarrow> (\<exists>n. view ?d =
         (view d)\<lparr>at_busy := n, at_phase := Idle, at_sectors := (at_sectors (view d))(lba := bytes_of_words (vs @ [w]))\<rparr>))"
    using assms Cons.prems(1,2) unfolding data_laws_def by blast
  show ?case
  proof (cases "ws = []")
    case True
    then have "\<exists>n. view ?d = (view d)
        \<lparr>at_busy := n, at_phase := Idle, at_sectors := (at_sectors (view d))(lba := bytes_of_words (vs @ [w]))\<rparr>"
      using law Cons.prems(4) by simp
    with True show ?thesis by (simp only: fold_simps id_apply)
  next
    case False
    then have v: "view ?d = (view d)\<lparr>at_phase := Writing lba (vs @ [w])\<rparr>"
      using law Cons.prems(4) by (cases ws) auto
    with Cons.IH [of ?d "vs @ [w]"] False Cons.prems show ?thesis by simp
  qed
qed simp

section \<open>Sectors\<close>

lemma word_bytes:
  fixes a b :: u8
  defines "w \<equiv> ucast a OR push_bit 8 (ucast b) :: u16"
  shows "ucast (w AND 0xFF) = a" "ucast (drop_bit 8 w) = b"
proof -
  have ff: "(0xFF :: u16) = mask 8" by (simp add: mask_eq_exp_minus_1)
  show "ucast (w AND 0xFF) = a" unfolding w_def ff by (rule bit_word_eqI) (auto simp: bit_simps)
  show "ucast (drop_bit 8 w) = b"
    unfolding w_def by (rule bit_word_eqI) (auto simp: bit_simps dest: bit_imp_le_length)
qed

lemma pairs_upto: "concat (map (\<lambda>i. [xs ! (2 * i), xs ! (2 * i + 1)]) [0..<n]) = map ((!) xs) [0..<2 * n]"
  by (induction n) simp_all

lemma bytes_of_sector_words [simp]: "length buf = 512 \<Longrightarrow> bytes_of_words (sector_words buf) = buf"
proof -
  assume l: "length buf = 512"
  have "bytes_of_words (sector_words buf) = concat (map (\<lambda>i. [buf ! (2 * i), buf ! (2 * i + 1)]) [0..<256])"
    by (simp only: bytes_of_words_def sector_words_def map_map comp_def word_bytes)
  also have "\<dots> = map ((!) buf) [0..<2 * 256]" by (rule pairs_upto)
  also have "\<dots> = buf" using map_nth [of buf] by (simp only: l) simp
  finally show ?thesis .
qed

lemma length_sector_words [simp]: "length (sector_words buf) = 256"
  by (simp add: sector_words_def)

lemma select_sector_view:
  assumes "register_laws P view" "free (view d)"
  shows "view (select_sector P lba d) = (view d)
    \<lparr>at_drive := 0xE0 OR ucast (drop_bit 24 lba AND 0x0F), at_count := 1, at_lo := ucast (lba AND 0xFF),
     at_mid := ucast (drop_bit 8 lba AND 0xFF), at_hi := ucast (drop_bit 16 lba AND 0xFF)\<rparr>"
proof -
  have r: "view (outb P ATA_PRIMARY_DRIVE_HEAD b e) = (view e)\<lparr>at_drive := b\<rparr>"
    "view (outb P ATA_PRIMARY_SECCOUNT b e) = (view e)\<lparr>at_count := b\<rparr>"
    "view (outb P ATA_PRIMARY_LBA_LO b e) = (view e)\<lparr>at_lo := b\<rparr>"
    "view (outb P ATA_PRIMARY_LBA_MID b e) = (view e)\<lparr>at_mid := b\<rparr>"
    "view (outb P ATA_PRIMARY_LBA_HI b e) = (view e)\<lparr>at_hi := b\<rparr>" if "free (view e)" for b e
    using assms(1) that unfolding register_laws_def by blast+
  show ?thesis using assms(2) by (simp add: select_sector_def r free_def)
qed

lemma selected_lba:
  fixes lba :: u32 and v0 :: ata_view
  defines "v \<equiv> v0\<lparr>at_drive := 0xE0 OR ucast (drop_bit 24 lba AND 0x0F), at_count := 1, at_lo := ucast (lba AND 0xFF),
     at_mid := ucast (drop_bit 8 lba AND 0xFF), at_hi := ucast (drop_bit 16 lba AND 0xFF)\<rparr>"
  shows "at_lba v = lba AND 0x0FFFFFFF" "at_drive v AND 0xF0 = 0xE0"
proof -
  have m: "(0xFF :: u32) = mask 8" "(0x0F :: u32) = mask 4" "(0x0F :: u8) = mask 4" "(0x0FFFFFFF :: u32) = mask 28"
    "(0xE0 :: u8) = push_bit 5 (mask 3)" "(0xF0 :: u8) = push_bit 4 (mask 4)"
    by (simp_all add: mask_eq_exp_minus_1 push_bit_eq_mult)
  have f: "at_lo v = ucast (lba AND 0xFF)" "at_mid v = ucast (drop_bit 8 lba AND 0xFF)"
    "at_hi v = ucast (drop_bit 16 lba AND 0xFF)" "at_drive v = 0xE0 OR ucast (drop_bit 24 lba AND 0x0F)"
    by (simp_all add: v_def)
  have b: "ucast (ucast (x AND mask 8) :: u8) = take_bit 8 x" for x :: u32
    by (rule bit_word_eqI) (auto simp: bit_simps)
  have d: "ucast ((push_bit 5 (mask 3) OR ucast (x AND mask 4) :: u8) AND mask 4) = take_bit 4 x" for x :: u32
    by (rule bit_word_eqI) (auto simp: bit_simps)
  have join: "take_bit n x OR push_bit n (take_bit k (drop_bit n x)) = take_bit (n + k) x" for n k and x :: u32
    by (rule bit_word_eqI) (auto simp: bit_simps)
  have "at_lba v = take_bit 8 lba OR push_bit 8 (take_bit 8 (drop_bit 8 lba)) OR
      push_bit 16 (take_bit 8 (drop_bit 16 lba)) OR push_bit 24 (take_bit 4 (drop_bit 24 lba))"
    by (simp only: at_lba_def f m b d)
  also have "\<dots> = take_bit 28 lba"
    using join [of 8 lba 8] join [of 16 lba 8] join [of 24 lba 4] by (simp flip: or.assoc)
  finally show "at_lba v = lba AND 0x0FFFFFFF" by (simp only: m take_bit_eq_mask)
  show "at_drive v AND 0xF0 = 0xE0"
    unfolding f m by (rule bit_word_eqI) (auto simp: bit_simps)
qed

definition ata_good :: "('d \<Rightarrow> ata_view) \<Rightarrow> bool \<times> 'd \<Rightarrow> bool" where
  "ata_good view s \<longleftrightarrow> fst s \<and> at_phase (view (snd s)) = Idle \<and> soon (at_busy (view (snd s))) \<and>
     (\<forall>lba. length (at_sectors (view (snd s)) lba) = 512)"

text \<open>A command on a good device, after the wait and up to the data request.\<close>

lemma command_accepted:
  assumes laws: "ata_laws P view capacity" and good: "ata_good view (True, d)"
  obtains d1 d2 d3 where "wait_not_busy P d = (True, d1)"
    "wait_drq P (outb P ATA_PRIMARY_STATUS_CMD ATA_CMD_READ_PIO (select_sector P lba d1)) = (True, d2)"
    "at_busy (view d2) = 0" "at_sectors (view d2) = at_sectors (view d)"
    "at_phase (view d2) = Reading (sector_words (at_sectors (view d) (lba AND 0x0FFFFFFF)))"
    "wait_drq P (outb P ATA_PRIMARY_STATUS_CMD ATA_CMD_WRITE_PIO (select_sector P lba d1)) = (True, d3)"
    "at_busy (view d3) = 0" "at_sectors (view d3) = at_sectors (view d)"
    "at_phase (view d3) = Writing (lba AND 0x0FFFFFFF) []"
proof -
  have l: "status_laws P view" "register_laws P view" "command_laws P view" using laws by (simp_all add: ata_laws_def)
  obtain d1 where d1: "wait_not_busy P d = (True, d1)" "view d1 = (view d)\<lparr>at_busy := 0\<rparr>"
    using poll_not_busy_ends [OF l(1), of d 100000] good by (auto simp: wait_not_busy_def ata_good_def soon_def)
  have f1: "free (view d1)" using good d1(2) by (simp add: free_def ata_good_def)
  let ?s = "select_sector P lba d1"
  note sel = select_sector_view [OF l(2) f1, of lba]
  have regs: "free (view ?s)" "at_drive (view ?s) AND 0xF0 = 0xE0" "at_count (view ?s) = 1"
    "at_lba (view ?s) = lba AND 0x0FFFFFFF" "at_sectors (view ?s) = at_sectors (view d)"
    unfolding sel selected_lba using f1 d1(2) by (simp_all add: free_def)
  obtain n where n: "soon n" "view (outb P ATA_PRIMARY_STATUS_CMD ATA_CMD_READ_PIO ?s) =
      (view ?s)\<lparr>at_busy := n, at_phase := Reading (sector_words (at_sectors (view d) (lba AND 0x0FFFFFFF)))\<rparr>"
    using l(3) regs(1-3) unfolding command_laws_def by (metis regs(4,5))
  obtain k where k: "soon k" "view (outb P ATA_PRIMARY_STATUS_CMD ATA_CMD_WRITE_PIO ?s) =
      (view ?s)\<lparr>at_busy := k, at_phase := Writing (lba AND 0x0FFFFFFF) []\<rparr>"
    using l(3) regs(1-3) unfolding command_laws_def by (metis regs(4))
  obtain d2 where d2: "wait_drq P (outb P ATA_PRIMARY_STATUS_CMD ATA_CMD_READ_PIO ?s) = (True, d2)"
    "view d2 = (view (outb P ATA_PRIMARY_STATUS_CMD ATA_CMD_READ_PIO ?s))\<lparr>at_busy := 0\<rparr>"
    using poll_drq_ends [OF l(1), of "outb P ATA_PRIMARY_STATUS_CMD ATA_CMD_READ_PIO ?s" 100000] n
    by (auto simp: wait_drq_def soon_def)
  obtain d3 where d3: "wait_drq P (outb P ATA_PRIMARY_STATUS_CMD ATA_CMD_WRITE_PIO ?s) = (True, d3)"
    "view d3 = (view (outb P ATA_PRIMARY_STATUS_CMD ATA_CMD_WRITE_PIO ?s))\<lparr>at_busy := 0\<rparr>"
    using poll_drq_ends [OF l(1), of "outb P ATA_PRIMARY_STATUS_CMD ATA_CMD_WRITE_PIO ?s" 100000] k
    by (auto simp: wait_drq_def soon_def)
  show thesis by (rule that [OF d1(1) d2(1) _ _ _ d3(1)]) (simp_all add: d2(2) d3(2) n k regs)
qed

lemma ata_read:
  assumes laws: "ata_laws P view capacity" and good: "ata_good view s"
  shows "\<exists>s'. ata_read_sector P lba s = (Some (at_sectors (view (snd s)) (lba AND 0x0FFFFFFF)), s') \<and> ata_good view s' \<and>
    at_sectors (view (snd s')) = at_sectors (view (snd s))"
proof -
  obtain d where s: "s = (True, d)" using good by (cases s) (simp add: ata_good_def)
  let ?sec = "at_sectors (view d) (lba AND 0x0FFFFFFF)"
  obtain d1 d2 where c: "wait_not_busy P d = (True, d1)"
    "wait_drq P (outb P ATA_PRIMARY_STATUS_CMD ATA_CMD_READ_PIO (select_sector P lba d1)) = (True, d2)"
    "at_busy (view d2) = 0" "at_sectors (view d2) = at_sectors (view d)" "at_phase (view d2) = Reading (sector_words ?sec)"
    by (rule command_accepted [OF laws good [unfolded s], of lba])
  have "sector_words ?sec \<noteq> []" using length_sector_words [of ?sec] by (metis list.size(3) zero_neq_numeral)
  then obtain d3 where d3: "read_words P 256 d2 = (sector_words ?sec, d3)" "view d3 = (view d2)\<lparr>at_phase := Idle\<rparr>"
    using words_read [of P view d2 "sector_words ?sec"] laws c(3,5) by (auto simp: ata_laws_def)
  have "length ?sec = 512" using good s by (simp add: ata_good_def)
  then have "ata_read_sector P lba s = (Some ?sec, (True, d3))" by (simp add: ata_read_sector_def s c d3(1))
  moreover have "ata_good view (True, d3)" by (use good s in \<open>simp add: ata_good_def d3(2) c(3,4) soon_def\<close>)
  ultimately show ?thesis using d3(2) c(4) s by auto
qed

lemma flush_law:
  assumes "command_laws P view" "at_phase (view d) = Idle"
  shows "\<exists>k. soon k \<and> view (outb P ATA_PRIMARY_STATUS_CMD ATA_CMD_CACHE_FLUSH d) = (view d)\<lparr>at_busy := k\<rparr>"
  using assms unfolding command_laws_def by blast

lemma ata_write:
  assumes laws: "ata_laws P view capacity" and good: "ata_good view s" and buf: "length buf = 512"
  shows "\<exists>s'. ata_write_sector P lba buf s = (True, s') \<and> ata_good view s' \<and>
    at_sectors (view (snd s')) = (at_sectors (view (snd s)))(lba AND 0x0FFFFFFF := buf)"
proof -
  obtain d where s: "s = (True, d)" using good by (cases s) (simp add: ata_good_def)
  obtain d1 d2 where c: "wait_not_busy P d = (True, d1)"
    "wait_drq P (outb P ATA_PRIMARY_STATUS_CMD ATA_CMD_WRITE_PIO (select_sector P lba d1)) = (True, d2)"
    "at_busy (view d2) = 0" "at_sectors (view d2) = at_sectors (view d)" "at_phase (view d2) = Writing (lba AND 0x0FFFFFFF) []"
    by (rule command_accepted [OF laws good [unfolded s], of lba])
  let ?e = "fold (outw P ATA_PRIMARY_DATA) (sector_words buf) d2"
  have "sector_words buf \<noteq> []" using length_sector_words [of buf] by (metis list.size(3) zero_neq_numeral)
  then obtain n where e: "view ?e =
      (view d2)\<lparr>at_busy := n, at_phase := Idle, at_sectors := (at_sectors (view d2))(lba AND 0x0FFFFFFF := buf)\<rparr>"
    using words_written [of P view d2 "lba AND 0x0FFFFFFF" "[]" "sector_words buf"] laws c(3,5) buf
    by (auto simp: ata_laws_def)
  then obtain k where k: "soon k" "view (outb P ATA_PRIMARY_STATUS_CMD ATA_CMD_CACHE_FLUSH ?e) = (view ?e)\<lparr>at_busy := k\<rparr>"
    using laws flush_law [of P view ?e] by (auto simp: ata_laws_def)
  obtain d3 where d3: "wait_not_busy P (outb P ATA_PRIMARY_STATUS_CMD ATA_CMD_CACHE_FLUSH ?e) = (True, d3)"
    "view d3 = (view (outb P ATA_PRIMARY_STATUS_CMD ATA_CMD_CACHE_FLUSH ?e))\<lparr>at_busy := 0\<rparr>"
    using poll_not_busy_ends [of P view "outb P ATA_PRIMARY_STATUS_CMD ATA_CMD_CACHE_FLUSH ?e" 100000] laws k
    by (auto simp: wait_not_busy_def soon_def ata_laws_def)
  have "ata_write_sector P lba buf s = (True, (True, d3))" by (simp add: ata_write_sector_def s c d3(1))
  moreover have "ata_good view (True, d3)" by (use good s buf in \<open>simp add: ata_good_def d3(2) k(2) e c(4) soon_def\<close>)
  moreover have "at_sectors (view d3) = (at_sectors (view d))(lba AND 0x0FFFFFFF := buf)"
    by (simp add: d3(2) k(2) e c(4))
  ultimately show ?thesis using s by auto
qed

section \<open>The driver as a store of sectors\<close>

definition ata_disks :: "'d ports \<Rightarrow> (bool \<times> 'd) disks" where
  "ata_disks P = \<lparr>nvme = no_driver, ahci = no_driver, ata = ata_driver P\<rparr>"

definition ata_store :: "('d \<Rightarrow> ata_view) \<Rightarrow> bool \<times> 'd \<Rightarrow> u64 \<Rightarrow> sector" where
  "ata_store view s lba = (if lba < 0x10000000 then at_sectors (view (snd s)) (ucast lba) else [])"

lemma lba_28:
  fixes a b :: u64
  assumes "a < 0x10000000"
  shows "a \<le> 0x0FFFFFFF" "ucast a AND 0x0FFFFFFF = (ucast a :: u32)"
    "b < 0x10000000 \<Longrightarrow> (ucast b :: u32) = ucast a \<longleftrightarrow> b = a"
proof -
  have n: "unat a < 2 ^ 28" using assms by (simp add: word_less_nat_alt)
  then show "a \<le> 0x0FFFFFFF" by (simp add: word_le_nat_alt)
  have u: "unat (ucast c :: u32) = unat c" if "c < 0x10000000" for c :: u64
    using that by (simp add: unsigned_ucast_eq take_bit_nat_eq_self word_less_nat_alt)
  show "b < 0x10000000 \<Longrightarrow> (ucast b :: u32) = ucast a \<longleftrightarrow> b = a"
    using u [of b] u [OF assms] by (metis word_unat_eq_iff)
  have "take_bit 28 (ucast a :: u32) = ucast a"
    by (simp only: word_unat_eq_iff unsigned_take_bit_eq u [OF assms]) (use n in \<open>simp add: take_bit_nat_eq_self\<close>)
  moreover have "(0x0FFFFFFF :: u32) = mask 28" by (simp add: mask_eq_exp_minus_1)
  ultimately show "ucast a AND 0x0FFFFFFF = (ucast a :: u32)" by (simp only: take_bit_eq_mask)
qed

lemma routed_to_ata:
  assumes "ata_good view s" "lba < 0x10000000"
  shows "read_disk_sector (ata_disks P) lba s = ata_read_sector P (ucast lba) s"
    "write_disk_sector (ata_disks P) lba buf s = ata_write_sector P (ucast lba) buf s"
    "has_physical_disk (ata_disks P) s"
  using assms lba_28(1) [OF assms(2)]
  by (simp_all add: read_disk_sector_def write_disk_sector_def has_physical_disk_def ata_disks_def no_driver_def
      ata_driver_def ata_available_def ata_good_def)

lemma ata_sector_store:
  assumes laws: "ata_laws P view capacity"
  shows "sector_store (ata_disks P) (ata_good view) 0x10000000 (ata_store view)"
proof
  fix s :: "bool \<times> 'a" and lba :: u64 and buf :: sector
  assume good: "ata_good view s"
  show "has_physical_disk (ata_disks P) s" by (rule routed_to_ata(3) [OF good, of 0]) simp
  assume lba: "lba < 0x10000000"
  note route = routed_to_ata [OF good lba, of P] and l = lba_28(2,3) [OF lba]
  obtain s' where s': "ata_read_sector P (ucast lba) s = (Some (at_sectors (view (snd s)) (ucast lba)), s')"
    "ata_good view s'" "at_sectors (view (snd s')) = at_sectors (view (snd s))"
    using ata_read [OF laws good, of "ucast lba"] unfolding l(1) by blast
  show "\<exists>s'. read_disk_sector (ata_disks P) lba s = (Some (ata_store view s lba), s') \<and> ata_good view s' \<and>
      ata_store view s' = ata_store view s"
    by (rule exI [of _ s']) (use s' lba in \<open>simp add: route ata_store_def [abs_def] cong: if_cong\<close>)
  assume buf: "length buf = 512"
  obtain s'' where s'': "ata_write_sector P (ucast lba) buf s = (True, s'')" "ata_good view s''"
    "at_sectors (view (snd s'')) = (at_sectors (view (snd s)))(ucast lba := buf)"
    using ata_write [OF laws good buf, of "ucast lba"] unfolding l(1) by blast
  have "ata_store view s'' = (ata_store view s)(lba := buf)"
    by (rule ext) (use s''(3) l(2) lba in \<open>simp add: ata_store_def\<close>)
  with s'' show "\<exists>s'. write_disk_sector (ata_disks P) lba buf s = (True, s') \<and> ata_good view s' \<and>
      ata_store view s' = (ata_store view s)(lba := buf)"
    by (auto simp: route)
qed

section \<open>The probe\<close>

lemma io_delay_view: "status_laws P view \<Longrightarrow> view (io_delay P d) = view d"
proof -
  assume "status_laws P view"
  then have "view (snd (inb P ATA_PRIMARY_CTRL e)) = view e" for e unfolding status_laws_def by blast
  then have "view (fold (\<lambda>_ d. snd (inb P ATA_PRIMARY_CTRL d)) xs d) = view d" for xs :: "nat list"
    by (induction xs arbitrary: d) simp_all
  then show ?thesis by (simp add: io_delay_def)
qed

lemma ata_probe:
  assumes laws: "ata_laws P view capacity" and f: "free (view d)"
  shows "\<exists>d'. ata_init P (present, d) = (capacity > 0, d') \<and> free (view d') \<and> at_sectors (view d') = at_sectors (view d)"
proof -
  have l: "status_laws P view" "register_laws P view" "data_laws P view" "identify_laws P view capacity"
    using laws by (simp_all add: ata_laws_def)
  have st: "status_ok (view e) (fst (inb P ATA_PRIMARY_STATUS_CMD e))"
    "view (snd (inb P ATA_PRIMARY_STATUS_CMD e)) = (view e)\<lparr>at_busy := at_busy (view e) - 1\<rparr>" for e
    using l(1) unfolding status_laws_def by blast+
  obtain status d1 where d1: "inb P ATA_PRIMARY_STATUS_CMD d = (status, d1)" by fastforce
  have f1: "free (view d1)" "status \<noteq> 0xFF" "at_sectors (view d1) = at_sectors (view d)"
    using st [of d] d1 f by (auto simp: free_def status_ok_def)
  have r: "view (outb P ATA_PRIMARY_DRIVE_HEAD b e) = (view e)\<lparr>at_drive := b\<rparr>"
    "view (outb P ATA_PRIMARY_SECCOUNT b e) = (view e)\<lparr>at_count := b\<rparr>"
    "view (outb P ATA_PRIMARY_LBA_LO b e) = (view e)\<lparr>at_lo := b\<rparr>"
    "view (outb P ATA_PRIMARY_LBA_MID b e) = (view e)\<lparr>at_mid := b\<rparr>"
    "view (outb P ATA_PRIMARY_LBA_HI b e) = (view e)\<lparr>at_hi := b\<rparr>" if "free (view e)" for b e
    using l(2) that unfolding register_laws_def by blast+
  define d3 where "d3 = outb P ATA_PRIMARY_LBA_HI 0 (outb P ATA_PRIMARY_LBA_MID 0 (outb P ATA_PRIMARY_LBA_LO 0
      (outb P ATA_PRIMARY_SECCOUNT 0 (io_delay P (outb P ATA_PRIMARY_DRIVE_HEAD 0xA0 d1)))))"
  have v3: "view d3 = (view d1)\<lparr>at_drive := 0xA0, at_count := 0, at_lo := 0, at_mid := 0, at_hi := 0\<rparr>"
    using f1(1) unfolding d3_def by (simp add: r io_delay_view [OF l(1)] free_def)
  then have f3: "free (view d3)" using f1(1) by (simp add: free_def)
  then obtain n ws where n: "soon n" "length ws = 256" "ucast (ws ! 60) OR push_bit 16 (ucast (ws ! 61)) = capacity"
    "view (outb P ATA_PRIMARY_STATUS_CMD ATA_CMD_IDENTIFY d3) = (view d3)\<lparr>at_busy := n, at_phase := Reading ws\<rparr>"
    using l(4) unfolding identify_laws_def by blast
  define d4 where "d4 = io_delay P (outb P ATA_PRIMARY_STATUS_CMD ATA_CMD_IDENTIFY d3)"
  have v4: "view d4 = (view d3)\<lparr>at_busy := n, at_phase := Reading ws\<rparr>"
    by (simp add: d4_def io_delay_view [OF l(1)] n(4))
  obtain st d5 where d5: "inb P ATA_PRIMARY_STATUS_CMD d4 = (st, d5)" by fastforce
  have s4: "status_ok (view d4) st" and v5: "view d5 = (view d3)\<lparr>at_busy := n - 1, at_phase := Reading ws\<rparr>"
    using st [of d4] d5 v4 by simp_all
  have "st \<noteq> 0" using s4 v4 by (auto simp: status_ok_def)
  have "at_busy (view d5) < 100000" using n(1) v5 by (simp add: soon_def)
  then obtain d6 where d6: "wait_not_busy P d5 = (True, d6)" "view d6 = (view d3)\<lparr>at_busy := 0, at_phase := Reading ws\<rparr>"
    using poll_not_busy_ends [OF l(1), of d5 100000] v5 by (auto simp: wait_not_busy_def)
  have mid: "fst (inb P ATA_PRIMARY_LBA_MID e) = at_mid (view e)" "view (snd (inb P ATA_PRIMARY_LBA_MID e)) = view e"
    "fst (inb P ATA_PRIMARY_LBA_HI e) = at_hi (view e)" "view (snd (inb P ATA_PRIMARY_LBA_HI e)) = view e"
    if "at_busy (view e) = 0" for e
    using l(1) that unfolding status_laws_def by blast+
  obtain a d7 where d7: "inb P ATA_PRIMARY_LBA_MID d6 = (a, d7)" by fastforce
  have v7: "view d7 = view d6" "a = 0" using mid(1,2) [of d6] d7 d6(2) v3 by simp_all
  obtain b d8 where d8: "inb P ATA_PRIMARY_LBA_HI d7 = (b, d8)" by fastforce
  have v8: "view d8 = view d6" "b = 0" using mid(3,4) [of d7] d8 v7 d6(2) v3 by simp_all
  obtain d9 where d9: "wait_drq P d8 = (True, d9)" "view d9 = view d6"
    using poll_drq_ends [OF l(1), of d8 100000] v8 d6(2) by (auto simp: wait_drq_def)
  obtain d10 where d10: "read_words P 256 d9 = (ws, d10)" "view d10 = (view d9)\<lparr>at_phase := Idle\<rparr>"
    using words_read [OF l(3), of d9 ws] d9(2) d6(2) n(2) by fastforce
  have "ata_init P (present, d) = (capacity > 0, d10)"
    using f1(2) \<open>st \<noteq> 0\<close> v7(2) v8(2)
    by (simp add: ata_init_def Let_def d1 d3_def [symmetric] d4_def [symmetric] d5 d6(1) d7 d8 d9(1) d10(1) n(3))
  moreover have "free (view d10)" "at_sectors (view d10) = at_sectors (view d)"
    using d10(2) d9(2) d6(2) v3 f1(3) by (simp_all add: free_def)
  ultimately show ?thesis by blast
qed


subsection \<open>A device\<close>

definition demo_identity :: "u16 list" where
  "demo_identity = (replicate 256 0)[60 := 0x4000]"

definition demo_command :: "u8 \<Rightarrow> ata_view \<Rightarrow> ata_view" where
  "demo_command b v =
     (if b = ATA_CMD_READ_PIO then v\<lparr>at_busy := 3, at_phase := Reading (sector_words (at_sectors v (at_lba v)))\<rparr>
      else if b = ATA_CMD_WRITE_PIO then v\<lparr>at_busy := 2, at_phase := Writing (at_lba v) []\<rparr>
      else if b = ATA_CMD_IDENTIFY then v\<lparr>at_busy := 1, at_phase := Reading demo_identity\<rparr>
      else v\<lparr>at_busy := 7\<rparr>)"

definition demo_disk :: "ata_view ports" where
  "demo_disk =
     \<lparr>inb = (\<lambda>port v.
        if port = ATA_PRIMARY_STATUS_CMD then
          (if at_busy v \<noteq> 0 then 0x80 else if at_phase v = Idle then 0x40 else 0x48, v\<lparr>at_busy := at_busy v - 1\<rparr>)
        else (if port = ATA_PRIMARY_LBA_MID then at_mid v else if port = ATA_PRIMARY_LBA_HI then at_hi v else 0, v)),
      outb = (\<lambda>port b v.
        if port = ATA_PRIMARY_STATUS_CMD then demo_command b v
        else if port = ATA_PRIMARY_DRIVE_HEAD then v\<lparr>at_drive := b\<rparr>
        else if port = ATA_PRIMARY_SECCOUNT then v\<lparr>at_count := b\<rparr>
        else if port = ATA_PRIMARY_LBA_LO then v\<lparr>at_lo := b\<rparr>
        else if port = ATA_PRIMARY_LBA_MID then v\<lparr>at_mid := b\<rparr>
        else if port = ATA_PRIMARY_LBA_HI then v\<lparr>at_hi := b\<rparr> else v),
      inw = (\<lambda>port v. case at_phase v of
          Reading (w # ws) \<Rightarrow> (w, v\<lparr>at_phase := (if ws = [] then Idle else Reading ws)\<rparr>) | _ \<Rightarrow> (0xFFFF, v)),
      outw = (\<lambda>port w v. case at_phase v of
          Writing lba ws \<Rightarrow>
            if length ws < 255 then v\<lparr>at_phase := Writing lba (ws @ [w])\<rparr>
            else v\<lparr>at_busy := 4, at_phase := Idle, at_sectors := (at_sectors v)(lba := bytes_of_words (ws @ [w]))\<rparr>
        | _ \<Rightarrow> v)\<rparr>"

lemma demo_disk_laws: "ata_laws demo_disk id 0x4000"
  unfolding ata_laws_def
proof (intro conjI)
  show "status_laws demo_disk id" by (simp add: status_laws_def demo_disk_def status_ok_def)
  show "register_laws demo_disk id" by (simp add: register_laws_def demo_disk_def)
  show "command_laws demo_disk id"
    unfolding command_laws_def by (intro conjI allI impI; rule exI; rule conjI [rotated])
      ((simp_all add: demo_disk_def demo_command_def soon_def)?, simp_all)
  show "data_laws demo_disk id" by (auto simp: data_laws_def demo_disk_def)
  show "identify_laws demo_disk id 0x4000"
    unfolding identify_laws_def by (intro allI impI exI [of _ 1] exI [of _ demo_identity])
      (simp add: demo_disk_def demo_command_def demo_identity_def soon_def)
qed

definition demo_device :: ata_view where
  "demo_device = \<lparr>at_busy = 0, at_phase = Idle, at_drive = 0, at_count = 0, at_lo = 0, at_mid = 0, at_hi = 0,
     at_sectors = (\<lambda>_. zero_sector)\<rparr>"

interpretation demo: sector_store "ata_disks demo_disk" "ata_good id" "0x10000000" "ata_store id"
  by (rule ata_sector_store [OF demo_disk_laws])


end
