(* ===== verification/Ahci.thy ===== *)
theory Ahci
  imports Nvme Format
begin

text \<open>
  The AHCI driver, \<^verbatim>\<open>kernel/src/ahci.rs\<close>: the probe of the ports of a controller and sector transfers
  by DMA through command slot 0. The driver builds the command in physical memory and the controller
  executes it, so that both act on one state: the machine and the state of the device. The
  registers of the controller are an argument; offsets count from its base address.
\<close>

section \<open>The controller\<close>

record 'd hba =
  hba_read :: "u64 \<Rightarrow> machine \<times> 'd \<Rightarrow> u32 \<times> machine \<times> 'd"
  hba_write :: "u64 \<Rightarrow> u32 \<Rightarrow> machine \<times> 'd \<Rightarrow> machine \<times> 'd"

abbreviation SATA_SIG_ATA :: u32 where "SATA_SIG_ATA \<equiv> 0x00000101"
abbreviation SATA_SIG_ATAPI :: u32 where "SATA_SIG_ATAPI \<equiv> 0xEB140101"
abbreviation SATA_SIG_SEMB :: u32 where "SATA_SIG_SEMB \<equiv> 0xC33C0101"
abbreviation SATA_SIG_PM :: u32 where "SATA_SIG_PM \<equiv> 0x96690101"
abbreviation HBA_PORT_IPM_ACTIVE :: u32 where "HBA_PORT_IPM_ACTIVE \<equiv> 1"
abbreviation HBA_PORT_DET_PRESENT :: u32 where "HBA_PORT_DET_PRESENT \<equiv> 3"
abbreviation HBA_PxCMD_ST :: u32 where "HBA_PxCMD_ST \<equiv> 0x0001"
abbreviation HBA_PxCMD_FRE :: u32 where "HBA_PxCMD_FRE \<equiv> 0x0010"
abbreviation FIS_TYPE_REG_H2D :: u8 where "FIS_TYPE_REG_H2D \<equiv> 0x27"
abbreviation ATA_CMD_READ_DMA_EXT :: u8 where "ATA_CMD_READ_DMA_EXT \<equiv> 0x25"
abbreviation ATA_CMD_WRITE_DMA_EXT :: u8 where "ATA_CMD_WRITE_DMA_EXT \<equiv> 0x35"

record ahci_port_info =
  port_num :: u8
  port_kind :: bytes
  port_sig :: u32

record ahci_controller =
  ah_abar_phys :: u64
  ah_active_disk_port :: "u8 option"
  ah_dma_bounce_phys :: u64
  ah_ports :: "ahci_port_info list"

definition ahci_controller_new :: ahci_controller where
  "ahci_controller_new = \<lparr>ah_abar_phys = 0, ah_active_disk_port = None, ah_dma_bounce_phys = 0, ah_ports = []\<rparr>"

definition port_offset :: "u8 \<Rightarrow> u64" where
  "port_offset port = 0x100 + ucast port * 0x80"

definition kind_of_sig :: "u32 \<Rightarrow> bytes" where
  "kind_of_sig sig =
     (if sig = SATA_SIG_ATA then ascii ''SATA-DISK'' else if sig = SATA_SIG_ATAPI then ascii ''SATAPI-OPTICAL''
      else if sig = SATA_SIG_SEMB then ascii ''SEMB'' else if sig = SATA_SIG_PM then ascii ''PORT-MUL''
      else ascii ''SATA-DEV'')"

definition probe_port :: "'d hba \<Rightarrow> u8 \<Rightarrow> ahci_controller \<times> machine \<times> 'd \<Rightarrow> ahci_controller \<times> machine \<times> 'd" where
  "probe_port H port = (\<lambda>(ctrl, s).
     case hba_read H (port_offset port + 0x28) s of (ssts, s1) \<Rightarrow>
     case hba_read H (port_offset port + 0x24) s1 of (sig, s2) \<Rightarrow>
       (if ssts AND 0x0F = HBA_PORT_DET_PRESENT \<and> drop_bit 8 ssts AND 0x0F = HBA_PORT_IPM_ACTIVE
        then (let c1 = (if sig = SATA_SIG_ATA \<and> ah_active_disk_port ctrl = None
                        then ctrl\<lparr>ah_active_disk_port := Some port\<rparr> else ctrl)
              in c1\<lparr>ah_ports := ah_ports c1 @ [\<lparr>port_num = port, port_kind = kind_of_sig sig, port_sig = sig\<rparr>]\<rparr>)
        else ctrl, s2))"

text \<open>\<open>None\<close> is the panic of a mapping without frames.\<close>

definition ahci_init ::
  "u64 \<Rightarrow> 'd hba \<Rightarrow> u32 \<Rightarrow> ahci_controller \<times> machine \<times> 'd \<Rightarrow> (ahci_controller \<times> machine \<times> 'd) option" where
  "ahci_init hhdm H bar5_raw = (\<lambda>(ctrl, m0, dev).
     let abar_phys = ucast (bar5_raw AND NOT 0xF) :: u64; abar_virt = abar_phys + hhdm
     in if abar_phys = 0 then Some (ctrl, m0, dev)
        else Option.bind (map_page abar_virt abar_phys (WRITABLE OR CACHE_DISABLE) m0) (\<lambda>m1.
             Option.bind (map_page (abar_virt + 0x1000) (abar_phys + 0x1000) (WRITABLE OR CACHE_DISABLE) m1) (\<lambda>m2.
          case alloc_or_zero m2 of (dma_phys, m3) \<Rightarrow>
          case hba_read H 0 (m3, dev) of (cap, s1) \<Rightarrow>
          case hba_read H 0x0C s1 of (ports_mask, s2) \<Rightarrow>
          case hba_read H 0x10 s2 of (vs, s3) \<Rightarrow>
          case hba_read H 0x04 s3 of (ghc, s4) \<Rightarrow>
            Some (fold (\<lambda>port cs. if ports_mask AND push_bit (unat port) 1 \<noteq> 0 then probe_port H port cs else cs)
              (map of_nat [0..<32])
              (ctrl\<lparr>ah_abar_phys := abar_phys, ah_dma_bounce_phys := dma_phys, ah_ports := []\<rparr>,
               hba_write H 0x04 (ghc OR push_bit 31 1) s4)))))"

definition ahci_available :: "ahci_controller \<times> machine \<times> 'd \<Rightarrow> bool" where
  "ahci_available = (\<lambda>(ctrl, s). ah_active_disk_port ctrl \<noteq> None \<and> ah_dma_bounce_phys ctrl \<noteq> 0)"

section \<open>Transfers\<close>

text \<open>The stores of the driver into a command: bytes of a field at an offset, in the order of the code.\<close>

definition store_fields :: "u64 \<Rightarrow> (nat \<times> bytes) list \<Rightarrow> machine \<Rightarrow> machine" where
  "store_fields base = fold (\<lambda>(off, bs). write_bytes (base + of_nat off) bs)"

definition header_fields :: "bool \<Rightarrow> u64 \<Rightarrow> (nat \<times> bytes) list" where
  "header_fields wr cmd_tbl_phys =
     [(0, le_bytes 2 (5 OR (if wr then push_bit 6 1 else 0) :: u16)), (2, le_bytes 2 (1 :: u16)),
      (4, le_bytes 4 (0 :: u32)), (8, le_bytes 8 cmd_tbl_phys)]"

definition prdt_fields :: "u64 \<Rightarrow> (nat \<times> bytes) list" where
  "prdt_fields dma_phys =
     [(0x80, le_bytes 8 dma_phys), (0x88, le_bytes 4 (0 :: u32)), (0x8C, le_bytes 4 (511 :: u32))]"

definition fis_fields :: "bool \<Rightarrow> u64 \<Rightarrow> (nat \<times> bytes) list" where
  "fis_fields wr lba =
     [(0, [FIS_TYPE_REG_H2D]), (1, [0x80]), (2, [if wr then ATA_CMD_WRITE_DMA_EXT else ATA_CMD_READ_DMA_EXT]), (7, [0x40]),
      (4, [ucast (lba AND 0xFF)]), (5, [ucast (drop_bit 8 lba AND 0xFF)]), (6, [ucast (drop_bit 16 lba AND 0xFF)]),
      (8, [ucast (drop_bit 24 lba AND 0xFF)]), (9, [ucast (drop_bit 32 lba AND 0xFF)]),
      (10, [ucast (drop_bit 40 lba AND 0xFF)]), (12, [1]), (13, [0])]"

definition build_command :: "u64 \<Rightarrow> u64 \<Rightarrow> u64 \<Rightarrow> bool \<Rightarrow> machine \<Rightarrow> machine" where
  "build_command clb_phys dma_phys lba wr m =
     (let cmd_tbl_phys = dma_phys + 2048
      in store_fields cmd_tbl_phys (fis_fields wr lba)
           (store_fields cmd_tbl_phys (prdt_fields dma_phys)
             (store_fields clb_phys (header_fields wr cmd_tbl_phys)
               (write_bytes cmd_tbl_phys (replicate 256 0) m))))"

fun wait_port :: "'d hba \<Rightarrow> u64 \<Rightarrow> nat \<Rightarrow> machine \<times> 'd \<Rightarrow> machine \<times> 'd" where
  "wait_port H tfd 0 s = s"
| "wait_port H tfd (Suc n) s =
     (case hba_read H tfd s of (v, s') \<Rightarrow> if v AND 0x88 = 0 then s' else wait_port H tfd n s')"

fun poll_issue :: "'d hba \<Rightarrow> u64 \<Rightarrow> u64 \<Rightarrow> nat \<Rightarrow> machine \<times> 'd \<Rightarrow> bool \<times> machine \<times> 'd" where
  "poll_issue H ci ist 0 s = (False, s)"
| "poll_issue H ci ist (Suc n) s =
     (case hba_read H ci s of (v, s1) \<Rightarrow>
        if v AND 1 = 0 then (True, s1)
        else case hba_read H ist s1 of (w, s2) \<Rightarrow>
          if w AND push_bit 30 1 \<noteq> 0 then (False, s2) else poll_issue H ci ist n s2)"

definition start_engine :: "'d hba \<Rightarrow> u64 \<Rightarrow> machine \<times> 'd \<Rightarrow> machine \<times> 'd" where
  "start_engine H port_base s =
     (case hba_read H (port_base + 0x18) s of (cmd_val, s1) \<Rightarrow>
        if cmd_val AND (HBA_PxCMD_ST OR HBA_PxCMD_FRE) \<noteq> HBA_PxCMD_ST OR HBA_PxCMD_FRE
        then hba_write H (port_base + 0x18) (cmd_val OR HBA_PxCMD_FRE OR HBA_PxCMD_ST) s1 else s1)"

definition issue_dma_sector :: "'d hba \<Rightarrow> ahci_controller \<Rightarrow> u64 \<Rightarrow> bool \<Rightarrow> machine \<times> 'd \<Rightarrow> bool \<times> machine \<times> 'd" where
  "issue_dma_sector H ctrl lba wr s0 =
     (case ah_active_disk_port ctrl of
        None \<Rightarrow> (False, s0)
      | Some port \<Rightarrow>
         (if ah_abar_phys ctrl = 0 \<or> ah_dma_bounce_phys ctrl = 0 then (False, s0)
          else let port_base = port_offset port
          in case hba_read H port_base s0 of (clb_lo, s1) \<Rightarrow>
             case hba_read H (port_base + 0x04) s1 of (clb_hi, s2) \<Rightarrow>
             let clb_phys = ucast clb_lo OR push_bit 32 (ucast clb_hi) :: u64
             in if clb_phys = 0 then (False, s2)
                else case hba_write H (port_base + 0x10) 0xFFFFFFFF (start_engine H port_base s2) of (m, dev) \<Rightarrow>
                  let s3 = wait_port H (port_base + 0x20) 100000
                             (build_command clb_phys (ah_dma_bounce_phys ctrl) lba wr m, dev)
                  in poll_issue H (port_base + 0x38) (port_base + 0x10) 500000 (hba_write H (port_base + 0x38) 1 s3)))"

definition ahci_read_sector ::
  "'d hba \<Rightarrow> u64 \<Rightarrow> ahci_controller \<times> machine \<times> 'd \<Rightarrow> sector option \<times> ahci_controller \<times> machine \<times> 'd" where
  "ahci_read_sector H lba = (\<lambda>(ctrl, s).
     if \<not> ahci_available (ctrl, s) then (None, ctrl, s)
     else case issue_dma_sector H ctrl lba False s of (ok, m, dev) \<Rightarrow>
       (if ok then Some (read_bytes m (ah_dma_bounce_phys ctrl) 512) else None, ctrl, m, dev))"

definition ahci_write_sector ::
  "'d hba \<Rightarrow> u64 \<Rightarrow> sector \<Rightarrow> ahci_controller \<times> machine \<times> 'd \<Rightarrow> bool \<times> ahci_controller \<times> machine \<times> 'd" where
  "ahci_write_sector H lba buf = (\<lambda>(ctrl, m, dev).
     if \<not> ahci_available (ctrl, m, dev) then (False, ctrl, m, dev)
     else case issue_dma_sector H ctrl lba True (write_bytes (ah_dma_bounce_phys ctrl) (take 512 buf) m, dev) of (ok, s) \<Rightarrow>
       (ok, ctrl, s))"

definition ahci_driver :: "'d hba \<Rightarrow> (u64, ahci_controller \<times> machine \<times> 'd) disk_driver" where
  "ahci_driver H = \<lparr>dd_available = ahci_available, dd_read = ahci_read_sector H, dd_write = ahci_write_sector H\<rparr>"

definition ahci_port_line :: "ahci_port_info \<Rightarrow> bytes" where
  "ahci_port_line p =
     ascii ''  Port #'' @ decimal (unat (port_num p)) @ ascii '': '' @ port_kind p @ ascii '' (sig='' @
     hex_prefixed 8 (unat (port_sig p)) @ ascii '')'' @ newline"

definition ahci_format_status :: "ahci_controller \<Rightarrow> bytes" where
  "ahci_format_status ctrl =
     (if ah_abar_phys ctrl = 0 then ascii ''AHCI SATA    : Not present (using ATA/PIO + RAM overlay)'' @ newline
      else ascii ''AHCI SATA    : HBA @ '' @ hex_prefixed 0 (unat (ah_abar_phys ctrl)) @ ascii '' ('' @
           decimal (length (ah_ports ctrl)) @ ascii '' active ports, DMADisk='' @
           debug_option (map_option unat (ah_active_disk_port ctrl)) @ ascii '')'' @ newline @
           concat (map ahci_port_line (ah_ports ctrl)))"

section \<open>Commands in memory\<close>

lemma region_write:
  assumes "off + length bs \<le> n" "n \<le> 2 ^ 64"
  shows "read_bytes (write_bytes (base + of_nat off) bs m) base n = put (read_bytes m base n) off bs"
proof (rule nth_equalityI)
  show "length (read_bytes (write_bytes (base + of_nat off) bs m) base n) = length (put (read_bytes m base n) off bs)"
    using assms(1) by simp
  fix i assume "i < length (read_bytes (write_bytes (base + of_nat off) bs m) base n)"
  then have i: "i < n" by simp
  have "read8 (write_bytes (base + of_nat off) bs m) (base + of_nat i) =
      (if off \<le> i \<and> i < off + length bs then bs ! (i - off) else read8 m (base + of_nat i))"
  proof (cases "off \<le> i \<and> i < off + length bs")
    case True
    then have e: "base + of_nat i = base + of_nat off + of_nat (i - off)" by (simp add: of_nat_diff)
    show ?thesis unfolding e using True assms by (subst read8_write_bytes) auto
  next
    case False
    have "base + of_nat i \<noteq> base + of_nat off + of_nat j" if "j < length bs" for j
    proof
      assume "base + of_nat i = base + of_nat off + of_nat j"
      then have "base + of_nat i = base + of_nat (off + j)" by (simp add: add.assoc)
      then have "i = off + j" using of_nat_u64_inj [of i "off + j" base] i that assms by simp
      with False that show False by simp
    qed
    then have "read8 (write_bytes (base + of_nat off) bs m) (base + of_nat i) = read8 m (base + of_nat i)"
      by (rule read8_write_bytes_other)
    then show ?thesis by (simp only: False if_False)
  qed
  then show "read_bytes (write_bytes (base + of_nat off) bs m) base n ! i = put (read_bytes m base n) off bs ! i"
    using i assms(1) by (auto simp: read_bytes_def put_def nth_append)
qed

lemma region_store:
  "fields_ok n fs \<Longrightarrow> n \<le> 2 ^ 64 \<Longrightarrow> read_bytes (store_fields base fs m) base n = put_fields fs (read_bytes m base n)"
proof (induction fs arbitrary: m)
  case (Cons f fs)
  then show ?case by (cases f) (simp add: store_fields_def put_fields_def fields_ok_def region_write)
qed (simp add: store_fields_def put_fields_def)

text \<open>Stores elsewhere.\<close>

definition apart :: "u64 \<Rightarrow> nat \<Rightarrow> u64 \<Rightarrow> nat \<Rightarrow> bool" where
  "apart a n b k \<longleftrightarrow> (\<forall>i<n. \<forall>j<k. a + of_nat i \<noteq> b + of_nat j)"

lemma apart_sym: "apart a n b k \<Longrightarrow> apart b k a n"
  unfolding apart_def by metis

lemma apart_part: "apart a n b k \<Longrightarrow> n' \<le> n \<Longrightarrow> off + k' \<le> k \<Longrightarrow> apart a n' (b + of_nat off) k'"
  unfolding apart_def
proof (intro allI impI)
  fix i j
  assume a: "\<forall>i<n. \<forall>j<k. a + of_nat i \<noteq> b + of_nat j" and "n' \<le> n" "off + k' \<le> k" "i < n'" "j < k'"
  then have "i < n" "off + j < k" by simp_all
  with a have "a + of_nat i \<noteq> b + of_nat (off + j)" by blast
  then show "a + of_nat i \<noteq> b + of_nat off + of_nat j" by (simp only: of_nat_add add.assoc not_False_eq_True)
qed

lemma read_write_apart: "apart a n b (length bs) \<Longrightarrow> read_bytes (write_bytes b bs m) a n = read_bytes m a n"
  unfolding read_bytes_def by (intro map_cong refl read8_write_bytes_other) (auto simp: apart_def)

lemma read_store_apart:
  "fields_ok k fs \<Longrightarrow> apart a n b k \<Longrightarrow> read_bytes (store_fields b fs m) a n = read_bytes m a n"
proof (induction fs arbitrary: m)
  case (Cons f fs)
  have "off + length bs \<le> k" if "f = (off, bs)" for off bs using Cons.prems(1) that by (simp add: fields_ok_def)
  then have "read_bytes (write_bytes (b + of_nat (fst f)) (snd f) m) a n = read_bytes m a n"
    by (intro read_write_apart apart_part [OF Cons.prems(2)]) (cases f, simp)+
  with Cons show ?case by (cases f) (simp add: store_fields_def fields_ok_def)
qed (simp add: store_fields_def)

text \<open>A command as the controller reads it: header, data address and register block.\<close>

record dma_command =
  dc_write :: bool
  dc_lba :: u64
  dc_addr :: u64

definition command_at :: "machine \<Rightarrow> u64 \<Rightarrow> dma_command option" where
  "command_at m clb =
     (let hdr = read_bytes m clb 16; flags = field hdr 0 2 :: u16; ctba = field hdr 8 8 :: u64;
          tbl = read_bytes m ctba 256; wr = flags AND push_bit 6 1 \<noteq> 0
      in if flags AND 0x1F = 5 \<and> (field hdr 2 2 :: u16) = 1 \<and> tbl ! 0 = FIS_TYPE_REG_H2D \<and> tbl ! 1 = 0x80 \<and>
            tbl ! 2 = (if wr then ATA_CMD_WRITE_DMA_EXT else ATA_CMD_READ_DMA_EXT) \<and> tbl ! 7 = 0x40 \<and>
            (field tbl 12 2 :: u16) = 1 \<and> (field tbl 0x8C 4 :: u32) = 511
         then Some \<lparr>dc_write = wr, dc_lba = le_word (take 3 (drop 4 tbl) @ take 3 (drop 8 tbl)), dc_addr = field tbl 0x80 8\<rparr>
         else None)"

lemma lba_bytes:
  fixes lba :: u64
  shows "[ucast (lba AND 0xFF), ucast (drop_bit 8 lba AND 0xFF), ucast (drop_bit 16 lba AND 0xFF), ucast (drop_bit 24 lba AND 0xFF),
      ucast (drop_bit 32 lba AND 0xFF), ucast (drop_bit 40 lba AND 0xFF)] = le_bytes 6 lba"
proof -
  have "ucast (x AND 0xFF) = (ucast x :: u8)" for x :: u64
    unfolding ff_mask by (rule bit_word_eqI) (auto simp: bit_simps)
  then show ?thesis by (simp add: numeral_eq_Suc)
qed

definition table_of :: "bool \<Rightarrow> u64 \<Rightarrow> u64 \<Rightarrow> bytes" where
  "table_of wr lba dma = put_fields (prdt_fields dma @ fis_fields wr lba) (replicate 256 0)"

lemma table_ok: "fields_ok 256 (prdt_fields dma @ fis_fields wr lba)"
  by (simp add: fields_ok_def prdt_fields_def fis_fields_def)

lemma table_field:
  assumes "k < 15" "(prdt_fields dma @ fis_fields wr lba) ! k = (off, bs)" "n = length bs"
    and "list_all (\<lambda>(off', bs'). off + n \<le> off' \<or> off' + length bs' \<le> off) (drop (Suc k) (prdt_fields dma @ fis_fields wr lba))"
  shows "take n (drop off (table_of wr lba dma)) = bs"
  unfolding table_of_def
  by (rule field_at [OF _ _ assms(2-4)]) (use assms(1) table_ok in \<open>simp_all add: prdt_fields_def fis_fields_def\<close>)

lemma table_contents:
  "take 8 (drop 0x80 (table_of wr lba dma)) = le_bytes 8 dma"
  "take 4 (drop 0x8C (table_of wr lba dma)) = le_bytes 4 (511 :: u32)"
  "take 1 (drop 0 (table_of wr lba dma)) = [FIS_TYPE_REG_H2D]"
  "take 1 (drop 1 (table_of wr lba dma)) = [0x80]"
  "take 1 (drop 2 (table_of wr lba dma)) = [if wr then ATA_CMD_WRITE_DMA_EXT else ATA_CMD_READ_DMA_EXT]"
  "take 1 (drop 7 (table_of wr lba dma)) = [0x40]"
  "take 1 (drop 12 (table_of wr lba dma)) = [1]" "take 1 (drop 13 (table_of wr lba dma)) = [0]"
  "take 1 (drop 4 (table_of wr lba dma)) = [ucast (lba AND 0xFF)]"
  "take 1 (drop 5 (table_of wr lba dma)) = [ucast (drop_bit 8 lba AND 0xFF)]"
  "take 1 (drop 6 (table_of wr lba dma)) = [ucast (drop_bit 16 lba AND 0xFF)]"
  "take 1 (drop 8 (table_of wr lba dma)) = [ucast (drop_bit 24 lba AND 0xFF)]"
  "take 1 (drop 9 (table_of wr lba dma)) = [ucast (drop_bit 32 lba AND 0xFF)]"
  "take 1 (drop 10 (table_of wr lba dma)) = [ucast (drop_bit 40 lba AND 0xFF)]"
  by (rule table_field [where k = 0] table_field [where k = 2] table_field [where k = 3] table_field [where k = 4]
      table_field [where k = 5] table_field [where k = 6] table_field [where k = 13] table_field [where k = 14]
      table_field [where k = 7] table_field [where k = 8] table_field [where k = 9] table_field [where k = 10]
      table_field [where k = 11] table_field [where k = 12]; simp add: prdt_fields_def fis_fields_def; fail)+

lemma nth_of_take: "take 1 (drop k xs) = [x] \<Longrightarrow> xs ! k = x"
  by (cases "k < length xs") (simp_all add: take_Suc_conv_app_nth hd_drop_conv_nth Cons_nth_drop_Suc [symmetric])

lemma take_Suc_of:
  "take 1 (drop k xs) = [x] \<Longrightarrow> take n (drop (Suc k) xs) = ys \<Longrightarrow> take (Suc n) (drop k xs) = x # ys"
  by (cases "k < length xs") (auto simp: Cons_nth_drop_Suc [symmetric])

lemma header_contents:
  assumes "length old = 16"
  shows "take 2 (drop 0 (put_fields (header_fields wr tbl) old)) = le_bytes 2 (5 OR (if wr then push_bit 6 1 else 0) :: u16)"
    "take 2 (drop 2 (put_fields (header_fields wr tbl) old)) = le_bytes 2 (1 :: u16)"
    "take 8 (drop 8 (put_fields (header_fields wr tbl) old)) = le_bytes 8 tbl"
  by (rule field_at [where k = 0] field_at [where k = 1] field_at [where k = 3];
      simp add: header_fields_def fields_ok_def assms; fail)+

lemma table_lba: "take 3 (drop 4 (table_of wr lba dma)) @ take 3 (drop 8 (table_of wr lba dma)) = le_bytes 6 lba"
proof -
  note b = table_contents(9-14) [of wr lba dma]
  have "take (Suc (Suc (Suc 0))) (drop 4 (table_of wr lba dma)) =
      [ucast (lba AND 0xFF), ucast (drop_bit 8 lba AND 0xFF), ucast (drop_bit 16 lba AND 0xFF)]"
    using b(1-3) by (intro take_Suc_of) (simp_all add: numeral_eq_Suc)
  moreover have "take (Suc (Suc (Suc 0))) (drop 8 (table_of wr lba dma)) =
      [ucast (drop_bit 24 lba AND 0xFF), ucast (drop_bit 32 lba AND 0xFF), ucast (drop_bit 40 lba AND 0xFF)]"
    using b(4-6) by (intro take_Suc_of) (simp_all add: numeral_eq_Suc)
  moreover have "(3 :: nat) = Suc (Suc (Suc 0))" by simp
  ultimately show ?thesis by (simp only: lba_bytes [symmetric] append.simps)
qed

lemma command_built:
  assumes "apart clb 16 dma 4096"
  shows "command_at (build_command clb dma lba wr m) clb = Some \<lparr>dc_write = wr, dc_lba = take_bit 48 lba, dc_addr = dma\<rparr>"
    "read_bytes (build_command clb dma lba wr m) dma 512 = read_bytes m dma 512"
proof -
  let ?tbl = "dma + 2048" and ?m' = "build_command clb dma lba wr m"
  let ?old = "read_bytes (write_bytes ?tbl (replicate 256 0) m) clb 16"
  have far: "apart clb 16 ?tbl 256" using apart_part [OF assms, of 16 2048 256] by simp
  have near: "apart ?tbl 256 clb 16" by (rule apart_sym [OF far])
  have buf: "apart dma 512 clb 16" using apart_sym [OF apart_part [OF assms, of 16 0 512]] by simp
  have own: "apart dma 512 ?tbl 256"
    unfolding apart_def
  proof (intro allI impI)
    fix i j :: nat assume "i < 512" "j < 256"
    then have "dma + of_nat i \<noteq> dma + of_nat (2048 + j)" by (subst of_nat_u64_inj) simp_all
    then show "dma + of_nat i \<noteq> ?tbl + of_nat j" by (simp only: of_nat_add of_nat_numeral add.assoc not_False_eq_True)
  qed
  have ok: "fields_ok 256 (fis_fields wr lba)" "fields_ok 256 (prdt_fields dma)" "fields_ok 16 (header_fields wr ?tbl)"
    by (simp_all add: fields_ok_def fis_fields_def prdt_fields_def header_fields_def)
  have zero: "read_bytes (write_bytes ?tbl (replicate 256 0) m) ?tbl 256 = replicate 256 0"
    using read_write_bytes [of "replicate 256 0" ?tbl m] by simp
  have tbl: "read_bytes ?m' ?tbl 256 = table_of wr lba dma"
    by (simp add: build_command_def Let_def region_store ok read_store_apart [OF ok(3) near] zero table_of_def put_fields_def)
  have hdr: "read_bytes ?m' clb 16 = put_fields (header_fields wr ?tbl) ?old"
    by (simp add: build_command_def Let_def region_store ok read_store_apart [OF ok(1) far] read_store_apart [OF ok(2) far])
  show "read_bytes ?m' dma 512 = read_bytes m dma 512"
    by (simp add: build_command_def Let_def read_store_apart [OF ok(1) own] read_store_apart [OF ok(2) own]
        read_store_apart [OF ok(3) buf] read_write_apart own)
  have old: "length ?old = 16" by simp
  have b8: "field xs k n = le_word (take n (drop k xs))" for xs k n by (rule field_def)
  have flags: "(field (read_bytes ?m' clb 16) 0 2 :: u16) = 5 OR (if wr then push_bit 6 1 else 0)"
    "(field (read_bytes ?m' clb 16) 2 2 :: u16) = 1" "(field (read_bytes ?m' clb 16) 8 8 :: u64) = ?tbl"
    unfolding hdr b8 header_contents [OF old] by simp_all
  have count: "take 2 (drop 12 (table_of wr lba dma)) = [1, 0]"
    using take_Suc_of [OF table_contents(7) [of wr lba dma], of 1 "[0]"] table_contents(8) [of wr lba dma]
    by (simp add: numeral_eq_Suc)
  note cell = table_contents(3-6) [THEN nth_of_take, of wr lba dma]
  show "command_at ?m' clb = Some \<lparr>dc_write = wr, dc_lba = take_bit 48 lba, dc_addr = dma\<rparr>"
    unfolding command_at_def Let_def flags tbl
    unfolding b8 table_lba table_contents count cell
    by (cases wr) (simp_all add: le_word_le_bytes take_bit_word_eq_self)
qed

section \<open>The documented behaviour of a controller\<close>

text \<open>
  The view of a controller with a disk at one port: its command list, how many polls a command takes
  to complete (\<open>None\<close>: there is none) and the sectors of the disk.
\<close>

record hba_view =
  av_clb :: u64
  av_pending :: "nat option"
  av_sectors :: "u64 \<Rightarrow> sector"

definition quiet :: "('d \<Rightarrow> hba_view) \<Rightarrow> machine \<times> 'd \<Rightarrow> machine \<times> 'd \<Rightarrow> bool" where
  "quiet view s s' \<longleftrightarrow> fst s' = fst s \<and> view (snd s') = view (snd s)"

definition executed :: "dma_command \<Rightarrow> ('d \<Rightarrow> hba_view) \<Rightarrow> machine \<times> 'd \<Rightarrow> machine \<times> 'd \<Rightarrow> bool" where
  "executed c view s s' \<longleftrightarrow>
     av_pending (view (snd s')) = None \<and> av_clb (view (snd s')) = av_clb (view (snd s)) \<and>
     (if dc_write c
      then av_sectors (view (snd s')) = (av_sectors (view (snd s)))(dc_lba c := read_bytes (fst s) (dc_addr c) 512)
      else av_sectors (view (snd s')) = av_sectors (view (snd s)) \<and>
           (length (av_sectors (view (snd s)) (dc_lba c)) = 512 \<longrightarrow>
              read_bytes (fst s') (dc_addr c) 512 = av_sectors (view (snd s)) (dc_lba c)))"

text \<open>Registers that do not start anything.\<close>

definition hba_registers :: "'d hba \<Rightarrow> u64 \<Rightarrow> ('d \<Rightarrow> hba_view) \<Rightarrow> bool" where
  "hba_registers H pb view \<longleftrightarrow>
     (\<forall>s. fst (hba_read H pb s) = ucast (av_clb (view (snd s))) \<and> quiet view s (snd (hba_read H pb s))) \<and>
     (\<forall>s. fst (hba_read H (pb + 0x04) s) = ucast (drop_bit 32 (av_clb (view (snd s)))) \<and>
        quiet view s (snd (hba_read H (pb + 0x04) s))) \<and>
     (\<forall>s. quiet view s (snd (hba_read H (pb + 0x18) s))) \<and> (\<forall>s v. quiet view s (hba_write H (pb + 0x18) v s)) \<and>
     (\<forall>s v. quiet view s (hba_write H (pb + 0x10) v s)) \<and> (\<forall>s. quiet view s (snd (hba_read H (pb + 0x20) s)))"

text \<open>
  A well-formed command in slot 0 for one of \<open>capacity\<close> sectors, when it is issued, completes without
  an error within the polls that the code allows.
\<close>

definition hba_commands :: "'d hba \<Rightarrow> u64 \<Rightarrow> ('d \<Rightarrow> hba_view) \<Rightarrow> u64 \<Rightarrow> bool" where
  "hba_commands H pb view capacity \<longleftrightarrow>
     (\<forall>s c. av_pending (view (snd s)) = None \<longrightarrow> command_at (fst s) (av_clb (view (snd s))) = Some c \<longrightarrow> dc_lba c < capacity \<longrightarrow>
        (\<exists>n<500000. fst (hba_write H (pb + 0x38) 1 s) = fst s \<and>
           view (snd (hba_write H (pb + 0x38) 1 s)) = (view (snd s))\<lparr>av_pending := Some n\<rparr>)) \<and>
     (\<forall>s n. av_pending (view (snd s)) = Some (Suc n) \<longrightarrow>
        fst (hba_read H (pb + 0x38) s) AND 1 \<noteq> 0 \<and> fst (snd (hba_read H (pb + 0x38) s)) = fst s \<and>
        view (snd (snd (hba_read H (pb + 0x38) s))) = (view (snd s))\<lparr>av_pending := Some n\<rparr>) \<and>
     (\<forall>s c. av_pending (view (snd s)) = Some 0 \<longrightarrow> command_at (fst s) (av_clb (view (snd s))) = Some c \<longrightarrow>
        fst (hba_read H (pb + 0x38) s) AND 1 = 0 \<and> executed c view s (snd (hba_read H (pb + 0x38) s))) \<and>
     (\<forall>s. av_pending (view (snd s)) \<noteq> None \<longrightarrow>
        fst (hba_read H (pb + 0x10) s) AND push_bit 30 1 = 0 \<and> quiet view s (snd (hba_read H (pb + 0x10) s)))"

definition hba_laws :: "'d hba \<Rightarrow> u64 \<Rightarrow> ('d \<Rightarrow> hba_view) \<Rightarrow> u64 \<Rightarrow> bool" where
  "hba_laws H pb view capacity \<longleftrightarrow> hba_registers H pb view \<and> hba_commands H pb view capacity \<and> capacity \<le> push_bit 48 1"

section \<open>Executing a command\<close>

lemma quiet_trans: "quiet view s s' \<Longrightarrow> quiet view s' s'' \<Longrightarrow> quiet view s s''"
  by (simp add: quiet_def)

lemma quiet_wait: "(\<And>s. quiet view s (snd (hba_read H tfd s))) \<Longrightarrow> quiet view s (wait_port H tfd n s)"
proof (induction n arbitrary: s)
  case (Suc n)
  obtain v s' where r: "hba_read H tfd s = (v, s')" by (rule prod.exhaust)
  with Suc.prems [of s] have "quiet view s s'" by simp
  with Suc.IH [OF Suc.prems, of s'] show ?case by (auto simp: r intro: quiet_trans)
qed (simp add: quiet_def)

lemma quiet_start: "hba_registers H pb view \<Longrightarrow> quiet view s (start_engine H pb s)"
proof -
  assume r: "hba_registers H pb view"
  obtain v s1 where s1: "hba_read H (pb + 0x18) s = (v, s1)" by (rule prod.exhaust)
  have "quiet view s s1" using r s1 unfolding hba_registers_def by (metis snd_conv)
  moreover have "quiet view s1 (hba_write H (pb + 0x18) w s1)" for w using r unfolding hba_registers_def by blast
  ultimately show ?thesis by (auto simp: start_engine_def s1 intro: quiet_trans)
qed

lemma poll_executes:
  assumes "hba_commands H pb view capacity"
  shows "av_pending (view (snd s)) = Some k \<Longrightarrow> k < n \<Longrightarrow> command_at (fst s) (av_clb (view (snd s))) = Some c \<Longrightarrow>
    \<exists>s'. poll_issue H (pb + 0x38) (pb + 0x10) n s = (True, s') \<and> executed c view s s'"
proof (induction n arbitrary: s k)
  case (Suc n)
  obtain v s1 where r: "hba_read H (pb + 0x38) s = (v, s1)" by (rule prod.exhaust)
  show ?case
  proof (cases k)
    case 0
    then have "v AND 1 = 0 \<and> executed c view s s1"
      using assms Suc.prems(1,3) r unfolding hba_commands_def by (metis fst_conv snd_conv)
    then show ?thesis by (simp add: r)
  next
    case (Suc j)
    then have v: "v AND 1 \<noteq> 0" "fst s1 = fst s" "view (snd s1) = (view (snd s))\<lparr>av_pending := Some j\<rparr>"
      using assms Suc.prems(1) r unfolding hba_commands_def by (metis fst_conv snd_conv)+
    obtain w s2 where i: "hba_read H (pb + 0x10) s1 = (w, s2)" by (rule prod.exhaust)
    have "av_pending (view (snd s1)) \<noteq> None" by (simp add: v(3))
    then have w: "w AND push_bit 30 1 = 0" "quiet view s1 s2"
      using assms i unfolding hba_commands_def by (metis fst_conv snd_conv)+
    then have s2: "fst s2 = fst s" "view (snd s2) = (view (snd s))\<lparr>av_pending := Some j\<rparr>"
      using v by (simp_all add: quiet_def)
    then obtain s' where "poll_issue H (pb + 0x38) (pb + 0x10) n s2 = (True, s')" "executed c view s2 s'"
      using Suc.IH [of s2 j] Suc.prems(2,3) Suc by auto
    then show ?thesis using v(1) w(1) s2 by (auto simp: r i executed_def)
  qed
qed simp

definition ahci_good :: "('d \<Rightarrow> hba_view) \<Rightarrow> u64 \<Rightarrow> ahci_controller \<times> machine \<times> 'd \<Rightarrow> bool" where
  "ahci_good view pb = (\<lambda>(ctrl, m, d).
     map_option port_offset (ah_active_disk_port ctrl) = Some pb \<and> ah_abar_phys ctrl \<noteq> 0 \<and> ah_dma_bounce_phys ctrl \<noteq> 0 \<and>
     av_pending (view d) = None \<and> av_clb (view d) \<noteq> 0 \<and> apart (av_clb (view d)) 16 (ah_dma_bounce_phys ctrl) 4096 \<and>
     (\<forall>lba. length (av_sectors (view d) lba) = 512))"

lemma command_executes:
  assumes laws: "hba_laws H pb view capacity" and good: "ahci_good view pb (ctrl, m, d)" and lba: "lba < capacity"
  shows "\<exists>m' d'. issue_dma_sector H ctrl lba wr (m, d) = (True, m', d') \<and>
    av_pending (view d') = None \<and> av_clb (view d') = av_clb (view d) \<and>
    (if wr then av_sectors (view d') = (av_sectors (view d))(lba := read_bytes m (ah_dma_bounce_phys ctrl) 512)
     else av_sectors (view d') = av_sectors (view d) \<and>
       read_bytes m' (ah_dma_bounce_phys ctrl) 512 = av_sectors (view d) lba)"
proof -
  have r: "hba_registers H pb view" and c: "hba_commands H pb view capacity" and cap: "capacity \<le> push_bit 48 1"
    using laws by (simp_all add: hba_laws_def)
  obtain port where port: "ah_active_disk_port ctrl = Some port" "port_offset port = pb"
    using good by (auto simp: ahci_good_def)
  let ?clb = "av_clb (view d)" and ?dma = "ah_dma_bounce_phys ctrl"
  obtain lo s1 where lo: "hba_read H pb (m, d) = (lo, s1)" by (rule prod.exhaust)
  have q1: "quiet view (m, d) s1" "lo = ucast ?clb" using r lo unfolding hba_registers_def by (metis fst_conv snd_conv)+
  obtain hi s2 where hi: "hba_read H (pb + 0x04) s1 = (hi, s2)" by (rule prod.exhaust)
  have q2: "quiet view s1 s2" "hi = ucast (drop_bit 32 (av_clb (view (snd s1))))"
    using r hi unfolding hba_registers_def by (metis fst_conv snd_conv)+
  have clb: "ucast lo OR push_bit 32 (ucast hi) = ?clb"
    using q1 q2(2) by (auto simp: quiet_def intro!: bit_word_eqI simp: bit_simps dest: bit_imp_le_length)
  obtain m3 d3 where s3: "hba_write H (pb + 0x10) 0xFFFFFFFF (start_engine H pb s2) = (m3, d3)" by (rule prod.exhaust)
  have "quiet view (start_engine H pb s2) (m3, d3)" using r s3 unfolding hba_registers_def by metis
  then have "quiet view (m, d) (m3, d3)"
    using q1(1) q2(1) quiet_start [OF r, of s2] by (auto intro: quiet_trans)
  then have v3: "m3 = m" "view d3 = view d" by (simp_all add: quiet_def)
  let ?b = "build_command ?clb ?dma lba wr m"
  define s4 where "s4 = wait_port H (pb + 0x20) 100000 (?b, d3)"
  have "quiet view (?b, d3) s4"
    unfolding s4_def by (rule quiet_wait) (use r [unfolded hba_registers_def] in blast)
  then have s4: "fst s4 = ?b" "view (snd s4) = view d" using v3(2) by (simp_all add: quiet_def)
  have far: "apart ?clb 16 ?dma 4096" using good by (simp add: ahci_good_def)
  have "take_bit 48 lba = lba"
  proof -
    have "unat lba < 2 ^ 48" using lba cap by (simp add: word_less_nat_alt word_le_nat_alt)
    then show ?thesis by (simp only: word_unat_eq_iff unsigned_take_bit_eq) (simp add: take_bit_nat_eq_self)
  qed
  then have cmd: "command_at (fst s4) (av_clb (view (snd s4))) = Some \<lparr>dc_write = wr, dc_lba = lba, dc_addr = ?dma\<rparr>"
    using command_built(1) [OF far] by (simp add: s4)
  have "av_pending (view (snd s4)) = None" using good s4(2) by (simp add: ahci_good_def)
  then obtain n where n: "n < 500000" "fst (hba_write H (pb + 0x38) 1 s4) = fst s4"
    "view (snd (hba_write H (pb + 0x38) 1 s4)) = (view (snd s4))\<lparr>av_pending := Some n\<rparr>"
    using c cmd lba unfolding hba_commands_def by (metis dma_command.select_convs(2))
  then obtain s' where s': "poll_issue H (pb + 0x38) (pb + 0x10) 500000 (hba_write H (pb + 0x38) 1 s4) = (True, s')"
    "executed \<lparr>dc_write = wr, dc_lba = lba, dc_addr = ?dma\<rparr> view (hba_write H (pb + 0x38) 1 s4) s'"
    using poll_executes [OF c, of "hba_write H (pb + 0x38) 1 s4" n 500000] cmd by auto
  obtain m' d' where e: "s' = (m', d')" by (rule prod.exhaust)
  have "issue_dma_sector H ctrl lba wr (m, d) = (True, m', d')"
    using good port s'(1)
    by (simp add: issue_dma_sector_def ahci_good_def lo hi clb s3 v3(1) s4_def [symmetric] e)
  moreover have "av_pending (view d') = None" "av_clb (view d') = ?clb"
    "if wr then av_sectors (view d') = (av_sectors (view d))(lba := read_bytes m ?dma 512)
     else av_sectors (view d') = av_sectors (view d) \<and> read_bytes m' ?dma 512 = av_sectors (view d) lba"
    using s'(2) n s4 command_built(2) [OF far, of lba wr m] good by (auto simp: executed_def e ahci_good_def split: if_splits)
  ultimately show ?thesis by blast
qed

section \<open>The driver as a store of sectors\<close>

definition ahci_disks :: "'d hba \<Rightarrow> (ahci_controller \<times> machine \<times> 'd) disks" where
  "ahci_disks H = \<lparr>nvme = no_driver, ahci = ahci_driver H, ata = no_driver\<rparr>"

definition ahci_store :: "('d \<Rightarrow> hba_view) \<Rightarrow> ahci_controller \<times> machine \<times> 'd \<Rightarrow> u64 \<Rightarrow> sector" where
  "ahci_store view s = av_sectors (view (snd (snd s)))"

lemma ahci_good_available: "ahci_good view pb s \<Longrightarrow> ahci_available s"
  by (auto simp: ahci_good_def ahci_available_def)

lemma ahci_read:
  assumes laws: "hba_laws H pb view capacity" and good: "ahci_good view pb s" and lba: "lba < capacity"
  shows "\<exists>s'. ahci_read_sector H lba s = (Some (ahci_store view s lba), s') \<and> ahci_good view pb s' \<and>
    ahci_store view s' = ahci_store view s"
proof -
  obtain ctrl m d where s: "s = (ctrl, m, d)" by (rule prod_cases3)
  obtain m' d' where e: "issue_dma_sector H ctrl lba False (m, d) = (True, m', d')" "av_pending (view d') = None"
    "av_clb (view d') = av_clb (view d)" "av_sectors (view d') = av_sectors (view d)"
    "read_bytes m' (ah_dma_bounce_phys ctrl) 512 = av_sectors (view d) lba"
    using command_executes [OF laws good [unfolded s] lba, of False] by auto
  have "ahci_read_sector H lba s = (Some (av_sectors (view d) lba), ctrl, m', d')"
    using ahci_good_available [OF good] by (simp add: ahci_read_sector_def s e)
  with good e show ?thesis by (auto simp: s ahci_good_def ahci_store_def)
qed

lemma ahci_write:
  assumes laws: "hba_laws H pb view capacity" and good: "ahci_good view pb s" and lba: "lba < capacity" and buf: "length buf = 512"
  shows "\<exists>s'. ahci_write_sector H lba buf s = (True, s') \<and> ahci_good view pb s' \<and>
    ahci_store view s' = (ahci_store view s)(lba := buf)"
proof -
  obtain ctrl m d where s: "s = (ctrl, m, d)" by (rule prod_cases3)
  let ?m = "write_bytes (ah_dma_bounce_phys ctrl) buf m"
  have g: "ahci_good view pb (ctrl, ?m, d)" using good by (simp add: s ahci_good_def)
  have b: "read_bytes ?m (ah_dma_bounce_phys ctrl) 512 = buf"
    using read_write_bytes [of buf "ah_dma_bounce_phys ctrl" m] buf by simp
  obtain m' d' where e: "issue_dma_sector H ctrl lba True (?m, d) = (True, m', d')" "av_pending (view d') = None"
    "av_clb (view d') = av_clb (view d)" "av_sectors (view d') = (av_sectors (view d))(lba := buf)"
    using command_executes [OF laws g lba, of True] b by auto
  have "ahci_write_sector H lba buf s = (True, ctrl, m', d')"
    using ahci_good_available [OF good] buf by (simp add: ahci_write_sector_def s e)
  with good e buf show ?thesis by (auto simp: s ahci_good_def ahci_store_def)
qed

lemma ahci_sector_store:
  assumes laws: "hba_laws H pb view capacity"
  shows "sector_store (ahci_disks H) (ahci_good view pb) capacity (ahci_store view)"
proof
  fix s :: "ahci_controller \<times> machine \<times> 'a" and lba :: u64 and buf :: sector
  assume good: "ahci_good view pb s"
  note a = ahci_good_available [OF good]
  note defs = read_disk_sector_def write_disk_sector_def has_physical_disk_def ahci_disks_def no_driver_def ahci_driver_def
  show "has_physical_disk (ahci_disks H) s" using a by (simp add: defs)
  assume lba: "lba < capacity"
  show "\<exists>s'. read_disk_sector (ahci_disks H) lba s = (Some (ahci_store view s lba), s') \<and> ahci_good view pb s' \<and>
      ahci_store view s' = ahci_store view s"
    using ahci_read [OF laws good lba] a by (auto simp: defs)
  assume buf: "length buf = 512"
  show "\<exists>s'. write_disk_sector (ahci_disks H) lba buf s = (True, s') \<and> ahci_good view pb s' \<and>
      ahci_store view s' = (ahci_store view s)(lba := buf)"
    using ahci_write [OF laws good lba buf] a by (auto simp: defs)
qed

section \<open>The probe\<close>

text \<open>The identification registers: which ports are implemented, their status and their signature.\<close>

definition hba_probe :: "'d hba \<Rightarrow> ('d \<Rightarrow> hba_view) \<Rightarrow> u32 \<Rightarrow> (u8 \<Rightarrow> u32) \<Rightarrow> (u8 \<Rightarrow> u32) \<Rightarrow> bool" where
  "hba_probe H view implemented ssts sig \<longleftrightarrow>
     (\<forall>s. quiet view s (snd (hba_read H 0 s)) \<and> quiet view s (snd (hba_read H 0x10 s)) \<and> quiet view s (snd (hba_read H 0x04 s))) \<and>
     (\<forall>s v. quiet view s (hba_write H 0x04 v s)) \<and>
     (\<forall>s. fst (hba_read H 0x0C s) = implemented \<and> quiet view s (snd (hba_read H 0x0C s))) \<and>
     (\<forall>p s. fst (hba_read H (port_offset p + 0x28) s) = ssts p \<and> quiet view s (snd (hba_read H (port_offset p + 0x28) s)) \<and>
        fst (hba_read H (port_offset p + 0x24) s) = sig p \<and> quiet view s (snd (hba_read H (port_offset p + 0x24) s)))"

definition disk_port :: "u32 \<Rightarrow> (u8 \<Rightarrow> u32) \<Rightarrow> (u8 \<Rightarrow> u32) \<Rightarrow> u8 \<Rightarrow> bool" where
  "disk_port implemented ssts sig p \<longleftrightarrow> implemented AND push_bit (unat p) 1 \<noteq> 0 \<and> ssts p AND 0x0F = HBA_PORT_DET_PRESENT \<and>
     drop_bit 8 (ssts p) AND 0x0F = HBA_PORT_IPM_ACTIVE \<and> sig p = SATA_SIG_ATA"

lemma port_probed:
  assumes "hba_probe H view implemented ssts sig" "probe_port H p (ctrl, s) = (ctrl', s')"
  shows "quiet view s s'" "ah_abar_phys ctrl' = ah_abar_phys ctrl" "ah_dma_bounce_phys ctrl' = ah_dma_bounce_phys ctrl"
    "implemented AND push_bit (unat p) 1 \<noteq> 0 \<Longrightarrow> ah_active_disk_port ctrl' =
       (if ah_active_disk_port ctrl = None \<and> disk_port implemented ssts sig p then Some p else ah_active_disk_port ctrl)"
proof -
  obtain v s1 where s1: "hba_read H (port_offset p + 0x28) s = (v, s1)" by (rule prod.exhaust)
  obtain w s2 where s2: "hba_read H (port_offset p + 0x24) s1 = (w, s2)" by (rule prod.exhaust)
  have v: "v = ssts p" "quiet view s s1" using assms(1) s1 unfolding hba_probe_def by (metis fst_conv snd_conv)+
  have w: "w = sig p" "quiet view s1 s2" using assms(1) s2 unfolding hba_probe_def by (metis fst_conv snd_conv)+
  have "s' = s2" using assms(2) s1 s2 by (simp add: probe_port_def)
  with v(2) w(2) show "quiet view s s'" by (simp add: quiet_def)
  show "ah_abar_phys ctrl' = ah_abar_phys ctrl" "ah_dma_bounce_phys ctrl' = ah_dma_bounce_phys ctrl"
    "implemented AND push_bit (unat p) 1 \<noteq> 0 \<Longrightarrow> ah_active_disk_port ctrl' =
       (if ah_active_disk_port ctrl = None \<and> disk_port implemented ssts sig p then Some p else ah_active_disk_port ctrl)"
    using assms(2) by (auto simp: probe_port_def s1 s2 v(1) w(1) disk_port_def Let_def split: if_splits)
qed

lemma ports_probed:
  assumes "hba_probe H view implemented ssts sig"
  shows "fold (\<lambda>port cs. if implemented AND push_bit (unat port) 1 \<noteq> 0 then probe_port H port cs else cs) ps (ctrl, s) = (ctrl', s') \<Longrightarrow>
    quiet view s s' \<and> ah_abar_phys ctrl' = ah_abar_phys ctrl \<and> ah_dma_bounce_phys ctrl' = ah_dma_bounce_phys ctrl \<and>
    ah_active_disk_port ctrl' =
      (case ah_active_disk_port ctrl of None \<Rightarrow> find (disk_port implemented ssts sig) ps | Some p \<Rightarrow> Some p)"
proof (induction ps arbitrary: ctrl s)
  case Nil
  then show ?case by (auto simp: quiet_def split: option.splits)
next
  case (Cons p ps)
  obtain c1 s1 where c1: "(if implemented AND push_bit (unat p) 1 \<noteq> 0 then probe_port H p (ctrl, s) else (ctrl, s)) = (c1, s1)"
    by (rule prod.exhaust)
  have step: "quiet view s s1 \<and> ah_abar_phys c1 = ah_abar_phys ctrl \<and> ah_dma_bounce_phys c1 = ah_dma_bounce_phys ctrl \<and>
      ah_active_disk_port c1 =
        (if ah_active_disk_port ctrl = None \<and> disk_port implemented ssts sig p then Some p else ah_active_disk_port ctrl)"
  proof (cases "implemented AND push_bit (unat p) 1 \<noteq> 0")
    case True
    then have "probe_port H p (ctrl, s) = (c1, s1)" using c1 by simp
    from port_probed [OF assms this] True show ?thesis by blast
  next
    case False
    then show ?thesis using c1 by (auto simp: quiet_def disk_port_def)
  qed
  have "fold (\<lambda>port cs. if implemented AND push_bit (unat port) 1 \<noteq> 0 then probe_port H port cs else cs) ps (c1, s1) = (ctrl', s')"
    using Cons.prems c1 by simp
  from Cons.IH [OF this] step show ?case by (auto intro: quiet_trans split: option.splits)
qed

lemma ahci_started:
  assumes probe: "hba_probe H view implemented ssts sig" and "abar = ucast (bar5 AND NOT 0xF)" "abar \<noteq> 0"
    and m: "map_page (abar + hhdm) abar (WRITABLE OR CACHE_DISABLE) m = Some m1"
      "map_page (abar + hhdm + 0x1000) (abar + 0x1000) (WRITABLE OR CACHE_DISABLE) m1 = Some m2" "alloc_or_zero m2 = (dma, m3)"
  shows "\<exists>ctrl s'. ahci_init hhdm H bar5 (ahci_controller_new, m, d) = Some (ctrl, s') \<and> view (snd s') = view d \<and>
    ah_abar_phys ctrl = abar \<and> ah_dma_bounce_phys ctrl = dma \<and>
    ah_active_disk_port ctrl = find (disk_port implemented ssts sig) (map of_nat [0..<32])"
proof -
  have quiet: "quiet view s (snd (hba_read H 0 s))" "quiet view s (snd (hba_read H 0x10 s))" "quiet view s (snd (hba_read H 0x04 s))"
    "quiet view s (hba_write H 0x04 v s)" "quiet view s (snd (hba_read H 0x0C s))" "fst (hba_read H 0x0C s) = implemented" for s v
    using probe unfolding hba_probe_def by blast+
  obtain cap s1 where s1: "hba_read H 0 (m3, d) = (cap, s1)" by (rule prod.exhaust)
  obtain imp s2 where s2: "hba_read H 0x0C s1 = (imp, s2)" by (rule prod.exhaust)
  obtain vs s3 where s3: "hba_read H 0x10 s2 = (vs, s3)" by (rule prod.exhaust)
  obtain ghc s4 where s4: "hba_read H 0x04 s3 = (ghc, s4)" by (rule prod.exhaust)
  have imp: "imp = implemented" using quiet(6) [of s1] s2 by simp
  let ?s5 = "hba_write H 0x04 (ghc OR push_bit 31 1) s4"
  have q: "quiet view (m3, d) ?s5"
    using quiet(1) [of "(m3, d)"] quiet(5) [of s1] quiet(2) [of s2] quiet(3) [of s3] quiet(4) [of s4 "ghc OR push_bit 31 1"] s1 s2 s3 s4
    by (simp add: quiet_def)
  obtain ctrl s' where f: "fold (\<lambda>port cs. if implemented AND push_bit (unat port) 1 \<noteq> 0 then probe_port H port cs else cs)
      (map of_nat [0..<32]) (ahci_controller_new\<lparr>ah_abar_phys := abar, ah_dma_bounce_phys := dma, ah_ports := []\<rparr>, ?s5) = (ctrl, s')"
    by (rule prod.exhaust)
  have "ahci_init hhdm H bar5 (ahci_controller_new, m, d) = Some (ctrl, s')"
    unfolding ahci_init_def prod.case Let_def assms(2) [symmetric] f [symmetric]
    using assms(3) by (simp add: m(1,2) [simplified] m(3) s1 s2 s3 s4 imp del: map_map upt.simps)
  moreover have "view (snd s') = view d"
    using ports_probed [OF probe f] quiet_trans [OF q, of s'] by (simp add: quiet_def)
  ultimately show ?thesis using ports_probed [OF probe f] by (auto simp: ahci_controller_new_def)
qed

text \<open>
  C24: The AHCI driver implements a store of sectors. On a controller that follows the documented
  protocol, the probe selects the first implemented port with an active SATA disk; when a frame was
  left for its buffer, then every sector below the capacity can be read as it was last written
  through the block layer, every write succeeds and changes that sector only, whatever was done
  before, because each command that the driver builds in memory is the one it was asked for.
\<close>
theorem ahci_implements_store:
  assumes "hba_laws H (port_offset port) view capacity" "hba_probe H view implemented ssts sig"
    and "find (disk_port implemented ssts sig) (map of_nat [0..<32]) = Some port"
    and "ahci_init hhdm H bar5 (ahci_controller_new, m, d) = Some s" "bar5 AND NOT 0xF \<noteq> 0" "ah_dma_bounce_phys (fst s) \<noteq> 0"
    and "av_pending (view d) = None" "av_clb (view d) \<noteq> 0" "\<forall>lba. length (av_sectors (view d) lba) = 512"
    and "\<forall>f \<in> m_avail m. apart (av_clb (view d)) 16 f 4096"
  shows "sector_store (ahci_disks H) (ahci_good view (port_offset port)) capacity (ahci_store view) \<and>
    ahci_good view (port_offset port) s \<and> ahci_store view s = av_sectors (view d)"
proof -
  define abar :: u64 where "abar = ucast (bar5 AND NOT 0xF)"
  have "(ucast abar :: u32) = bar5 AND NOT 0xF" unfolding abar_def by (rule bit_word_eqI) (auto simp: bit_simps)
  with assms(5) have abar: "abar \<noteq> 0" by auto
  note init = assms(4) [unfolded ahci_init_def prod.case Let_def, folded abar_def]
  obtain m1 where m1: "map_page (abar + hhdm) abar (WRITABLE OR CACHE_DISABLE) m = Some m1"
    using init abar by (auto simp: bind_eq_Some_conv)
  obtain m2 where m2: "map_page (abar + hhdm + 0x1000) (abar + 0x1000) (WRITABLE OR CACHE_DISABLE) m1 = Some m2"
    using init abar m1 by (auto simp: bind_eq_Some_conv)
  obtain dma m3 where dma: "alloc_or_zero m2 = (dma, m3)" by (rule prod.exhaust)
  obtain ctrl s' where s: "s = (ctrl, s')" "view (snd s') = view d" "ah_abar_phys ctrl = abar" "ah_dma_bounce_phys ctrl = dma"
    "ah_active_disk_port ctrl = Some port"
    using ahci_started [OF assms(2) abar_def abar m1 m2 dma, of d] assms(3,4) by auto
  have "dma \<in> m_avail m"
    using alloc_or_zero_frame(1) [OF dma] assms(6) map_page_avail [OF m1] map_page_avail [OF m2] by (auto simp: s)
  then have "ahci_good view (port_offset port) s"
    using assms(6-10) abar s by (cases s') (simp add: ahci_good_def)
  then show ?thesis using ahci_sector_store [OF assms(1)] s by (simp add: ahci_store_def)
qed

subsection \<open>A controller\<close>

definition demo_execute :: "machine \<times> hba_view \<Rightarrow> machine \<times> hba_view" where
  "demo_execute = (\<lambda>(m, v). case command_at m (av_clb v) of
       None \<Rightarrow> (m, v\<lparr>av_pending := None\<rparr>)
     | Some c \<Rightarrow>
         if dc_write c then (m, v\<lparr>av_pending := None, av_sectors := (av_sectors v)(dc_lba c := read_bytes m (dc_addr c) 512)\<rparr>)
         else (write_bytes (dc_addr c) (take 512 (av_sectors v (dc_lba c))) m, v\<lparr>av_pending := None\<rparr>))"

definition demo_hba :: "hba_view hba" where
  "demo_hba =
     \<lparr>hba_read = (\<lambda>off s.
        if off = 0x100 then (ucast (av_clb (snd s)), s)
        else if off = 0x104 then (ucast (drop_bit 32 (av_clb (snd s))), s)
        else if off = 0x138 then
          (case av_pending (snd s) of None \<Rightarrow> (0, s) | Some 0 \<Rightarrow> (0, demo_execute s)
           | Some (Suc n) \<Rightarrow> (1, fst s, (snd s)\<lparr>av_pending := Some n\<rparr>))
        else (if off = 0x0C then 1 else if off = 0x128 then 0x103 else if off = 0x124 then 0x101 else 0, s)),
      hba_write = (\<lambda>off v s. if off = 0x138 then (fst s, (snd s)\<lparr>av_pending := Some 2\<rparr>) else s)\<rparr>"

lemma port_offset_0: "port_offset 0 = 0x100"
  by (simp add: port_offset_def)

lemma read_back: "length xs = 512 \<Longrightarrow> read_bytes (write_bytes a xs m) a 512 = xs"
  using read_write_bytes [of xs a m] by simp

lemma demo_hba_laws: "hba_laws demo_hba (port_offset 0) id 4096"
proof -
  have "hba_registers demo_hba 0x100 id" by (simp add: hba_registers_def demo_hba_def quiet_def)
  moreover have "hba_commands demo_hba 0x100 id 4096"
    unfolding hba_commands_def
  proof (intro conjI allI impI)
    fix s :: "machine \<times> hba_view" and c assume "av_pending (id (snd s)) = None"
    show "\<exists>n<500000. fst (hba_write demo_hba (0x100 + 0x38) 1 s) = fst s \<and>
        id (snd (hba_write demo_hba (0x100 + 0x38) 1 s)) = (id (snd s))\<lparr>av_pending := Some n\<rparr>"
      by (rule exI [of _ 2]) (simp add: demo_hba_def)
  next
    fix s :: "machine \<times> hba_view" and c
    assume c: "av_pending (id (snd s)) = Some 0" "command_at (fst s) (av_clb (id (snd s))) = Some c"
    show "executed c id s (snd (hba_read demo_hba (0x100 + 0x38) s))"
      using c by (cases s) (auto simp: demo_hba_def executed_def demo_execute_def read_back)
  qed (auto simp: demo_hba_def quiet_def split: option.split nat.split)
  ultimately show ?thesis by (simp add: hba_laws_def port_offset_0)
qed

lemma demo_hba_probe:
  "hba_probe demo_hba id 1 (\<lambda>p. if p = 0 then 0x103 else 0) (\<lambda>p. if p = 0 then 0x101 else 0)"
proof -
  have small: "unat (port_offset p) = 0x100 + unat p * 0x80" for p
  proof -
    have p: "unat p < 256" using unsigned_less [of p] by simp
    then have "unat p < 2 ^ 64" by (rule order.strict_trans) simp
    then have "take_bit 64 (unat p) = unat p" by (rule take_bit_nat_eq_self)
    moreover have "unat p * 128 < 18446744073709551616" "256 + unat p * 128 < 18446744073709551616" using p by linarith+
    ultimately show ?thesis by (simp only: port_offset_def unat_word_ariths unsigned_ucast_eq) simp
  qed
  have sum: "port_offset p + k = c \<longleftrightarrow> 0x100 + unat p * 0x80 + unat k = unat c" if "unat k < 256" for p k and c :: u64
  proof -
    have "unat p < 256" using unsigned_less [of p] by simp
    then have "0x100 + unat p * 0x80 + unat k < 18446744073709551616" using that by linarith
    then have "unat (port_offset p + k) = 0x100 + unat p * 0x80 + unat k"
      by (simp only: unat_word_ariths small) simp
    then show ?thesis by (simp only: word_unat_eq_iff)
  qed
  have "32 * n \<noteq> 5" for n :: nat by presburger
  then show ?thesis
    by (auto simp: hba_probe_def demo_hba_def quiet_def sum unat_eq_zero)
qed

text \<open>One free frame, at 0x6000, and page tables that reach the registers at 0xFEBF0000.\<close>

definition demo_host :: machine where
  "demo_host =
     \<lparr>frames = \<lparr>bitmap = (\<lambda>i. if i = 0 then 0xBF else 0xFF), total_frames = 8, used_frames = 7\<rparr>,
      mem = (\<lambda>_. 0)(0x300 := 0x2001, 0x403 := 0x3001, 0x7F5 := 0x8001), cr3 = 0x1000\<rparr>"

definition demo_drive :: hba_view where
  "demo_drive = \<lparr>av_clb = 0x9000, av_pending = None, av_sectors = (\<lambda>_. zero_sector)\<rparr>"

lemma demo_host_avail: "m_avail demo_host = {0x6000}"
proof -
  have "bit (0xBF :: u8) k \<longleftrightarrow> k < 8 \<and> k \<noteq> 6" for k
    by (cases "k < 8") (auto simp: less_Suc_eq numeral_eq_Suc bit_word_of_int_iff dest: bit_imp_le_length)
  moreover have "bit (0xFF :: u8) (k mod 8)" for k
    using byte_not_full [of "0xFF"] by auto
  ultimately have "is_free (frames demo_host) f \<longleftrightarrow> f = 6" for f
    by (cases "f div 8 = 0") (auto simp: is_free_bit demo_host_def)
  then show ?thesis by (auto simp: m_avail_def avail_frames_def free_frames_def frame_addr_def)
qed

lemma demo_host_maps:
  assumes "v = 0xFFFF8000FEBF0000 \<and> k = 0x11F0 \<or> v = 0xFFFF8000FEBF1000 \<and> k = 0x11F1"
    "mem m 0x300 = 0x2001" "mem m 0x403 = 0x3001" "mem m 0x7F5 = 0x8001" "cr3 m = 0x1000"
  shows "map_page v phys flags m = Some (m\<lparr>mem := (mem m)(k := phys OR flags OR PRESENT)\<rparr>)"
proof -
  have r: "read64 m 0x1800 = 0x2001" "read64 m 0x2018 = 0x3001" "read64 m 0x3FA8 = 0x8001"
    using assms(2-4) by (simp_all add: read64_def cell_def)
  show ?thesis
    using assms(1)
    by (auto simp: map_page_def map_page_in_table_def get_pml4_def assms(5) align_down_def entry_addr_def pt_index_def r Let_def
        write64_def cell_def)
qed

lemma demo_start: "\<exists>s. ahci_init 0xFFFF800000000000 demo_hba 0xFEBF0000 (ahci_controller_new, demo_host, demo_drive) = Some s \<and>
    ah_dma_bounce_phys (fst s) \<noteq> 0"
proof -
  let ?flags = "WRITABLE OR CACHE_DISABLE"
  let ?m1 = "demo_host\<lparr>mem := (mem demo_host)(0x11F0 := 0xFEBF0000 OR ?flags OR PRESENT)\<rparr>"
  let ?m2 = "?m1\<lparr>mem := (mem ?m1)(0x11F1 := (0xFEBF0000 + 0x1000) OR ?flags OR PRESENT)\<rparr>"
  have 1: "map_page (0xFEBF0000 + 0xFFFF800000000000) 0xFEBF0000 ?flags demo_host = Some ?m1"
    by (rule demo_host_maps) (simp_all add: demo_host_def)
  have 2: "map_page (0xFEBF0000 + 0xFFFF800000000000 + 0x1000) (0xFEBF0000 + 0x1000) ?flags ?m1 = Some ?m2"
    by (rule demo_host_maps) (simp_all add: demo_host_def)
  have "m_avail ?m2 = {0x6000}" using demo_host_avail by (simp add: m_avail_def)
  then obtain m3 where 3: "alloc_or_zero ?m2 = (0x6000, m3)"
    using m_alloc_laws(1) [of ?m2] m_alloc_laws(2) [of ?m2] by (cases "m_alloc ?m2") (auto simp: alloc_or_zero_def)
  have "\<exists>ctrl s'. ahci_init 0xFFFF800000000000 demo_hba 0xFEBF0000 (ahci_controller_new, demo_host, demo_drive) = Some (ctrl, s') \<and>
      id (snd s') = id demo_drive \<and> ah_abar_phys ctrl = 0xFEBF0000 \<and> ah_dma_bounce_phys ctrl = 0x6000 \<and>
      ah_active_disk_port ctrl = find (disk_port 1 (\<lambda>p. if p = 0 then 0x103 else 0) (\<lambda>p. if p = 0 then 0x101 else 0)) (map of_nat [0..<32])"
    by (rule ahci_started [OF demo_hba_probe _ _ 1 2 3]) simp_all
  then show ?thesis by auto
qed

lemma ahci_implements_store_witness:
  "\<exists>s. ahci_init 0xFFFF800000000000 demo_hba 0xFEBF0000 (ahci_controller_new, demo_host, demo_drive) = Some s \<and>
     fst (is_gpt_installed (ahci_disks demo_hba) (snd (write_gpt_layout (ahci_disks demo_hba) s)))"
proof -
  obtain s where s: "ahci_init 0xFFFF800000000000 demo_hba 0xFEBF0000 (ahci_controller_new, demo_host, demo_drive) = Some s"
    "ah_dma_bounce_phys (fst s) \<noteq> 0"
    using demo_start by blast
  have find: "find (disk_port 1 (\<lambda>p. if p = 0 then 0x103 else 0) (\<lambda>p. if p = 0 then 0x101 else 0)) (map of_nat [0..<32]) = Some 0"
    by (simp add: upt_rec [of 0] disk_port_def)
  have far: "apart 0x9000 16 0x6000 4096"
    unfolding apart_def
  proof (intro allI impI)
    fix i j :: nat assume "i < 16" "j < 4096"
    then have "unat (0x9000 + of_nat i :: u64) = 0x9000 + i" "unat (0x6000 + of_nat j :: u64) = 0x6000 + j"
      by (simp_all add: unat_word_ariths unat_of_nat)
    then have "unat (0x9000 + of_nat i :: u64) \<noteq> unat (0x6000 + of_nat j :: u64)" using \<open>j < 4096\<close> by simp
    then show "(0x9000 + of_nat i :: u64) \<noteq> 0x6000 + of_nat j" by metis
  qed
  have "sector_store (ahci_disks demo_hba) (ahci_good id (port_offset 0)) 4096 (ahci_store id) \<and>
      ahci_good id (port_offset 0) s \<and> ahci_store id s = av_sectors (id demo_drive)"
    by (rule ahci_implements_store [OF demo_hba_laws demo_hba_probe find s(1) _ s(2)])
      (simp_all add: demo_drive_def demo_host_avail far zero_sector_def)
  then have st: "sector_store (ahci_disks demo_hba) (ahci_good id (port_offset 0)) 4096 (ahci_store id)"
    "ahci_good id (port_offset 0) s" by simp_all
  have "78 \<le> (4096 :: u64)" by simp
  from sector_store.layout_written [OF st this] obtain s' where
    s': "write_gpt_layout (ahci_disks demo_hba) s = (True, s')" "ahci_good id (port_offset 0) s'"
    "ahci_store id s' = (ahci_store id s)(0 := gpt_mbr, 1 := gpt_header, 2 := gpt_entries,
      64 := esp_bpb, 65 := esp_fat, 71 := esp_fat, 77 := esp_root_dir)"
    by blast
  have "ahci_store id s' 1 = gpt_header" by (simp add: s'(3))
  with s(1) s'(1) sector_store.layout_detected [OF st(1) s'(2)] show ?thesis by auto
qed

end
