(* ===== verification/Boot.thy ===== *)
theory Boot
  imports Syscall Heap Pci Xhci Ata Ahci
begin

text \<open>
  The probes of the devices in \<^verbatim>\<open>kmain\<close> (\<^verbatim>\<open>kernel/src/main.rs\<close>), in their order, on the memory that the
  theory Heap sets up: the ACPI tables, the interrupt controllers, the PCI bus, and the USB, NVMe,
  AHCI and ATA drivers. What the hardware and the boot loader provide is an argument.
\<close>

section \<open>The probes\<close>

record 'd platform =
  pf_hhdm :: u64
  pf_rsdp :: "u64 option"
  pf_config :: config_space
  pf_mmio :: "'d mmio"
  pf_nvme_cc :: u32
  pf_hba :: "'d hba"
  pf_ports :: "'d ports"

record devices =
  dv_acpi :: acpi_topology
  dv_apic :: apic_state
  dv_pci :: "pci_device list"
  dv_xhci :: xhci_controller
  dv_nvme :: nvme_controller
  dv_ahci :: ahci_controller
  dv_ata :: bool

definition boot_xhci :: "'d platform \<Rightarrow> u32 option \<Rightarrow> machine \<times> 'd \<Rightarrow> (xhci_controller \<times> machine \<times> 'd) option" where
  "boot_xhci P bar s = (case bar of None \<Rightarrow> Some (xhci_controller_new, s)
     | Some raw \<Rightarrow> xhci_init (pf_hhdm P) (pf_mmio P) raw (xhci_controller_new, s))"

definition boot_nvme :: "'d platform \<Rightarrow> u32 option \<Rightarrow> machine \<Rightarrow> (nvme_controller \<times> machine \<times> (u64 \<times> u64) list) option" where
  "boot_nvme P bar m = (case bar of None \<Rightarrow> Some (nvme_controller_new, m, [])
     | Some raw \<Rightarrow> nvme_init (pf_hhdm P) (pf_nvme_cc P) raw nvme_controller_new m)"

definition boot_ahci :: "'d platform \<Rightarrow> u32 option \<Rightarrow> machine \<times> 'd \<Rightarrow> (ahci_controller \<times> machine \<times> 'd) option" where
  "boot_ahci P bar s = (case bar of None \<Rightarrow> Some (ahci_controller_new, s)
     | Some raw \<Rightarrow> ahci_init (pf_hhdm P) (pf_hba P) raw (ahci_controller_new, s))"

text \<open>\<open>None\<close> is the panic of a mapping without frames.\<close>

definition boot_devices :: "'d platform \<Rightarrow> machine \<times> 'd \<Rightarrow> (devices \<times> machine \<times> 'd) option" where
  "boot_devices P = (\<lambda>(m0, d0).
     Option.bind (acpi_init (pf_hhdm P) (pf_rsdp P) (acpi_topology_new, m0)) (\<lambda>(info, m1).
     Option.bind (apic_init (pf_hhdm P) (pf_mmio P) info (apic_state_new, m1, d0)) (\<lambda>(apic, m2, d2).
     let pci = enumerate_pci (pf_config P)
     in Option.bind (boot_xhci P (find_xhci_bar0 pci) (m2, d2)) (\<lambda>(usb, m3, d3).
        Option.bind (boot_nvme P (find_nvme_bar0 pci) m3) (\<lambda>(nv, m4, log).
        Option.bind (boot_ahci P (find_ahci_bar5 pci) (m4, d3)) (\<lambda>(sata, m5, d5).
        case ata_init (pf_ports P) (False, d5) of (present, d6) \<Rightarrow>
          Some (\<lparr>dv_acpi = info, dv_apic = apic, dv_pci = pci, dv_xhci = usb, dv_nvme = nv, dv_ahci = sata,
                 dv_ata = present\<rparr>, m5, d6)))))))"

text \<open>The reports on the devices that the system call \<^verbatim>\<open>SYS_SYSINFO\<close> hands out.\<close>

definition device_reports :: "devices \<Rightarrow> 's env \<Rightarrow> 's env" where
  "device_reports dv E =
     E\<lparr>env_pci_list := format_pci_list (dv_pci dv), env_apic_status := apic_format_status (dv_apic dv) (dv_acpi dv),
       env_xhci_status := xhci_format_status (dv_xhci dv), env_ahci_status := ahci_format_status (dv_ahci dv)\<rparr>"

section \<open>The frames that a step takes\<close>

definition takes :: "u64 list \<Rightarrow> machine \<Rightarrow> machine \<Rightarrow> bool" where
  "takes fs m m' \<longleftrightarrow> distinct fs \<and> set fs \<subseteq> m_avail m \<and> set fs \<inter> m_avail m' = {} \<and> m_avail m' \<subseteq> m_avail m"

definition nonzero :: "u64 list \<Rightarrow> u64 list" where
  "nonzero = filter (\<lambda>f. f \<noteq> 0)"

lemma takes_refl: "takes [] m m"
  by (simp add: takes_def)

lemma takes_trans: "takes fs m m1 \<Longrightarrow> takes gs m1 m2 \<Longrightarrow> takes (fs @ gs) m m2"
  by (auto simp: takes_def)

lemma takes_nothing: "m_avail m' \<subseteq> m_avail m \<Longrightarrow> takes [] m m'"
  by (simp add: takes_def)

lemma takes_nonzero_append: "takes (nonzero fs) m m1 \<Longrightarrow> takes (nonzero gs) m1 m2 \<Longrightarrow> takes (nonzero (fs @ gs)) m m2"
  by (simp add: nonzero_def takes_trans)

lemma takes_alloc: "alloc_or_zero m = (f, m') \<Longrightarrow> takes (nonzero [f]) m m'"
  using m_alloc_laws(2) [of m] by (auto simp: alloc_or_zero_def takes_def nonzero_def split: option.splits)

lemma map_register_pages:
  "fold (\<lambda>page om. Option.bind om (map_page (v + page * 0x1000) (p + page * 0x1000) flags)) ps (Some m) = Some m' \<Longrightarrow>
   m_avail m' \<subseteq> m_avail m"
proof (induction ps arbitrary: m)
  case (Cons q ps)
  have none: "fold (\<lambda>page om. Option.bind om (map_page (v + page * 0x1000) (p + page * 0x1000) flags)) ps None = None" for ps
    by (induction ps) simp_all
  show ?case
  proof (cases "map_page (v + q * 0x1000) (p + q * 0x1000) flags m")
    case None
    with Cons.prems none show ?thesis by simp
  next
    case (Some m1)
    with Cons.prems Cons.IH [of m1] map_page_avail [OF Some] show ?thesis by auto
  qed
qed simp

section \<open>The frames of the drivers\<close>

lemma map_pages_avail: "map_pages hhdm ps m = Some m' \<Longrightarrow> m_avail m' \<subseteq> m_avail m"
proof (induction ps arbitrary: m)
  case (Cons p ps)
  then obtain m1 where "map_if_absent hhdm p m = Some m1" "map_pages hhdm ps m1 = Some m'"
    by (auto simp: bind_eq_Some_conv)
  moreover have "map_if_absent hhdm p m = Some m1 \<Longrightarrow> m_avail m1 \<subseteq> m_avail m"
    by (auto simp: map_if_absent_def split: if_splits dest: map_page_avail)
  ultimately show ?case using Cons.IH [of m1] by blast
qed simp

lemma ensure_mapped_avail: "ensure_mapped hhdm phys sz m = Some (v, m') \<Longrightarrow> m_avail m' \<subseteq> m_avail m"
  by (auto simp: ensure_mapped_def dest: map_pages_avail)

lemma visit_table_avail: "visit_table hhdm p (info, m) = Some (info', m') \<Longrightarrow> m_avail m' \<subseteq> m_avail m"
  by (auto simp: visit_table_def bind_eq_Some_conv dest!: ensure_mapped_avail)

lemma visit_tables_avail: "visit_tables hhdm w p is (info, m) = Some (info', m') \<Longrightarrow> m_avail m' \<subseteq> m_avail m"
proof (induction "is" arbitrary: info m)
  case (Cons i "is")
  then obtain info1 m1 where "visit_table hhdm (word_at (seen hhdm m p) (i * w) w) (info, m) = Some (info1, m1)"
    "visit_tables hhdm w p is (info1, m1) = Some (info', m')"
    by (auto simp: bind_eq_Some_conv)
  with visit_table_avail [OF this(1)] Cons.IH [OF this(2)] show ?case by blast
qed simp

lemma visit_root_avail: "visit_root hhdm w p (info, m) = Some (info', m') \<Longrightarrow> m_avail m' \<subseteq> m_avail m"
  by (auto simp: visit_root_def bind_eq_Some_conv Let_def dest!: ensure_mapped_avail visit_tables_avail)

lemma acpi_init_avail: "acpi_init hhdm resp (info, m) = Some (info', m') \<Longrightarrow> m_avail m' \<subseteq> m_avail m"
  by (auto simp: acpi_init_def bind_eq_Some_conv Let_def split: option.splits if_splits
      dest!: ensure_mapped_avail visit_root_avail)

lemma apic_init_avail: "apic_init hhdm P info (st, m, d) = Some (st', m', d') \<Longrightarrow> m_avail m' \<subseteq> m_avail m"
  by (auto simp: apic_init_def bind_eq_Some_conv Let_def split_beta split: option.splits dest!: map_page_avail)

definition xhci_frames :: "xhci_controller \<Rightarrow> u64 list" where
  "xhci_frames st = [xh_dcbaa_phys st, xh_cmd_ring_phys st, xh_event_ring_phys st]"

definition nvme_frames :: "nvme_controller \<Rightarrow> u64 list" where
  "nvme_frames st = [nv_asq_phys st, nv_acq_phys st, nv_iosq_phys st, nv_iocq_phys st, nv_dma_buf_phys st]"

lemma takes_zero_page: "takes fs m m' \<Longrightarrow> takes fs m (zero_page p m')"
  by (simp add: takes_def)

lemma takes_three:
  assumes "takes [] m m0" "alloc_or_zero m0 = (a, m1)" "alloc_or_zero m1 = (b, m2)" "alloc_or_zero m2 = (c, m3)"
  shows "takes (nonzero [a, b, c]) m m3"
  using takes_nonzero_append [OF takes_nonzero_append [OF takes_nonzero_append [of "[]", OF _ takes_alloc [OF assms(2)]]
      takes_alloc [OF assms(3)]] takes_alloc [OF assms(4)]] assms(1)
  by (simp add: nonzero_def)

lemma xhci_steps:
  assumes "xhci_init hhdm P bar (st, m, d) = Some (st', m', d')" "base = ucast (bar AND NOT 0xF)" "base \<noteq> 0"
    and m0: "fold (\<lambda>page om. Option.bind om (map_page (base + hhdm + page * 0x1000) (base + page * 0x1000) (WRITABLE OR CACHE_DISABLE)))
      [0, 1, 2, 3] (Some m) = Some m0"
    and a: "alloc_or_zero m0 = (a, m1)" and b: "alloc_or_zero m1 = (b, m2)" and c: "alloc_or_zero m2 = (c, m3)"
  shows "xhci_frames st' = [a, b, c] \<and> (m' = m3 \<or> m' = zero_page c (zero_page b (zero_page a m3)))"
  using assms by (auto simp: xhci_init_def Let_def split_beta xhci_frames_def split: if_splits)

lemma xhci_init_takes:
  assumes "xhci_init hhdm P bar (xhci_controller_new, m, d) = Some (st', m', d')"
  shows "takes (nonzero (xhci_frames st')) m m'"
proof (cases "ucast (bar AND NOT 0xF) = (0 :: u64)")
  case True
  with assms have "st' = xhci_controller_new" "m' = m" by (auto simp: xhci_init_def)
  then show ?thesis by (simp add: xhci_frames_def xhci_controller_new_def nonzero_def takes_refl)
next
  case False
  define base :: u64 where "base = ucast (bar AND NOT 0xF)"
  obtain m0 where m0: "fold (\<lambda>page om. Option.bind om (map_page (base + hhdm + page * 0x1000) (base + page * 0x1000) (WRITABLE OR CACHE_DISABLE)))
      [0, 1, 2, 3] (Some m) = Some m0"
    using assms False by (auto simp only: xhci_init_def prod.case Let_def base_def if_False map_option_eq_Some)
  obtain a m1 where a: "alloc_or_zero m0 = (a, m1)" by (rule prod.exhaust)
  obtain b m2 where b: "alloc_or_zero m1 = (b, m2)" by (rule prod.exhaust)
  obtain c m3 where c: "alloc_or_zero m2 = (c, m3)" by (rule prod.exhaust)
  have "takes (nonzero [a, b, c]) m m3"
    by (rule takes_three [OF takes_nothing [OF map_register_pages [OF m0]] a b c])
  with xhci_steps [OF assms base_def _ m0 a b c] False show ?thesis by (auto simp: base_def intro: takes_zero_page)
qed

lemma case_bind: "(case om of None \<Rightarrow> None | Some m \<Rightarrow> g m) = Option.bind om g"
  by (cases om) simp_all

lemma nvme_steps:
  assumes "nvme_init hhdm cc bar st m = Some (st', m', log)" "base = ucast (bar AND NOT 0xF)" "base \<noteq> 0"
    and m0: "fold (\<lambda>page om. Option.bind om (map_page (base + hhdm + page * 0x1000) (base + page * 0x1000) (WRITABLE OR CACHE_DISABLE)))
      [0, 1, 2, 3] (Some m) = Some m0"
    and a: "alloc_or_zero m0 = (a, m1)" and b: "alloc_or_zero m1 = (b, m2)" and c: "alloc_or_zero m2 = (c, m3)"
    and d: "alloc_or_zero m3 = (d, m4)" and e: "alloc_or_zero m4 = (e, m5)"
  shows "nvme_frames st' = [a, b, c, d, e] \<and> m' = zero_page e (zero_page d (zero_page c (zero_page b (zero_page a m5)))) \<or>
    st' = st \<and> m' = m5"
proof -
  have nb: "(base = 0) = False" using assms(3) by simp
  note r = assms(1) [unfolded nvme_init_def Let_def assms(2) [symmetric] nb if_False case_bind m0 bind.bind_lunit a b c d e prod.case]
  show ?thesis using r by (auto simp: nvme_frames_def split: if_splits)
qed

lemma nvme_init_takes:
  assumes "nvme_init hhdm cc bar nvme_controller_new m = Some (st', m', log)"
  shows "takes (nonzero (nvme_frames st')) m m'"
proof (cases "ucast (bar AND NOT 0xF) = (0 :: u64)")
  case True
  with assms have "st' = nvme_controller_new" "m' = m" by (auto simp: nvme_init_def)
  then show ?thesis by (simp add: nvme_frames_def nvme_controller_new_def nonzero_def takes_refl)
next
  case False
  define base :: u64 where "base = ucast (bar AND NOT 0xF)"
  have nb: "base \<noteq> 0" using False by (simp add: base_def)
  obtain m0 where m0: "fold (\<lambda>page om. Option.bind om (map_page (base + hhdm + page * 0x1000) (base + page * 0x1000) (WRITABLE OR CACHE_DISABLE)))
      [0, 1, 2, 3] (Some m) = Some m0"
    using assms False by (auto simp only: nvme_init_def Let_def base_def if_False case_bind bind_eq_Some_conv)
  obtain a m1 where a: "alloc_or_zero m0 = (a, m1)" by (rule prod.exhaust)
  obtain b m2 where b: "alloc_or_zero m1 = (b, m2)" by (rule prod.exhaust)
  obtain c m3 where c: "alloc_or_zero m2 = (c, m3)" by (rule prod.exhaust)
  obtain d m4 where d: "alloc_or_zero m3 = (d, m4)" by (rule prod.exhaust)
  obtain e m5 where e: "alloc_or_zero m4 = (e, m5)" by (rule prod.exhaust)
  have "takes (nonzero [a, b, c]) m m3"
    by (rule takes_three [OF takes_nothing [OF map_register_pages [OF m0]] a b c])
  then have five: "takes (nonzero [a, b, c, d, e]) m m5"
    using takes_nonzero_append [OF takes_nonzero_append [OF _ takes_alloc [OF d]] takes_alloc [OF e], of "[a, b, c]" m] by simp
  from nvme_steps [OF assms base_def nb m0 a b c d e] show ?thesis
  proof
    assume "st' = nvme_controller_new \<and> m' = m5"
    moreover have "m_avail m5 \<subseteq> m_avail m" using five by (simp add: takes_def)
    ultimately show ?thesis by (simp add: nvme_frames_def nvme_controller_new_def nonzero_def takes_nothing)
  qed (use five in \<open>auto intro!: takes_zero_page\<close>)
qed

text \<open>A driver of the AHCI controller only touches registers: the machine changes through the controller.\<close>

definition registers_only :: "'d hba \<Rightarrow> bool" where
  "registers_only H \<longleftrightarrow> (\<forall>off s. m_avail (fst (snd (hba_read H off s))) = m_avail (fst s)) \<and>
     (\<forall>off v s. m_avail (fst (hba_write H off v s)) = m_avail (fst s))"

lemma registers_onlyD:
  "registers_only H \<Longrightarrow> m_avail (fst (snd (hba_read H off s))) = m_avail (fst s)"
  "registers_only H \<Longrightarrow> m_avail (fst (hba_write H off v s)) = m_avail (fst s)"
  unfolding registers_only_def by blast+

lemma probe_ports_keep:
  assumes "registers_only H"
  shows "ah_dma_bounce_phys (fst (fold (\<lambda>port cs. if pm AND push_bit (unat port) 1 \<noteq> 0 then probe_port H port cs else cs) ps cs))
      = ah_dma_bounce_phys (fst cs) \<and>
    m_avail (fst (snd (fold (\<lambda>port cs. if pm AND push_bit (unat port) 1 \<noteq> 0 then probe_port H port cs else cs) ps cs)))
      = m_avail (fst (snd cs))"
proof (induction ps arbitrary: cs)
  case (Cons p ps)
  obtain ctrl s where cs: "cs = (ctrl, s)" by (rule prod.exhaust)
  have "ah_dma_bounce_phys (fst (probe_port H p cs)) = ah_dma_bounce_phys (fst cs)"
    "m_avail (fst (snd (probe_port H p cs))) = m_avail (fst (snd cs))"
    using registers_onlyD(1) [OF assms] by (auto simp: cs probe_port_def split_beta Let_def)
  then show ?case using Cons.IH [of "probe_port H p cs"] Cons.IH [of cs] by simp
qed simp

lemma ahci_steps:
  assumes H: "registers_only H" and i: "ahci_init hhdm H bar (st, m, d) = Some (st', m', d')"
    and abar: "abar = ucast (bar AND NOT 0xF)" "abar \<noteq> 0"
    and m1: "map_page (abar + hhdm) abar (WRITABLE OR CACHE_DISABLE) m = Some m1"
    and m2: "map_page (abar + hhdm + 0x1000) (abar + 0x1000) (WRITABLE OR CACHE_DISABLE) m1 = Some m2"
    and f: "alloc_or_zero m2 = (f, m3)"
  shows "ah_dma_bounce_phys st' = f \<and> m_avail m' = m_avail m3"
proof -
  have nb: "(abar = 0) = False" using abar(2) by simp
  obtain cap s1 where s1: "hba_read H 0 (m3, d) = (cap, s1)" by (rule prod.exhaust)
  obtain pm s2 where s2: "hba_read H 0x0C s1 = (pm, s2)" by (rule prod.exhaust)
  obtain vs s3 where s3: "hba_read H 0x10 s2 = (vs, s3)" by (rule prod.exhaust)
  obtain ghc s4 where s4: "hba_read H 0x04 s3 = (ghc, s4)" by (rule prod.exhaust)
  have "m_avail (fst s1) = m_avail m3" "m_avail (fst s2) = m_avail (fst s1)" "m_avail (fst s3) = m_avail (fst s2)"
    "m_avail (fst s4) = m_avail (fst s3)" "m_avail (fst (hba_write H 0x04 (ghc OR push_bit 31 1) s4)) = m_avail (fst s4)"
    using registers_onlyD(1) [OF H, of 0 "(m3, d)"] registers_onlyD(1) [OF H, of "0x0C" s1]
      registers_onlyD(1) [OF H, of "0x10" s2] registers_onlyD(1) [OF H, of "0x04" s3] registers_onlyD(2) [OF H]
    by (simp_all add: s1 s2 s3 s4)
  moreover note probe_ports_keep [OF H, of pm "map of_nat [0..<32]"
      "(st\<lparr>ah_abar_phys := abar, ah_dma_bounce_phys := f, ah_ports := []\<rparr>, hba_write H 0x04 (ghc OR push_bit 31 1) s4)"]
  ultimately show ?thesis
    using i [unfolded ahci_init_def prod.case Let_def abar(1) [symmetric] nb if_False m1 m2 bind.bind_lunit f s1 s2 s3 s4
        prod.case option.inject]
    by (simp del: upt_rec_numeral)
qed

lemma ahci_init_takes:
  assumes "registers_only H" "ahci_init hhdm H bar (ahci_controller_new, m, d) = Some (st', m', d')"
  shows "takes (nonzero [ah_dma_bounce_phys st']) m m'"
proof (cases "ucast (bar AND NOT 0xF) = (0 :: u64)")
  case True
  with assms(2) have "st' = ahci_controller_new" "m' = m" by (auto simp: ahci_init_def)
  then show ?thesis by (simp add: ahci_controller_new_def nonzero_def takes_refl)
next
  case False
  define abar :: u64 where "abar = ucast (bar AND NOT 0xF)"
  have nb: "(abar = 0) = False" "abar \<noteq> 0" using False by (simp_all add: abar_def)
  obtain m1 m2 where m1: "map_page (abar + hhdm) abar (WRITABLE OR CACHE_DISABLE) m = Some m1"
    and m2: "map_page (abar + hhdm + 0x1000) (abar + 0x1000) (WRITABLE OR CACHE_DISABLE) m1 = Some m2"
    using assms(2) [unfolded ahci_init_def prod.case Let_def abar_def [symmetric] nb(1) if_False]
    by (auto simp only: bind_eq_Some_conv)
  obtain f m3 where f: "alloc_or_zero m2 = (f, m3)" by (rule prod.exhaust)
  have "takes [] m m2" using map_page_avail [OF m1] map_page_avail [OF m2] by (intro takes_nothing) blast
  then have "takes (nonzero [f]) m m3" using takes_trans [of "[]" m m2, OF _ takes_alloc [OF f]] by simp
  with ahci_steps [OF assms abar_def nb(2) m1 m2 f] show ?thesis by (simp add: takes_def)
qed

section \<open>Enough frames are enough\<close>

text \<open>\<open>uses n m m'\<close>: at most \<open>n\<close> frames are gone.\<close>

definition uses :: "nat \<Rightarrow> machine \<Rightarrow> machine \<Rightarrow> bool" where
  "uses n m m' \<longleftrightarrow> card (m_avail m) \<le> card (m_avail m') + n"

lemma uses_trans: "uses i m m1 \<Longrightarrow> uses j m1 m2 \<Longrightarrow> uses (i + j) m m2"
  by (simp add: uses_def)

lemma uses_more: "uses i m m' \<Longrightarrow> i \<le> j \<Longrightarrow> uses j m m'"
  by (simp add: uses_def)

lemma uses_zero_page [simp]: "uses n m (zero_page p m') \<longleftrightarrow> uses n m m'"
  by (simp add: uses_def)

lemma map_page_returns: "3 \<le> card (m_avail m) \<Longrightarrow> \<exists>m'. map_page v p flags m = Some m' \<and> uses 3 m m'"
  using map_page_progress [of m "get_pml4 m" v p flags] map_page_card [of "get_pml4 m" v p flags m]
  by (auto simp: map_page_def uses_def)

lemma alloc_uses: "alloc_or_zero m = (f, m') \<Longrightarrow> uses 1 m m'"
  using m_alloc_laws(2) [of m] card_Suc_Diff1 [OF finite_m_avail [of m], of f]
  by (auto simp: alloc_or_zero_def uses_def split: option.splits)

lemma map_register_pages_return:
  "3 * length ps \<le> card (m_avail m) \<Longrightarrow>
   \<exists>m'. fold (\<lambda>page om. Option.bind om (map_page (v + page * 0x1000) (p + page * 0x1000) flags)) ps (Some m) = Some m' \<and>
     uses (3 * length ps) m m'"
proof (induction ps arbitrary: m)
  case (Cons q ps)
  have "3 \<le> card (m_avail m)" using Cons.prems by simp
  then obtain m1 where 1: "map_page (v + q * 0x1000) (p + q * 0x1000) flags m = Some m1" "uses 3 m m1"
    using map_page_returns by blast
  then have "3 * length ps \<le> card (m_avail m1)" using Cons.prems by (simp add: uses_def)
  from Cons.IH [OF this] obtain m' where
    "fold (\<lambda>page om. Option.bind om (map_page (v + page * 0x1000) (p + page * 0x1000) flags)) ps (Some m1) = Some m'"
    "uses (3 * length ps) m1 m'" by blast
  with 1 show ?case using uses_trans [OF 1(2)] by (intro exI [of _ m']) simp
qed (simp add: uses_def)

lemma apic_init_returns:
  assumes "6 \<le> card (m_avail m)"
  shows "\<exists>st' m' d'. apic_init hhdm P info (st, m, d) = Some (st', m', d') \<and> uses 6 m m'"
proof -
  obtain lapic io cores where g: "get_lapic_and_ioapic info = (lapic, io, cores)" by (metis prod_cases3)
  obtain m1 where 1: "map_page (lapic + hhdm) lapic (WRITABLE OR CACHE_DISABLE) m = Some m1" "uses 3 m m1"
    using map_page_returns [of m] assms by fastforce
  show ?thesis
  proof (cases io)
    case None
    with 1 show ?thesis using uses_more [OF 1(2), of 6] by (simp add: apic_init_def g split_beta Let_def)
  next
    case (Some x)
    have "3 \<le> card (m_avail m1)" using 1(2) assms by (simp add: uses_def)
    then obtain m2 where 2: "map_page (ucast (io_address x) + hhdm) (ucast (io_address x)) (WRITABLE OR CACHE_DISABLE) m1 = Some m2"
      "uses 3 m1 m2" using map_page_returns by blast
    with 1 Some show ?thesis using uses_trans [OF 1(2) 2(2)] by (simp add: apic_init_def g split_beta Let_def)
  qed
qed

lemma xhci_init_returns:
  assumes "15 \<le> card (m_avail m)"
  shows "\<exists>st' m' d'. xhci_init hhdm P bar (st, m, d) = Some (st', m', d') \<and> uses 15 m m'"
proof (cases "ucast (bar AND NOT 0xF) = (0 :: u64)")
  case True
  then show ?thesis by (simp add: xhci_init_def uses_def)
next
  case False
  define base :: u64 where "base = ucast (bar AND NOT 0xF)"
  have nb: "(base = 0) = False" using False by (simp add: base_def)
  obtain m0 where m0: "fold (\<lambda>page om. Option.bind om (map_page (base + hhdm + page * 0x1000) (base + page * 0x1000) (WRITABLE OR CACHE_DISABLE)))
      [0, 1, 2, 3] (Some m) = Some m0" "uses 12 m m0"
    using map_register_pages_return [of "[0, 1, 2, 3]" m "base + hhdm" base "WRITABLE OR CACHE_DISABLE"] assms by auto
  obtain a m1 where a: "alloc_or_zero m0 = (a, m1)" by (rule prod.exhaust)
  obtain b m2 where b: "alloc_or_zero m1 = (b, m2)" by (rule prod.exhaust)
  obtain c m3 where c: "alloc_or_zero m2 = (c, m3)" by (rule prod.exhaust)
  have u: "uses 15 m m3"
    using uses_trans [OF uses_trans [OF uses_trans [OF m0(2) alloc_uses [OF a]] alloc_uses [OF b]] alloc_uses [OF c]] by simp
  have "xhci_init hhdm P bar (st, m, d) \<noteq> None"
    by (simp only: xhci_init_def prod.case Let_def base_def [symmetric] nb if_False m0(1) option.map option.distinct not_False_eq_True)
  then obtain st' m' d' where r: "xhci_init hhdm P bar (st, m, d) = Some (st', m', d')" by auto
  from xhci_steps [OF r base_def _ m0(1) a b c] nb u r show ?thesis by auto
qed

lemma nvme_init_returns:
  assumes "17 \<le> card (m_avail m)"
  shows "\<exists>st' m' log. nvme_init hhdm cc bar st m = Some (st', m', log) \<and> uses 17 m m'"
proof (cases "ucast (bar AND NOT 0xF) = (0 :: u64)")
  case True
  then show ?thesis by (simp add: nvme_init_def uses_def)
next
  case False
  define base :: u64 where "base = ucast (bar AND NOT 0xF)"
  have nb: "(base = 0) = False" "base \<noteq> 0" using False by (simp_all add: base_def)
  obtain m0 where m0: "fold (\<lambda>page om. Option.bind om (map_page (base + hhdm + page * 0x1000) (base + page * 0x1000) (WRITABLE OR CACHE_DISABLE)))
      [0, 1, 2, 3] (Some m) = Some m0" "uses 12 m m0"
    using map_register_pages_return [of "[0, 1, 2, 3]" m "base + hhdm" base "WRITABLE OR CACHE_DISABLE"] assms by auto
  obtain a m1 where a: "alloc_or_zero m0 = (a, m1)" by (rule prod.exhaust)
  obtain b m2 where b: "alloc_or_zero m1 = (b, m2)" by (rule prod.exhaust)
  obtain c m3 where c: "alloc_or_zero m2 = (c, m3)" by (rule prod.exhaust)
  obtain d m4 where d: "alloc_or_zero m3 = (d, m4)" by (rule prod.exhaust)
  obtain e m5 where e: "alloc_or_zero m4 = (e, m5)" by (rule prod.exhaust)
  have u: "uses 17 m m5"
    using uses_trans [OF uses_trans [OF uses_trans [OF uses_trans [OF uses_trans [OF m0(2) alloc_uses [OF a]] alloc_uses [OF b]]
      alloc_uses [OF c]] alloc_uses [OF d]] alloc_uses [OF e]] by simp
  have "nvme_init hhdm cc bar st m \<noteq> None"
    unfolding nvme_init_def Let_def base_def [symmetric] nb(1) if_False case_bind m0(1) bind.bind_lunit a b c d e prod.case
    by simp
  then obtain st' m' log where r: "nvme_init hhdm cc bar st m = Some (st', m', log)" by auto
  from nvme_steps [OF r base_def nb(2) m0(1) a b c d e] u r show ?thesis by auto
qed

lemma ahci_init_returns:
  assumes "registers_only H" "7 \<le> card (m_avail m)"
  shows "\<exists>st' m' d'. ahci_init hhdm H bar (st, m, d) = Some (st', m', d') \<and> uses 7 m m'"
proof (cases "ucast (bar AND NOT 0xF) = (0 :: u64)")
  case True
  then show ?thesis by (simp add: ahci_init_def uses_def)
next
  case False
  define abar :: u64 where "abar = ucast (bar AND NOT 0xF)"
  have nb: "(abar = 0) = False" "abar \<noteq> 0" using False by (simp_all add: abar_def)
  obtain m1 where m1: "map_page (abar + hhdm) abar (WRITABLE OR CACHE_DISABLE) m = Some m1" "uses 3 m m1"
    using map_page_returns [of m] assms(2) by fastforce
  then have "3 \<le> card (m_avail m1)" using assms(2) by (simp add: uses_def)
  then obtain m2 where m2: "map_page (abar + hhdm + 0x1000) (abar + 0x1000) (WRITABLE OR CACHE_DISABLE) m1 = Some m2" "uses 3 m1 m2"
    using map_page_returns by blast
  obtain f m3 where f: "alloc_or_zero m2 = (f, m3)" by (rule prod.exhaust)
  have u: "uses 7 m m3" using uses_trans [OF uses_trans [OF m1(2) m2(2)] alloc_uses [OF f]] by simp
  have "ahci_init hhdm H bar (st, m, d) \<noteq> None"
    unfolding ahci_init_def prod.case Let_def abar_def [symmetric] nb(1) if_False m1(1) m2(1) bind.bind_lunit
    by (simp add: split_beta del: upt_rec_numeral)
  then obtain st' m' d' where r: "ahci_init hhdm H bar (st, m, d) = Some (st', m', d')" by auto
  from ahci_steps [OF assms(1) r abar_def nb(2) m1(1) m2(1) f] u r show ?thesis by (auto simp: uses_def)
qed

section \<open>The whole start\<close>

definition device_frames :: "devices \<Rightarrow> u64 list" where
  "device_frames dv = xhci_frames (dv_xhci dv) @ nvme_frames (dv_nvme dv) @ [ah_dma_bounce_phys (dv_ahci dv)]"

lemma devices_get_own_frames_at:
  assumes "registers_only (pf_hba P)"
    and "acpi_init (pf_hhdm P) (pf_rsdp P) (acpi_topology_new, m) = Some (info, m1)" "45 \<le> card (m_avail m1)"
  shows "\<exists>dv m' d'. boot_devices P (m, d) = Some (dv, m', d') \<and> dv_acpi dv = info \<and>
    distinct (nonzero (device_frames dv)) \<and> set (nonzero (device_frames dv)) \<subseteq> m_avail m \<and>
    set (nonzero (device_frames dv)) \<inter> m_avail m' = {} \<and> m_avail m' \<subseteq> m_avail m \<and> card (m_avail m1) \<le> card (m_avail m') + 45"
proof -
  let ?pci = "enumerate_pci (pf_config P)"
  obtain apic m2 d2 where 2: "apic_init (pf_hhdm P) (pf_mmio P) info (apic_state_new, m1, d) = Some (apic, m2, d2)" "uses 6 m1 m2"
    using apic_init_returns [of m1] assms(3) by fastforce
  have "15 \<le> card (m_avail m2)" using 2(2) assms(3) by (simp add: uses_def)
  then obtain usb m3 d3 where 3: "boot_xhci P (find_xhci_bar0 ?pci) (m2, d2) = Some (usb, m3, d3)" "uses 15 m2 m3"
    using xhci_init_returns [of m2] by (cases "find_xhci_bar0 ?pci") (fastforce simp: boot_xhci_def uses_def)+
  have "17 \<le> card (m_avail m3)" using 2(2) 3(2) assms(3) by (simp add: uses_def)
  then obtain nv m4 log where 4: "boot_nvme P (find_nvme_bar0 ?pci) m3 = Some (nv, m4, log)" "uses 17 m3 m4"
    using nvme_init_returns [of m3] by (cases "find_nvme_bar0 ?pci") (fastforce simp: boot_nvme_def uses_def)+
  have "7 \<le> card (m_avail m4)" using 2(2) 3(2) 4(2) assms(3) by (simp add: uses_def)
  then obtain sata m5 d5 where 5: "boot_ahci P (find_ahci_bar5 ?pci) (m4, d3) = Some (sata, m5, d5)" "uses 7 m4 m5"
    using ahci_init_returns [OF assms(1), of m4] by (cases "find_ahci_bar5 ?pci") (fastforce simp: boot_ahci_def uses_def)+
  obtain present d6 where 6: "ata_init (pf_ports P) (False, d5) = (present, d6)" by (rule prod.exhaust)
  define dv where "dv = \<lparr>dv_acpi = info, dv_apic = apic, dv_pci = ?pci, dv_xhci = usb, dv_nvme = nv, dv_ahci = sata, dv_ata = present\<rparr>"
  have b: "boot_devices P (m, d) = Some (dv, m5, d6)"
    by (simp only: boot_devices_def prod.case assms(2) 2(1) 3(1) 4(1) 5(1) 6 bind.bind_lunit Let_def dv_def)
  have t2: "takes [] m m2" using acpi_init_avail [OF assms(2)] apic_init_avail [OF 2(1)] by (intro takes_nothing) blast
  have t3: "takes (nonzero (xhci_frames usb)) m2 m3"
  proof (cases "find_xhci_bar0 ?pci")
    case None
    with 3(1) show ?thesis by (auto simp: boot_xhci_def xhci_frames_def xhci_controller_new_def nonzero_def takes_refl)
  next
    case (Some raw)
    with 3(1) show ?thesis unfolding boot_xhci_def by (intro xhci_init_takes) simp
  qed
  have t4: "takes (nonzero (nvme_frames nv)) m3 m4"
  proof (cases "find_nvme_bar0 ?pci")
    case None
    with 4(1) show ?thesis by (auto simp: boot_nvme_def nvme_frames_def nvme_controller_new_def nonzero_def takes_refl)
  next
    case (Some raw)
    with 4(1) show ?thesis unfolding boot_nvme_def by (intro nvme_init_takes) simp
  qed
  have t5: "takes (nonzero [ah_dma_bounce_phys sata]) m4 m5"
  proof (cases "find_ahci_bar5 ?pci")
    case None
    with 5(1) show ?thesis by (auto simp: boot_ahci_def ahci_controller_new_def nonzero_def takes_refl)
  next
    case (Some raw)
    with 5(1) show ?thesis unfolding boot_ahci_def by (intro ahci_init_takes [OF assms(1)]) simp
  qed
  have "takes (nonzero (device_frames dv)) m m5"
    using takes_trans [OF t2 takes_nonzero_append [OF t3 takes_nonzero_append [OF t4 t5]]] by (simp add: device_frames_def dv_def)
  moreover have "uses 45 m1 m5" using uses_trans [OF uses_trans [OF uses_trans [OF 2(2) 3(2)] 4(2)] 5(2)] by simp
  moreover have "dv_acpi dv = info" by (simp add: dv_def)
  ultimately show ?thesis unfolding takes_def uses_def using b by blast
qed

text \<open>Four MiB, after the heap, and a bus on which every function is an AHCI controller without ports.\<close>

definition demo_platform :: "unit platform" where
  "demo_platform =
     \<lparr>pf_hhdm = 0xFFFF800000000000, pf_rsdp = None, pf_config = (\<lambda>_. 0x01060101),
      pf_mmio = \<lparr>mm_read = (\<lambda>_ d. (0, d)), mm_write = (\<lambda>_ _ d. d), mm_write64 = (\<lambda>_ _ d. d)\<rparr>, pf_nvme_cc = 0,
      pf_hba = \<lparr>hba_read = (\<lambda>_ s. (0, s)), hba_write = (\<lambda>_ _ s. s)\<rparr>,
      pf_ports = \<lparr>inb = (\<lambda>_ d. (0xFF, d)), outb = (\<lambda>_ _ d. d), inw = (\<lambda>_ d. (0, d)), outw = (\<lambda>_ _ d. d)\<rparr>\<rparr>"

lemma demo_platform_start:
  "registers_only (pf_hba demo_platform)"
  "acpi_init (pf_hhdm demo_platform) (pf_rsdp demo_platform) (acpi_topology_new, m) = Some (acpi_topology_new, m)"
  by (simp_all add: registers_only_def acpi_init_def demo_platform_def)

lemma demo_boots:
  "\<exists>m dv m'. boot_memory four_mib bare_machine = Some m \<and> boot_devices demo_platform (m, ()) = Some (dv, m', ())"
proof -
  obtain m where m: "boot_memory four_mib bare_machine = Some m" "card (m_avail m) = 765" using four_mib_boots by blast
  have "45 \<le> card (m_avail m)" by (simp add: m(2))
  from devices_get_own_frames_at [OF demo_platform_start this, of "()"] m(1) show ?thesis by fastforce
qed

text \<open>
  C22: the probes of the devices return, without a panic, when 45 frames are left after the ACPI tables
  are mapped, and the queues and buffers that they give to the USB, NVMe and AHCI controllers are
  pairwise different frames that were free before and that no later allocation can return.
\<close>

theorem devices_get_own_frames:
  assumes "registers_only (pf_hba P)"
    and "acpi_init (pf_hhdm P) (pf_rsdp P) (acpi_topology_new, m) = Some (info, m1)" "45 \<le> card (m_avail m1)"
  shows "\<exists>dv m' d'. boot_devices P (m, d) = Some (dv, m', d') \<and> dv_acpi dv = info \<and>
    distinct (nonzero (device_frames dv)) \<and> set (nonzero (device_frames dv)) \<subseteq> m_avail m \<and>
    set (nonzero (device_frames dv)) \<inter> m_avail m' = {} \<and> m_avail m' \<subseteq> m_avail m \<and> card (m_avail m1) \<le> card (m_avail m') + 45"
  by (rule devices_get_own_frames_at [OF assms])

lemma devices_get_own_frames_witness:
  "\<exists>m dv m' d'. boot_memory four_mib bare_machine = Some m \<and> boot_devices demo_platform (m, ()) = Some (dv, m', d') \<and>
     distinct (nonzero (device_frames dv)) \<and> set (nonzero (device_frames dv)) \<inter> m_avail m' = {} \<and> 720 \<le> card (m_avail m')"
proof -
  obtain m where m: "boot_memory four_mib bare_machine = Some m" "card (m_avail m) = 765" using four_mib_boots by blast
  have "45 \<le> card (m_avail m)" by (simp add: m(2))
  then obtain dv m' d' where "boot_devices demo_platform (m, ()) = Some (dv, m', d')"
    "distinct (nonzero (device_frames dv))" "set (nonzero (device_frames dv)) \<inter> m_avail m' = {}"
    "card (m_avail m) \<le> card (m_avail m') + 45"
    using devices_get_own_frames [OF demo_platform_start, of m "()"] by blast
  with m show ?thesis by (intro exI [of _ m] exI [of _ dv] exI [of _ m'] exI [of _ d']) simp
qed

end
