(* ===== verification/Kernel.thy ===== *)
theory Kernel
  imports Faults User_Access Boot
begin

text \<open>
  The whole kernel: its start in \<^verbatim>\<open>kernel/src/main.rs\<close>, and the machine as a step relation in which
  code runs until an interrupt and the handler runs to its end. Interrupts are disabled in the
  handler, so that steps do not overlap.
\<close>

section \<open>The start\<close>

text \<open>The static variables before \<^verbatim>\<open>kmain\<close>, on a machine and a storage.\<close>

definition kernel_new :: "machine \<Rightarrow> 's storage \<Rightarrow> 's kernel" where
  "kernel_new m fs =
     \<lparr>k_mach = m, k_procs = replicate MAX_PROCESSES None, k_next_pid = 1, k_ctxs = (\<lambda>_. zero_context),
      k_current = 0, k_ticks = 0, k_idle_ctx = 0, k_kernel_pml4 = get_pml4 m, k_tss_rsp0 = 0,
      k_queues = replicate 64 message_queue_new, k_shm = shm_new, k_fs = fs, k_console = []\<rparr>"

text \<open>
  \<^verbatim>\<open>kmain\<close> from the frame allocator on: the memory, the devices, the storage over the modules of the
  boot loader, and the first process. \<open>None\<close> is a panic.
\<close>

definition kmain ::
  "'s env \<Rightarrow> 's platform \<Rightarrow> mmap_entry list \<Rightarrow> machine \<Rightarrow> (bool \<times> (nat \<Rightarrow> u8) \<times> nat) list \<Rightarrow> 's storage \<Rightarrow> 's kernel option" where
  "kmain E P mmap m modules fs =
     Option.bind (boot_memory mmap m) (\<lambda>m1.
     Option.bind (boot_devices P (m1, disk fs)) (\<lambda>(_, m2, d).
     let k = kernel_new m2 (fat_init (env_disks E) modules (fs\<lparr>disk := d\<rparr>))
     in case read_stored E (ascii ''init.elf'') k of
          None \<Rightarrow> None
        | Some (None, k1) \<Rightarrow> Some k1
        | Some (Some file, k1) \<Rightarrow>
            map_option snd (load_elf (ascii ''init.elf'') file (env_beyond E) 0 (env_stack E) k1)))"

section \<open>The machine\<close>

text \<open>
  Between two interrupts code runs in the context the kernel resumed: it may change memory, and
  the next interrupt saves some registers at some address; the frame allocator and the tables of
  the kernel are out of its reach.
\<close>

inductive kernel_step :: "u64 \<times> 's kernel \<Rightarrow> u64 \<times> 's kernel \<Rightarrow> bool" where
  run: "frames m' = frames (k_mach k) \<Longrightarrow>
    kernel_step (ptr, k) (ptr', k\<lparr>k_mach := m', k_ctxs := (k_ctxs k)(ptr' := c)\<rparr>)"
| trap: "interrupt E cr2 ptr k = (ws, Resume ptr' k') \<Longrightarrow> kernel_step (ptr, k) (ptr', k')"

inductive_cases kernel_stepE: "kernel_step s s'"

inductive reachable :: "u64 \<times> 's kernel \<Rightarrow> bool" where
  start: "kmain E P mmap m modules fs = Some k \<Longrightarrow> reachable (ptr, k)"
| step: "reachable s \<Longrightarrow> kernel_step s s' \<Longrightarrow> reachable s'"

section \<open>The invariant of every reachable state\<close>

lemma kernel_new_inv: "kernel_inv (kernel_new m fs)"
  by (auto simp: kernel_inv_def kernel_ok_def table_ok_def running_is_current_def queues_ok_def procs_ok_def
      kernel_new_def)

lemma kmain_inv:
  assumes "kmain E P mmap m modules fs = Some k"
  shows "kernel_inv k"
proof -
  define st where "st m2 d = kernel_new m2 (fat_init (env_disks E) modules (fs\<lparr>disk := d\<rparr>))" for m2 d
  obtain m2 d where "(case read_stored E (ascii ''init.elf'') (st m2 d) of
      None \<Rightarrow> None | Some (None, k1) \<Rightarrow> Some k1
    | Some (Some file, k1) \<Rightarrow>
        map_option snd (load_elf (ascii ''init.elf'') file (env_beyond E) 0 (env_stack E) k1)) = Some k"
    using assms unfolding kmain_def Let_def bind_eq_Some_conv st_def split_beta by blast
  then show ?thesis
    by (auto simp: st_def split: option.splits dest!: read_stored_inv [OF kernel_new_inv] intro: load_elf_inv)
qed

lemma demand_page_inv: "kernel_inv k \<Longrightarrow> demand_page cr2 k = Some (b, k') \<Longrightarrow> kernel_inv k'"
  by (auto simp: demand_page_def split: option.splits if_splits)

lemma page_fault_inv [inv]: "kernel_inv k \<Longrightarrow> result_inv (page_fault cr2 ptr k)"
proof -
  assume k: "kernel_inv k"
  show ?thesis
  proof (cases "demand_page cr2 k")
    case None
    then show ?thesis by (simp add: page_fault_def result_inv_def)
  next
    case (Some r)
    then obtain b k1 where r: "demand_page cr2 k = Some (b, k1)" by (cases r) auto
    have "kernel_inv k1" by (rule demand_page_inv [OF k r])
    then show ?thesis by (cases b) (auto simp: page_fault_def r result_inv_def intro: resched_inv [unfolded result_inv_def] exit_process_inv)
  qed
qed

lemma interrupt_inv: "kernel_inv k \<Longrightarrow> result_inv (snd (interrupt E cr2 ptr k))"
  by (simp add: interrupt_def Let_def inv handle_inv result_inv_def [of Stuck])

lemma kernel_step_inv: "kernel_step s s' \<Longrightarrow> kernel_inv (snd s) \<Longrightarrow> kernel_inv (snd s')"
proof (induction rule: kernel_step.induct)
  case (trap E cr2 ptr k ws ptr' k')
  then show ?case using interrupt_inv [of k E cr2 ptr] by (simp add: result_inv_def)
qed simp

lemma reachable_inv: "reachable s \<Longrightarrow> kernel_inv (snd s)"
  by (induction rule: reachable.induct) (auto dest: kmain_inv kernel_step_inv)

text \<open>
  C1: the kernel's invariant in every state the machine can reach from its start, whatever code
  runs and whatever interrupts, faults and calls it makes: the slots hold different positive
  process numbers below the next one, at most one process runs and it is the current one, every
  mailbox is a well-formed ring, every process has a well-formed descriptor table, and no
  region ends inside a page.
\<close>

theorem reachable_states_ok:
  assumes "reachable (ptr, k)"
  shows "kernel_inv k \<and>
    (\<forall>i j p q. i < MAX_PROCESSES \<longrightarrow> j < MAX_PROCESSES \<longrightarrow> k_procs k ! i = Some p \<longrightarrow> k_procs k ! j = Some q \<longrightarrow>
       0 < p_pid p \<and> p_pid p < k_next_pid k \<and> (p_pid p = p_pid q \<longrightarrow> i = j) \<and>
       (p_state p = Running \<longrightarrow> p_state q = Running \<longrightarrow> i = j \<and> p_pid p = k_current k)) \<and>
    (\<forall>i<64. queue_inv (k_queues k ! i)) \<and>
    (\<forall>p. Some p \<in> set (k_procs k) \<longrightarrow> fds_ok (p_fd_table p) \<and> (\<forall>v\<in>set (p_vmas p). page_aligned (vma_end v)))"
proof -
  have inv: "kernel_inv k" using reachable_inv [OF assms] by simp
  then have t: "table_ok (k_procs k) (k_next_pid k)" and r: "running_is_current k"
    by (simp_all add: kernel_inv_def kernel_ok_def)
  have "0 < p_pid p \<and> p_pid p < k_next_pid k \<and> (p_pid p = p_pid q \<longrightarrow> i = j) \<and>
      (p_state p = Running \<longrightarrow> p_state q = Running \<longrightarrow> i = j \<and> p_pid p = k_current k)"
    if ij: "i < MAX_PROCESSES" "j < MAX_PROCESSES" "k_procs k ! i = Some p" "k_procs k ! j = Some q" for i j p q
  proof -
    have eq: "p_pid p = p_pid q \<Longrightarrow> i = j" by (rule table_okD(3) [OF t ij])
    moreover have "p_pid p = k_current k" if "p_state p = Running"
      using r ij(1,3) that unfolding running_is_current_def by blast
    moreover have "p_pid q = k_current k" if "p_state q = Running"
      using r ij(2,4) that unfolding running_is_current_def by blast
    ultimately show ?thesis using table_okD(2) [OF t ij(1,3)] by auto
  qed
  moreover have "\<forall>i<64. queue_inv (k_queues k ! i)" using inv by (simp add: kernel_inv_def queues_ok_def)
  moreover have "\<forall>p. Some p \<in> set (k_procs k) \<longrightarrow>
      fds_ok (p_fd_table p) \<and> (\<forall>v\<in>set (p_vmas p). page_aligned (vma_end v))"
    using inv by (simp add: kernel_inv_def procs_ok_def proc_ok_def ends_aligned_def)
  ultimately show ?thesis using inv by blast
qed

definition demo_env :: "unit env" where
  "demo_env =
     \<lparr>env_disks = no_disks, env_port = (\<lambda>_. 0), env_framebuffer = None, env_clock = (\<lambda>_ _. 0, 0),
      env_beyond = (\<lambda>_. 0), env_stack = None, env_pci_list = [], env_apic_status = [], env_xhci_status = [],
      env_ahci_status = []\<rparr>"

text \<open>A start without an init program, and the first tick of the timer.\<close>

lemma reachable_states_ok_witness:
  "\<exists>k. reachable (0x7000, k :: unit kernel) \<and> k_ticks k = 1 \<and> kernel_inv k"
proof -
  obtain m0 dv m where m: "boot_memory four_mib bare_machine = Some m0"
    "boot_devices demo_platform (m0, ()) = Some (dv, m, ())"
    using demo_boots by blast
  define k1 where "k1 = kernel_new m empty_storage"
  have nd: "\<not> has_physical_disk no_disks s" for s
    by (simp add: has_physical_disk_def no_disks_def no_driver_def)
  then have st: "fat_init (env_disks demo_env) [] (empty_storage\<lparr>disk := ()\<rparr>) = empty_storage"
    by (simp add: fat_init_def is_gpt_installed_def empty_storage_def demo_env_def)
  have init: "read_stored demo_env name k1 = Some (None, k1)" for name
    using nd by (simp add: read_stored_def demo_env_def k1_def kernel_new_def read_file_def Let_def empty_storage_def
        read_file_from_physical_disk_def)
  have "disk empty_storage = ()" by simp
  then have boot: "kmain demo_env demo_platform four_mib bare_machine [] empty_storage = Some k1"
    by (simp only: kmain_def m bind.bind_lunit prod.case Let_def st k1_def [symmetric] init option.case)
  define k2 where "k2 = k1\<lparr>k_mach := k_mach k1, k_ctxs := (k_ctxs k1)(0x7000 := zero_context\<lparr>c_int_num := 32\<rparr>)\<rparr>"
  have r2: "reachable (0x7000, k2)"
    unfolding k2_def by (rule reachable.step [OF reachable.start [OF boot, of "0x7000"] kernel_step.run]) simp
  have none: "next_ready (k_procs k2) 0 = None"
    by (auto simp: k2_def k1_def kernel_new_def next_ready_def slot_ready_def find_Some_iff split: option.split)
  have cur: "k_current k2 = 0" "k_ticks k2 = 0" "c_int_num (k_ctxs k2 0x7000) = 32"
    by (simp_all add: k2_def k1_def kernel_new_def)
  obtain k3 where k3: "schedule 0x7000 k2 = (0x7000, k3)" "k_ticks k3 = 1"
    using none cur by (simp add: schedule_def save_current_def Let_def)
  have "interrupt demo_env 0 0x7000 k2 = (send_eoi 0, Resume 0x7000 k3)"
    by (simp add: interrupt_def Let_def cur resched_def k3)
  then have "reachable (0x7000, k3)" by (intro reachable.step [OF r2] kernel_step.trap)
  with reachable_states_ok [OF this] k3(2) show ?thesis by blast
qed

end
