(* ===== verification/Stubs.thy ===== *)
theory Stubs
  imports Interrupts
begin

text \<open>
  The assembly around the interrupt handler, \<^verbatim>\<open>kernel/src/idt.rs\<close>: the entry stubs, the code that saves
  the registers and restores them, and the loads of the descriptor tables. Instructions act on
  the registers and on the words of the stack. The stack pointer is a multiple of 8 whenever
  they run, because the processor aligns it on an interrupt, so that words do not overlap.
\<close>

section \<open>The processor\<close>

datatype reg =
  RAX | RCX | RDX | RBX | RBP | RSI | RDI | R8 | R9 | R10 | R11 | R12 | R13 | R14 | R15

datatype segment = DS | ES

record cpu =
  gpr :: "reg \<Rightarrow> u64"
  sp :: u64
  ip :: u64
  seg :: "segment \<Rightarrow> u16"
  cs_sel :: u16
  ss_sel :: u16
  flags_reg :: u64
  words :: "u64 \<Rightarrow> u64"

text \<open>A move to \<^verbatim>\<open>ax\<close> keeps the upper bits of the register; \<^verbatim>\<open>iretq\<close> pops five words.\<close>

datatype instr =
  PUSH reg | PUSH_IMM u64 | POP reg | MOV_AX u16 | MOV_AX_SEG segment | MOV_SEG_AX segment
  | MOV_RDI_RSP | MOV_RSP_RAX | ADD_RSP u64 | IRETQ

definition set_low16 :: "u64 \<Rightarrow> u16 \<Rightarrow> u64" where
  "set_low16 r v = (r AND NOT 0xFFFF) OR ucast v"

definition push_word :: "u64 \<Rightarrow> cpu \<Rightarrow> cpu" where
  "push_word v s = s\<lparr>sp := sp s - 8, words := (words s)(sp s - 8 := v)\<rparr>"

fun step :: "instr \<Rightarrow> cpu \<Rightarrow> cpu" where
  "step (PUSH r) s = push_word (gpr s r) s"
| "step (PUSH_IMM v) s = push_word v s"
| "step (POP r) s = s\<lparr>gpr := (gpr s)(r := words s (sp s)), sp := sp s + 8\<rparr>"
| "step (MOV_AX v) s = s\<lparr>gpr := (gpr s)(RAX := set_low16 (gpr s RAX) v)\<rparr>"
| "step (MOV_AX_SEG g) s = s\<lparr>gpr := (gpr s)(RAX := set_low16 (gpr s RAX) (seg s g))\<rparr>"
| "step (MOV_SEG_AX g) s = s\<lparr>seg := (seg s)(g := ucast (gpr s RAX))\<rparr>"
| "step MOV_RDI_RSP s = s\<lparr>gpr := (gpr s)(RDI := sp s)\<rparr>"
| "step MOV_RSP_RAX s = s\<lparr>sp := gpr s RAX\<rparr>"
| "step (ADD_RSP v) s = s\<lparr>sp := sp s + v\<rparr>"
| "step IRETQ s =
     s\<lparr>ip := words s (sp s), cs_sel := ucast (words s (sp s + 8)), flags_reg := words s (sp s + 16),
       sp := words s (sp s + 24), ss_sel := ucast (words s (sp s + 32))\<rparr>"

definition run :: "instr list \<Rightarrow> cpu \<Rightarrow> cpu" where
  "run = fold step"

text \<open>
  The processor enters a handler: the stack of the gate, of ring 0, or the current one, and on
  it the interrupted position, with an error code for some vectors.
\<close>

definition deliver :: "tss \<Rightarrow> idt_entry \<Rightarrow> u64 option \<Rightarrow> cpu \<Rightarrow> cpu" where
  "deliver T e err s =
     (let base = (if ist e \<noteq> 0 then tss_ist T ! (unat (ist e) - 1)
                  else if cs_sel s AND 3 \<noteq> 0 then tss_rsp T ! 0 else sp s) AND NOT 0xF;
          frame = [ucast (ss_sel s), sp s, flags_reg s, ucast (cs_sel s), ip s] @
                  (case err of None \<Rightarrow> [] | Some c \<Rightarrow> [c])
      in (fold push_word frame (s\<lparr>sp := base\<rparr>))
           \<lparr>ip := gate_target e, cs_sel := selector e, flags_reg := flags_reg s AND NOT 0x200\<rparr>)"

section \<open>The code\<close>

definition has_error_code :: "nat \<Rightarrow> bool" where
  "has_error_code n \<longleftrightarrow> n \<in> {8, 10, 11, 12, 13, 14, 17}"

definition isr_stub :: "nat \<Rightarrow> instr list" where
  "isr_stub n = (if has_error_code n then [] else [PUSH_IMM 0]) @ [PUSH_IMM (of_nat n)]"

text \<open>\<^verbatim>\<open>isr_common\<close> up to the call of the handler, and after it.\<close>

definition isr_save :: "instr list" where
  "isr_save =
     [PUSH RAX, PUSH RCX, PUSH RDX, PUSH RBX, PUSH RBP, PUSH RSI, PUSH RDI, PUSH R8, PUSH R9, PUSH R10,
      PUSH R11, PUSH R12, PUSH R13, PUSH R14, PUSH R15,
      MOV_AX_SEG DS, PUSH RAX, MOV_AX_SEG ES, PUSH RAX,
      MOV_AX 0x10, MOV_SEG_AX DS, MOV_SEG_AX ES,
      MOV_RDI_RSP]"

definition isr_restore :: "instr list" where
  "isr_restore =
     [MOV_RSP_RAX,
      POP RAX, MOV_SEG_AX ES, POP RAX, MOV_SEG_AX DS,
      POP R15, POP R14, POP R13, POP R12, POP R11, POP R10, POP R9, POP R8, POP RDI, POP RSI, POP RBP,
      POP RBX, POP RDX, POP RCX, POP RAX,
      ADD_RSP 16, IRETQ]"

text \<open>From the interrupted program to the call of the handler.\<close>

definition isr_entry :: "tss \<Rightarrow> idt_entry \<Rightarrow> nat \<Rightarrow> u64 option \<Rightarrow> cpu \<Rightarrow> cpu" where
  "isr_entry T e n err s = run isr_save (run (isr_stub n) (deliver T e err s))"

text \<open>The structure \<^verbatim>\<open>InterruptContext\<close> that the handler finds at an address.\<close>

definition context_at :: "(u64 \<Rightarrow> u64) \<Rightarrow> u64 \<Rightarrow> interrupt_context" where
  "context_at w p =
     \<lparr>c_ds = w p, c_es = w (p + 8), c_r15 = w (p + 16), c_r14 = w (p + 24), c_r13 = w (p + 32), c_r12 = w (p + 40),
      c_r11 = w (p + 48), c_r10 = w (p + 56), c_r9 = w (p + 64), c_r8 = w (p + 72), c_rdi = w (p + 80),
      c_rsi = w (p + 88), c_rbp = w (p + 96), c_rbx = w (p + 104), c_rdx = w (p + 112), c_rcx = w (p + 120),
      c_rax = w (p + 128), c_int_num = w (p + 136), c_error_code = w (p + 144), c_rip = w (p + 152),
      c_cs = w (p + 160), c_rflags = w (p + 168), c_rsp = w (p + 176), c_ss = w (p + 184)\<rparr>"

section \<open>Loading the tables\<close>

text \<open>Limit and base, as \<^verbatim>\<open>lgdt\<close> and \<^verbatim>\<open>lidt\<close> take them, and the segment registers after the reload.\<close>

definition gdt_pointer :: "u64 \<Rightarrow> u16 \<times> u64" where
  "gdt_pointer base = (of_nat (8 * length (gdt_init 0) - 1), base)"

definition idt_pointer :: "u64 \<Rightarrow> u16 \<times> u64" where
  "idt_pointer base = (of_nat (16 * length (idt_init (\<lambda>_. 0)) - 1), base)"

record segment_regs =
  sr_gdtr :: "u16 \<times> u64"
  sr_idtr :: "u16 \<times> u64"
  sr_cs :: u16
  sr_ds :: u16
  sr_es :: u16
  sr_fs :: u16
  sr_gs :: u16
  sr_ss :: u16
  sr_tr :: u16

definition gdt_load :: "u64 \<Rightarrow> segment_regs \<Rightarrow> segment_regs" where
  "gdt_load base r =
     r\<lparr>sr_gdtr := gdt_pointer base, sr_cs := KERNEL_CODE_SEL, sr_ds := KERNEL_DATA_SEL, sr_es := KERNEL_DATA_SEL,
       sr_fs := KERNEL_DATA_SEL, sr_gs := KERNEL_DATA_SEL, sr_ss := KERNEL_DATA_SEL, sr_tr := 0x28\<rparr>"

text \<open>Every selector that is loaded names a present descriptor inside the limit of the table.\<close>

definition selects_present :: "u64 list \<Rightarrow> u16 \<times> u64 \<Rightarrow> u16 \<Rightarrow> bool" where
  "selects_present gdt ptr sel \<longleftrightarrow>
     unat sel + 7 \<le> unat (fst ptr) \<and> unat sel div 8 < length gdt \<and> bit (gdt ! (unat sel div 8)) 47"

lemma tss_low_present: "bit (tss_low t n) 47"
  unfolding tss_low_def by (simp add: bit_simps bit_numeral_rec)

lemma gdt_load_present:
  fixes base :: u64 and r0 :: segment_regs
  defines "r \<equiv> gdt_load base r0"
  shows "\<forall>sel\<in>{sr_cs r, sr_ds r, sr_es r, sr_fs r, sr_gs r, sr_ss r, sr_tr r}. selects_present (gdt_init t) (sr_gdtr r) sel"
proof -
  have "bit (gdt_bits (gdt_entry_new 0x9A 0xA)) 47" "bit (gdt_bits (gdt_entry_new 0x92 0xC)) 47" by code_simp+
  then show ?thesis
    by (simp add: r_def gdt_load_def selects_present_def gdt_pointer_def gdt_init_def tss_low_present)
qed

section \<open>The processor at the start\<close>

text \<open>
  \<^verbatim>\<open>kmain\<close> up to the mouse: the tables at their addresses, the registers that point to them, and the
  writes to the interrupt controller, the timer and the mouse, whose configuration byte is
  \<open>config\<close>. \<open>None\<close> is the panic of the timer.
\<close>

record cpu_tables =
  ct_tss :: tss
  ct_gdt :: "u64 list"
  ct_idt :: "idt_entry list"
  ct_regs :: segment_regs

definition boot_cpu ::
  "u64 \<Rightarrow> u64 \<Rightarrow> u64 \<Rightarrow> u64 \<Rightarrow> (nat \<Rightarrow> u64) \<Rightarrow> u8 \<Rightarrow> segment_regs \<Rightarrow> (cpu_tables \<times> port_writes) option" where
  "boot_cpu stack_end tss_at gdt_at idt_at stub config r =
     (case write_pit 1000 of
        None \<Rightarrow> None
      | Some timer \<Rightarrow>
          Some (\<lparr>ct_tss = tss_init stack_end, ct_gdt = gdt_init tss_at, ct_idt = idt_init stub,
                 ct_regs = (gdt_load gdt_at r)\<lparr>sr_idtr := idt_pointer idt_at\<rparr>\<rparr>,
                pic_init @ timer @ init_mouse config))"

lemma length_fold_update: "length (fold (\<lambda>n t. t[n := f n]) ns t) = length t"
  by (induction ns arbitrary: t) simp_all

text \<open>It returns, every loaded selector is present, and the limits cover the tables.\<close>

lemma boot_cpu_loads:
  "\<exists>t ws. boot_cpu stack_end tss_at gdt_at idt_at stub config r = Some (t, ws) \<and>
     (\<forall>sel\<in>{sr_cs (ct_regs t), sr_ds (ct_regs t), sr_es (ct_regs t), sr_fs (ct_regs t), sr_gs (ct_regs t),
             sr_ss (ct_regs t), sr_tr (ct_regs t)}. selects_present (ct_gdt t) (sr_gdtr (ct_regs t)) sel) \<and>
     unat (fst (sr_gdtr (ct_regs t))) + 1 = 8 * length (ct_gdt t) \<and>
     unat (fst (sr_idtr (ct_regs t))) + 1 = 16 * length (ct_idt t)"
proof -
  have "length (idt_init h) = 256" for h by (simp add: idt_init_def length_fold_update Let_def del: upt_rec_numeral)
  moreover have "length (gdt_init b) = 7" for b by (simp add: gdt_init_def)
  ultimately show ?thesis
    using gdt_load_present [of gdt_at r tss_at]
    by (simp add: boot_cpu_def write_pit_def Let_def gdt_load_def gdt_pointer_def idt_pointer_def)
qed

section \<open>Kernel tasks\<close>

text \<open>
  \<^verbatim>\<open>task_entry_trampoline\<close>: the function of the task is in \<^verbatim>\<open>r12\<close>; when it returns, the task ends. The
  task then yields for ever, and is not chosen any more.
\<close>

definition task_function :: "cpu \<Rightarrow> u64" where
  "task_function s = gpr s R12"

definition task_return :: "'s kernel \<Rightarrow> 's kernel" where
  "task_return k = exit_process (k_current k) 0 k"

section \<open>What the handler sees and what it resumes\<close>

text \<open>
  The context of an interrupted program. The code pushes the data segment before the extra
  segment, and the structure names them the other way round; each carries the upper bits of
  \<^verbatim>\<open>rax\<close>.
\<close>

definition context_of :: "nat \<Rightarrow> u64 option \<Rightarrow> cpu \<Rightarrow> interrupt_context" where
  "context_of n err s =
     \<lparr>c_ds = set_low16 (gpr s RAX) (seg s ES), c_es = set_low16 (gpr s RAX) (seg s DS),
      c_r15 = gpr s R15, c_r14 = gpr s R14, c_r13 = gpr s R13, c_r12 = gpr s R12, c_r11 = gpr s R11,
      c_r10 = gpr s R10, c_r9 = gpr s R9, c_r8 = gpr s R8, c_rdi = gpr s RDI, c_rsi = gpr s RSI,
      c_rbp = gpr s RBP, c_rbx = gpr s RBX, c_rdx = gpr s RDX, c_rcx = gpr s RCX, c_rax = gpr s RAX,
      c_int_num = of_nat n, c_error_code = (case err of None \<Rightarrow> 0 | Some c \<Rightarrow> c), c_rip = ip s,
      c_cs = ucast (cs_sel s), c_rflags = flags_reg s, c_rsp = sp s, c_ss = ucast (ss_sel s)\<rparr>"

text \<open>\<^verbatim>\<open>yield_now\<close>: a software interrupt with the number of the call in \<^verbatim>\<open>rax\<close>.\<close>

definition yield_now :: "tss \<Rightarrow> idt_entry \<Rightarrow> cpu \<Rightarrow> cpu" where
  "yield_now T e s = isr_entry T e 0x80 None (s\<lparr>gpr := (gpr s)(RAX := 4)\<rparr>)"

text \<open>The program that a context describes, over a memory.\<close>

fun saved_gpr :: "interrupt_context \<Rightarrow> reg \<Rightarrow> u64" where
  "saved_gpr c RAX = c_rax c" | "saved_gpr c RCX = c_rcx c" | "saved_gpr c RDX = c_rdx c"
| "saved_gpr c RBX = c_rbx c" | "saved_gpr c RBP = c_rbp c" | "saved_gpr c RSI = c_rsi c"
| "saved_gpr c RDI = c_rdi c" | "saved_gpr c R8 = c_r8 c" | "saved_gpr c R9 = c_r9 c"
| "saved_gpr c R10 = c_r10 c" | "saved_gpr c R11 = c_r11 c" | "saved_gpr c R12 = c_r12 c"
| "saved_gpr c R13 = c_r13 c" | "saved_gpr c R14 = c_r14 c" | "saved_gpr c R15 = c_r15 c"

definition cpu_of :: "interrupt_context \<Rightarrow> (u64 \<Rightarrow> u64) \<Rightarrow> cpu" where
  "cpu_of c w =
     \<lparr>gpr = saved_gpr c, sp = c_rsp c, ip = c_rip c,
      seg = (\<lambda>g. case g of DS \<Rightarrow> ucast (c_es c) | ES \<Rightarrow> ucast (c_ds c)),
      cs_sel = ucast (c_cs c), ss_sel = ucast (c_ss c), flags_reg = c_rflags c, words = w\<rparr>"

lemma set_low16_low: "(ucast (set_low16 r v) :: u16) = v"
proof -
  have m: "(0xFFFF :: u64) = mask 16" by (simp add: mask_eq_exp_minus_1)
  show ?thesis unfolding set_low16_def m by (rule bit_word_eqI) (auto simp: bit_simps)
qed

lemma ucast_u16_back [simp]: "(ucast (ucast v :: u64) :: u16) = v"
  by (rule bit_word_eqI) (auto simp: bit_simps)

lemma cpu_of_context: "cpu_of (context_of n err s) w = s\<lparr>words := w\<rparr>"
proof -
  have g: "saved_gpr (context_of n err s) = gpr s"
  proof
    fix r show "saved_gpr (context_of n err s) r = gpr s r" by (cases r) (simp_all add: context_of_def)
  qed
  have d: "(\<lambda>g. case g of DS \<Rightarrow> ucast (c_es (context_of n err s)) | ES \<Rightarrow> ucast (c_ds (context_of n err s))) = seg s"
  proof
    fix g show "(case g of DS \<Rightarrow> ucast (c_es (context_of n err s)) | ES \<Rightarrow> ucast (c_ds (context_of n err s))) = seg s g"
      by (cases g) (simp_all add: context_of_def set_low16_low)
  qed
  show ?thesis unfolding cpu_of_def g d by (simp add: context_of_def)
qed

lemma restore_resumes: "run isr_restore t = cpu_of (context_at (words t) (gpr t RAX)) (words t)"
proof -
  define q w where "q = gpr t RAX" and "w = words t"
  have r: "gpr (run isr_restore t) r = saved_gpr (context_at w q) r" for r
    by (cases r) (simp_all add: run_def isr_restore_def context_at_def q_def w_def add.assoc)
  have g: "seg (run isr_restore t) g = (case g of DS \<Rightarrow> ucast (w (q + 8)) | ES \<Rightarrow> ucast (w q))" for g
    by (cases g) (simp_all add: run_def isr_restore_def q_def w_def add.assoc)
  have e: "gpr (run isr_restore t) = saved_gpr (context_at w q)" by (rule ext) (rule r)
  have d: "seg (run isr_restore t) = (\<lambda>g. case g of DS \<Rightarrow> ucast (c_es (context_at w q)) | ES \<Rightarrow> ucast (c_ds (context_at w q)))"
    by (rule ext) (simp add: g context_at_def cong: segment.case_cong)
  have "sp (run isr_restore t) = c_rsp (context_at w q)" "ip (run isr_restore t) = c_rip (context_at w q)"
    "cs_sel (run isr_restore t) = ucast (c_cs (context_at w q))" "ss_sel (run isr_restore t) = ucast (c_ss (context_at w q))"
    "flags_reg (run isr_restore t) = c_rflags (context_at w q)" "words (run isr_restore t) = w"
    by (simp_all add: run_def isr_restore_def context_at_def q_def w_def add.assoc)
  with e d show ?thesis unfolding q_def [symmetric] w_def [symmetric] cpu_of_def
    by (intro cpu.equality) simp_all
qed

text \<open>The stack on which an interrupt is taken, and the 24 words of a context below its top.\<close>

definition entry_stack :: "tss \<Rightarrow> idt_entry \<Rightarrow> cpu \<Rightarrow> u64" where
  "entry_stack T e s =
     (if ist e \<noteq> 0 then tss_ist T ! (unat (ist e) - 1) else if cs_sel s AND 3 \<noteq> 0 then tss_rsp T ! 0 else sp s) AND NOT 0xF"

definition frame_words :: "u64 \<Rightarrow> u64 set" where
  "frame_words p = (\<lambda>i. p + 8 * of_nat i) ` {..<24}"

lemma frame_word: "i < 24 \<Longrightarrow> p + 8 * of_nat i \<in> frame_words p"
  by (simp add: frame_words_def)

text \<open>The frame of the processor and the two words of the stub.\<close>

definition entry_words :: "nat \<Rightarrow> u64 option \<Rightarrow> cpu \<Rightarrow> u64 list" where
  "entry_words n err s =
     [ucast (ss_sel s), sp s, flags_reg s, ucast (cs_sel s), ip s, (case err of None \<Rightarrow> 0 | Some c \<Rightarrow> c), of_nat n]"

lemma stub_pushes:
  assumes "has_error_code n \<longleftrightarrow> err \<noteq> None"
  shows "\<exists>i c f. run (isr_stub n) (deliver T e err s) =
    fold push_word (entry_words n err s) (s\<lparr>sp := entry_stack T e s, ip := i, cs_sel := c, flags_reg := f\<rparr>)"
  using assms
  by (cases err) (auto simp: run_def isr_stub_def deliver_def entry_stack_def entry_words_def push_word_def Let_def)

lemma set_low16_twice [simp]: "set_low16 (set_low16 r u) v = set_low16 r v"
proof -
  have m: "(0xFFFF :: u64) = mask 16" by (simp add: mask_eq_exp_minus_1)
  show ?thesis unfolding set_low16_def m by (rule bit_word_eqI) (auto simp: bit_simps dest: bit_imp_le_length)
qed

lemma save_pushes:
  "\<exists>g h. run isr_save s =
     (fold push_word (map (gpr s) [RAX, RCX, RDX, RBX, RBP, RSI, RDI, R8, R9, R10, R11, R12, R13, R14, R15] @
        [set_low16 (gpr s RAX) (seg s DS), set_low16 (gpr s RAX) (seg s ES)]) s)
       \<lparr>gpr := g(RDI := sp s - 136), seg := h\<rparr>"
  by (intro exI [of _ "(gpr s)(RAX := set_low16 (gpr s RAX) 0x10)"] exI [of _ "\<lambda>_. 0x10"])
    (auto simp: run_def isr_save_def push_word_def fun_eq_iff set_low16_low intro!: cpu.equality intro: segment.exhaust)

lemma push_word_fields [simp]:
  "sp (push_word v s) = sp s - 8" "words (push_word v s) = (words s)(sp s - 8 := v)" "gpr (push_word v s) = gpr s"
  "seg (push_word v s) = seg s" "cs_sel (push_word v s) = cs_sel s"
  by (simp_all add: push_word_def)

lemma push_words_fields [simp]:
  "gpr (fold push_word vs s) = gpr s" "seg (fold push_word vs s) = seg s" "cs_sel (fold push_word vs s) = cs_sel s"
  by (induction vs arbitrary: s) simp_all

lemma push_words_sp [simp]: "sp (fold push_word vs s) = sp s - 8 * of_nat (length vs)"
proof (induction vs arbitrary: s)
  case (Cons v vs)
  show ?case using Cons.IH [of "push_word v s"] by (simp add: algebra_simps)
qed simp

lemma word_offset_inj:
  assumes "8 * of_nat i = (8 * of_nat j :: u64)" "i \<le> 100" "j \<le> 100"
  shows "i = j"
proof -
  have "0 + of_nat (8 * i) = 0 + (of_nat (8 * j) :: u64)" using assms(1) by simp
  then show ?thesis using of_nat_u64_inj [of "8 * i" "8 * j" 0] assms(2,3) by simp
qed

lemma pushed_word:
  "i < length vs \<Longrightarrow> length vs \<le> 99 \<Longrightarrow> words (fold push_word vs s) (sp s - 8 * of_nat (Suc i)) = vs ! i"
proof (induction vs rule: rev_induct)
  case (snoc v vs)
  show ?case
  proof (cases "i = length vs")
    case True
    then show ?thesis by (simp add: algebra_simps)
  next
    case False
    then have "8 * of_nat (Suc i) \<noteq> (8 * of_nat (Suc (length vs)) :: u64)"
      using word_offset_inj [of "Suc i" "Suc (length vs)"] snoc.prems by auto
    then have "sp s - 8 * of_nat (Suc i) \<noteq> sp s - 8 * of_nat (length vs) - 8" by (simp add: algebra_simps)
    with snoc False show ?thesis by (simp add: nth_append del: of_nat_Suc)
  qed
qed simp

lemma unpushed_word:
  "(\<And>i. i < length vs \<Longrightarrow> a \<noteq> sp s - 8 * of_nat (Suc i)) \<Longrightarrow> words (fold push_word vs s) a = words s a"
proof (induction vs rule: rev_induct)
  case (snoc v vs)
  have "a \<noteq> sp s - 8 * of_nat (length vs) - 8" using snoc.prems [of "length vs"] by (simp add: algebra_simps)
  with snoc show ?case by (simp add: less_Suc_eq)
qed simp

text \<open>All 24 words, in the order in which they are pushed.\<close>

definition saved_words :: "nat \<Rightarrow> u64 option \<Rightarrow> cpu \<Rightarrow> u64 list" where
  "saved_words n err s =
     entry_words n err s @ map (gpr s) [RAX, RCX, RDX, RBX, RBP, RSI, RDI, R8, R9, R10, R11, R12, R13, R14, R15] @
     [set_low16 (gpr s RAX) (seg s DS), set_low16 (gpr s RAX) (seg s ES)]"

lemma length_saved_words [simp]: "length (saved_words n err s) = 24"
  by (simp add: saved_words_def entry_words_def)

lemma entry_saves:
  assumes "has_error_code n \<longleftrightarrow> err \<noteq> None"
  shows "gpr (isr_entry T e n err s) RDI = entry_stack T e s - 192" "sp (isr_entry T e n err s) = entry_stack T e s - 192"
    "\<exists>t. sp t = entry_stack T e s \<and> words t = words s \<and> words (isr_entry T e n err s) = words (fold push_word (saved_words n err s) t)"
proof -
  obtain i c f where st: "run (isr_stub n) (deliver T e err s) =
      fold push_word (entry_words n err s) (s\<lparr>sp := entry_stack T e s, ip := i, cs_sel := c, flags_reg := f\<rparr>)"
    using stub_pushes [OF assms] by blast
  define t where "t = s\<lparr>sp := entry_stack T e s, ip := i, cs_sel := c, flags_reg := f\<rparr>"
  let ?s1 = "fold push_word (entry_words n err s) t"
  have s1: "gpr ?s1 = gpr s" "seg ?s1 = seg s" "sp ?s1 = entry_stack T e s - 56"
    by (simp_all add: t_def entry_words_def)
  obtain g h where sv: "isr_entry T e n err s =
      (fold push_word (map (gpr s) [RAX, RCX, RDX, RBX, RBP, RSI, RDI, R8, R9, R10, R11, R12, R13, R14, R15] @
        [set_low16 (gpr s RAX) (seg s DS), set_low16 (gpr s RAX) (seg s ES)]) ?s1)
       \<lparr>gpr := g(RDI := sp ?s1 - 136), seg := h\<rparr>"
    using save_pushes [of ?s1] by (auto simp only: isr_entry_def st t_def [symmetric] s1)
  have "gpr (isr_entry T e n err s) RDI = sp ?s1 - 136" unfolding sv by simp
  then show "gpr (isr_entry T e n err s) RDI = entry_stack T e s - 192" unfolding s1 by simp
  have "sp (isr_entry T e n err s) = sp ?s1 - 136" unfolding sv by simp
  then show "sp (isr_entry T e n err s) = entry_stack T e s - 192" unfolding s1 by simp
  have "words (isr_entry T e n err s) = words (fold push_word (saved_words n err s) t)"
    unfolding sv saved_words_def fold_append comp_apply by simp
  then show "\<exists>t. sp t = entry_stack T e s \<and> words t = words s \<and>
      words (isr_entry T e n err s) = words (fold push_word (saved_words n err s) t)"
    by (intro exI [of _ t]) (simp add: t_def)
qed

lemma saved_context:
  assumes "\<And>i. i < 24 \<Longrightarrow> w (b - 8 * of_nat (Suc i)) = saved_words n err s ! i"
  shows "context_at w (b - 192) = context_of n err s"
  using assms [of 0] assms [of 1] assms [of 2] assms [of 3] assms [of 4] assms [of 5] assms [of 6] assms [of 7]
    assms [of 8] assms [of 9] assms [of 10] assms [of 11] assms [of 12] assms [of 13] assms [of 14] assms [of 15]
    assms [of 16] assms [of 17] assms [of 18] assms [of 19] assms [of 20] assms [of 21] assms [of 22] assms [of 23]
  by (simp add: context_at_def context_of_def saved_words_def entry_words_def)

lemma entry_context:
  assumes "has_error_code n \<longleftrightarrow> err \<noteq> None"
  shows "context_at (words (isr_entry T e n err s)) (gpr (isr_entry T e n err s) RDI) = context_of n err s"
proof -
  obtain t where t: "sp t = entry_stack T e s" "words (isr_entry T e n err s) = words (fold push_word (saved_words n err s) t)"
    using entry_saves(3) [OF assms, of T e s] by blast
  have "words (isr_entry T e n err s) (entry_stack T e s - 8 * of_nat (Suc i)) = saved_words n err s ! i" if "i < 24" for i
    using pushed_word [of i "saved_words n err s" t] that by (simp only: t length_saved_words)
  then show ?thesis unfolding entry_saves(1) [OF assms] by (rule saved_context)
qed

text \<open>The handler of a yield sees the vector and the number of the system call.\<close>

lemma yield_now_context:
  "context_at (words (yield_now T e s)) (gpr (yield_now T e s) RDI) = (context_of 0x80 None s)
     \<lparr>c_rax := 4, c_ds := set_low16 4 (seg s ES), c_es := set_low16 4 (seg s DS)\<rparr>"
proof -
  have "has_error_code 0x80 \<longleftrightarrow> (None :: u64 option) \<noteq> None" by (simp add: has_error_code_def)
  from entry_context [OF this] show ?thesis unfolding yield_now_def by (simp add: context_of_def)
qed

text \<open>
  C5: an interrupt is invisible to the program it interrupts. With an error code exactly for the
  vectors whose stub expects one, the handler is called with a pointer to the 24 words below the
  top of the entry stack, which are, read as an \<open>InterruptContext\<close>, the registers of the interrupted
  program, the vector and the error code (with \<^verbatim>\<open>ds\<close> and \<^verbatim>\<open>es\<close> under each other's name); every other
  word is untouched. Whatever the handler does, on whatever stack, the code after it resumes the
  program that the context at the returned address describes, and a context with the same words
  resumes the interrupted program with all its registers.
\<close>

theorem interrupt_transparent:
  fixes T :: tss and e :: idt_entry and s :: cpu
  assumes "has_error_code n \<longleftrightarrow> err \<noteq> None"
  defines "p \<equiv> gpr (isr_entry T e n err s) RDI" and "w \<equiv> words (isr_entry T e n err s)"
  shows "p = entry_stack T e s - 192 \<and> sp (isr_entry T e n err s) = p \<and> context_at w p = context_of n err s \<and>
    (\<forall>a. a \<notin> frame_words p \<longrightarrow> w a = words s a) \<and>
    (\<forall>t. run isr_restore t = cpu_of (context_at (words t) (gpr t RAX)) (words t)) \<and>
    (\<forall>t. context_at (words t) (gpr t RAX) = context_at w p \<longrightarrow> run isr_restore t = s\<lparr>words := words t\<rparr>)"
proof -
  note entry = entry_saves [OF assms(1), of T e s]
  obtain t where t: "sp t = entry_stack T e s" "words t = words s" "w = words (fold push_word (saved_words n err s) t)"
    using entry(3) unfolding w_def by blast
  have p: "p = entry_stack T e s - 192" using entry(1) by (simp add: p_def)
  have c: "context_at w p = context_of n err s" unfolding p_def w_def by (rule entry_context [OF assms(1)])
  have "w a = words s a" if a: "a \<notin> frame_words p" for a
  proof -
    have "a \<noteq> sp t - 8 * of_nat (Suc i)" if "i < length (saved_words n err s)" for i
    proof -
      have i: "i < 24" using that by simp
      then have "entry_stack T e s - 8 * of_nat (Suc i) = p + 8 * of_nat (23 - i)"
        by (simp add: p of_nat_diff algebra_simps)
      then show ?thesis using a frame_word [of "23 - i" p] t(1) by auto
    qed
    then have "words (fold push_word (saved_words n err s) t) a = words t a" by (rule unpushed_word)
    then show ?thesis by (simp only: t)
  qed
  moreover have "run isr_restore t' = s\<lparr>words := words t'\<rparr>"
    if "context_at (words t') (gpr t' RAX) = context_at w p" for t'
    by (simp only: restore_resumes that c cpu_of_context)
  ultimately show ?thesis using p entry(2) c restore_resumes by simp
qed

text \<open>A page fault of user code at 0x401000: the frame is on the stack of ring 0.\<close>

definition demo_user :: cpu where
  "demo_user =
     \<lparr>gpr = (\<lambda>r. if r = RAX then 0x1122334455667788 else 7), sp = 0x7FFFFFF0, ip = 0x401000, seg = (\<lambda>_. 0x1B),
      cs_sel = 0x23, ss_sel = 0x1B, flags_reg = 0x202, words = (\<lambda>_. 0)\<rparr>"

lemma interrupt_transparent_witness:
  "gpr (isr_entry (tss_init 0x9000) (set_handler 0x5000 0) 14 (Some 6) demo_user) RDI = 0x8F40 \<and>
   context_at (words (isr_entry (tss_init 0x9000) (set_handler 0x5000 0) 14 (Some 6) demo_user)) 0x8F40 =
     context_of 14 (Some 6) demo_user"
proof -
  have b: "entry_stack (tss_init 0x9000) (set_handler 0x5000 0) demo_user = 0x9000"
    by (simp add: entry_stack_def set_handler_def set_gate_def demo_user_def tss_init_def tss_new_def numeral_3_eq_3)
  have "has_error_code 14 \<longleftrightarrow> Some (6 :: u64) \<noteq> None" by (simp add: has_error_code_def)
  note t = interrupt_transparent [OF this, of "tss_init 0x9000" "set_handler 0x5000 0" demo_user]
  have "gpr (isr_entry (tss_init 0x9000) (set_handler 0x5000 0) 14 (Some 6) demo_user) RDI = 0x8F40"
    using t by (simp add: b)
  with t show ?thesis by simp
qed

end
