(* ===== verification/Serial.thy ===== *)
theory Serial
  imports Format
begin

text \<open>
  The serial port, \<^verbatim>\<open>kernel/src/serial.rs\<close>: the global port, empty before its initialisation, and the
  output of bytes and of formatted text. The driver of the UART is the crate \<^verbatim>\<open>uart_16550\<close>, a record
  of functions on the port and the state of the device; formatted text is the list of the pieces
  that \<^verbatim>\<open>core::fmt\<close> hands over one by one.
\<close>

section \<open>Operations\<close>

record ('p, 'd) uart =
  uart_new :: "u16 \<Rightarrow> 'p"
  uart_init :: "'p \<Rightarrow> 'd \<Rightarrow> 'p \<times> 'd"
  uart_send :: "u8 \<Rightarrow> 'p \<times> 'd \<Rightarrow> 'p \<times> 'd"
  uart_write_str :: "bytes \<Rightarrow> 'p \<times> 'd \<Rightarrow> bool \<times> 'p \<times> 'd"

abbreviation COM1_PORT :: u16 where "COM1_PORT \<equiv> 0x3F8"

definition serial_init :: "('p, 'd) uart \<Rightarrow> 'p option \<times> 'd \<Rightarrow> 'p option \<times> 'd" where
  "serial_init U = (\<lambda>(port, d). case uart_init U (uart_new U COM1_PORT) d of (p, d') \<Rightarrow> (Some p, d'))"

definition serial_write_str :: "('p, 'd) uart \<Rightarrow> bytes \<Rightarrow> 'p option \<times> 'd \<Rightarrow> 'p option \<times> 'd" where
  "serial_write_str U s = (\<lambda>(port, d). case port of
       None \<Rightarrow> (None, d)
     | Some p \<Rightarrow> (case fold (uart_send U) s (p, d) of (p', d') \<Rightarrow> (Some p', d')))"

text \<open>The pieces, up to the first that fails; the error is dropped.\<close>

fun write_pieces :: "('p, 'd) uart \<Rightarrow> bytes list \<Rightarrow> 'p \<times> 'd \<Rightarrow> 'p \<times> 'd" where
  "write_pieces U [] st = st"
| "write_pieces U (s # ss) st = (case uart_write_str U s st of (ok, st') \<Rightarrow> if ok then write_pieces U ss st' else st')"

definition serial_write_fmt :: "('p, 'd) uart \<Rightarrow> bytes list \<Rightarrow> 'p option \<times> 'd \<Rightarrow> 'p option \<times> 'd" where
  "serial_write_fmt U args = (\<lambda>(port, d). case port of
       None \<Rightarrow> (None, d)
     | Some p \<Rightarrow> (case write_pieces U args (p, d) of (p', d') \<Rightarrow> (Some p', d')))"

text \<open>The macros \<^verbatim>\<open>serial_print\<close> and \<^verbatim>\<open>serial_println\<close>, which \<^verbatim>\<open>print\<close> and \<^verbatim>\<open>println\<close> expand to.\<close>

definition serial_print :: "('p, 'd) uart \<Rightarrow> bytes list \<Rightarrow> 'p option \<times> 'd \<Rightarrow> 'p option \<times> 'd" where
  "serial_print U args = serial_write_fmt U args"

definition serial_println :: "('p, 'd) uart \<Rightarrow> bytes list \<Rightarrow> 'p option \<times> 'd \<Rightarrow> 'p option \<times> 'd" where
  "serial_println U args s = serial_print U [newline] (serial_write_fmt U args s)"

section \<open>What reaches the line\<close>

text \<open>The crate writes a string by sending its bytes, and does not fail.\<close>

definition sends_bytes :: "('p, 'd) uart \<Rightarrow> bool" where
  "sends_bytes U \<longleftrightarrow> (\<forall>s st. uart_write_str U s st = (True, fold (uart_send U) s st))"

lemma write_pieces_sends: "sends_bytes U \<Longrightarrow> write_pieces U ss st = fold (uart_send U) (concat ss) st"
  by (induction ss arbitrary: st) (simp_all add: sends_bytes_def del: split_paired_All)

lemma write_fmt_str: "sends_bytes U \<Longrightarrow> serial_write_fmt U args = serial_write_str U (concat args)"
  by (simp add: serial_write_fmt_def serial_write_str_def write_pieces_sends fun_eq_iff split: option.splits)

text \<open>Nothing is sent before the initialisation.\<close>

lemma silent_before_init: "serial_println U args (None, d) = (None, d)"
  by (simp add: serial_println_def serial_print_def serial_write_fmt_def)

lemma write_str_append: "serial_write_str U t (serial_write_str U s st) = serial_write_str U (s @ t) st"
  by (auto simp: serial_write_str_def split: option.splits prod.splits)

text \<open>A sequence of lines is sent as one text, each line with its newline.\<close>

lemma log_lines:
  assumes "sends_bytes U"
  shows "fold (serial_println U) lines st = serial_write_str U (concat (map (\<lambda>l. concat l @ newline) lines)) st"
proof (induction lines arbitrary: st)
  case Nil
  show ?case by (auto simp: serial_write_str_def split: prod.splits option.splits)
next
  case (Cons l ls)
  have "serial_println U l st = serial_write_str U (concat l @ newline) st"
    by (simp add: serial_println_def serial_print_def write_fmt_str [OF assms] write_str_append)
  then show ?case using Cons.IH by (simp add: write_str_append)
qed

end
