(* ===== verification/Input.thy ===== *)
theory Input
  imports Ipc Vfs "HOL-Library.Signed_Division"
begin

text \<open>
  The input drivers, \<^verbatim>\<open>userland/keyboard_driver\<close> and \<^verbatim>\<open>userland/mouse_driver\<close>. A driver is a step
  function from its state and a received message to its new state and the messages it sends to
  the compositor; it sends each until the kernel accepts it. The numbers of the message types are
  constants of the library \<^verbatim>\<open>libhuseyn\<close>, which is not part of the repository: they are a parameter.
\<close>

section \<open>Message types\<close>

record msg_types =
  HARDWARE_INTERRUPT :: u64
  KEY_PRESSED :: u64
  MOUSE_PACKET :: u64
  MOUSE_MOVE :: u64
  MOUSE_CLICK :: u64
  QUIT :: u64
  WINDOW_CREATE :: u64
  WINDOW_DAMAGE :: u64

text \<open>The types a \<^verbatim>\<open>match\<close> tells apart.\<close>

definition types_distinct :: "msg_types \<Rightarrow> bool" where
  "types_distinct T \<longleftrightarrow> distinct [HARDWARE_INTERRUPT T, KEY_PRESSED T, MOUSE_PACKET T, MOUSE_MOVE T,
     MOUSE_CLICK T, QUIT T, WINDOW_CREATE T, WINDOW_DAMAGE T]"

abbreviation COMPOSITOR_PID :: nat where "COMPOSITOR_PID \<equiv> 5"

section \<open>The keyboard driver\<close>

definition KEYMAP_NORMAL :: bytes where
  "KEYMAP_NORMAL =
     [0, 27] @ ascii ''1234567890-='' @ [8, 9] @ ascii ''qwertyuiop[]'' @ [10] @
     [0] @ ascii ''asdfghjkl;'' @ [39] @ ascii ''`'' @ [0, 92] @ ascii ''zxcvbnm,./'' @ [0] @ ascii ''*'' @
     [0] @ ascii '' '' @ replicate 70 0"

definition KEYMAP_SHIFT :: bytes where
  "KEYMAP_SHIFT =
     [0, 27] @ ascii ''!@#$%^&*()_+'' @ [8, 9] @ ascii ''QWERTYUIOP{}'' @ [10] @
     [0] @ ascii ''ASDFGHJKL:'' @ [34] @ ascii ''~'' @ [0] @ ascii ''|ZXCVBNM<>?'' @ [0] @ ascii ''*'' @
     [0] @ ascii '' '' @ replicate 70 0"

record modifier_state =
  lshift :: bool
  rshift :: bool
  capslock :: bool

definition modifier_state_new :: modifier_state where
  "modifier_state_new = \<lparr>lshift = False, rshift = False, capslock = False\<rparr>"

definition is_shifted :: "modifier_state \<Rightarrow> bool" where
  "is_shifted st \<longleftrightarrow> lshift st \<or> rshift st"

definition is_lower :: "u8 \<Rightarrow> bool" where
  "is_lower b \<longleftrightarrow> 97 \<le> b \<and> b \<le> 122"

definition is_upper :: "u8 \<Rightarrow> bool" where
  "is_upper b \<longleftrightarrow> 65 \<le> b \<and> b \<le> 90"

definition translate_scancode :: "u8 \<Rightarrow> modifier_state \<Rightarrow> u8 option" where
  "translate_scancode scancode st =
     (if scancode \<ge> 128 then None
      else let mapped = (if is_shifted st then KEYMAP_SHIFT else KEYMAP_NORMAL) ! unat scancode
           in if mapped = 0 then None
              else if capslock st \<and> is_lower mapped \<and> \<not> is_shifted st then Some (mapped - 32)
              else if capslock st \<and> is_upper mapped \<and> is_shifted st then Some (mapped + 32)
              else Some mapped)"

definition scancode_step :: "u8 \<Rightarrow> modifier_state \<Rightarrow> modifier_state \<times> u8 option" where
  "scancode_step scancode st =
     (if scancode \<ge> 0x80 then
        (if scancode - 0x80 = 0x2A then st\<lparr>lshift := False\<rparr>
         else if scancode - 0x80 = 0x36 then st\<lparr>rshift := False\<rparr> else st, None)
      else if scancode = 0x2A then (st\<lparr>lshift := True\<rparr>, None)
      else if scancode = 0x36 then (st\<lparr>rshift := True\<rparr>, None)
      else if scancode = 0x3A then (st\<lparr>capslock := \<not> capslock st\<rparr>, None)
      else (st, translate_scancode scancode st))"

definition key_message :: "msg_types \<Rightarrow> u8 \<Rightarrow> message" where
  "key_message T c = message_empty\<lparr>msg_type := KEY_PRESSED T, arg1 := ucast c\<rparr>"

definition keyboard_step :: "msg_types \<Rightarrow> message \<Rightarrow> modifier_state \<Rightarrow> modifier_state \<times> message list" where
  "keyboard_step T msg st =
     (if msg_type msg = HARDWARE_INTERRUPT T then
        let (st', c) = scancode_step (ucast (arg1 msg)) st
        in (st', case c of None \<Rightarrow> [] | Some c \<Rightarrow> [key_message T c])
      else (st, []))"

section \<open>The mouse driver\<close>

text \<open>\<^verbatim>\<open>i32\<close> is a 32-bit word read with \<^const>\<open>sint\<close>; its division truncates.\<close>

definition div_trunc :: "32 word \<Rightarrow> int \<Rightarrow> 32 word" where
  "div_trunc a b = word_of_int (sint a sdiv b)"

record mouse_state =
  phase :: u8
  packet :: "u8 list"
  mouse_x :: "32 word"
  mouse_y :: "32 word"
  buttons :: u8
  screen_w :: "32 word"
  screen_h :: "32 word"

definition mouse_state_new :: "32 word \<Rightarrow> 32 word \<Rightarrow> mouse_state" where
  "mouse_state_new w h =
     (let safe_w = (if sint w > 0 then w else 1024); safe_h = (if sint h > 0 then h else 768)
      in \<lparr>phase = 0, packet = replicate 3 0, mouse_x = div_trunc safe_w 2, mouse_y = div_trunc safe_h 2,
          buttons = 0, screen_w = safe_w, screen_h = safe_h\<rparr>)"

definition clamp :: "32 word \<Rightarrow> 32 word \<Rightarrow> 32 word \<Rightarrow> 32 word" where
  "clamp v lo hi = (if sint v < sint lo then lo else if sint v > sint hi then hi else v)"

definition accelerate :: "32 word \<Rightarrow> 32 word" where
  "accelerate d = (if \<bar>sint d\<bar> > 8 then div_trunc (d * 3) 2 else d)"

definition process_packet :: "mouse_state \<Rightarrow> mouse_state" where
  "process_packet st =
     (let flags = packet st ! 0
      in if flags AND 0xC0 \<noteq> 0 then st
         else let dx = ucast (packet st ! 1) - (if flags AND 0x10 \<noteq> 0 then 256 else 0);
                  dy = - (ucast (packet st ! 2) - (if flags AND 0x20 \<noteq> 0 then 256 else 0))
              in st\<lparr>buttons := flags AND 0x07,
                    mouse_x := clamp (mouse_x st + accelerate dx) 0 (screen_w st - 1),
                    mouse_y := clamp (mouse_y st + accelerate dy) 0 (screen_h st - 1)\<rparr>)"

definition feed :: "u8 \<Rightarrow> mouse_state \<Rightarrow> bool \<times> mouse_state" where
  "feed byte st =
     (if phase st = 0 then
        (False, if byte AND 0x08 \<noteq> 0 then st\<lparr>packet := (packet st)[0 := byte], phase := 1\<rparr> else st)
      else if phase st = 1 then (False, st\<lparr>packet := (packet st)[1 := byte], phase := 2\<rparr>)
      else if phase st = 2 then (True, process_packet (st\<lparr>packet := (packet st)[2 := byte], phase := 0\<rparr>))
      else (False, st\<lparr>phase := 0\<rparr>))"

text \<open>The coordinates are sign-extended to \<^verbatim>\<open>u64\<close>.\<close>

definition mouse_message :: "u64 \<Rightarrow> mouse_state \<Rightarrow> message" where
  "mouse_message ty st =
     message_empty\<lparr>msg_type := ty, arg1 := scast (mouse_x st), arg2 := scast (mouse_y st),
       arg3 := ucast (buttons st)\<rparr>"

text \<open>A step of the main loop, with the buttons that were last reported.\<close>

definition mouse_step :: "msg_types \<Rightarrow> message \<Rightarrow> mouse_state \<times> u8 \<Rightarrow> (mouse_state \<times> u8) \<times> message list" where
  "mouse_step T msg s =
     (case s of (st, prev_buttons) \<Rightarrow>
        if msg_type msg = MOUSE_PACKET T then
          (case feed (ucast (arg1 msg)) st of
             (False, st') \<Rightarrow> ((st', prev_buttons), [])
           | (True, st') \<Rightarrow>
               if buttons st' \<noteq> prev_buttons then
                 ((st', buttons st'), [mouse_message (MOUSE_MOVE T) st', mouse_message (MOUSE_CLICK T) st'])
               else ((st', prev_buttons), [mouse_message (MOUSE_MOVE T) st']))
        else ((st, prev_buttons), []))"

section \<open>Runs\<close>

text \<open>A driver over a sequence of messages, with all it sends.\<close>

primrec drive :: "('m \<Rightarrow> 's \<Rightarrow> 's \<times> 'o list) \<Rightarrow> 'm list \<Rightarrow> 's \<Rightarrow> 's \<times> 'o list" where
  "drive step [] s = (s, [])"
| "drive step (m # ms) s =
     (case step m s of (s1, out1) \<Rightarrow> case drive step ms s1 of (s2, out2) \<Rightarrow> (s2, out1 @ out2))"

lemma drive_invariant:
  assumes "\<And>m s s' out. I s \<Longrightarrow> step m s = (s', out) \<Longrightarrow> I s' \<and> (\<forall>x\<in>set out. Q x)"
  shows "I s \<Longrightarrow> drive step ms s = (s', out) \<Longrightarrow> I s' \<and> (\<forall>x\<in>set out. Q x)"
proof (induction ms arbitrary: s s' out)
  case (Cons m ms)
  obtain s1 out1 where 1: "step m s = (s1, out1)" by fastforce
  obtain s2 out2 where 2: "drive step ms s1 = (s2, out2)" by fastforce
  from assms [OF Cons.prems(1) 1] have i: "I s1" "\<forall>x\<in>set out1. Q x" by auto
  from Cons.IH [OF i(1) 2] i(2) Cons.prems(2) 1 2 show ?case by auto
qed simp

section \<open>What the keyboard types\<close>

text \<open>Whether the key with make code \<open>c\<close> is down after some scancodes.\<close>

definition key_down :: "u8 \<Rightarrow> u8 list \<Rightarrow> bool" where
  "key_down c hist \<longleftrightarrow>
     (let events = filter (\<lambda>s. s = c \<or> s = c + 0x80) hist in events \<noteq> [] \<and> last events = c)"

definition modifiers :: "u8 list \<Rightarrow> modifier_state" where
  "modifiers hist = fold (\<lambda>s st. fst (scancode_step s st)) hist modifier_state_new"

definition typed :: "bool \<Rightarrow> bool \<Rightarrow> u8 \<Rightarrow> u8 option" where
  "typed shift caps s =
     (if s \<ge> 128 \<or> KEYMAP_NORMAL ! unat s = 0 then None
      else let c = KEYMAP_NORMAL ! unat s
           in if is_lower c then Some (if shift \<noteq> caps then c - 32 else c)
              else Some (if shift then KEYMAP_SHIFT ! unat s else c))"

lemma keymaps_agree:
  "list_all (\<lambda>(c, d). (c = 0 \<longleftrightarrow> d = 0) \<and> \<not> is_upper c \<and> \<not> is_lower d \<and>
     (if is_lower c then d = c - 32 \<and> d + 32 = c \<and> is_upper d else \<not> is_upper d)) (zip KEYMAP_NORMAL KEYMAP_SHIFT)"
  by code_simp

lemma keymap_lengths: "length KEYMAP_NORMAL = 128" "length KEYMAP_SHIFT = 128"
  by code_simp+

lemma translate_typed: "translate_scancode s st = typed (is_shifted st) (capslock st) s"
proof (cases "s \<ge> 128")
  case False
  then have i: "unat s < 128" by (simp add: word_le_nat_alt)
  have "(KEYMAP_NORMAL ! unat s, KEYMAP_SHIFT ! unat s) \<in> set (zip KEYMAP_NORMAL KEYMAP_SHIFT)"
    using i keymap_lengths by (force simp: set_zip)
  note k = bspec [OF keymaps_agree [unfolded list_all_iff] this, unfolded prod.case]
  with False k show ?thesis
    by (cases "is_shifted st"; cases "capslock st")
      (auto simp: translate_scancode_def typed_def Let_def split: if_splits)
qed (simp add: translate_scancode_def typed_def)

lemma modifiers_snoc: "modifiers (hist @ [s]) = fst (scancode_step s (modifiers hist))"
  by (simp add: modifiers_def)

lemma key_down_snoc:
  "key_down c (hist @ [s]) \<longleftrightarrow> (if s = c then True else if s = c + 0x80 then False else key_down c hist)"
  by (auto simp: key_down_def Let_def)

lemma modifiers_keys:
  "lshift (modifiers hist) = key_down 0x2A hist \<and> rshift (modifiers hist) = key_down 0x36 hist \<and>
   capslock (modifiers hist) = odd (count_list hist 0x3A)"
proof (induction hist rule: rev_induct)
  case (snoc s hist)
  have "s \<ge> 0x80 \<Longrightarrow> s - 0x80 = c \<longleftrightarrow> s = c + 0x80" for c by (auto simp: algebra_simps)
  then show ?case using snoc
    by (auto simp: modifiers_snoc key_down_snoc scancode_step_def)
qed (simp add: modifiers_def modifier_state_new_def key_down_def)

lemma keyboard_types:
  assumes "msg_type msg = HARDWARE_INTERRUPT T" "s = ucast (arg1 msg)" "s \<notin> {0x2A, 0x36, 0x3A}"
  shows "snd (keyboard_step T msg (modifiers hist)) =
    (case typed (key_down 0x2A hist \<or> key_down 0x36 hist) (odd (count_list hist 0x3A)) s of
       None \<Rightarrow> [] | Some c \<Rightarrow> [key_message T c])"
  using assms modifiers_keys [of hist]
  by (auto simp: keyboard_step_def scancode_step_def translate_typed is_shifted_def typed_def Let_def)

text \<open>
  C35: typing. After any sequence of scancodes, a key that is not a modifier sends to the
  compositor exactly the character of its key: a letter in upper case when exactly one of shift
  and caps lock is on, any other key by the shift alone; shift is on while a shift key is down
  and caps lock after an odd number of presses. Releases and unknown keys send nothing.
\<close>

theorem keyboard_typing:
  assumes "msg_type msg = HARDWARE_INTERRUPT T" "s = ucast (arg1 msg)" "s \<notin> {0x2A, 0x36, 0x3A}"
  shows "snd (keyboard_step T msg (modifiers hist)) =
    (case typed (key_down 0x2A hist \<or> key_down 0x36 hist) (odd (count_list hist 0x3A)) s of
       None \<Rightarrow> [] | Some c \<Rightarrow> [key_message T c])"
  by (rule keyboard_types [OF assms])

definition demo_types :: msg_types where
  "demo_types = \<lparr>HARDWARE_INTERRUPT = 0x30, KEY_PRESSED = 0x20, MOUSE_PACKET = 0x40, MOUSE_MOVE = 0x41,
     MOUSE_CLICK = 0x42, QUIT = 0x50, WINDOW_CREATE = 0x51, WINDOW_DAMAGE = 0x52\<rparr>"

text \<open>Shift, caps lock, both; the key of the letter a.\<close>

lemma keyboard_typing_witness:
  "snd (keyboard_step demo_types (message_empty\<lparr>msg_type := 0x30, arg1 := 0x1E\<rparr>) (modifiers [0x2A])) =
     [key_message demo_types 0x41] \<and>
   snd (keyboard_step demo_types (message_empty\<lparr>msg_type := 0x30, arg1 := 0x1E\<rparr>) (modifiers [0x2A, 0x3A])) =
     [key_message demo_types 0x61]"
proof -
  let ?msg = "message_empty\<lparr>msg_type := 0x30, arg1 := 0x1E\<rparr>"
  have d: "msg_type ?msg = HARDWARE_INTERRUPT demo_types" by (simp add: demo_types_def)
  have s: "0x1E = ucast (arg1 ?msg)" by simp
  have "typed True False 0x1E = Some 0x41" "typed True True 0x1E = Some 0x61" by code_simp+
  moreover have "key_down 0x2A [0x2A]" "key_down 0x2A [0x2A, 0x3A]" by (simp_all add: key_down_def)
  ultimately show ?thesis
    using keyboard_typing [OF d s, of "[0x2A]"] keyboard_typing [OF d s, of "[0x2A, 0x3A]"] by simp
qed

section \<open>The pointer\<close>

definition on_screen :: "mouse_state \<Rightarrow> bool" where
  "on_screen st \<longleftrightarrow>
     length (packet st) = 3 \<and> phase st \<in> {0, 1, 2} \<and> buttons st < 8 \<and>
     0 < sint (screen_w st) \<and> 0 < sint (screen_h st) \<and>
     0 \<le> sint (mouse_x st) \<and> sint (mouse_x st) < sint (screen_w st) \<and>
     0 \<le> sint (mouse_y st) \<and> sint (mouse_y st) < sint (screen_h st)"

text \<open>Arithmetic of \<^verbatim>\<open>i32\<close> that stays in range.\<close>

lemma sint_of_int: "- (2 ^ 31) \<le> i \<Longrightarrow> i < 2 ^ 31 \<Longrightarrow> sint (word_of_int i :: 32 word) = i"
  by (simp add: sint_sbintrunc' signed_take_bit_int_eq_self)

lemma sint_add:
  "- (2 ^ 31) \<le> sint x + sint y \<Longrightarrow> sint x + sint y < 2 ^ 31 \<Longrightarrow> sint (x + y :: 32 word) = sint x + sint y"
  using sint_of_int [of "sint x + sint y"] by simp

lemma sint_pred: "0 < sint (w :: 32 word) \<Longrightarrow> sint (w - 1) = sint w - 1"
  using sint_of_int [of "sint w - 1"] sint_lt [of w] by simp

lemma clamp_range:
  "0 < sint w \<Longrightarrow> sint (clamp v 0 (w - 1)) = max 0 (min (sint w - 1) (sint v))"
  by (auto simp: clamp_def sint_pred)

lemma low_bits: "(flags :: u8) AND 0x07 < 8"
proof -
  have "flags AND 0x07 = take_bit 3 flags" by (simp add: take_bit_eq_mask mask_eq_exp_minus_1)
  then have "unat (flags AND 0x07) = unat flags mod 8"
    by (simp only: unsigned_take_bit_eq) (simp add: take_bit_eq_mod)
  then show ?thesis by (simp only: word_less_nat_alt) simp
qed

lemma process_packet_on_screen: "on_screen st \<Longrightarrow> on_screen (process_packet st)"
  by (auto simp: process_packet_def Let_def on_screen_def clamp_range low_bits)

lemma feed_on_screen: "on_screen st \<Longrightarrow> on_screen (snd (feed b st))"
proof -
  assume st: "on_screen st"
  then have "on_screen (st\<lparr>packet := (packet st)[2 := b], phase := 0\<rparr>)" by (simp add: on_screen_def)
  from process_packet_on_screen [OF this] st show ?thesis by (simp add: feed_def on_screen_def)
qed

lemma mouse_state_new_on_screen: "on_screen (mouse_state_new w h)"
proof -
  have half: "0 \<le> sint (div_trunc v 2) \<and> sint (div_trunc v 2) < sint v" if "0 < sint v" for v :: "32 word"
  proof -
    have "sint v < 2 ^ 31" using sint_lt [of v] by simp
    with that show ?thesis
      by (simp add: div_trunc_def signed_divide_int_def sint_of_int)
  qed
  have "0 < sint (1024 :: 32 word)" "0 < sint (768 :: 32 word)" by simp_all
  with half show ?thesis by (auto simp: mouse_state_new_def Let_def on_screen_def)
qed

text \<open>The change of a coordinate by a byte and its sign, accelerated, as integers.\<close>

definition displacement :: "u8 \<Rightarrow> bool \<Rightarrow> int" where
  "displacement b neg = uint b - (if neg then 256 else 0)"

definition accel :: "int \<Rightarrow> int" where
  "accel d = (if \<bar>d\<bar> > 8 then (d * 3) sdiv 2 else d)"

lemma displacement_range: "\<bar>displacement b neg\<bar> \<le> 256"
  using uint_bounded [of b] by (auto simp: displacement_def)

lemma accel_range: "\<bar>d\<bar> \<le> 256 \<Longrightarrow> \<bar>accel d\<bar> \<le> 384"
  by (auto simp: accel_def signed_divide_int_def abs_mult abs_sgn_eq)

lemma sint_displacement:
  "sint (ucast b - (if neg then 256 else 0) :: 32 word) = displacement b neg"
  "sint (- (ucast b - (if neg then 256 else 0)) :: 32 word) = - displacement b neg"
proof -
  have e: "(ucast b :: 32 word) - (if neg then 256 else 0) = word_of_int (displacement b neg)"
    by (simp add: displacement_def word_of_int_uint [symmetric] del: word_of_int_uint)
  show "sint (ucast b - (if neg then 256 else 0) :: 32 word) = displacement b neg"
    "sint (- (ucast b - (if neg then 256 else 0)) :: 32 word) = - displacement b neg"
    using displacement_range [of b neg] sint_of_int [of "displacement b neg"] sint_of_int [of "- displacement b neg"]
    by (simp_all add: e)
qed

lemma sint_accelerate:
  assumes "\<bar>sint d\<bar> \<le> 256"
  shows "sint (accelerate d) = accel (sint d)"
proof -
  have "sint (d * 3) = sint d * 3" using assms sint_of_int [of "sint d * 3"] by simp
  then show ?thesis
    using assms accel_range [OF assms] by (auto simp: accelerate_def accel_def div_trunc_def sint_of_int)
qed

lemma moved:
  assumes "0 \<le> sint x" "sint x < sint w" "sint w \<le> 2 ^ 30" "\<bar>sint d\<bar> \<le> 256"
  shows "sint (clamp (x + accelerate d) 0 (w - 1)) = max 0 (min (sint w - 1) (sint x + accel (sint d)))"
proof -
  have "sint (x + accelerate d) = sint x + accel (sint d)"
    using assms accel_range [OF assms(4)] by (simp add: sint_add sint_accelerate)
  then show ?thesis using assms by (simp add: clamp_range)
qed

definition pointer_ok :: "32 word \<Rightarrow> 32 word \<Rightarrow> mouse_state \<times> u8 \<Rightarrow> bool" where
  "pointer_ok w h s \<longleftrightarrow> on_screen (fst s) \<and> screen_w (fst s) = w \<and> screen_h (fst s) = h"

lemma feed_screen: "screen_w (snd (feed b st)) = screen_w st" "screen_h (snd (feed b st)) = screen_h st"
  by (simp_all add: feed_def process_packet_def Let_def)

lemma mouse_step_ok:
  assumes "pointer_ok w h s" "mouse_step T m s = (s', out)"
  shows "pointer_ok w h s' \<and>
    (\<forall>x\<in>set out. sint (arg1 x) \<in> {0..<sint w} \<and> sint (arg2 x) \<in> {0..<sint h} \<and> msg_type x \<in> {MOUSE_MOVE T, MOUSE_CLICK T})"
proof -
  obtain st prev where s: "s = (st, prev)" by (cases s)
  have ok: "on_screen st" "screen_w st = w" "screen_h st = h" using assms(1) by (simp_all add: s pointer_ok_def)
  obtain b st' where f: "feed (ucast (arg1 m)) st = (b, st')" by fastforce
  have st': "on_screen st'" "screen_w st' = w" "screen_h st' = h"
    using feed_on_screen [OF ok(1), of "ucast (arg1 m)"] feed_screen [of "ucast (arg1 m)" st] ok(2,3) by (simp_all add: f)
  have "sint (scast v :: u64) = sint v" for v :: "32 word" by (rule sint_up_scast) (simp add: is_up)
  then have mm: "sint (arg1 (mouse_message ty st')) \<in> {0..<sint w} \<and> sint (arg2 (mouse_message ty st')) \<in> {0..<sint h} \<and>
      msg_type (mouse_message ty st') = ty" for ty
    using st' by (simp add: mouse_message_def on_screen_def)
  consider "s' = (st', prev)" "out = []" | "s' = (st', prev)" "out = [mouse_message (MOUSE_MOVE T) st']"
    | "s' = (st', buttons st')" "out = [mouse_message (MOUSE_MOVE T) st', mouse_message (MOUSE_CLICK T) st']"
    | "s' = s" "out = []"
    using assms(2) unfolding s mouse_step_def prod.case f by (cases b) (auto split: if_splits)
  then show ?thesis
    by cases (use st' mm assms(1) in \<open>simp_all add: pointer_ok_def\<close>)
qed

text \<open>
  C34: the pointer. On a screen of up to \<open>2 ^ 30\<close> pixels either way, after any messages, the
  driver's pointer is on the screen, and so is every position it reports. A packet without
  overflow bits that comes in at a packet boundary moves the pointer by the two signed
  displacements, times three halves above 8, upwards for a positive second one, and stops at
  the edges: no machine addition wraps.
\<close>

theorem mouse_pointer:
  assumes "0 < sint w" "sint w \<le> 2 ^ 30" "0 < sint h" "sint h \<le> 2 ^ 30"
    and "drive (mouse_step T) ms (mouse_state_new w h, 0) = ((st, prev), out)"
  shows "on_screen st \<and> screen_w st = w \<and> screen_h st = h \<and>
    (\<forall>m\<in>set out. sint (arg1 m) \<in> {0..<sint w} \<and> sint (arg2 m) \<in> {0..<sint h}) \<and>
    (\<forall>f a b. phase st = 0 \<longrightarrow> f AND 0x08 \<noteq> 0 \<longrightarrow> f AND 0xC0 = 0 \<longrightarrow>
       (let st' = snd (feed b (snd (feed a (snd (feed f st)))))
        in sint (mouse_x st') = max 0 (min (sint w - 1) (sint (mouse_x st) + accel (displacement a (f AND 0x10 \<noteq> 0)))) \<and>
           sint (mouse_y st') = max 0 (min (sint h - 1) (sint (mouse_y st) + accel (- displacement b (f AND 0x20 \<noteq> 0)))) \<and>
           buttons st' = f AND 0x07 \<and> phase st' = 0))"
proof -
  have "pointer_ok w h (mouse_state_new w h, 0)"
    using mouse_state_new_on_screen [of w h] assms(1,3) by (simp add: pointer_ok_def mouse_state_new_def Let_def)
  from drive_invariant [of "pointer_ok w h" "mouse_step T", OF mouse_step_ok this assms(5)]
  have ok: "on_screen st" "screen_w st = w" "screen_h st = h"
    "\<forall>m\<in>set out. sint (arg1 m) \<in> {0..<sint w} \<and> sint (arg2 m) \<in> {0..<sint h}"
    by (auto simp: pointer_ok_def)
  have "let st' = snd (feed b (snd (feed a (snd (feed f st)))))
        in sint (mouse_x st') = max 0 (min (sint w - 1) (sint (mouse_x st) + accel (displacement a (f AND 0x10 \<noteq> 0)))) \<and>
           sint (mouse_y st') = max 0 (min (sint h - 1) (sint (mouse_y st) + accel (- displacement b (f AND 0x20 \<noteq> 0)))) \<and>
           buttons st' = f AND 0x07 \<and> phase st' = 0"
    if "phase st = 0" "f AND 0x08 \<noteq> 0" "f AND 0xC0 = 0" for f a b
  proof -
    obtain x y z where pk: "packet st = [x, y, z]"
      using ok(1) by (auto simp: on_screen_def numeral_3_eq_3 length_Suc_conv)
    let ?dx = "ucast a - (if f AND 0x10 \<noteq> 0 then 256 else 0) :: 32 word"
      and ?dy = "- (ucast b - (if f AND 0x20 \<noteq> 0 then 256 else 0)) :: 32 word"
    define st' where "st' = snd (feed b (snd (feed a (snd (feed f st)))))"
    have "st' = process_packet (st\<lparr>packet := [f, a, b], phase := 0\<rparr>)"
      by (simp add: st'_def feed_def that(1,2) pk)
    then have st': "mouse_x st' = clamp (mouse_x st + accelerate ?dx) 0 (w - 1)"
      "mouse_y st' = clamp (mouse_y st + accelerate ?dy) 0 (h - 1)" "buttons st' = f AND 0x07" "phase st' = 0"
      by (simp_all only: process_packet_def Let_def) (simp_all add: that(3) ok(2,3))
    have "\<bar>sint ?dx\<bar> \<le> 256" "\<bar>sint ?dy\<bar> \<le> 256"
      unfolding sint_displacement using displacement_range by simp_all
    moreover have "0 \<le> sint (mouse_x st)" "sint (mouse_x st) < sint w" "0 \<le> sint (mouse_y st)" "sint (mouse_y st) < sint h"
      using ok(1-3) by (simp_all add: on_screen_def)
    ultimately show ?thesis
      unfolding st'_def [symmetric] Let_def
      using moved [of "mouse_x st" w ?dx] moved [of "mouse_y st" h ?dy] assms(2,4) st'(3,4)
      unfolding st'(1,2) sint_displacement by blast
  qed
  with ok show ?thesis by blast
qed

lemma mouse_pointer_witness:
  "let (s, out) = drive (mouse_step demo_types)
       (map (\<lambda>b. message_empty\<lparr>msg_type := 0x40, arg1 := b\<rparr>) [0x09, 20, 3]) (mouse_state_new 1920 1080, 0)
   in sint (mouse_x (fst s)) \<in> {0..<1920} \<and> sint (mouse_y (fst s)) \<in> {0..<1080}"
proof -
  let ?ms = "map (\<lambda>b. message_empty\<lparr>msg_type := 0x40, arg1 := b\<rparr>) [0x09, 20, 3]"
  obtain st prev out where d: "drive (mouse_step demo_types) ?ms (mouse_state_new 1920 1080, 0) = ((st, prev), out)"
    by (metis prod.collapse)
  have "sint (1920 :: 32 word) = 1920" "sint (1080 :: 32 word) = 1080" by simp_all
  with mouse_pointer [OF _ _ _ _ d] have "on_screen st \<and> screen_w st = 1920 \<and> screen_h st = 1080" by simp
  then show ?thesis unfolding d by (auto simp: on_screen_def)
qed

end
