(* ===== verification/Compositor.thy ===== *)
theory Compositor
  imports Input
begin

text \<open>
  The window manager of \<^verbatim>\<open>userland/compositor\<close>: windows in stacking order, hit tests, the two
  layouts, dragging and the handling of every message. A call of the kernel is an effect in the
  order the code makes it; the answer of \<^verbatim>\<open>shm_map\<close> is an argument. \<^verbatim>\<open>usize\<close> is a 64-bit word.
  Drawing into the frame buffer changes no other state; it is in the theory Render.
\<close>

section \<open>Windows\<close>

abbreviation TOPBAR_HEIGHT :: u64 where "TOPBAR_HEIGHT \<equiv> 24"
abbreviation TITLE_BAR_HEIGHT :: u64 where "TITLE_BAR_HEIGHT \<equiv> 20"
abbreviation BORDER_WIDTH :: u64 where "BORDER_WIDTH \<equiv> 1"
abbreviation CLOSE_BTN_SIZE :: u64 where "CLOSE_BTN_SIZE \<equiv> 12"
abbreviation CLOSE_BTN_MARGIN :: u64 where "CLOSE_BTN_MARGIN \<equiv> 4"

record window =
  win_id :: u64
  owner_pid :: nat
  win_x :: u64
  win_y :: u64
  float_x :: u64
  float_y :: u64
  win_width :: u64
  win_height :: u64
  shm_id :: u32
  win_buffer :: u64
  win_title :: bytes
  title_len :: nat

definition total_width :: "window \<Rightarrow> u64" where
  "total_width w = win_width w + 2 * BORDER_WIDTH"

definition total_height :: "window \<Rightarrow> u64" where
  "total_height w = win_height w + TITLE_BAR_HEIGHT + 2 * BORDER_WIDTH"

definition hit_title_bar :: "u64 \<Rightarrow> u64 \<Rightarrow> window \<Rightarrow> bool" where
  "hit_title_bar mx my w \<longleftrightarrow>
     mx \<ge> win_x w \<and> mx < win_x w + total_width w \<and>
     my \<ge> win_y w + BORDER_WIDTH \<and> my < win_y w + BORDER_WIDTH + TITLE_BAR_HEIGHT"

definition hit_close_button :: "u64 \<Rightarrow> u64 \<Rightarrow> window \<Rightarrow> bool" where
  "hit_close_button mx my w \<longleftrightarrow>
     (let btn_x = win_x w + total_width w - BORDER_WIDTH - CLOSE_BTN_MARGIN - CLOSE_BTN_SIZE;
          btn_y = win_y w + BORDER_WIDTH + (TITLE_BAR_HEIGHT - CLOSE_BTN_SIZE) div 2
      in mx \<ge> btn_x \<and> mx < btn_x + CLOSE_BTN_SIZE \<and> my \<ge> btn_y \<and> my < btn_y + CLOSE_BTN_SIZE)"

definition hit_anywhere :: "u64 \<Rightarrow> u64 \<Rightarrow> window \<Rightarrow> bool" where
  "hit_anywhere mx my w \<longleftrightarrow>
     mx \<ge> win_x w \<and> mx < win_x w + total_width w \<and> my \<ge> win_y w \<and> my < win_y w + total_height w"

record drag_state =
  drag_active :: bool
  drag_window :: u64
  offset_x :: "32 word"
  offset_y :: "32 word"

record compositor =
  comp_width :: u64
  comp_height :: u64
  pointer_x :: "32 word"
  pointer_y :: "32 word"
  pointer_buttons :: u8
  dirty :: bool
  windows :: "window list"
  next_window_id :: u64
  alloc_vaddr :: u64
  drag :: drag_state
  tile_mode :: bool

text \<open>The state after \<^verbatim>\<open>new\<close> and \<^verbatim>\<open>init\<close> on a frame buffer of a given size.\<close>

definition compositor_new :: "u64 \<Rightarrow> u64 \<Rightarrow> compositor" where
  "compositor_new w h =
     \<lparr>comp_width = w, comp_height = h, pointer_x = 512, pointer_y = 384, pointer_buttons = 0, dirty = True,
      windows = [], next_window_id = 1, alloc_vaddr = 0xB0000000,
      drag = \<lparr>drag_active = False, drag_window = 0, offset_x = 0, offset_y = 0\<rparr>, tile_mode = False\<rparr>"

definition sat_sub :: "u64 \<Rightarrow> u64 \<Rightarrow> u64" where
  "sat_sub a b = (if a < b then 0 else a - b)"

definition hit_spawn_term_button :: "u64 \<Rightarrow> u64 \<Rightarrow> bool" where
  "hit_spawn_term_button mx my \<longleftrightarrow> mx \<ge> 200 \<and> mx < 256 \<and> my \<ge> 4 \<and> my < 20"

definition hit_mode_button :: "u64 \<Rightarrow> u64 \<Rightarrow> bool" where
  "hit_mode_button mx my \<longleftrightarrow> mx \<ge> 264 \<and> mx < 328 \<and> my \<ge> 4 \<and> my < 20"

definition hit_power_button :: "u64 \<Rightarrow> u64 \<Rightarrow> compositor \<Rightarrow> bool" where
  "hit_power_button mx my c \<longleftrightarrow>
     (let pw_x = sat_sub (comp_width c) 46 in mx \<ge> pw_x \<and> mx < pw_x + 38 \<and> my \<ge> 4 \<and> my < 20)"

definition apply_layout :: "compositor \<Rightarrow> compositor" where
  "apply_layout c =
     (if windows c = [] then c
      else if tile_mode c then
        let count = of_nat (length (windows c)); pad = 12;
            avail_w = sat_sub (comp_width c) (pad * 2);
            avail_h = sat_sub (comp_height c) (TOPBAR_HEIGHT + pad * 2);
            cell_w = avail_w div count
        in c\<lparr>windows := map (\<lambda>(i, w).
             w\<lparr>win_x := pad + of_nat i * cell_w + sat_sub cell_w (total_width w) div 2,
               win_y := TOPBAR_HEIGHT + pad + sat_sub avail_h (total_height w) div 2\<rparr>)
             (enumerate 0 (windows c))\<rparr>
      else c\<lparr>windows := map (\<lambda>w. w\<lparr>win_x := float_x w, win_y := float_y w\<rparr>) (windows c)\<rparr>)"

section \<open>Messages\<close>

datatype effect = Send nat message | Spawn bytes | Shutdown | ShmMap u32 u64 | ShmUnmap u32 u64

fun update_first :: "('a \<Rightarrow> bool) \<Rightarrow> ('a \<Rightarrow> 'a) \<Rightarrow> 'a list \<Rightarrow> 'a list" where
  "update_first P f [] = []"
| "update_first P f (x # xs) = (if P x then f x # xs else x # update_first P f xs)"

text \<open>\<^verbatim>\<open>v.max(lo) as usize\<close> of an \<^verbatim>\<open>i32\<close>, then \<^verbatim>\<open>min\<close>.\<close>

definition place :: "32 word \<Rightarrow> 32 word \<Rightarrow> u64 \<Rightarrow> u64" where
  "place v lo hi = min (scast (if sint v < sint lo then lo else v)) hi"

definition drag_to :: "32 word \<Rightarrow> 32 word \<Rightarrow> compositor \<Rightarrow> window \<Rightarrow> window" where
  "drag_to new_x new_y c w =
     (let x = place (new_x - offset_x (drag c)) 0 (sat_sub (comp_width c) 60);
          y = place (new_y - offset_y (drag c)) 24 (sat_sub (comp_height c) 30)
      in w\<lparr>win_x := x, win_y := y, float_x := x, float_y := y\<rparr>)"

definition on_mouse_move :: "message \<Rightarrow> compositor \<Rightarrow> compositor" where
  "on_mouse_move msg c0 =
     (let new_x = ucast (arg1 msg); new_y = ucast (arg2 msg);
          c = c0\<lparr>pointer_buttons := ucast (arg3 msg)\<rparr>;
          c1 = (if drag_active (drag c) \<and> pointer_buttons c AND 1 \<noteq> 0 \<and> \<not> tile_mode c then
                  c\<lparr>windows := update_first (\<lambda>w. win_id w = drag_window (drag c)) (drag_to new_x new_y c) (windows c)\<rparr>
                else if drag_active (drag c) then c\<lparr>drag := (drag c)\<lparr>drag_active := False\<rparr>\<rparr>
                else c)
      in c1\<lparr>pointer_x := new_x, pointer_y := new_y, dirty := True\<rparr>)"

text \<open>The topmost window that is hit, and where.\<close>

datatype hit = CloseButton | TitleBar | Inside

definition hit_of :: "u64 \<Rightarrow> u64 \<Rightarrow> window \<Rightarrow> hit option" where
  "hit_of mx my w =
     (if hit_close_button mx my w then Some CloseButton
      else if hit_title_bar mx my w then Some TitleBar
      else if hit_anywhere mx my w then Some Inside else None)"

definition topmost_hit :: "u64 \<Rightarrow> u64 \<Rightarrow> window list \<Rightarrow> (nat \<times> hit) option" where
  "topmost_hit mx my ws =
     (case find (\<lambda>i. hit_of mx my (ws ! i) \<noteq> None) (rev [0..<length ws]) of
        None \<Rightarrow> None
      | Some i \<Rightarrow> Some (i, the (hit_of mx my (ws ! i))))"

definition remove_window :: "nat \<Rightarrow> window list \<Rightarrow> window list" where
  "remove_window i ws = take i ws @ drop (i + 1) ws"

definition raise_window :: "nat \<Rightarrow> window list \<Rightarrow> window list" where
  "raise_window i ws = (if i < length ws - 1 then remove_window i ws @ [ws ! i] else ws)"

definition quit_message :: "msg_types \<Rightarrow> message" where
  "quit_message T = message_empty\<lparr>msg_type := QUIT T\<rparr>"

definition window_click :: "msg_types \<Rightarrow> u64 \<Rightarrow> u64 \<Rightarrow> nat \<times> hit \<Rightarrow> compositor \<Rightarrow> compositor \<times> effect list" where
  "window_click T mx my action c =
     (case action of (idx, h) \<Rightarrow>
        case h of
          CloseButton \<Rightarrow>
            (let w = windows c ! idx; c1 = c\<lparr>windows := remove_window idx (windows c)\<rparr>
             in (if tile_mode c1 then apply_layout c1 else c1,
                 [Send (owner_pid w) (quit_message T), ShmUnmap (shm_id w) (win_buffer w)]))
        | TitleBar \<Rightarrow>
            (let c1 = c\<lparr>windows := raise_window idx (windows c)\<rparr>; w = last (windows c1)
             in (if tile_mode c1 then c1
                 else c1\<lparr>drag := \<lparr>drag_active = True, drag_window = win_id w,
                        offset_x = ucast mx - ucast (win_x w), offset_y = ucast my - ucast (win_y w)\<rparr>\<rparr>, []))
        | Inside \<Rightarrow> (c\<lparr>windows := raise_window idx (windows c)\<rparr>, []))"

definition on_press :: "msg_types \<Rightarrow> compositor \<Rightarrow> compositor \<times> effect list" where
  "on_press T c =
     (let mx = scast (pointer_x c); my = scast (pointer_y c);
          power = (if hit_power_button mx my c then [Shutdown] else [])
      in if hit_spawn_term_button mx my then (c, power @ [Spawn (ascii ''term.elf'')])
         else if hit_mode_button mx my then (apply_layout (c\<lparr>tile_mode := \<not> tile_mode c\<rparr>), power)
         else case topmost_hit mx my (windows c) of
                None \<Rightarrow> (c, power)
              | Some action \<Rightarrow> (case window_click T mx my action c of (c', es) \<Rightarrow> (c', power @ es)))"

definition on_mouse_click :: "msg_types \<Rightarrow> message \<Rightarrow> compositor \<Rightarrow> compositor \<times> effect list" where
  "on_mouse_click T msg c0 =
     (let c = c0\<lparr>pointer_buttons := ucast (arg3 msg), dirty := True\<rparr>;
          just_pressed = pointer_buttons c AND 1 \<noteq> 0 \<and> pointer_buttons c0 AND 1 = 0
      in if just_pressed then on_press T c else (c, []))"

definition on_key :: "msg_types \<Rightarrow> message \<Rightarrow> compositor \<Rightarrow> effect list" where
  "on_key T msg c =
     (if windows c = [] then []
      else [Send (owner_pid (last (windows c))) (message_empty\<lparr>msg_type := KEY_PRESSED T, arg1 := arg1 msg\<rparr>)])"

definition new_window :: "message \<Rightarrow> compositor \<Rightarrow> window" where
  "new_window msg c =
     (let w = arg1 msg; h = arg2 msg; total_w = w + 2 * BORDER_WIDTH; total_h = h + TITLE_BAR_HEIGHT + 2 * BORDER_WIDTH;
          center_x = sat_sub (comp_width c) total_w div 2;
          center_y = TOPBAR_HEIGHT + sat_sub (sat_sub (comp_height c) TOPBAR_HEIGHT) total_h div 2;
          count = of_nat (length (windows c)); title = ascii ''MONOLITH//TERM'';
          fx = min (center_x + count * 24) (sat_sub (comp_width c) (total_w + 8));
          fy = min (center_y + count * 24) (sat_sub (comp_height c) (total_h + 8))
      in \<lparr>win_id = next_window_id c, owner_pid = sender msg, win_x = fx, win_y = fy, float_x = fx, float_y = fy,
          win_width = w, win_height = h, shm_id = ucast (arg3 msg), win_buffer = alloc_vaddr c,
          win_title = title @ replicate (32 - length title) 0, title_len = length title\<rparr>)"

definition on_window_create :: "bool \<Rightarrow> message \<Rightarrow> compositor \<Rightarrow> compositor \<times> effect list" where
  "on_window_create mapped msg c =
     (let vaddr = alloc_vaddr c; next_vaddr = align_up (vaddr + arg1 msg * arg2 msg * 4);
          c1 = c\<lparr>windows := windows c @ [new_window msg c], next_window_id := next_window_id c + 1,
                 alloc_vaddr := next_vaddr\<rparr>
      in (if mapped then (if tile_mode c1 then apply_layout c1 else c1)\<lparr>dirty := True\<rparr> else c,
          [ShmMap (ucast (arg3 msg)) vaddr]))"

definition handle_message :: "msg_types \<Rightarrow> bool \<Rightarrow> message \<Rightarrow> compositor \<Rightarrow> compositor \<times> effect list" where
  "handle_message T mapped msg c =
     (let ty = msg_type msg
      in if ty = MOUSE_MOVE T then (on_mouse_move msg c, [])
         else if ty = MOUSE_CLICK T then on_mouse_click T msg c
         else if ty = KEY_PRESSED T then (c, on_key T msg c)
         else if ty = WINDOW_CREATE T then on_window_create mapped msg c
         else if ty = WINDOW_DAMAGE T then (c\<lparr>dirty := True\<rparr>, [])
         else (c, []))"

section \<open>Clicks\<close>

text \<open>Every click comes after a move that already reports its buttons.\<close>

primrec clicks_follow :: "msg_types \<Rightarrow> u64 option \<Rightarrow> message list \<Rightarrow> bool" where
  "clicks_follow T reported [] \<longleftrightarrow> True"
| "clicks_follow T reported (m # ms) \<longleftrightarrow>
     (if msg_type m = MOUSE_MOVE T then clicks_follow T (Some (arg3 m)) ms
      else if msg_type m = MOUSE_CLICK T then reported = Some (arg3 m) \<and> clicks_follow T reported ms
      else clicks_follow T reported ms)"

definition is_mouse :: "msg_types \<Rightarrow> message \<Rightarrow> bool" where
  "is_mouse T m \<longleftrightarrow> msg_type m = MOUSE_MOVE T \<or> msg_type m = MOUSE_CLICK T"

lemma clicks_follow_filter: "clicks_follow T r (filter (is_mouse T) ms) = clicks_follow T r ms"
  by (induction ms arbitrary: r) (simp_all add: is_mouse_def)

lemma mouse_step_cases:
  assumes "mouse_step T m s = (s', out)"
  obtains "out = []" | st where "out = [mouse_message (MOUSE_MOVE T) st]"
    | st where "out = [mouse_message (MOUSE_MOVE T) st, mouse_message (MOUSE_CLICK T) st]"
  using assms by (auto simp: mouse_step_def split: prod.splits if_splits bool.splits)

lemma driver_clicks_follow:
  assumes "MOUSE_MOVE T \<noteq> MOUSE_CLICK T"
  shows "drive (mouse_step T) ins s = (s', out) \<Longrightarrow> clicks_follow T r out"
proof (induction ins arbitrary: s out r)
  case (Cons m ins)
  obtain s1 out1 where 1: "mouse_step T m s = (s1, out1)" by fastforce
  obtain out2 where 2: "drive (mouse_step T) ins s1 = (s', out2)" "out = out1 @ out2"
    using Cons.prems 1 by (auto split: prod.splits)
  have IH: "clicks_follow T r out2" for r by (rule Cons.IH [OF 2(1)])
  from 1 show ?case
    by (rule mouse_step_cases) (use 2(2) IH assms in \<open>simp_all add: mouse_message_def\<close>)
qed simp

definition untouched :: "msg_types \<Rightarrow> effect \<Rightarrow> bool" where
  "untouched T e = (case e of Send _ m \<Rightarrow> msg_type m = KEY_PRESSED T | ShmMap _ _ \<Rightarrow> True | _ \<Rightarrow> False)"

lemma idle_message:
  assumes T: "types_distinct T" and c: "\<not> drag_active (drag c)" "\<not> tile_mode c"
    and h: "handle_message T b m c = (c', es)"
    and click: "msg_type m = MOUSE_CLICK T \<Longrightarrow> pointer_buttons c = ucast (arg3 m)"
  shows "\<not> drag_active (drag c') \<and> \<not> tile_mode c' \<and> (\<forall>e\<in>set es. untouched T e) \<and>
    windows c' = windows c @ (if msg_type m = WINDOW_CREATE T \<and> b then [new_window m c] else []) \<and>
    (is_mouse T m \<longrightarrow> pointer_buttons c' = ucast (arg3 m)) \<and> (\<not> is_mouse T m \<longrightarrow> pointer_buttons c' = pointer_buttons c)"
proof -
  have d: "MOUSE_MOVE T \<noteq> MOUSE_CLICK T" "MOUSE_MOVE T \<noteq> WINDOW_CREATE T" "MOUSE_CLICK T \<noteq> WINDOW_CREATE T"
    "KEY_PRESSED T \<noteq> WINDOW_CREATE T" "WINDOW_DAMAGE T \<noteq> WINDOW_CREATE T"
    using T by (auto simp: types_distinct_def)
  consider (move) "msg_type m = MOUSE_MOVE T" | (click) "msg_type m = MOUSE_CLICK T"
    | (key) "msg_type m \<noteq> MOUSE_MOVE T" "msg_type m \<noteq> MOUSE_CLICK T" "msg_type m = KEY_PRESSED T"
    | (create) "msg_type m \<noteq> MOUSE_MOVE T" "msg_type m \<noteq> MOUSE_CLICK T" "msg_type m \<noteq> KEY_PRESSED T" "msg_type m = WINDOW_CREATE T"
    | (other) "msg_type m \<noteq> MOUSE_MOVE T" "msg_type m \<noteq> MOUSE_CLICK T" "msg_type m \<noteq> KEY_PRESSED T" "msg_type m \<noteq> WINDOW_CREATE T"
    by blast
  then show ?thesis
  proof cases
    case move
    with h c d show ?thesis by (auto simp: handle_message_def on_mouse_move_def Let_def is_mouse_def)
  next
    case click
    with h c d assms(5) show ?thesis by (auto simp: handle_message_def on_mouse_click_def Let_def is_mouse_def)
  next
    case key
    with h c d show ?thesis by (auto simp: handle_message_def on_key_def is_mouse_def untouched_def split: if_splits)
  next
    case create
    with h c d show ?thesis
      by (auto simp: handle_message_def on_window_create_def Let_def is_mouse_def untouched_def)
  next
    case other
    with h c d show ?thesis by (auto simp: handle_message_def is_mouse_def split: if_splits)
  qed
qed

lemma idle_run:
  assumes T: "types_distinct T"
  shows "clicks_follow T r (map snd ms) \<Longrightarrow> \<not> drag_active (drag c) \<Longrightarrow> \<not> tile_mode c \<Longrightarrow>
    (\<forall>a. r = Some a \<longrightarrow> pointer_buttons c = ucast a) \<Longrightarrow>
    drive (\<lambda>(b, m). handle_message T b m) ms c = (c', es) \<Longrightarrow>
    \<not> drag_active (drag c') \<and> \<not> tile_mode c' \<and> (\<forall>e\<in>set es. untouched T e) \<and>
    (\<exists>ws. windows c' = windows c @ ws \<and>
       map owner_pid ws = map (sender \<circ> snd) (filter (\<lambda>(b, m). b \<and> msg_type m = WINDOW_CREATE T) ms) \<and>
       (\<forall>w\<in>set ws. win_x w = float_x w \<and> win_y w = float_y w))"
proof (induction ms arbitrary: r c es)
  case (Cons bm ms)
  obtain b m where bm: "bm = (b, m)" by (cases bm)
  obtain c1 es1 where 1: "handle_message T b m c = (c1, es1)" by fastforce
  obtain es2 where 2: "drive (\<lambda>(b, m). handle_message T b m) ms c1 = (c', es2)" "es = es1 @ es2"
    using Cons.prems(5) 1 by (auto simp: bm split: prod.splits)
  have nm: "MOUSE_MOVE T \<noteq> MOUSE_CLICK T" using T by (auto simp: types_distinct_def)
  have "pointer_buttons c = ucast (arg3 m)" if "msg_type m = MOUSE_CLICK T"
    using Cons.prems(1,4) that nm by (auto simp: bm split: if_splits)
  note step = idle_message [OF T Cons.prems(2,3) 1 this]
  define r1 where "r1 = (if msg_type m = MOUSE_MOVE T then Some (arg3 m) else r)"
  have f: "clicks_follow T r1 (map snd ms)" using Cons.prems(1) by (auto simp: bm r1_def split: if_splits)
  have "\<forall>a. r1 = Some a \<longrightarrow> pointer_buttons c1 = ucast a"
  proof (cases "is_mouse T m")
    case True
    then show ?thesis using step Cons.prems(1) nm by (auto simp: r1_def is_mouse_def bm split: if_splits)
  next
    case False
    then show ?thesis using step Cons.prems(4) by (auto simp: r1_def is_mouse_def)
  qed
  from Cons.IH [OF f _ _ this 2(1)] step show ?case
    by (auto simp: 2(2) bm new_window_def Let_def)
qed simp

text \<open>
  C26: the pointer cannot click. From its start the compositor handles the messages of the mouse
  driver in the order they are sent, with any messages of other processes between them. The
  driver reports its buttons in a move before each click, so that the compositor never sees a
  button go down: nothing is dragged, the layout never changes, no window is closed,
  each stays at its floating place, no terminal is started and the power button does nothing.
\<close>

theorem clicks_never_act:
  assumes "types_distinct T" "drive (mouse_step T) ins (mouse_state_new w h, 0) = (s, out)"
    and "filter (is_mouse T) (map snd ms) = out"
    and "drive (\<lambda>(b, m). handle_message T b m) ms (compositor_new sw sh) = (c, es)"
  shows "\<not> drag_active (drag c) \<and> \<not> tile_mode c \<and>
    (\<forall>e\<in>set es. case e of Send _ m \<Rightarrow> msg_type m = KEY_PRESSED T | ShmMap _ _ \<Rightarrow> True | _ \<Rightarrow> False) \<and>
    map owner_pid (windows c) = map (sender \<circ> snd) (filter (\<lambda>(b, m). b \<and> msg_type m = WINDOW_CREATE T) ms) \<and>
    (\<forall>w\<in>set (windows c). win_x w = float_x w \<and> win_y w = float_y w)"
proof -
  have "MOUSE_MOVE T \<noteq> MOUSE_CLICK T" using assms(1) by (auto simp: types_distinct_def)
  from driver_clicks_follow [OF this assms(2), of None] have "clicks_follow T None (map snd ms)"
    by (simp add: assms(3) [symmetric] clicks_follow_filter)
  from idle_run [OF assms(1) this _ _ _ assms(4)] show ?thesis
    by (auto simp: compositor_new_def untouched_def)
qed

text \<open>A window, then a press of the left button at the place of the pointer, over the window's title.\<close>

lemma clicks_never_act_witness:
  "let packet = map (\<lambda>b. message_empty\<lparr>msg_type := 0x40, arg1 := b\<rparr>) [0x09, 0, 0];
       out = snd (drive (mouse_step demo_types) packet (mouse_state_new 1024 768, 0));
       create = message_empty\<lparr>sender := 6, msg_type := 0x51, arg1 := 200, arg2 := 100, arg3 := 1\<rparr>;
       (c, es) = drive (\<lambda>(b, m). handle_message demo_types b m) ((True, create) # map (Pair False) out)
                   (compositor_new 1024 768)
   in map msg_type out = [0x41, 0x42] \<and> \<not> drag_active (drag c) \<and> map owner_pid (windows c) = [6]"
proof -
  define packet where "packet = map (\<lambda>b. message_empty\<lparr>msg_type := 0x40, arg1 := b\<rparr>) [0x09, 0, 0]"
  define create where "create = message_empty\<lparr>sender := 6, msg_type := 0x51, arg1 := 200, arg2 := 100, arg3 := 1\<rparr>"
  obtain s out where d: "drive (mouse_step demo_types) packet (mouse_state_new 1024 768, 0) = (s, out)" by fastforce
  obtain c es where r: "drive (\<lambda>(b, m). handle_message demo_types b m) ((True, create) # map (Pair False) out)
      (compositor_new 1024 768) = (c, es)" by fastforce
  have T: "types_distinct demo_types" by (simp add: types_distinct_def demo_types_def)
  have "map msg_type (snd (drive (mouse_step demo_types) packet (mouse_state_new 1024 768, 0))) = [0x41, 0x42]"
    unfolding packet_def by code_simp
  then have out: "map msg_type out = [0x41, 0x42]" by (simp add: d)
  then obtain m1 m2 where o: "out = [m1, m2]" "msg_type m1 = 0x41" "msg_type m2 = 0x42" by auto
  then have "filter (is_mouse demo_types) (map snd ((True, create) # map (Pair False) out)) = out"
    by (simp add: is_mouse_def create_def demo_types_def)
  from clicks_never_act [OF T d this r] have "\<not> drag_active (drag c)"
    "map owner_pid (windows c) = [6]"
    using o by (simp_all add: create_def demo_types_def)
  with d r out show ?thesis by (simp add: Let_def packet_def create_def)
qed

end
