(* ===== verification/Desktop.thy ===== *)
theory Desktop
  imports Compositor Kernel
begin

text \<open>
  Stacking and focus in the compositor, and a key press from the interrupt to the process that
  owns the focused window.
\<close>

section \<open>Stacking\<close>

lemma find_rev_upt:
  assumes "find P (rev [0..<n]) = Some i"
  shows "i < n" "P i" "\<And>j. i < j \<Longrightarrow> j < n \<Longrightarrow> \<not> P j"
proof -
  obtain k where k: "k < n" "P (rev [0..<n] ! k)" "i = rev [0..<n] ! k" "\<forall>j<k. \<not> P (rev [0..<n] ! j)"
    using assms by (auto simp: find_Some_iff)
  have nth: "j < n \<Longrightarrow> rev [0..<n] ! j = n - Suc j" for j by (simp add: rev_nth)
  show "i < n" "P i" using k nth by auto
  fix j assume j: "i < j" "j < n"
  then have "n - Suc j < k" "rev [0..<n] ! (n - Suc j) = j" using k(1,3) nth by auto
  with k(4) show "\<not> P j" by metis
qed

lemma topmost_hit_Some:
  assumes "topmost_hit mx my ws = Some (i, h)"
  shows "i < length ws" "hit_of mx my (ws ! i) = Some h"
    "\<And>j. i < j \<Longrightarrow> j < length ws \<Longrightarrow> hit_of mx my (ws ! j) = None"
proof -
  have f: "find (\<lambda>i. hit_of mx my (ws ! i) \<noteq> None) (rev [0..<length ws]) = Some i" "h = the (hit_of mx my (ws ! i))"
    using assms by (auto simp: topmost_hit_def split: option.splits)
  show "i < length ws" "hit_of mx my (ws ! i) = Some h" using find_rev_upt [OF f(1)] f(2) by auto
  show "\<And>j. i < j \<Longrightarrow> j < length ws \<Longrightarrow> hit_of mx my (ws ! j) = None" using find_rev_upt(3) [OF f(1)] by auto
qed

lemma raise_window_top: "i < length ws \<Longrightarrow> raise_window i ws = remove_window i ws @ [ws ! i]"
  by (cases "i = length ws - 1") (auto simp: raise_window_def remove_window_def take_Suc_conv_app_nth [symmetric])

text \<open>
  C36: focus. A press over a window, away from the buttons of the bar, acts on the topmost window
  under the pointer. Unless it is its close button, that window comes to the top, the others keep
  their order, and the keys typed next go to its owner and to no one else.
\<close>

theorem press_focuses:
  assumes "topmost_hit (scast (pointer_x c)) (scast (pointer_y c)) (windows c) = Some (i, h)" "h \<noteq> CloseButton"
    and "\<not> hit_spawn_term_button (scast (pointer_x c)) (scast (pointer_y c))"
    and "\<not> hit_mode_button (scast (pointer_x c)) (scast (pointer_y c))"
    and "\<not> hit_power_button (scast (pointer_x c)) (scast (pointer_y c)) c"
    and "types_distinct T" "msg_type msg = KEY_PRESSED T"
  shows "\<exists>c'. on_press T c = (c', []) \<and> windows c' = remove_window i (windows c) @ [windows c ! i] \<and>
    (\<forall>j. i < j \<longrightarrow> j < length (windows c) \<longrightarrow>
       hit_of (scast (pointer_x c)) (scast (pointer_y c)) (windows c ! j) = None) \<and>
    handle_message T b msg c' =
      (c', [Send (owner_pid (windows c ! i)) (message_empty\<lparr>msg_type := KEY_PRESSED T, arg1 := arg1 msg\<rparr>)])"
proof -
  note top = topmost_hit_Some [OF assms(1)]
  obtain c' where w: "window_click T (scast (pointer_x c)) (scast (pointer_y c)) (i, h) c = (c', [])"
      "windows c' = remove_window i (windows c) @ [windows c ! i]"
    using assms(2) raise_window_top [OF top(1)] by (cases h) (auto simp: window_click_def Let_def)
  then have "on_press T c = (c', [])"
    using assms(1,3-5) by (simp add: on_press_def Let_def)
  moreover have "handle_message T b msg c' =
      (c', [Send (owner_pid (windows c ! i)) (message_empty\<lparr>msg_type := KEY_PRESSED T, arg1 := arg1 msg\<rparr>)])"
    using assms(6,7) w(2) by (auto simp: handle_message_def on_key_def types_distinct_def)
  ultimately show ?thesis using w(2) top(3) by blast
qed

section \<open>From the keyboard to the window\<close>


section \<open>A desktop with two windows\<close>

definition demo_window :: "nat \<Rightarrow> u64 \<Rightarrow> window" where
  "demo_window owner x =
     (new_window (message_empty\<lparr>sender := owner, arg1 := 200, arg2 := 100\<rparr>) (compositor_new 1024 768))
       \<lparr>win_x := x, win_y := 100\<rparr>"

definition demo_desktop :: compositor where
  "demo_desktop = (compositor_new 1024 768)\<lparr>windows := [demo_window 6 100, demo_window 7 400],
     pointer_x := 150, pointer_y := 150\<rparr>"

lemma press_focuses_witness:
  "\<exists>c'. on_press demo_types demo_desktop = (c', []) \<and> map owner_pid (windows c') = [7, 6]"
proof -
  have w: "windows demo_desktop = [demo_window 6 100, demo_window 7 400]"
    "pointer_x demo_desktop = 150" "pointer_y demo_desktop = 150" by (simp_all add: demo_desktop_def)
  have p: "scast (150 :: 32 word) = (150 :: u64)" by simp
  have "topmost_hit 150 150 (windows demo_desktop) = Some (0, Inside)"
    unfolding w by code_simp
  moreover have "\<not> hit_power_button 150 150 demo_desktop" by code_simp
  moreover have "\<not> hit_spawn_term_button 150 150" "\<not> hit_mode_button 150 150" by code_simp+
  moreover have "types_distinct demo_types" by (simp add: types_distinct_def demo_types_def)
  moreover have "owner_pid (demo_window 6 100) = 6" "owner_pid (demo_window 7 400) = 7" by code_simp+
  ultimately show ?thesis
    using press_focuses [of demo_desktop 0 Inside demo_types "message_empty\<lparr>msg_type := KEY_PRESSED demo_types\<rparr>" False]
    by (auto simp: w p remove_window_def)
qed


end
