(* ===== verification/Terminal_Font.thy ===== *)
theory Terminal_Font
  imports Vfs
begin

text \<open>
  The 6 by 8 font of the terminal, \<^verbatim>\<open>get_font_glyph\<close> in \<^verbatim>\<open>userland/terminal\<close>: each row of a
  character as a number whose six low bits are its pixels.
\<close>

definition terminal_font :: "(u8 \<times> u8 list) list" where
  "terminal_font =
    [(0x41, [0b011100, 0b100010, 0b100010, 0b111110, 0b100010, 0b100010, 0b100010, 0]),
     (0x42, [0b111100, 0b100010, 0b111100, 0b100010, 0b100010, 0b100010, 0b111100, 0]),
     (0x43, [0b011100, 0b100010, 0b100000, 0b100000, 0b100000, 0b100010, 0b011100, 0]),
     (0x44, [0b111100, 0b100010, 0b100010, 0b100010, 0b100010, 0b100010, 0b111100, 0]),
     (0x45, [0b111110, 0b100000, 0b111100, 0b100000, 0b100000, 0b100000, 0b111110, 0]),
     (0x46, [0b111110, 0b100000, 0b111100, 0b100000, 0b100000, 0b100000, 0b100000, 0]),
     (0x47, [0b011100, 0b100010, 0b100000, 0b101110, 0b100010, 0b100010, 0b011100, 0]),
     (0x48, [0b100010, 0b100010, 0b100010, 0b111110, 0b100010, 0b100010, 0b100010, 0]),
     (0x49, [0b011100, 0b001000, 0b001000, 0b001000, 0b001000, 0b001000, 0b011100, 0]),
     (0x4A, [0b001110, 0b000100, 0b000100, 0b000100, 0b100100, 0b100100, 0b011000, 0]),
     (0x4B, [0b100010, 0b100100, 0b101000, 0b110000, 0b101000, 0b100100, 0b100010, 0]),
     (0x4C, [0b100000, 0b100000, 0b100000, 0b100000, 0b100000, 0b100000, 0b111110, 0]),
     (0x4D, [0b100010, 0b110110, 0b101010, 0b101010, 0b100010, 0b100010, 0b100010, 0]),
     (0x4E, [0b100010, 0b110010, 0b101010, 0b100110, 0b100010, 0b100010, 0b100010, 0]),
     (0x4F, [0b011100, 0b100010, 0b100010, 0b100010, 0b100010, 0b100010, 0b011100, 0]),
     (0x50, [0b111100, 0b100010, 0b100010, 0b111100, 0b100000, 0b100000, 0b100000, 0]),
     (0x51, [0b011100, 0b100010, 0b100010, 0b100010, 0b101010, 0b100100, 0b011010, 0]),
     (0x52, [0b111100, 0b100010, 0b100010, 0b111100, 0b101000, 0b100100, 0b100010, 0]),
     (0x53, [0b011100, 0b100010, 0b100000, 0b011100, 0b000010, 0b100010, 0b011100, 0]),
     (0x54, [0b111110, 0b001000, 0b001000, 0b001000, 0b001000, 0b001000, 0b001000, 0]),
     (0x55, [0b100010, 0b100010, 0b100010, 0b100010, 0b100010, 0b100010, 0b011100, 0]),
     (0x56, [0b100010, 0b100010, 0b100010, 0b100010, 0b010100, 0b010100, 0b001000, 0]),
     (0x57, [0b100010, 0b100010, 0b100010, 0b101010, 0b101010, 0b110110, 0b100010, 0]),
     (0x58, [0b100010, 0b100010, 0b010100, 0b001000, 0b010100, 0b100010, 0b100010, 0]),
     (0x59, [0b100010, 0b100010, 0b010100, 0b001000, 0b001000, 0b001000, 0b001000, 0]),
     (0x5A, [0b111110, 0b000010, 0b000100, 0b001000, 0b010000, 0b100000, 0b111110, 0]),
     (0x61, [0, 0, 0b011100, 0b000010, 0b011110, 0b100010, 0b011110, 0]),
     (0x62, [0b100000, 0b100000, 0b111100, 0b100010, 0b100010, 0b100010, 0b111100, 0]),
     (0x63, [0, 0, 0b011100, 0b100010, 0b100000, 0b100010, 0b011100, 0]),
     (0x64, [0b000010, 0b000010, 0b011110, 0b100010, 0b100010, 0b100010, 0b011110, 0]),
     (0x65, [0, 0, 0b011100, 0b100010, 0b111110, 0b100000, 0b011100, 0]),
     (0x66, [0b001100, 0b010010, 0b010000, 0b111000, 0b010000, 0b010000, 0b010000, 0]),
     (0x67, [0, 0, 0b011110, 0b100010, 0b100010, 0b011110, 0b000010, 0b011100]),
     (0x68, [0b100000, 0b100000, 0b111100, 0b100010, 0b100010, 0b100010, 0b100010, 0]),
     (0x69, [0b001000, 0, 0b011000, 0b001000, 0b001000, 0b001000, 0b011100, 0]),
     (0x6A, [0b000100, 0, 0b001100, 0b000100, 0b000100, 0b100100, 0b011000, 0]),
     (0x6B, [0b100000, 0b100000, 0b100100, 0b101000, 0b110000, 0b101000, 0b100100, 0]),
     (0x6C, [0b011000, 0b001000, 0b001000, 0b001000, 0b001000, 0b001000, 0b011100, 0]),
     (0x6D, [0, 0, 0b110100, 0b101010, 0b101010, 0b100010, 0b100010, 0]),
     (0x6E, [0, 0, 0b111100, 0b100010, 0b100010, 0b100010, 0b100010, 0]),
     (0x6F, [0, 0, 0b011100, 0b100010, 0b100010, 0b100010, 0b011100, 0]),
     (0x70, [0, 0, 0b111100, 0b100010, 0b100010, 0b111100, 0b100000, 0b100000]),
     (0x71, [0, 0, 0b011110, 0b100010, 0b100010, 0b011110, 0b000010, 0b000010]),
     (0x72, [0, 0, 0b101100, 0b110010, 0b100000, 0b100000, 0b100000, 0]),
     (0x73, [0, 0, 0b011110, 0b100000, 0b011100, 0b000010, 0b111100, 0]),
     (0x74, [0b010000, 0b010000, 0b111100, 0b010000, 0b010000, 0b010010, 0b001100, 0]),
     (0x75, [0, 0, 0b100010, 0b100010, 0b100010, 0b100010, 0b011110, 0]),
     (0x76, [0, 0, 0b100010, 0b100010, 0b100010, 0b010100, 0b001000, 0]),
     (0x77, [0, 0, 0b100010, 0b100010, 0b101010, 0b110110, 0b100010, 0]),
     (0x78, [0, 0, 0b100010, 0b010100, 0b001000, 0b010100, 0b100010, 0]),
     (0x79, [0, 0, 0b100010, 0b100010, 0b100010, 0b011110, 0b000010, 0b011100]),
     (0x7A, [0, 0, 0b111110, 0b000100, 0b001000, 0b010000, 0b111110, 0]),
     (0x30, [0b011100, 0b100010, 0b100110, 0b101010, 0b110010, 0b100010, 0b011100, 0]),
     (0x31, [0b001000, 0b011000, 0b001000, 0b001000, 0b001000, 0b001000, 0b011100, 0]),
     (0x32, [0b011100, 0b100010, 0b000010, 0b000100, 0b001000, 0b010000, 0b111110, 0]),
     (0x33, [0b011100, 0b100010, 0b000010, 0b001100, 0b000010, 0b100010, 0b011100, 0]),
     (0x34, [0b000100, 0b001100, 0b010100, 0b100100, 0b111110, 0b000100, 0b000100, 0]),
     (0x35, [0b111110, 0b100000, 0b111100, 0b000010, 0b000010, 0b100010, 0b011100, 0]),
     (0x36, [0b011100, 0b100000, 0b111100, 0b100010, 0b100010, 0b100010, 0b011100, 0]),
     (0x37, [0b111110, 0b000010, 0b000100, 0b001000, 0b010000, 0b010000, 0b010000, 0]),
     (0x38, [0b011100, 0b100010, 0b100010, 0b011100, 0b100010, 0b100010, 0b011100, 0]),
     (0x39, [0b011100, 0b100010, 0b100010, 0b011110, 0b000010, 0b000010, 0b011100, 0]),
     (0x20, [0, 0, 0, 0, 0, 0, 0, 0]),
     (0x2E, [0, 0, 0, 0, 0, 0b001000, 0b001000, 0]),
     (0x2C, [0, 0, 0, 0, 0, 0b001000, 0b001000, 0b010000]),
     (0x3A, [0, 0b001000, 0b001000, 0, 0b001000, 0b001000, 0, 0]),
     (0x3B, [0, 0b001000, 0b001000, 0, 0b001000, 0b001000, 0b010000, 0]),
     (0x2D, [0, 0, 0, 0b111110, 0, 0, 0, 0]),
     (0x5F, [0, 0, 0, 0, 0, 0, 0b111110, 0]),
     (0x2B, [0, 0b001000, 0b001000, 0b111110, 0b001000, 0b001000, 0, 0]),
     (0x3D, [0, 0, 0b111110, 0, 0b111110, 0, 0, 0]),
     (0x2F, [0b000010, 0b000100, 0b000100, 0b001000, 0b010000, 0b010000, 0b100000, 0]),
     (0x5C, [0b100000, 0b010000, 0b010000, 0b001000, 0b000100, 0b000100, 0b000010, 0]),
     (0x7C, [0b001000, 0b001000, 0b001000, 0b001000, 0b001000, 0b001000, 0b001000, 0]),
     (0x5B, [0b011100, 0b010000, 0b010000, 0b010000, 0b010000, 0b010000, 0b011100, 0]),
     (0x5D, [0b011100, 0b000100, 0b000100, 0b000100, 0b000100, 0b000100, 0b011100, 0]),
     (0x28, [0b000100, 0b001000, 0b010000, 0b010000, 0b010000, 0b001000, 0b000100, 0]),
     (0x29, [0b010000, 0b001000, 0b000100, 0b000100, 0b000100, 0b001000, 0b010000, 0]),
     (0x3C, [0b000100, 0b001000, 0b010000, 0b100000, 0b010000, 0b001000, 0b000100, 0]),
     (0x3E, [0b100000, 0b010000, 0b001000, 0b000100, 0b001000, 0b010000, 0b100000, 0]),
     (0x7E, [0, 0, 0b010000, 0b101010, 0b000100, 0, 0, 0]),
     (0x24, [0b001000, 0b011110, 0b101000, 0b011100, 0b001010, 0b111100, 0b001000, 0]),
     (0x40, [0b011100, 0b100010, 0b101110, 0b101010, 0b101110, 0b100000, 0b011100, 0]),
     (0x21, [0b001000, 0b001000, 0b001000, 0b001000, 0b001000, 0, 0b001000, 0]),
     (0x3F, [0b011100, 0b100010, 0b000100, 0b001000, 0b001000, 0, 0b001000, 0]),
     (0x2A, [0, 0b101010, 0b011100, 0b111110, 0b011100, 0b101010, 0, 0]),
     (0x23, [0b010100, 0b111110, 0b010100, 0b010100, 0b111110, 0b010100, 0, 0]),
     (0x22, [0b010100, 0b010100, 0, 0, 0, 0, 0, 0]),
     (0x27, [0b001000, 0b001000, 0, 0, 0, 0, 0, 0])]"

definition missing_glyph :: "u8 list" where
  "missing_glyph = [0b111110, 0b100010, 0b100010, 0b100010, 0b100010, 0b100010, 0b111110, 0]"

definition get_font_glyph :: "u8 \<Rightarrow> u8 list" where
  "get_font_glyph ch = (case map_of terminal_font ch of Some g \<Rightarrow> g | None \<Rightarrow> missing_glyph)"

lemma terminal_font_rows: "list_all (\<lambda>(c, g). length g = 8) terminal_font"
  by (simp add: terminal_font_def)

lemma length_get_font_glyph [simp]: "length (get_font_glyph ch) = 8"
  using terminal_font_rows
  by (auto simp: get_font_glyph_def missing_glyph_def list_all_iff split: option.splits dest: map_of_SomeD)

end
