(* ===== verification/Canvas.thy ===== *)
theory Canvas
  imports Prelude
begin

text \<open>
  Pixel buffers of the graphical programs. A buffer is a function from the offset of a pixel (or of
  a byte) to its value, defined at every offset, so that a store outside of the buffer shows.
  \<open>painted F g S\<close> says that the operation \<open>F\<close> stores the value \<open>g p\<close> at every offset \<open>p\<close> of the set
  \<open>S\<close> and leaves the rest alone; the loops of the code paint the union of what their bodies paint.
\<close>

type_synonym pixels = "nat \<Rightarrow> u32"

definition painted :: "((nat \<Rightarrow> 'a) \<Rightarrow> nat \<Rightarrow> 'a) \<Rightarrow> (nat \<Rightarrow> 'a) \<Rightarrow> nat set \<Rightarrow> bool" where
  "painted F g S \<longleftrightarrow> (\<forall>b p. F b p = (if p \<in> S then g p else b p))"

definition rect :: "nat \<Rightarrow> nat \<Rightarrow> nat \<Rightarrow> nat \<Rightarrow> nat \<Rightarrow> nat \<Rightarrow> nat set" where
  "rect width height x y w h =
     {py * width + px | px py. x \<le> px \<and> px < x + w \<and> px < width \<and> y \<le> py \<and> py < y + h \<and> py < height}"

lemma painted_store: "g p = c \<Longrightarrow> painted (\<lambda>b. b(p := c)) g {p}"
  by (simp add: painted_def)

lemma painted_empty: "painted (\<lambda>b. b) g {}"
  by (simp add: painted_def)

lemma painted_cong: "painted F g S \<Longrightarrow> (\<And>p. p \<in> S \<Longrightarrow> g p = g' p) \<Longrightarrow> S = S' \<Longrightarrow> painted F g' S'"
  by (simp add: painted_def)

lemma painted_if: "(P \<Longrightarrow> painted F g S) \<Longrightarrow> painted (\<lambda>b. if P then F b else b) g {p. P \<and> p \<in> S}"
  by (auto simp: painted_def)

lemma painted_fold:
  assumes "\<And>i. i \<in> set xs \<Longrightarrow> painted (F i) g (S i)"
  shows "painted (fold F xs) g (\<Union>i \<in> set xs. S i)"
  using assms
proof (induction xs)
  case (Cons i xs)
  then have "painted (F i) g (S i)" "painted (fold F xs) g (\<Union>i \<in> set xs. S i)" by auto
  then show ?case by (auto simp: painted_def)
qed (simp add: painted_def)

lemma painted_apply: "painted F g S \<Longrightarrow> F b p = (if p \<in> S then g p else b p)"
  by (simp add: painted_def)

lemma takeWhile_below: "takeWhile (\<lambda>d. x + d < n) [0..<w] = [0..<min w (n - x)]"
proof (induction w)
  case (Suc w)
  show ?case
  proof (cases "x + w < n")
    case True
    then have "takeWhile (\<lambda>d. x + d < n) [0..<Suc w] = [0..<Suc w]"
      by (intro takeWhile_eq_all_conv [THEN iffD2]) auto
    with True show ?thesis by (simp add: min_absorb1 del: upt_Suc)
  next
    case False
    then have "min w (n - x) = n - x" "min (Suc w) (n - x) = n - x" by auto
    moreover have "takeWhile (\<lambda>d. x + d < n) ([0..<w] @ [w]) = takeWhile (\<lambda>d. x + d < n) [0..<w]"
      using False takeWhile_eq_all_conv [of "\<lambda>d. x + d < n" "[0..<w]"]
      by (auto simp: takeWhile_append intro: sym)
    ultimately show ?thesis using Suc by simp
  qed
qed simp

lemma rect_offset:
  "px < width \<Longrightarrow> py * width + px \<in> rect width height x y w h \<longleftrightarrow>
     x \<le> px \<and> px < x + w \<and> y \<le> py \<and> py < y + h \<and> py < height"
proof
  assume px: "px < width" and "py * width + px \<in> rect width height x y w h"
  then obtain qx qy where q: "py * width + px = qy * width + qx" "x \<le> qx" "qx < x + w" "qx < width"
    "y \<le> qy" "qy < y + h" "qy < height"
    by (auto simp: rect_def)
  have "(py * width + px) div width = py" "(py * width + px) mod width = px"
    using px by simp_all
  moreover have "(qy * width + qx) div width = qy" "(qy * width + qx) mod width = qx"
    using q(4) by simp_all
  ultimately have "py = qy" "px = qx" using q(1) by simp_all
  with q show "x \<le> px \<and> px < x + w \<and> y \<le> py \<and> py < y + h \<and> py < height" by simp
qed (auto simp: rect_def)

lemma offset_below:
  assumes "px < width" "py < (height :: nat)"
  shows "py * width + px < width * height"
proof -
  have "py * width + px < Suc py * width" using assms(1) by simp
  also have "\<dots> \<le> height * width" using assms(2) by (intro mult_le_mono1) simp
  finally show ?thesis by (simp add: mult.commute)
qed

lemma rect_below: "p \<in> rect width height x y w h \<Longrightarrow> p < width * height"
  by (auto simp: rect_def intro: offset_below)

end
