(* ===== verification/Userlib.thy ===== *)
theory Userlib
  imports Fat32 Format Ipc Rtc "HOL-Library.Monad_Syntax"
begin

text \<open>
  What the programs under \<^verbatim>\<open>userland/\<close> use: the calls of the library \<^verbatim>\<open>libhuseyn\<close>, which is not part
  of the repository and therefore a parameter (a record of functions on a world state), and the
  text operations of the standard library. A program step returns \<open>None\<close> where the code panics,
  exits or repeats a call for ever.
\<close>

section \<open>Library calls\<close>

text \<open>
  A call that fills a buffer takes its length and returns the count with the contents of the
  buffer after the call; \<open>lib_query\<close> is a raw \<^verbatim>\<open>syscall\<close> that fills a buffer, by its number and its
  third argument.
\<close>

record 'w lib =
  lib_send :: "nat \<Rightarrow> message \<Rightarrow> 'w \<Rightarrow> bool \<times> 'w"
  lib_yield :: "'w \<Rightarrow> 'w"
  lib_open :: "bytes \<Rightarrow> nat \<Rightarrow> 'w \<Rightarrow> nat option \<times> 'w"
  lib_read :: "nat \<Rightarrow> nat \<Rightarrow> 'w \<Rightarrow> nat \<times> bytes \<times> 'w"
  lib_write :: "nat \<Rightarrow> bytes \<Rightarrow> 'w \<Rightarrow> nat \<times> 'w"
  lib_close :: "nat \<Rightarrow> 'w \<Rightarrow> 'w"
  lib_listdir :: "nat \<Rightarrow> 'w \<Rightarrow> nat \<times> bytes \<times> 'w"
  lib_unlink :: "bytes \<Rightarrow> 'w \<Rightarrow> nat \<times> 'w"
  lib_query :: "nat \<Rightarrow> nat \<Rightarrow> nat \<Rightarrow> 'w \<Rightarrow> nat \<times> bytes \<times> 'w"
  lib_spawn :: "bytes \<Rightarrow> 'w \<Rightarrow> nat option \<times> 'w"
  lib_waitpid :: "nat \<Rightarrow> 'w \<Rightarrow> nat option \<times> 'w"
  lib_getpid :: "'w \<Rightarrow> nat \<times> 'w"
  lib_get_time :: "'w \<Rightarrow> datetime \<times> 'w"
  lib_shutdown :: "'w \<Rightarrow> 'w"
  lib_print :: "bytes \<Rightarrow> 'w \<Rightarrow> 'w"
  lib_shm_create :: "u64 \<Rightarrow> 'w \<Rightarrow> u64 \<times> 'w"
  lib_shm_map :: "u32 \<Rightarrow> u64 \<Rightarrow> 'w \<Rightarrow> u64 \<times> 'w"
  lib_fb_info :: "'w \<Rightarrow> (u64 \<times> nat \<times> nat \<times> nat \<times> nat) \<times> 'w"
  lib_map_physical :: "u64 \<Rightarrow> u64 \<Rightarrow> nat \<Rightarrow> 'w \<Rightarrow> bool \<times> 'w"

text \<open>\<^verbatim>\<open>while !ipc::send(pid, &msg) { yield_now(); }\<close>\<close>

partial_function (option) send_retry :: "'w lib \<Rightarrow> nat \<Rightarrow> message \<Rightarrow> 'w \<Rightarrow> 'w option" where
  "send_retry L pid msg w =
     (case lib_send L pid msg w of (ok, w') \<Rightarrow> if ok then Some w' else send_retry L pid msg (lib_yield L w'))"

text \<open>The messages get through: some number of rounds of sending and yielding is enough.\<close>

fun rounds :: "'w lib \<Rightarrow> nat \<Rightarrow> message \<Rightarrow> nat \<Rightarrow> 'w \<Rightarrow> 'w option" where
  "rounds L pid msg 0 w = None"
| "rounds L pid msg (Suc n) w =
     (case lib_send L pid msg w of (ok, w') \<Rightarrow> if ok then Some w' else rounds L pid msg n (lib_yield L w'))"

lemma send_retry_rounds: "rounds L pid msg n w = Some w' \<Longrightarrow> send_retry L pid msg w = Some w'"
proof (induction n arbitrary: w)
  case (Suc n)
  obtain ok w1 where s: "lib_send L pid msg w = (ok, w1)" by fastforce
  show ?case
    using Suc by (subst send_retry.simps) (auto simp: s split: if_splits)
qed simp

definition sends_succeed :: "'w lib \<Rightarrow> bool" where
  "sends_succeed L \<longleftrightarrow> (\<forall>pid msg w. \<exists>n w'. rounds L pid msg n w = Some w')"

lemma send_retry_total: "sends_succeed L \<Longrightarrow> \<exists>w'. send_retry L pid msg w = Some w'"
  by (metis sends_succeed_def send_retry_rounds)

text \<open>A library on which every call answers at once, as an instance.\<close>

definition demo_lib :: "unit lib" where
  "demo_lib =
     \<lparr>lib_send = (\<lambda>_ _ w. (True, w)), lib_yield = (\<lambda>w. w), lib_open = (\<lambda>_ _ w. (None, w)),
      lib_read = (\<lambda>_ n w. (0, replicate n 0, w)), lib_write = (\<lambda>_ bs w. (length bs, w)), lib_close = (\<lambda>_ w. w),
      lib_listdir = (\<lambda>n w. (0, replicate n 0, w)), lib_unlink = (\<lambda>_ w. (1, w)),
      lib_query = (\<lambda>_ n _ w. (0, replicate n 0, w)), lib_spawn = (\<lambda>_ w. (None, w)), lib_waitpid = (\<lambda>_ w. (None, w)),
      lib_getpid = (\<lambda>w. (6, w)),
      lib_get_time = (\<lambda>w. (\<lparr>second = 0, minute = 0, hour = 0, day = 1, month = 1, year = 2026\<rparr>, w)),
      lib_shutdown = (\<lambda>w. w), lib_print = (\<lambda>_ w. w), lib_shm_create = (\<lambda>_ w. (1, w)), lib_shm_map = (\<lambda>_ _ w. (0, w)),
      lib_fb_info = (\<lambda>w. ((0xFD000000, 1024, 768, 4096, 4), w)), lib_map_physical = (\<lambda>_ _ _ w. (True, w))\<rparr>"

lemma demo_sends: "rounds demo_lib pid msg 1 w = Some w"
  by (simp add: demo_lib_def)

lemma demo_send_retry [simp]: "send_retry demo_lib pid msg w = Some w"
  by (rule send_retry_rounds [OF demo_sends])

section \<open>Text\<close>

text \<open>
  \<^verbatim>\<open>&buf[..n]\<close>, which panics past the end; \<^verbatim>\<open>split_whitespace\<close> and \<^verbatim>\<open>trim\<close> on text whose white space is
  ASCII; \<^verbatim>\<open>lines\<close>, which takes a carriage return off a terminated line; \<^verbatim>\<open>rsplitn(2, ' ')\<close>; padding counts characters, not bytes.
\<close>

definition slice_to :: "nat \<Rightarrow> bytes \<Rightarrow> bytes option" where
  "slice_to n bs = (if n \<le> length bs then Some (take n bs) else None)"

definition split_whitespace :: "bytes \<Rightarrow> bytes list" where
  "split_whitespace bs =
     filter (\<lambda>p. p \<noteq> []) (split_at 0x20 (map (\<lambda>b. if is_space b then 0x20 else b) bs))"

definition strip_cr :: "bytes \<Rightarrow> bytes" where
  "strip_cr l = (if l \<noteq> [] \<and> last l = 0x0D then butlast l else l)"

definition lines :: "bytes \<Rightarrow> bytes list" where
  "lines bs = (let ps = split_at 0x0A bs in map strip_cr (butlast ps) @ (if last ps = [] then [] else [last ps]))"

definition rsplit_space :: "bytes \<Rightarrow> (bytes \<times> bytes) option" where
  "rsplit_space bs =
     (if 0x20 \<in> set bs
      then Some (rev (takeWhile (\<lambda>b. b \<noteq> 0x20) (rev bs)), rev (drop 1 (dropWhile (\<lambda>b. b \<noteq> 0x20) (rev bs))))
      else None)"

definition char_count :: "bytes \<Rightarrow> nat" where
  "char_count bs = length (filter (\<lambda>b. \<not> cont_byte b) bs)"

definition pad_chars :: "nat \<Rightarrow> bytes \<Rightarrow> bytes" where
  "pad_chars w bs = bs @ replicate (w - char_count bs) 0x20"

definition quoted :: "bytes \<Rightarrow> bytes" where
  "quoted bs = [0x27] @ bs @ [0x27]"

lemma rsplit_space_join:
  "0x20 \<notin> set sz \<Longrightarrow> rsplit_space (name @ [0x20] @ sz) = Some (sz, name)"
proof -
  assume a: "0x20 \<notin> set sz"
  have "takeWhile (\<lambda>b. b \<noteq> 0x20) (rev sz @ 0x20 # rev name) = rev sz"
    using a by (subst takeWhile_append2) auto
  moreover have "dropWhile (\<lambda>b. b \<noteq> 0x20) (rev sz @ 0x20 # rev name) = 0x20 # rev name"
    using a by (subst dropWhile_append2) auto
  ultimately show ?thesis by (simp add: rsplit_space_def)
qed

end
