(* ===== verification/Terminal.thy ===== *)
theory Terminal
  imports Terminal_Font Canvas Userlib Input
begin

text \<open>
  The graphical terminal, \<^verbatim>\<open>userland/terminal\<close>: a window of 520 by 340 pixels in shared memory, a
  cursor, a line of input and the commands. The window is the function \<open>canvas\<close> of the theory
  Canvas; the calls of the library and the state of the world they act on are arguments.
\<close>

section \<open>The window\<close>

abbreviation TERM_WIDTH :: nat where "TERM_WIDTH \<equiv> 520"
abbreviation TERM_HEIGHT :: nat where "TERM_HEIGHT \<equiv> 340"
abbreviation SHM_VADDR :: u64 where "SHM_VADDR \<equiv> 0xC0000000"
abbreviation PAD_X :: nat where "PAD_X \<equiv> 10"
abbreviation PAD_Y :: nat where "PAD_Y \<equiv> 10"
abbreviation CHAR_W :: nat where "CHAR_W \<equiv> 7"
abbreviation LINE_H :: nat where "LINE_H \<equiv> 11"

abbreviation BG_COLOR :: u32 where "BG_COLOR \<equiv> 0xFF0A0D14"
abbreviation TEXT_COLOR :: u32 where "TEXT_COLOR \<equiv> 0xFFE2E8F0"
abbreviation CYAN_COLOR :: u32 where "CYAN_COLOR \<equiv> 0xFF00E5FF"
abbreviation AMBER_COLOR :: u32 where "AMBER_COLOR \<equiv> 0xFFFFB000"
abbreviation MUTED_COLOR :: u32 where "MUTED_COLOR \<equiv> 0xFF64748B"
abbreviation CURSOR_COLOR :: u32 where "CURSOR_COLOR \<equiv> 0xFF00E5FF"

record terminal =
  canvas :: pixels
  term_shm_id :: u32
  cursor_x :: nat
  cursor_y :: nat
  cmd_buf :: bytes

text \<open>The buffer of a new terminal is not mapped yet; \<open>shared\<close> is what the region will hold.\<close>

definition terminal_new :: "pixels \<Rightarrow> terminal" where
  "terminal_new shared = \<lparr>canvas = shared, term_shm_id = 0, cursor_x = PAD_X, cursor_y = PAD_Y, cmd_buf = []\<rparr>"

definition set_pixel :: "nat \<Rightarrow> nat \<Rightarrow> u32 \<Rightarrow> pixels \<Rightarrow> pixels" where
  "set_pixel x y color b =
     (if x < TERM_WIDTH \<and> y < TERM_HEIGHT then b(y * TERM_WIDTH + x := color) else b)"

definition term_fill_rect :: "nat \<Rightarrow> nat \<Rightarrow> nat \<Rightarrow> nat \<Rightarrow> u32 \<Rightarrow> pixels \<Rightarrow> pixels" where
  "term_fill_rect x y w h color =
     fold (\<lambda>dy. fold (\<lambda>dx b. b((y + dy) * TERM_WIDTH + (x + dx) := color))
                  (takeWhile (\<lambda>dx. x + dx < TERM_WIDTH) [0..<w]))
       (takeWhile (\<lambda>dy. y + dy < TERM_HEIGHT) [0..<h])"

definition clear_canvas :: "terminal \<Rightarrow> terminal" where
  "clear_canvas t =
     t\<lparr>canvas := term_fill_rect 0 0 TERM_WIDTH 1 0xFF162030
         (term_fill_rect 0 0 TERM_WIDTH TERM_HEIGHT BG_COLOR (canvas t)),
       cursor_x := PAD_X, cursor_y := PAD_Y\<rparr>"

text \<open>\<^verbatim>\<open>core::ptr::copy\<close> of \<open>count\<close> pixels.\<close>

definition copy_pixels :: "nat \<Rightarrow> nat \<Rightarrow> nat \<Rightarrow> pixels \<Rightarrow> pixels" where
  "copy_pixels src dst count b = (\<lambda>p. if dst \<le> p \<and> p < dst + count then b (src + (p - dst)) else b p)"

definition scroll_up :: "terminal \<Rightarrow> terminal" where
  "scroll_up t =
     t\<lparr>canvas := term_fill_rect 0 (TERM_HEIGHT - LINE_H) TERM_WIDTH LINE_H BG_COLOR
         (copy_pixels ((PAD_Y + LINE_H) * TERM_WIDTH) (PAD_Y * TERM_WIDTH)
            ((TERM_HEIGHT - PAD_Y - LINE_H) * TERM_WIDTH) (canvas t)),
       cursor_y := cursor_y t - LINE_H\<rparr>"

definition term_newline :: "terminal \<Rightarrow> terminal" where
  "term_newline t0 =
     (let t = t0\<lparr>cursor_x := PAD_X, cursor_y := cursor_y t0 + LINE_H\<rparr>
      in if cursor_y t + LINE_H \<ge> TERM_HEIGHT - 4 then scroll_up t else t)"

definition term_draw_char :: "u8 \<Rightarrow> nat \<Rightarrow> nat \<Rightarrow> u32 \<Rightarrow> pixels \<Rightarrow> pixels" where
  "term_draw_char ch x y color =
     fold (\<lambda>(row, bits). fold (\<lambda>col b.
         if drop_bit (5 - col) bits AND 1 \<noteq> 0 then set_pixel (x + col) (y + row) color b else b) [0..<6])
       (enumerate 0 (get_font_glyph ch))"

definition draw_cursor_block :: "bool \<Rightarrow> terminal \<Rightarrow> terminal" where
  "draw_cursor_block visible t =
     t\<lparr>canvas := term_fill_rect (cursor_x t) (cursor_y t + 7) 5 2
         (if visible then CURSOR_COLOR else BG_COLOR) (canvas t)\<rparr>"

definition print_byte :: "u32 \<Rightarrow> u8 \<Rightarrow> terminal \<Rightarrow> terminal" where
  "print_byte color ch t0 =
     (if ch = 0x0A then term_newline t0
      else let t = t0\<lparr>canvas := term_draw_char ch (cursor_x t0) (cursor_y t0) color (canvas t0),
                       cursor_x := cursor_x t0 + CHAR_W\<rparr>
           in if cursor_x t + CHAR_W \<ge> TERM_WIDTH - PAD_X then term_newline t else t)"

definition print_colored :: "bytes \<Rightarrow> u32 \<Rightarrow> terminal \<Rightarrow> terminal" where
  "print_colored s color = fold (print_byte color) s"

definition print_banner :: "terminal \<Rightarrow> terminal" where
  "print_banner t =
     print_colored (ascii ''Type 'help' | 'install' 'disks' 'usb' 'acpi' 'lspci' 'ps' 'mem'' @ [0x27] @ newline @ newline) MUTED_COLOR
       (print_colored (ascii ''HUSEYN//OS MONOLITH SHELL v1.0'' @ newline) CYAN_COLOR t)"

definition print_prompt :: "terminal \<Rightarrow> terminal" where
  "print_prompt t = print_colored (ascii '' ~ > '') AMBER_COLOR (print_colored (ascii ''huseyn@monolith'') CYAN_COLOR t)"

section \<open>Commands\<close>

abbreviation SYS_PROCLIST :: nat where "SYS_PROCLIST \<equiv> 27"
abbreviation SYS_SYSINFO :: nat where "SYS_SYSINFO \<equiv> 28"
abbreviation SYS_INSTALL_OS :: nat where "SYS_INSTALL_OS \<equiv> 29"

definition damage_message :: "msg_types \<Rightarrow> message" where
  "damage_message T = message_empty\<lparr>msg_type := WINDOW_DAMAGE T\<rparr>"

definition update_compositor :: "msg_types \<Rightarrow> 'w lib \<Rightarrow> terminal \<times> 'w \<Rightarrow> (terminal \<times> 'w) option" where
  "update_compositor T L = (\<lambda>(t, w). map_option (\<lambda>w'. (t, w')) (send_retry L COMPOSITOR_PID (damage_message T) w))"

definition query :: "nat \<Rightarrow> nat \<Rightarrow> u32 \<Rightarrow> 'w lib \<Rightarrow> terminal \<times> 'w \<Rightarrow> terminal \<times> 'w" where
  "query call mode color L = (\<lambda>(t, w).
     case lib_query L call 1024 mode w of (n, buf, w') \<Rightarrow>
       (if 0 < n \<and> n \<le> 1024 \<and> valid_utf8 (take n buf) then print_colored (take n buf) color t else t, w'))"

definition help_lines :: "(bytes \<times> u32) list" where
  "help_lines =
     [(ascii ''Available Monolith Commands:'', AMBER_COLOR),
      (ascii ''  install             Format GPT & install OS to disk'', CYAN_COLOR),
      (ascii ''  disks               Show GPT partition & disk status'', TEXT_COLOR),
      (ascii ''  usb                 Show xHCI USB 3.0 & HID ports'', TEXT_COLOR),
      (ascii ''  acpi                Show ACPI MADT, APIC & IOAPIC'', TEXT_COLOR),
      (ascii ''  lspci               Enumerate PCI hardware bus'', TEXT_COLOR),
      (ascii ''  ps                  List active kernel tasks'', TEXT_COLOR),
      (ascii ''  mem                 Show RAM & PAT WC telemetry'', TEXT_COLOR),
      (ascii ''  ls / cat / rm       Inspect or delete files'', TEXT_COLOR),
      (ascii ''  write <file> <txt>  Write persistent file to disk'', TEXT_COLOR),
      (ascii ''  run <file.elf>      Spawn userland ELF binary'', TEXT_COLOR),
      (ascii ''  clear / off         Clear screen or ACPI shutdown'', TEXT_COLOR)]"

definition cmd_help :: "terminal \<Rightarrow> terminal" where
  "cmd_help = fold (\<lambda>(s, c). print_colored (s @ newline) c) help_lines"

definition cmd_install :: "msg_types \<Rightarrow> 'w lib \<Rightarrow> terminal \<times> 'w \<Rightarrow> (terminal \<times> 'w) option" where
  "cmd_install T L s =
     map_option (query SYS_INSTALL_OS 0 CYAN_COLOR L)
       (update_compositor T L
         (print_colored (ascii ''Installing HuseynOS to physical disk (GPT + FAT)...'' @ newline) AMBER_COLOR (fst s), snd s))"

definition listing_row :: "bytes \<Rightarrow> bytes" where
  "listing_row entry = (case rsplit_space entry of
     None \<Rightarrow> [] | Some (sz, name) \<Rightarrow> pad_chars 15 name @ [0x20] @ sz @ newline)"

text \<open>A count above the size of the buffer panics in the slice.\<close>

definition cmd_ls :: "'w lib \<Rightarrow> terminal \<times> 'w \<Rightarrow> (terminal \<times> 'w) option" where
  "cmd_ls L = (\<lambda>(t, w).
     case lib_listdir L 2048 w of (n, buf, w') \<Rightarrow>
       if n > 2048 then None
       else Some (if n = 0 then print_colored (ascii ''(empty volume)'' @ newline) MUTED_COLOR t
         else if valid_utf8 (take n buf) then
           fold (\<lambda>entry. print_colored (listing_row entry) TEXT_COLOR) (lines (take n buf))
             (print_colored (ascii ''NAME            SIZE (BYTES)'' @ newline) MUTED_COLOR t)
         else t, w'))"

definition not_found :: bytes where
  "not_found = ascii ''Error: file not found'' @ newline"

definition cmd_cat :: "'w lib \<Rightarrow> bytes list \<Rightarrow> terminal \<times> 'w \<Rightarrow> (terminal \<times> 'w) option" where
  "cmd_cat L args = (\<lambda>(t, w).
     case args of [] \<Rightarrow> Some (print_colored (ascii ''Usage: cat <filename>'' @ newline) AMBER_COLOR t, w)
     | name # _ \<Rightarrow>
        (case lib_open L name 0 w of
           (None, w1) \<Rightarrow> Some (print_colored not_found AMBER_COLOR t, w1)
         | (Some fd, w1) \<Rightarrow>
            (case lib_read L fd 1024 w1 of (n, buf, w2) \<Rightarrow>
               let w3 = lib_close L fd w2; s = take n buf
               in if n > 1024 then None
                  else Some (if n = 0 then print_colored (ascii ''(empty file)'' @ newline) MUTED_COLOR t
                    else if valid_utf8 s then
                      let t' = print_colored s TEXT_COLOR t
                      in if last s = 0x0A then t' else term_newline t'
                    else print_colored (ascii ''[binary file content]'' @ newline) MUTED_COLOR t, w3))))"

fun joined :: "bytes list \<Rightarrow> bytes" where
  "joined [] = []"
| "joined [x] = x"
| "joined (x # y # xs) = x @ [0x20] @ joined (y # xs)"

definition cmd_write :: "'w lib \<Rightarrow> bytes list \<Rightarrow> terminal \<times> 'w \<Rightarrow> terminal \<times> 'w" where
  "cmd_write L args = (\<lambda>(t, w).
     if length args < 2 then (print_colored (ascii ''Usage: write <filename> <text...>'' @ newline) AMBER_COLOR t, w)
     else let filename = args ! 0; content = joined (tl args) @ newline
     in case lib_open L filename 1 w of
          (None, w1) \<Rightarrow> (print_colored (ascii ''Error: failed to open file for writing'' @ newline) AMBER_COLOR t, w1)
        | (Some fd, w1) \<Rightarrow>
           (case lib_write L fd content w1 of (written, w2) \<Rightarrow>
              (print_colored (ascii ''[OK] Wrote '' @ decimal written @ ascii '' bytes to '' @ quoted filename @
                 ascii '' (synced to disk)'' @ newline) CYAN_COLOR t, lib_close L fd w2)))"

definition cmd_rm :: "'w lib \<Rightarrow> bytes list \<Rightarrow> terminal \<times> 'w \<Rightarrow> terminal \<times> 'w" where
  "cmd_rm L args = (\<lambda>(t, w).
     case args of [] \<Rightarrow> (print_colored (ascii ''Usage: rm <filename>'' @ newline) AMBER_COLOR t, w)
     | fname # _ \<Rightarrow>
        (case lib_unlink L fname w of (res, w') \<Rightarrow>
           (if res = 0 then print_colored (ascii ''[OK] Removed '' @ quoted fname @ newline) CYAN_COLOR t
            else print_colored not_found AMBER_COLOR t, w')))"

definition cmd_run :: "'w lib \<Rightarrow> bytes list \<Rightarrow> terminal \<times> 'w \<Rightarrow> terminal \<times> 'w" where
  "cmd_run L args = (\<lambda>(t, w).
     case args of [] \<Rightarrow> (print_colored (ascii ''Usage: run <program.elf>'' @ newline) AMBER_COLOR t, w)
     | prog # _ \<Rightarrow>
        (case lib_spawn L prog w of (res, w') \<Rightarrow>
           (case res of
              Some pid \<Rightarrow> print_colored (ascii ''[OK] Spawned '' @ quoted prog @ ascii '' as PID '' @ decimal pid @ newline) CYAN_COLOR t
            | None \<Rightarrow> print_colored (ascii ''Error: failed to spawn ELF binary'' @ newline) AMBER_COLOR t, w')))"

definition padded :: "nat \<Rightarrow> nat \<Rightarrow> bytes" where
  "padded w n = pad_zero w (decimal n)"

definition cmd_sys :: "'w lib \<Rightarrow> terminal \<times> 'w \<Rightarrow> terminal \<times> 'w" where
  "cmd_sys L = (\<lambda>(t, w).
     case lib_get_time L w of (dt, w1) \<Rightarrow>
     case lib_getpid L w1 of (pid, w2) \<Rightarrow>
       (print_colored
          (ascii ''OS:       HuseynOS v1.0 (Monolith Microkernel)'' @ newline @
           ascii ''Arch:     x86_64 (#![no_std] Rust, Bare-Metal Ready)'' @ newline @
           ascii ''Term PID: '' @ decimal pid @ newline @
           ascii ''CMOS RTC: '' @ padded 4 (unat (year dt)) @ ascii ''-'' @ padded 2 (unat (month dt)) @ ascii ''-'' @
           padded 2 (unat (day dt)) @ ascii '' '' @ padded 2 (unat (hour dt)) @ ascii '':'' @
           padded 2 (unat (minute dt)) @ ascii '':'' @ padded 2 (unat (second dt)) @ ascii '' UTC'' @ newline)
          TEXT_COLOR t, w2))"

definition cmd_off :: "msg_types \<Rightarrow> 'w lib \<Rightarrow> terminal \<times> 'w \<Rightarrow> (terminal \<times> 'w) option" where
  "cmd_off T L s =
     map_option (\<lambda>(t, w). (t, lib_shutdown L w))
       (update_compositor T L (print_colored (ascii ''Initiating ACPI poweroff...'' @ newline) AMBER_COLOR (fst s), snd s))"

definition run_command ::
  "msg_types \<Rightarrow> 'w lib \<Rightarrow> bytes \<Rightarrow> bytes list \<Rightarrow> terminal \<times> 'w \<Rightarrow> (terminal \<times> 'w) option" where
  "run_command T L cmd args s =
     (if cmd = ascii ''help'' then Some (cmd_help (fst s), snd s)
      else if cmd = ascii ''clear'' then Some (clear_canvas (fst s), snd s)
      else if cmd = ascii ''install'' then cmd_install T L s
      else if cmd \<in> {ascii ''disks'', ascii ''disk''} then Some (query SYS_SYSINFO 4 TEXT_COLOR L s)
      else if cmd \<in> {ascii ''usb'', ascii ''xhci''} then Some (query SYS_SYSINFO 3 TEXT_COLOR L s)
      else if cmd \<in> {ascii ''acpi'', ascii ''apic''} then Some (query SYS_SYSINFO 2 TEXT_COLOR L s)
      else if cmd \<in> {ascii ''lspci'', ascii ''pci''} then Some (query SYS_SYSINFO 1 TEXT_COLOR L s)
      else if cmd = ascii ''mem'' then Some (query SYS_SYSINFO 0 TEXT_COLOR L s)
      else if cmd = ascii ''ls'' then cmd_ls L s
      else if cmd = ascii ''cat'' then cmd_cat L args s
      else if cmd = ascii ''write'' then Some (cmd_write L args s)
      else if cmd = ascii ''rm'' then Some (cmd_rm L args s)
      else if cmd = ascii ''ps'' then Some (query SYS_PROCLIST 0 TEXT_COLOR L s)
      else if cmd = ascii ''run'' then Some (cmd_run L args s)
      else if cmd \<in> {ascii ''sys'', ascii ''uname''} then Some (cmd_sys L s)
      else if cmd \<in> {ascii ''off'', ascii ''shutdown''} then cmd_off T L s
      else Some (print_colored (ascii ''Unknown command: '' @ quoted cmd @ ascii ''. Type '' @ quoted (ascii ''help'') @
             ascii ''.'' @ newline) AMBER_COLOR (fst s), snd s))"

definition execute_command :: "msg_types \<Rightarrow> 'w lib \<Rightarrow> terminal \<times> 'w \<Rightarrow> (terminal \<times> 'w) option" where
  "execute_command T L s =
     (let line = trim (cmd_buf (fst s))
      in if line = [] then Some s
         else case split_whitespace line of
             [] \<Rightarrow> run_command T L [] [] s
           | cmd # args \<Rightarrow> run_command T L cmd args s)"

section \<open>Keys\<close>

definition press_enter :: "msg_types \<Rightarrow> 'w lib \<Rightarrow> terminal \<times> 'w \<Rightarrow> (terminal \<times> 'w) option" where
  "press_enter T L = (\<lambda>(t0, w).
     let t = term_newline t0; current_cmd = cmd_buf t; t1 = t\<lparr>cmd_buf := []\<rparr>
     in map_option (\<lambda>(t, w). (print_prompt t, w))
          (if trim current_cmd = [] then Some (t1, w)
           else map_option (\<lambda>(t, w). (t\<lparr>cmd_buf := []\<rparr>, w))
             (execute_command T L (t1\<lparr>cmd_buf := current_cmd\<rparr>, w))))"

definition press_backspace :: "terminal \<Rightarrow> terminal" where
  "press_backspace t0 =
     (if cmd_buf t0 = [] then t0
      else let t = t0\<lparr>cmd_buf := butlast (cmd_buf t0)\<rparr>
      in if cursor_x t \<ge> PAD_X + CHAR_W then
           let x = cursor_x t - CHAR_W
           in t\<lparr>cursor_x := x, canvas := term_fill_rect x (cursor_y t) CHAR_W LINE_H BG_COLOR (canvas t)\<rparr>
         else t)"

definition press_char :: "u8 \<Rightarrow> terminal \<Rightarrow> terminal" where
  "press_char key t = print_colored [key] TEXT_COLOR (t\<lparr>cmd_buf := cmd_buf t @ [key]\<rparr>)"

definition term_handle_key :: "msg_types \<Rightarrow> 'w lib \<Rightarrow> u8 \<Rightarrow> terminal \<times> 'w \<Rightarrow> (terminal \<times> 'w) option" where
  "term_handle_key T L key = (\<lambda>(t0, w).
     let t = draw_cursor_block False t0
     in Option.bind
          (if key = 0x0A then press_enter T L (t, w)
           else if key = 0x08 then Some (press_backspace t, w)
           else if 32 \<le> key \<and> key \<le> 126 \<and> length (cmd_buf t) < 60 then Some (press_char key t, w)
           else Some (t, w))
          (\<lambda>(t, w). update_compositor T L (draw_cursor_block True t, w)))"

definition window_message :: "msg_types \<Rightarrow> u32 \<Rightarrow> message" where
  "window_message T shm_id =
     message_empty\<lparr>msg_type := WINDOW_CREATE T, arg1 := of_nat TERM_WIDTH, arg2 := of_nat TERM_HEIGHT, arg3 := ucast shm_id\<rparr>"

definition terminal_init :: "msg_types \<Rightarrow> 'w lib \<Rightarrow> terminal \<times> 'w \<Rightarrow> (terminal \<times> 'w) option" where
  "terminal_init T L = (\<lambda>(t, w).
     case lib_shm_create L (of_nat (TERM_WIDTH * TERM_HEIGHT * 4)) w of (res, w1) \<Rightarrow>
     if res = U64_MAX then None
     else case lib_shm_map L (ucast res) SHM_VADDR w1 of (map_res, w2) \<Rightarrow>
       if map_res = U64_MAX then None
       else Option.bind (send_retry L COMPOSITOR_PID (window_message T (ucast res)) w2)
         (\<lambda>w3. update_compositor T L
            (draw_cursor_block True (print_prompt (print_banner (clear_canvas (t\<lparr>term_shm_id := ucast res\<rparr>)))), w3)))"

text \<open>One round of the loop; \<open>None\<close> also stands for the exit on a quit message.\<close>

definition terminal_step :: "msg_types \<Rightarrow> 'w lib \<Rightarrow> message \<Rightarrow> terminal \<times> 'w \<Rightarrow> (terminal \<times> 'w) option" where
  "terminal_step T L msg s =
     (if msg_type msg = KEY_PRESSED T then term_handle_key T L (ucast (arg1 msg)) s
      else if msg_type msg = QUIT T then None
      else Some s)"

section \<open>What drawing changes\<close>

lemma painted_term_fill_rect:
  "painted (term_fill_rect x y w h color) (\<lambda>_. color) (rect TERM_WIDTH TERM_HEIGHT x y w h)"
proof -
  have "painted (term_fill_rect x y w h color) (\<lambda>_. color)
      (\<Union>dy \<in> set [0..<min h (TERM_HEIGHT - y)]. \<Union>dx \<in> set [0..<min w (TERM_WIDTH - x)].
         {(y + dy) * TERM_WIDTH + (x + dx)})"
    unfolding term_fill_rect_def takeWhile_below by (intro painted_fold painted_store refl)
  moreover have "(\<Union>dy \<in> set [0..<min h (TERM_HEIGHT - y)]. \<Union>dx \<in> set [0..<min w (TERM_WIDTH - x)].
      {(y + dy) * TERM_WIDTH + (x + dx)}) = rect TERM_WIDTH TERM_HEIGHT x y w h" (is "?l = ?r")
  proof (intro equalityI subsetI)
    fix p assume "p \<in> ?r"
    then obtain px py where "p = py * TERM_WIDTH + px" "x \<le> px" "px < x + w" "px < TERM_WIDTH"
      "y \<le> py" "py < y + h" "py < TERM_HEIGHT"
      by (auto simp: rect_def)
    then show "p \<in> ?l"
      by (intro UN_I [of "py - y"] UN_I [of "px - x"]) auto
  next
    fix p assume "p \<in> ?l"
    then obtain dy dx where "p = (y + dy) * TERM_WIDTH + (x + dx)" "dy < h" "y + dy < TERM_HEIGHT"
      "dx < w" "x + dx < TERM_WIDTH"
      by auto
    then show "p \<in> ?r"
      unfolding rect_def by (intro CollectI exI [of _ "x + dx"] exI [of _ "y + dy"]) auto
  qed
  ultimately show ?thesis by simp
qed

text \<open>Memory outside of the window, and the line of input, are as before.\<close>

definition same_outside :: "pixels \<Rightarrow> pixels \<Rightarrow> bool" where
  "same_outside b b' \<longleftrightarrow> (\<forall>p. TERM_WIDTH * TERM_HEIGHT \<le> p \<longrightarrow> b' p = b p)"

definition cursor_ok :: "terminal \<Rightarrow> bool" where
  "cursor_ok t \<longleftrightarrow> PAD_X \<le> cursor_x t \<and> cursor_x t + CHAR_W < TERM_WIDTH - PAD_X \<and>
     PAD_Y \<le> cursor_y t \<and> cursor_y t + LINE_H < TERM_HEIGHT - 4"

definition draws :: "terminal \<Rightarrow> terminal \<Rightarrow> bool" where
  "draws t t' \<longleftrightarrow> (cursor_ok t \<longrightarrow> cursor_ok t') \<and> same_outside (canvas t) (canvas t') \<and>
     cmd_buf t' = cmd_buf t \<and> term_shm_id t' = term_shm_id t"

lemma same_outside_refl [simp]: "same_outside b b"
  by (simp add: same_outside_def)

lemma same_outside_trans: "same_outside a b \<Longrightarrow> same_outside b c \<Longrightarrow> same_outside a c"
  by (simp add: same_outside_def)

lemma draws_refl [simp]: "draws t t"
  by (simp add: draws_def)

lemma draws_trans: "draws a b \<Longrightarrow> draws b c \<Longrightarrow> draws a c"
  by (auto simp: draws_def intro: same_outside_trans)

lemma draws_fold: "(\<And>x t. x \<in> set xs \<Longrightarrow> draws t (F x t)) \<Longrightarrow> draws t (fold F xs t)"
  by (induction xs arbitrary: t) (auto intro: draws_trans)

lemma same_outside_fill: "same_outside b (term_fill_rect x y w h color b)"
  using painted_term_fill_rect [of x y w h color] rect_below [of _ TERM_WIDTH TERM_HEIGHT x y w h]
  by (auto simp: same_outside_def painted_apply dest: not_less [THEN iffD2])

lemma same_outside_set_pixel: "same_outside b (set_pixel x y color b)"
  using offset_below [of x TERM_WIDTH y TERM_HEIGHT] by (auto simp: same_outside_def set_pixel_def)

lemma same_outside_fold:
  "(\<And>i b. i \<in> set xs \<Longrightarrow> same_outside b (F i b)) \<Longrightarrow> same_outside b (fold F xs b)"
  by (induction xs arbitrary: b) (auto intro: same_outside_trans)

lemma same_outside_draw_char: "same_outside b (term_draw_char ch x y color b)"
  unfolding term_draw_char_def
  by (intro same_outside_fold) (auto intro!: same_outside_fold same_outside_set_pixel)

lemma same_outside_scroll: "same_outside (canvas t) (canvas (scroll_up t))"
proof -
  have "same_outside (canvas t) (copy_pixels ((PAD_Y + LINE_H) * TERM_WIDTH) (PAD_Y * TERM_WIDTH)
      ((TERM_HEIGHT - PAD_Y - LINE_H) * TERM_WIDTH) (canvas t))"
    by (simp add: same_outside_def copy_pixels_def)
  then show ?thesis
    unfolding scroll_up_def using same_outside_fill same_outside_trans by (auto simp: same_outside_def)
qed

lemma draws_clear_canvas: "draws t (clear_canvas t)"
  using same_outside_trans [OF same_outside_fill same_outside_fill]
  by (simp add: draws_def clear_canvas_def cursor_ok_def)

lemma term_newline_fields [simp]:
  "cmd_buf (term_newline t) = cmd_buf t" "term_shm_id (term_newline t) = term_shm_id t"
  "cursor_x (term_newline t) = PAD_X"
  by (simp_all add: term_newline_def scroll_up_def Let_def)

lemma same_outside_newline: "same_outside (canvas t) (canvas (term_newline t))"
  using same_outside_scroll [of "t\<lparr>cursor_x := PAD_X, cursor_y := cursor_y t + LINE_H\<rparr>"]
  by (simp add: term_newline_def Let_def)

lemma cursor_ok_newline:
  "PAD_Y \<le> cursor_y t \<Longrightarrow> cursor_y t + LINE_H < TERM_HEIGHT - 4 \<Longrightarrow> cursor_ok (term_newline t)"
  by (simp add: cursor_ok_def term_newline_def scroll_up_def Let_def)

lemma draws_newline: "draws t (term_newline t)"
  using same_outside_newline [of t] cursor_ok_newline [of t] by (simp add: draws_def cursor_ok_def)

lemma draws_cursor_block: "draws t (draw_cursor_block v t)"
  by (simp add: draws_def draw_cursor_block_def cursor_ok_def same_outside_fill)

lemma draws_print_byte: "draws t (print_byte color ch t)"
proof (cases "ch = 0x0A")
  case False
  let ?t = "t\<lparr>canvas := term_draw_char ch (cursor_x t) (cursor_y t) color (canvas t), cursor_x := cursor_x t + CHAR_W\<rparr>"
  have "same_outside (canvas t) (canvas ?t)" by (simp add: same_outside_draw_char)
  moreover have "same_outside (canvas ?t) (canvas (term_newline ?t))" by (rule same_outside_newline)
  ultimately have "same_outside (canvas t) (canvas (print_byte color ch t))"
    using False by (simp add: print_byte_def Let_def) (metis same_outside_trans)
  moreover have "cursor_ok t \<Longrightarrow> cursor_ok (print_byte color ch t)"
    using False cursor_ok_newline [of ?t] by (simp add: print_byte_def cursor_ok_def Let_def)
  ultimately show ?thesis using False by (simp add: draws_def print_byte_def Let_def)
qed (simp add: print_byte_def draws_newline)

lemma draws_print: "draws t (print_colored s color t)"
  unfolding print_colored_def by (intro draws_fold draws_print_byte)

lemma draws_print_trans: "draws t u \<Longrightarrow> draws t (print_colored s color u)"
  using draws_print draws_trans by blast

lemmas draws_simps = draws_print draws_newline draws_cursor_block draws_clear_canvas draws_print_trans

lemma draws_prompt: "draws t (print_prompt t)"
  unfolding print_prompt_def by (intro draws_simps)

subsection \<open>Commands\<close>

lemma draws_query: "draws (fst s) (fst (query call mode color L s))"
  by (simp add: query_def draws_simps split: prod.splits)

lemma draws_update: "update_compositor T L s = Some s' \<Longrightarrow> fst s' = fst s"
  by (auto simp: update_compositor_def split: prod.splits)

lemma draws_help: "draws t (cmd_help t)"
  unfolding cmd_help_def by (intro draws_fold) (auto intro: draws_simps)

lemma draws_install: "cmd_install T L s = Some s' \<Longrightarrow> draws (fst s) (fst s')"
  using draws_query draws_print draws_trans
  by (fastforce simp: cmd_install_def dest!: draws_update)

lemma draws_ls: "cmd_ls L s = Some s' \<Longrightarrow> draws (fst s) (fst s')"
  by (auto simp: cmd_ls_def draws_simps split: prod.splits if_splits
      intro!: draws_trans [OF draws_print draws_fold])

lemma draws_cat: "cmd_cat L args s = Some s' \<Longrightarrow> draws (fst s) (fst s')"
  using draws_trans [OF draws_print draws_newline]
  by (auto simp: cmd_cat_def Let_def draws_simps split: prod.splits if_splits list.splits option.splits)

lemma draws_write: "draws (fst s) (fst (cmd_write L args s))"
  by (auto simp: cmd_write_def Let_def draws_simps split: prod.splits option.splits)

lemma draws_rm: "draws (fst s) (fst (cmd_rm L args s))"
  by (auto simp: cmd_rm_def draws_simps split: prod.splits list.splits)

lemma draws_run: "draws (fst s) (fst (cmd_run L args s))"
  by (auto simp: cmd_run_def draws_simps split: prod.splits list.splits option.splits)

lemma draws_sys: "draws (fst s) (fst (cmd_sys L s))"
  by (auto simp: cmd_sys_def draws_simps split: prod.splits)

lemma draws_off: "cmd_off T L s = Some s' \<Longrightarrow> draws (fst s) (fst s')"
  by (auto simp: cmd_off_def draws_simps dest!: draws_update)

lemma draws_run_command:
  "run_command T L cmd args s = Some s' \<Longrightarrow> draws (fst s) (fst s')"
  unfolding run_command_def
  by (auto simp only: fst_conv option.inject draws_refl split: if_splits
      intro: draws_help draws_clear_canvas draws_query draws_write draws_rm draws_run draws_sys draws_print
      dest: draws_install draws_ls draws_cat draws_off)

lemma draws_execute: "execute_command T L s = Some s' \<Longrightarrow> draws (fst s) (fst s')"
  by (auto simp: execute_command_def Let_def split: if_splits list.splits dest: draws_run_command)

section \<open>Typing\<close>

text \<open>The line editor that the terminal is to implement: what a key does to the line.\<close>

definition printable :: "u8 \<Rightarrow> bool" where
  "printable b \<longleftrightarrow> 32 \<le> b \<and> b \<le> 126"

definition edit :: "u8 \<Rightarrow> bytes \<Rightarrow> bytes" where
  "edit key line =
     (if key = 0x0A then []
      else if key = 0x08 then butlast line
      else if printable key \<and> length line < 60 then line @ [key] else line)"

definition term_ok :: "terminal \<Rightarrow> bool" where
  "term_ok t \<longleftrightarrow> cursor_ok t \<and> length (cmd_buf t) \<le> 60 \<and> list_all printable (cmd_buf t)"

fun term_run :: "msg_types \<Rightarrow> 'w lib \<Rightarrow> u8 list \<Rightarrow> terminal \<times> 'w \<Rightarrow> (terminal \<times> 'w) option" where
  "term_run T L [] s = Some s"
| "term_run T L (key # keys) s = Option.bind (term_handle_key T L key s) (term_run T L keys)"

lemma edit_ok: "length line \<le> 60 \<Longrightarrow> list_all printable line \<Longrightarrow>
   length (edit key line) \<le> 60 \<and> list_all printable (edit key line)"
  by (auto simp: edit_def list_all_iff dest: in_set_butlastD)

lemma enter_effect:
  assumes "press_enter T L (t, w) = Some (t', w')"
  shows "cmd_buf t' = []" "same_outside (canvas t) (canvas t')" "cursor_ok t \<Longrightarrow> cursor_ok t'"
proof -
  let ?n = "term_newline t"
  obtain u w1 where u: "t' = print_prompt u" "cmd_buf u = []" "draws ?n (u\<lparr>cmd_buf := cmd_buf ?n\<rparr>)"
  proof (cases "trim (cmd_buf ?n) = []")
    case True
    with assms that [of "?n\<lparr>cmd_buf := []\<rparr>"] show thesis
      by (simp add: press_enter_def Let_def draws_def cursor_ok_def)
  next
    case False
    with assms obtain v where "execute_command T L (?n\<lparr>cmd_buf := cmd_buf ?n\<rparr>, w) = Some (v, w')"
      "t' = print_prompt (v\<lparr>cmd_buf := []\<rparr>)"
      by (auto simp: press_enter_def Let_def)
    with that [of "v\<lparr>cmd_buf := []\<rparr>"] show thesis
      using draws_execute [of T L "(?n\<lparr>cmd_buf := cmd_buf ?n\<rparr>, w)" "(v, w')"]
      by (simp add: draws_def cursor_ok_def)
  qed
  have p: "draws u t'" unfolding u(1) by (rule draws_prompt)
  then show "cmd_buf t' = []" using u(2) by (simp add: draws_def)
  show "same_outside (canvas t) (canvas t')" "cursor_ok t \<Longrightarrow> cursor_ok t'"
    using p u(3) draws_newline [of t]
    by (auto simp: draws_def cursor_ok_def intro: same_outside_trans)
qed

lemma backspace_effect:
  "cmd_buf (press_backspace t) = butlast (cmd_buf t)" "same_outside (canvas t) (canvas (press_backspace t))"
  "cursor_ok t \<Longrightarrow> cursor_ok (press_backspace t)"
  by (auto simp: press_backspace_def Let_def cursor_ok_def same_outside_fill)

lemma char_effect:
  "cmd_buf (press_char key t) = cmd_buf t @ [key]" "same_outside (canvas t) (canvas (press_char key t))"
  "cursor_ok t \<Longrightarrow> cursor_ok (press_char key t)"
  using draws_print [of "t\<lparr>cmd_buf := cmd_buf t @ [key]\<rparr>" "[key]" TEXT_COLOR]
  by (auto simp: press_char_def draws_def cursor_ok_def)

lemma key_effect:
  assumes "term_handle_key T L key (t, w) = Some (t', w')"
  shows "cmd_buf t' = edit key (cmd_buf t)" "same_outside (canvas t) (canvas t')" "cursor_ok t \<Longrightarrow> cursor_ok t'"
proof -
  let ?t = "draw_cursor_block False t"
  have t: "draws t ?t" by (rule draws_cursor_block)
  obtain u w1 where u: "(if key = 0x0A then press_enter T L (?t, w)
           else if key = 0x08 then Some (press_backspace ?t, w)
           else if 32 \<le> key \<and> key \<le> 126 \<and> length (cmd_buf ?t) < 60 then Some (press_char key ?t, w)
           else Some (?t, w)) = Some (u, w1)" "t' = draw_cursor_block True u"
    using assms by (auto simp: term_handle_key_def Let_def bind_eq_Some_conv dest!: draws_update)
  have t': "draws u t'" unfolding u(2) by (rule draws_cursor_block)
  have "cmd_buf u = edit key (cmd_buf ?t) \<and> same_outside (canvas ?t) (canvas u) \<and> (cursor_ok ?t \<longrightarrow> cursor_ok u)"
    using u(1) enter_effect [of T L ?t w u w1] backspace_effect [of ?t]
      char_effect [where key = key and t = ?t]
    by (auto simp: edit_def printable_def split: if_splits)
  then show "cmd_buf t' = edit key (cmd_buf t)" "same_outside (canvas t) (canvas t')" "cursor_ok t \<Longrightarrow> cursor_ok t'"
    using t t' by (auto simp: draws_def intro: same_outside_trans)
qed

lemma run_effect:
  assumes "term_run T L keys (t, w) = Some (t', w')" "term_ok t"
  shows "term_ok t' \<and> cmd_buf t' = fold edit keys (cmd_buf t) \<and> same_outside (canvas t) (canvas t')"
  using assms
proof (induction keys arbitrary: t w)
  case (Cons key keys)
  then obtain t1 w1 where k: "term_handle_key T L key (t, w) = Some (t1, w1)"
    and r: "term_run T L keys (t1, w1) = Some (t', w')"
    by (auto simp: bind_eq_Some_conv)
  have "term_ok t1" using key_effect [OF k] Cons.prems(2) edit_ok by (simp add: term_ok_def)
  with Cons.IH [OF r] key_effect [OF k] show ?case by (auto intro: same_outside_trans)
qed simp

subsection \<open>Progress\<close>

text \<open>The calls of the library answer as the code expects: sends get through and counts fit their buffers.\<close>

definition lib_ok :: "'w lib \<Rightarrow> bool" where
  "lib_ok L \<longleftrightarrow> sends_succeed L \<and> (\<forall>w. fst (lib_listdir L 2048 w) \<le> 2048) \<and>
     (\<forall>fd w. fst (lib_read L fd 1024 w) \<le> 1024)"

lemma update_total: "lib_ok L \<Longrightarrow> update_compositor T L s \<noteq> None"
  using send_retry_total [of L COMPOSITOR_PID "damage_message T" "snd s"]
  by (cases s) (auto simp: lib_ok_def update_compositor_def)

lemma if_total: "A \<noteq> None \<Longrightarrow> B \<noteq> None \<Longrightarrow> (if P then A else B) \<noteq> None"
  by simp

lemma map_option_total: "A \<noteq> None \<Longrightarrow> map_option f A \<noteq> None"
  by simp

lemma ls_total: "lib_ok L \<Longrightarrow> cmd_ls L s \<noteq> None"
proof (cases s)
  fix t w assume s: "s = (t, w)" and L: "lib_ok L"
  obtain n buf w' where q: "lib_listdir L 2048 w = (n, buf, w')" by (metis prod_cases3)
  have "fst (lib_listdir L 2048 w) \<le> 2048" using L unfolding lib_ok_def by blast
  then show ?thesis by (simp add: cmd_ls_def s q)
qed

lemma cat_total: "lib_ok L \<Longrightarrow> cmd_cat L args s \<noteq> None"
proof (cases s)
  fix t w assume s: "s = (t, w)" and L: "lib_ok L"
  have "lib_read L fd 1024 w1 = (n, buf, w2) \<Longrightarrow> n \<le> 1024" for fd w1 n buf w2
    using L unfolding lib_ok_def by (metis fst_conv)
  then show ?thesis
    by (force simp: cmd_cat_def s Let_def split: list.splits prod.splits option.splits)
qed

lemma run_command_total: "lib_ok L \<Longrightarrow> run_command T L cmd args s \<noteq> None"
  unfolding run_command_def cmd_install_def cmd_off_def
  by (intro if_total map_option_total update_total ls_total cat_total option.discI [OF refl])

lemma execute_total: "lib_ok L \<Longrightarrow> execute_command T L s \<noteq> None"
  using run_command_total [of L T]
  by (simp add: execute_command_def Let_def split: list.split)

lemma enter_total: "lib_ok L \<Longrightarrow> press_enter T L s \<noteq> None"
  using execute_total [of L T] by (cases s) (simp add: press_enter_def Let_def del: not_None_eq)

lemma key_total: "lib_ok L \<Longrightarrow> term_handle_key T L key s \<noteq> None"
proof (cases s)
  fix t w assume s: "s = (t, w)" and L: "lib_ok L"
  have "update_compositor T L u \<noteq> None" "press_enter T L u \<noteq> None" for u
    using L by (rule update_total, rule enter_total)
  then show ?thesis by (auto simp: term_handle_key_def Let_def s bind_eq_None_conv split: prod.splits)
qed

lemma run_total: "lib_ok L \<Longrightarrow> term_run T L keys s \<noteq> None"
  using key_total [of L T] by (induction keys arbitrary: s) (auto simp: bind_eq_None_conv)

section \<open>Properties\<close>

lemma init_ok:
  assumes "terminal_init T L (terminal_new shared, w) = Some (t, w')"
  shows "term_ok t" "cmd_buf t = []" "same_outside shared (canvas t)"
proof -
  obtain u where u: "t = draw_cursor_block True (print_prompt (print_banner (clear_canvas u)))"
    "u = terminal_new shared\<lparr>term_shm_id := term_shm_id u\<rparr>"
    using assms by (auto simp: terminal_init_def Let_def bind_eq_Some_conv terminal_new_def
        split: prod.splits if_splits dest!: draws_update)
  have "draws (clear_canvas u) t"
    unfolding u(1) print_banner_def print_prompt_def by (intro draws_trans [OF _ draws_cursor_block] draws_simps)
  moreover have "draws u (clear_canvas u)" by (rule draws_clear_canvas)
  ultimately have d: "draws u t" by (rule draws_trans [rotated])
  have "canvas u = shared" "cmd_buf u = []" "cursor_ok u"
    by (subst u(2); simp add: terminal_new_def cursor_ok_def)+
  with d show "term_ok t" "cmd_buf t = []" "same_outside shared (canvas t)"
    by (auto simp: draws_def term_ok_def)
qed

text \<open>
  C17: Typing never breaks the terminal. Once it has started, every sequence of keys is handled (no
  panic, no endless loop) as long as the library answers as documented; the cursor stays inside
  the margins of the window, the line holds at most 60 printable characters and is what a line
  editor makes of the keys, and no drawing, scrolling or command output ever stores outside of
  the memory of the window.
\<close>
theorem terminal_well_typed:
  assumes "lib_ok L" "terminal_init T L (terminal_new shared, w) = Some s"
  shows "\<exists>t' w'. term_run T L keys s = Some (t', w') \<and> term_ok t' \<and> cmd_buf t' = fold edit keys [] \<and>
    same_outside shared (canvas t')"
proof -
  obtain t w1 where s: "s = (t, w1)" by fastforce
  note i = init_ok [OF assms(2) [unfolded s]]
  obtain t' w' where r: "term_run T L keys (t, w1) = Some (t', w')"
    using run_total [OF assms(1), of T keys "(t, w1)"] by auto
  from run_effect [OF r i(1)] i r s show ?thesis by (auto intro: same_outside_trans)
qed

lemma demo_calls [simp]:
  "lib_listdir demo_lib n w = (0, replicate n 0, w)" "lib_read demo_lib fd n w = (0, replicate n 0, w)"
  "lib_shm_create demo_lib bytes w = (1, w)" "lib_shm_map demo_lib i a w = (0, w)"
  by (simp_all add: demo_lib_def)

lemma demo_lib_ok: "lib_ok demo_lib"
  unfolding lib_ok_def sends_succeed_def using demo_sends by (metis demo_calls(1,2) fst_conv zero_le)

lemma demo_init: "\<exists>s. terminal_init T demo_lib (terminal_new (\<lambda>_. 0), ()) = Some s"
  by (simp add: terminal_init_def update_compositor_def)

lemma terminal_well_typed_witness:
  "\<exists>s t' w'. terminal_init demo_types demo_lib (terminal_new (\<lambda>_. 0), ()) = Some s \<and>
     term_run demo_types demo_lib [0x6C, 0x78, 0x08, 0x73] s = Some (t', w') \<and> term_ok t' \<and>
     cmd_buf t' = ascii ''ls'' \<and> same_outside (\<lambda>_. 0) (canvas t')"
proof -
  obtain s where s: "terminal_init demo_types demo_lib (terminal_new (\<lambda>_. 0), ()) = Some s"
    using demo_init by blast
  have "fold edit [0x6C, 0x78, 0x08, 0x73] [] = ascii ''ls''"
    by (simp add: edit_def printable_def ascii_def)
  with terminal_well_typed [OF demo_lib_ok s, of "[0x6C, 0x78, 0x08, 0x73]"] s show ?thesis by auto
qed

subsection \<open>The line on the screen\<close>

lemma cursor_x_print:
  "0x0A \<notin> set bs \<Longrightarrow> cursor_x t + 7 * length bs + 7 < 510 \<Longrightarrow>
   cursor_x (print_colored bs color t) = cursor_x t + 7 * length bs"
proof (induction bs arbitrary: t)
  case (Cons b bs)
  let ?t = "print_byte color b t"
  have x: "cursor_x ?t = cursor_x t + 7" using Cons.prems by (simp add: print_byte_def Let_def)
  have "print_colored (b # bs) color t = print_colored bs color ?t" by (simp add: print_colored_def)
  with Cons.IH [of ?t] Cons.prems x show ?case by simp
qed (simp add: print_colored_def)

lemma cursor_x_prompt: "cursor_x t = PAD_X \<Longrightarrow> cursor_x (print_prompt t) = 150"
  unfolding print_prompt_def by (subst cursor_x_print; subst cursor_x_print)? (simp_all add: ascii_def cursor_x_print)

lemma update_keeps: "lib_ok L \<Longrightarrow> \<exists>w'. update_compositor T L (t, w) = Some (t, w')"
  using update_total [of L T "(t, w)"] draws_update [of T L "(t, w)"] by auto

lemma cmd_buf_cursor_block [simp]: "cmd_buf (draw_cursor_block v t) = cmd_buf t"
  by (simp add: draw_cursor_block_def)

text \<open>A printable key with room in the line and on the row: one character further.\<close>

lemma key_printable:
  assumes "lib_ok L" "printable key" "length (cmd_buf t) < 60"
  shows "\<exists>w'. term_handle_key T L key (t, w) =
    Some (draw_cursor_block True (press_char key (draw_cursor_block False t)), w')"
proof -
  have "key \<noteq> 0x0A" "key \<noteq> 0x08" using assms(2) by (auto simp: printable_def)
  then show ?thesis
    using assms update_keeps [OF assms(1)] by (simp add: term_handle_key_def printable_def Let_def)
qed

lemma cursor_x_press_char:
  "printable key \<Longrightarrow> cursor_x (draw_cursor_block True (press_char key (draw_cursor_block False t))) =
     (if cursor_x t + 14 < 510 then cursor_x t + 7 else PAD_X)"
  by (auto simp: printable_def press_char_def print_colored_def print_byte_def draw_cursor_block_def Let_def)

lemma cmd_buf_press_char: "cmd_buf (press_char key t) = cmd_buf t @ [key]"
  by (rule char_effect(1))

lemma typed_on_row:
  assumes "lib_ok L"
  shows "list_all printable keys \<Longrightarrow> length (cmd_buf t) + length keys \<le> 60 \<Longrightarrow>
    cursor_x t + 7 * length keys + 7 < 510 \<Longrightarrow>
    \<exists>t' w'. term_run T L keys (t, w) = Some (t', w') \<and> cursor_x t' = cursor_x t + 7 * length keys \<and>
      cmd_buf t' = cmd_buf t @ keys"
proof (induction keys arbitrary: t w)
  case (Cons key keys)
  let ?t = "draw_cursor_block True (press_char key (draw_cursor_block False t))"
  obtain w1 where "term_handle_key T L key (t, w) = Some (?t, w1)"
    using key_printable [OF assms, of key t T w] Cons.prems by auto
  moreover have "cursor_x ?t = cursor_x t + 7" "cmd_buf ?t = cmd_buf t @ [key]"
    using Cons.prems by (simp_all add: cursor_x_press_char cmd_buf_press_char)
  ultimately show ?case using Cons.IH [of ?t w1] Cons.prems by auto
qed simp

lemma redraw_cursor:
  "canvas (draw_cursor_block True (draw_cursor_block False (draw_cursor_block True t))) =
   canvas (draw_cursor_block True t)"
  by (rule ext) (simp add: draw_cursor_block_def painted_apply [OF painted_term_fill_rect])

lemma backspace_at_margin:
  assumes "lib_ok L" "cmd_buf t \<noteq> []" "cursor_x t = PAD_X" "t = draw_cursor_block True u"
  shows "\<exists>w'. term_handle_key T L 0x08 (t, w) = Some (t\<lparr>cmd_buf := butlast (cmd_buf t)\<rparr>, w')"
proof -
  let ?t = "t\<lparr>cmd_buf := butlast (cmd_buf t)\<rparr>"
  have "draw_cursor_block True (press_backspace (draw_cursor_block False t)) = ?t"
    using assms(2,3) redraw_cursor [of u, folded assms(4)]
    by (cases t) (simp add: press_backspace_def draw_cursor_block_def)
  then show ?thesis
    using update_keeps [OF assms(1), of T ?t w] by (simp add: term_handle_key_def Let_def)
qed

text \<open>
  A character deleted at the wrap stays on the screen. After 51 characters typed at a fresh
  prompt the cursor stands at the start of the next row; Backspace then takes the 51st character out
  of the command, but the whole window, cursor included, is exactly as before.
\<close>
theorem deleted_character_stays:
  assumes "lib_ok L" "t = print_prompt u" "cursor_x u = PAD_X" "cmd_buf t = []"
    and "list_all printable keys" "length keys = 51"
  shows "\<exists>t1 w1 t2 w2. term_run T L keys (t, w) = Some (t1, w1) \<and> cmd_buf t1 = keys \<and> cursor_x t1 = PAD_X \<and>
    term_handle_key T L 0x08 (t1, w1) = Some (t2, w2) \<and>
    cmd_buf t2 = take 50 keys \<and> canvas t2 = canvas t1 \<and> cursor_x t2 = cursor_x t1 \<and> cursor_y t2 = cursor_y t1"
proof -
  obtain ks k where ks: "keys = ks @ [k]" "length ks = 50"
    using assms(6) by (metis append_butlast_last_id length_butlast diff_Suc_1 length_0_conv numeral_eq_Suc pred_numeral_simps(3) zero_neq_numeral)
  have x: "cursor_x t = 150" using cursor_x_prompt assms(2,3) by simp
  obtain v w1 where v: "term_run T L ks (t, w) = Some (v, w1)" "cursor_x v = 500" "cmd_buf v = ks"
    using typed_on_row [OF assms(1), of ks t T w] assms(4,5) x ks by auto
  let ?t1 = "draw_cursor_block True (press_char k (draw_cursor_block False v))"
  have k: "printable k" using assms(5) ks by simp
  obtain w2 where t1: "term_handle_key T L k (v, w1) = Some (?t1, w2)"
    using key_printable [OF assms(1) k, of v T w1] v(3) ks by auto
  have p: "cursor_x ?t1 = PAD_X" "cmd_buf ?t1 = keys"
    using v ks k by (simp_all add: cursor_x_press_char cmd_buf_press_char)
  have "term_run T L (ks @ ks') s = Option.bind (term_run T L ks s) (term_run T L ks')" for ks' s
    by (induction ks arbitrary: s) (auto split: bind_splits)
  then have run: "term_run T L keys (t, w) = Some (?t1, w2)" using v(1) t1 by (simp add: ks)
  obtain w3 where bsp: "term_handle_key T L 0x08 (?t1, w2) = Some (?t1\<lparr>cmd_buf := butlast (cmd_buf ?t1)\<rparr>, w3)"
    using backspace_at_margin [OF assms(1) _ p(1) refl, of T w2] p(2) ks by auto
  show ?thesis
    by (rule exI [of _ ?t1], rule exI [of _ w2], rule exI [of _ "?t1\<lparr>cmd_buf := butlast (cmd_buf ?t1)\<rparr>"],
        rule exI [of _ w3], intro conjI) (use run bsp p ks in simp_all)
qed

lemma deleted_character_stays_witness:
  "\<exists>t1 w1 t2 w2. term_run demo_types demo_lib (replicate 51 0x61) (print_prompt (terminal_new (\<lambda>_. 0)), ()) = Some (t1, w1) \<and>
     cmd_buf t1 = replicate 51 0x61 \<and> cursor_x t1 = PAD_X \<and>
     term_handle_key demo_types demo_lib 0x08 (t1, w1) = Some (t2, w2) \<and>
     cmd_buf t2 = take 50 (replicate 51 0x61) \<and> canvas t2 = canvas t1 \<and> cursor_x t2 = cursor_x t1 \<and> cursor_y t2 = cursor_y t1"
proof (rule deleted_character_stays [OF demo_lib_ok refl])
  show "cursor_x (terminal_new (\<lambda>_. 0)) = PAD_X" by (simp add: terminal_new_def)
  show "cmd_buf (print_prompt (terminal_new (\<lambda>_. 0))) = []"
    using draws_prompt [of "terminal_new (\<lambda>_. 0)"] by (simp add: draws_def terminal_new_def)
  show "list_all printable (replicate 51 0x61)" by (simp add: list_all_iff printable_def)
qed simp

end
