(* ===== verification/Console.thy ===== *)
theory Console
  imports Vga_Font Canvas Userlib
begin

text \<open>
  The console driver, \<^verbatim>\<open>userland/console_driver\<close>: text on the frame buffer in a fixed font. The
  frame buffer is the memory of bytes that the driver maps; offsets count from its first byte. A
  text screen, a grid of characters with a cursor, is the specification.
\<close>

section \<open>The driver\<close>

abbreviation COLOR_BLACK :: u32 where "COLOR_BLACK \<equiv> 0x000000"
abbreviation COLOR_WHITE :: u32 where "COLOR_WHITE \<equiv> 0xFFFFFF"
abbreviation FONT_WIDTH :: nat where "FONT_WIDTH \<equiv> 8"
abbreviation FONT_HEIGHT :: nat where "FONT_HEIGHT \<equiv> 16"
abbreviation TAB_SIZE :: nat where "TAB_SIZE \<equiv> 4"

type_synonym fb_bytes = "nat \<Rightarrow> u8"

record console =
  fb :: fb_bytes
  con_width :: nat
  con_height :: nat
  pitch :: nat
  bpp :: nat
  x_pos :: nat
  y_pos :: nat
  fg_color :: u32
  bg_color :: u32

text \<open>\<open>mem\<close> is what the frame buffer holds before the driver starts.\<close>

definition console_new :: "fb_bytes \<Rightarrow> console" where
  "console_new mem =
     \<lparr>fb = mem, con_width = 0, con_height = 0, pitch = 0, bpp = 0, x_pos = 0, y_pos = 0,
      fg_color = COLOR_WHITE, bg_color = COLOR_BLACK\<rparr>"

text \<open>A 32-bit store at an offset.\<close>

definition store32 :: "nat \<Rightarrow> u32 \<Rightarrow> fb_bytes \<Rightarrow> fb_bytes" where
  "store32 off c b = (\<lambda>p. if off \<le> p \<and> p < off + 4 then le_bytes 4 c ! (p - off) else b p)"

definition plot_pixel :: "console \<Rightarrow> nat \<Rightarrow> nat \<Rightarrow> u32 \<Rightarrow> fb_bytes \<Rightarrow> fb_bytes" where
  "plot_pixel con x y c b =
     (if x \<ge> con_width con \<or> y \<ge> con_height con then b
      else store32 (y * pitch con + x * bpp con) c b)"

definition console_clear :: "console \<Rightarrow> console" where
  "console_clear con =
     con\<lparr>fb := fold (\<lambda>y. fold (\<lambda>x. plot_pixel con x y (bg_color con)) [0..<con_width con]) [0..<con_height con] (fb con),
         x_pos := 0, y_pos := 0\<rparr>"

definition draw_char :: "u8 \<Rightarrow> nat \<Rightarrow> nat \<Rightarrow> console \<Rightarrow> console" where
  "draw_char c x y con =
     con\<lparr>fb := fold (\<lambda>(row_idx, row_mask). fold (\<lambda>col_idx.
         plot_pixel con (x + col_idx) (y + row_idx)
           (if drop_bit (FONT_WIDTH - 1 - col_idx) row_mask AND 1 \<noteq> 0 then fg_color con else bg_color con))
         [0..<FONT_WIDTH]) (enumerate 0 (get_char_data c)) (fb con)\<rparr>"

text \<open>
  The differences of the code wrap around below zero, and the copy would then run through all of
  memory: \<open>None\<close>.
\<close>

definition scroll :: "console \<Rightarrow> console option" where
  "scroll con =
     (let row_bytes = pitch con * FONT_HEIGHT; total_bytes = con_height con * pitch con
      in if total_bytes < row_bytes \<or> y_pos con < FONT_HEIGHT then None
         else Some (con\<lparr>fb := (\<lambda>p. if p < total_bytes - row_bytes then fb con (row_bytes + p)
                               else if p < total_bytes then 0 else fb con p),
                        y_pos := y_pos con - FONT_HEIGHT\<rparr>))"

definition scroll_if_full :: "console \<Rightarrow> console option" where
  "scroll_if_full con = (if y_pos con + FONT_HEIGHT > con_height con then scroll con else Some con)"

definition backspace :: "console \<Rightarrow> console option" where
  "backspace con =
     (let moved =
        (if x_pos con \<ge> FONT_WIDTH then Some (con\<lparr>x_pos := x_pos con - FONT_WIDTH\<rparr>)
         else if y_pos con \<ge> FONT_HEIGHT then
           if con_width con < FONT_WIDTH then None
           else Some (con\<lparr>y_pos := y_pos con - FONT_HEIGHT, x_pos := con_width con - FONT_WIDTH\<rparr>)
         else Some con)
      in map_option (\<lambda>con. draw_char 0x20 (x_pos con) (y_pos con) con) moved)"

definition put_char :: "u8 \<Rightarrow> console \<Rightarrow> console option" where
  "put_char c con0 =
     (let con = (if x_pos con0 + FONT_WIDTH > con_width con0
                 then con0\<lparr>x_pos := 0, y_pos := y_pos con0 + FONT_HEIGHT\<rparr> else con0)
      in map_option (\<lambda>con. (draw_char c (x_pos con) (y_pos con) con)\<lparr>x_pos := x_pos con + FONT_WIDTH\<rparr>)
           (scroll_if_full con))"

definition write_char :: "u8 \<Rightarrow> console \<Rightarrow> console option" where
  "write_char c con =
     Option.bind
       (if c = 0x0A then Some (con\<lparr>x_pos := 0, y_pos := y_pos con + FONT_HEIGHT\<rparr>)
        else if c = 0x08 then backspace con
        else if c = 0x09 then Some (con\<lparr>x_pos := x_pos con + FONT_WIDTH * TAB_SIZE\<rparr>)
        else put_char c con)
       scroll_if_full"

fun write_text :: "bytes \<Rightarrow> console \<Rightarrow> console option" where
  "write_text [] con = Some con"
| "write_text (c # cs) con = Option.bind (write_char c con) (write_text cs)"

definition FB_VIRT :: u64 where
  "FB_VIRT = 0x80000000"

text \<open>Start-up; a frame buffer that cannot be mapped ends the program.\<close>

definition console_init :: "'w lib \<Rightarrow> console \<times> 'w \<Rightarrow> (console \<times> 'w) option" where
  "console_init L = (\<lambda>(con, w).
     case lib_fb_info L w of ((paddr, wd, h, p, b), w1) \<Rightarrow>
     case lib_map_physical L FB_VIRT paddr (p * h) w1 of (ok, w2) \<Rightarrow>
       if ok then Some (console_clear (con\<lparr>con_width := wd, con_height := h, pitch := p, bpp := b\<rparr>), w2) else None)"

definition console_start :: "'w lib \<Rightarrow> fb_bytes \<Rightarrow> 'w \<Rightarrow> (console \<times> 'w) option" where
  "console_start L mem w =
     Option.bind (console_init L (console_new mem, w)) (\<lambda>(con, w).
       map_option (\<lambda>con. (con, w)) (write_text (ascii ''[Console Driver] Started successfully in Ring 3!'' @ newline) con))"

definition console_step :: "u64 \<Rightarrow> message \<Rightarrow> console \<Rightarrow> console option" where
  "console_step print_char msg con =
     (if msg_type msg = print_char then write_char (ucast (arg1 msg)) con else Some con)"

section \<open>The text screen\<close>

record text_screen =
  cells :: "nat \<Rightarrow> nat \<Rightarrow> u8"
  s_row :: nat
  s_col :: nat

definition blank_screen :: text_screen where
  "blank_screen = \<lparr>cells = \<lambda>_ _. 0x20, s_row = 0, s_col = 0\<rparr>"

definition set_cell :: "u8 \<Rightarrow> text_screen \<Rightarrow> text_screen" where
  "set_cell c s = s\<lparr>cells := (cells s)(s_row s := (cells s (s_row s))(s_col s := c))\<rparr>"

definition roll :: "nat \<Rightarrow> text_screen \<Rightarrow> text_screen" where
  "roll rows s = (if s_row s < rows then s else s\<lparr>cells := (\<lambda>r. cells s (Suc r)), s_row := s_row s - 1\<rparr>)"

definition next_line :: "text_screen \<Rightarrow> text_screen" where
  "next_line s = s\<lparr>s_col := 0, s_row := Suc (s_row s)\<rparr>"

definition step_back :: "nat \<Rightarrow> text_screen \<Rightarrow> text_screen" where
  "step_back cols s =
     (if s_col s > 0 then s\<lparr>s_col := s_col s - 1\<rparr>
      else if s_row s > 0 then s\<lparr>s_row := s_row s - 1, s_col := cols - 1\<rparr> else s)"

definition screen_write :: "nat \<Rightarrow> nat \<Rightarrow> u8 \<Rightarrow> text_screen \<Rightarrow> text_screen" where
  "screen_write rows cols c s =
     roll rows
       (if c = 0x0A then next_line s
        else if c = 0x08 then set_cell 0x20 (step_back cols s)
        else if c = 0x09 then s\<lparr>s_col := s_col s + TAB_SIZE\<rparr>
        else let s' = set_cell c (roll rows (if s_col s < cols then s else next_line s))
             in s'\<lparr>s_col := Suc (s_col s')\<rparr>)"

section \<open>The frame buffer shows the screen\<close>

definition pixel_color :: "text_screen \<Rightarrow> nat \<Rightarrow> nat \<Rightarrow> u32" where
  "pixel_color s x y =
     (if drop_bit (7 - x mod 8) (get_char_data (cells s (y div 16) (x div 8)) ! (y mod 16)) AND 1 \<noteq> 0
      then COLOR_WHITE else COLOR_BLACK)"

definition fb_ok :: "console \<Rightarrow> bool" where
  "fb_ok con \<longleftrightarrow> bpp con = 4 \<and> 4 * con_width con \<le> pitch con \<and> con_width con mod 8 = 0 \<and> 8 \<le> con_width con \<and>
     16 \<le> con_height con \<and> fg_color con = COLOR_WHITE \<and> bg_color con = COLOR_BLACK"

abbreviation text_rows :: "console \<Rightarrow> nat" where "text_rows con \<equiv> con_height con div 16"
abbreviation text_cols :: "console \<Rightarrow> nat" where "text_cols con \<equiv> con_width con div 8"

definition displays :: "console \<Rightarrow> text_screen \<Rightarrow> bool" where
  "displays con s \<longleftrightarrow>
     (\<forall>x y k. x < con_width con \<longrightarrow> y < con_height con \<longrightarrow> k < 4 \<longrightarrow>
        fb con (y * pitch con + x * 4 + k) = le_bytes 4 (pixel_color s x y) ! k) \<and>
     (\<forall>r c. text_rows con \<le> r \<longrightarrow> cells s r c = 0x20) \<and>
     x_pos con = 8 * s_col s \<and> y_pos con = 16 * s_row s"

definition same_fb :: "console \<Rightarrow> console \<Rightarrow> bool" where
  "same_fb con con' \<longleftrightarrow> con_width con' = con_width con \<and> con_height con' = con_height con \<and>
     pitch con' = pitch con \<and> bpp con' = bpp con \<and> fg_color con' = fg_color con \<and> bg_color con' = bg_color con \<and>
     (\<forall>p. con_height con * pitch con \<le> p \<longrightarrow> fb con' p = fb con p)"

lemma same_fb_refl [simp]: "same_fb con con"
  by (simp add: same_fb_def)

lemma same_fb_trans: "same_fb a b \<Longrightarrow> same_fb b c \<Longrightarrow> same_fb a c"
  by (simp add: same_fb_def)

lemma fb_ok_same: "same_fb con con' \<Longrightarrow> fb_ok con \<Longrightarrow> fb_ok con'"
  by (simp add: same_fb_def fb_ok_def)

subsection \<open>Drawing\<close>

text \<open>\<open>plots con F g S\<close>: \<open>F\<close> gives the pixels of \<open>S\<close> the colours \<open>g\<close> and changes nothing else.\<close>

definition plots :: "console \<Rightarrow> (fb_bytes \<Rightarrow> fb_bytes) \<Rightarrow> (nat \<Rightarrow> nat \<Rightarrow> u32) \<Rightarrow> (nat \<times> nat) set \<Rightarrow> bool" where
  "plots con F g S \<longleftrightarrow>
     (\<forall>b x y k. x < con_width con \<longrightarrow> y < con_height con \<longrightarrow> k < 4 \<longrightarrow>
        F b (y * pitch con + x * 4 + k) =
          (if (x, y) \<in> S then le_bytes 4 (g x y) ! k else b (y * pitch con + x * 4 + k))) \<and>
     (\<forall>b p. con_height con * pitch con \<le> p \<longrightarrow> F b p = b p)"

lemma plots_fold:
  assumes "\<And>i. i \<in> set xs \<Longrightarrow> plots con (F i) g (S i)"
  shows "plots con (fold F xs) g (\<Union>i \<in> set xs. S i)"
  using assms
proof (induction xs)
  case (Cons i xs)
  then have "plots con (F i) g (S i)" "plots con (fold F xs) g (\<Union>i \<in> set xs. S i)" by auto
  then show ?case by (auto simp: plots_def)
qed (simp add: plots_def)

lemma pixel_offset_unique:
  assumes "x < w" "x' < w" "k < 4" "k' < 4" "4 * w \<le> (pt :: nat)"
    and "y * pt + x * 4 + k = y' * pt + x' * 4 + k'"
  shows "x = x' \<and> y = y' \<and> k = k'"
proof -
  have lt: "x * 4 + k < pt" "x' * 4 + k' < pt" using assms by linarith+
  have "(y * pt + (x * 4 + k)) div pt = y" "(y * pt + (x * 4 + k)) mod pt = x * 4 + k"
    "(y' * pt + (x' * 4 + k')) div pt = y'" "(y' * pt + (x' * 4 + k')) mod pt = x' * 4 + k'"
    using lt by simp_all
  then have "y = y'" "x * 4 + k = x' * 4 + k'" using assms(6) by (simp_all add: add.assoc)
  with assms(3,4) show ?thesis by presburger
qed

lemma pixel_offset_below:
  assumes "x < w" "y < h" "k < 4" "4 * w \<le> (pt :: nat)"
  shows "y * pt + x * 4 + k < h * pt"
proof -
  have "y * pt + (x * 4 + k) < Suc y * pt" using assms by simp
  also have "\<dots> \<le> h * pt" using assms(2) by (intro mult_le_mono1) simp
  finally show ?thesis by simp
qed

lemma plots_plot_pixel:
  assumes "fb_ok con" "g x y = c"
  shows "plots con (plot_pixel con x y c) g {(x, y)}"
proof (cases "x < con_width con \<and> y < con_height con")
  case True
  have ok: "bpp con = 4" "4 * con_width con \<le> pitch con" using assms(1) by (simp_all add: fb_ok_def)
  have "store32 (y * pitch con + x * 4) c b (y' * pitch con + x' * 4 + k) =
      (if x' = x \<and> y' = y then le_bytes 4 c ! k else b (y' * pitch con + x' * 4 + k))"
    if "x' < con_width con" "k < 4" for b x' y' k
  proof (cases "x' = x \<and> y' = y")
    case False
    have "\<not> (y * pitch con + x * 4 \<le> y' * pitch con + x' * 4 + k \<and>
        y' * pitch con + x' * 4 + k < y * pitch con + x * 4 + 4)"
    proof
      assume "y * pitch con + x * 4 \<le> y' * pitch con + x' * 4 + k \<and>
        y' * pitch con + x' * 4 + k < y * pitch con + x * 4 + 4"
      then obtain k' where "y' * pitch con + x' * 4 + k = y * pitch con + x * 4 + k'" "k' < 4"
        by (metis add_less_cancel_left le_iff_add)
      with pixel_offset_unique [of x' "con_width con" x k k'] True that ok(2) False show False by metis
    qed
    then show ?thesis using False by (auto simp: store32_def)
  qed (use that in \<open>simp add: store32_def\<close>)
  moreover have "store32 (y * pitch con + x * 4) c b p = b p" if "con_height con * pitch con \<le> p" for b p
    using pixel_offset_below [of x "con_width con" y "con_height con" 3 "pitch con"] True ok that
    by (simp add: store32_def)
  ultimately show ?thesis using True ok assms(2) by (auto simp: plots_def plot_pixel_def)
qed (auto simp: plots_def plot_pixel_def)

lemma draw_char_plots:
  assumes "fb_ok con"
    and "\<And>i j. i < 16 \<Longrightarrow> j < 8 \<Longrightarrow> g (x + j) (y + i) =
      (if drop_bit (7 - j) (get_char_data c ! i) AND 1 \<noteq> 0 then COLOR_WHITE else COLOR_BLACK)"
  shows "plots con (\<lambda>b. fb (draw_char c x y (con\<lparr>fb := b\<rparr>))) g ({x..<x + 8} \<times> {y..<y + 16})"
proof -
  have same: "plot_pixel (con\<lparr>fb := b\<rparr>) = plot_pixel con" for b
    by (intro ext) (simp add: plot_pixel_def)
  have col: "fg_color con = COLOR_WHITE" "bg_color con = COLOR_BLACK"
    using assms(1) by (simp_all add: fb_ok_def)
  have "plots con (fold (\<lambda>(row_idx, row_mask). fold (\<lambda>col_idx.
         plot_pixel con (x + col_idx) (y + row_idx)
           (if drop_bit (FONT_WIDTH - 1 - col_idx) row_mask AND 1 \<noteq> 0 then fg_color con else bg_color con))
         [0..<FONT_WIDTH]) (enumerate 0 (get_char_data c))) g
      (\<Union>p \<in> set (enumerate 0 (get_char_data c)). \<Union>j \<in> set [0..<8]. {(x + j, y + fst p)})"
    (is "plots con ?F g ?S")
  proof (rule plots_fold)
    fix p assume "p \<in> set (enumerate 0 (get_char_data c))"
    define i where "i = fst p"
    have p: "p = (i, get_char_data c ! i)" "i < 16"
      using \<open>p \<in> _\<close> by (simp_all add: i_def in_set_enumerate_eq prod_eq_iff)
    have "plots con (fold (\<lambda>j. plot_pixel con (x + j) (y + i)
        (if drop_bit (FONT_WIDTH - 1 - j) (get_char_data c ! i) AND 1 \<noteq> 0 then fg_color con else bg_color con))
        [0..<8]) g (\<Union>j \<in> set [0..<8]. {(x + j, y + i)})"
      using assms(2) p(2) col by (intro plots_fold plots_plot_pixel assms(1)) auto
    then show "plots con (case p of (row_idx, row_mask) \<Rightarrow> fold (\<lambda>col_idx.
         plot_pixel con (x + col_idx) (y + row_idx)
           (if drop_bit (FONT_WIDTH - 1 - col_idx) row_mask AND 1 \<noteq> 0 then fg_color con else bg_color con))
         [0..<FONT_WIDTH]) g (\<Union>j \<in> set [0..<8]. {(x + j, y + fst p)})"
      by (simp add: p(1) del: upt_rec_numeral)
  qed
  moreover have "?S = {x..<x + 8} \<times> {y..<y + 16}"
  proof (intro equalityI subsetI)
    fix q assume "q \<in> {x..<x + 8} \<times> {y..<y + 16}"
    then obtain i j where q: "q = (x + j, y + i)" "i < 16" "j < 8"
      by (cases q) (auto simp: le_iff_add)
    then have "(i, get_char_data c ! i) \<in> set (enumerate 0 (get_char_data c))"
      by (simp add: in_set_enumerate_eq)
    with q show "q \<in> ?S" by (intro UN_I [of "(i, get_char_data c ! i)"] UN_I [of j]) auto
  qed (auto simp: in_set_enumerate_eq simp del: upt_rec_numeral)
  ultimately show ?thesis by (simp add: draw_char_def same cong: if_cong)
qed

subsection \<open>Steps\<close>

lemma draw_char_fields [simp]:
  "x_pos (draw_char c x y con) = x_pos con" "y_pos (draw_char c x y con) = y_pos con"
  "con_width (draw_char c x y con) = con_width con" "con_height (draw_char c x y con) = con_height con"
  "pitch (draw_char c x y con) = pitch con" "bpp (draw_char c x y con) = bpp con"
  "fg_color (draw_char c x y con) = fg_color con" "bg_color (draw_char c x y con) = bg_color con"
  by (simp_all add: draw_char_def)

lemma cell_position: "x \<in> {8 * k..<8 * k + 8} \<longleftrightarrow> x div 8 = (k :: nat)" "y \<in> {16 * r..<16 * r + 16} \<longleftrightarrow> y div 16 = (r :: nat)"
  by auto

lemma displays_set_cell:
  assumes "fb_ok con" "displays con s" "s_row s < text_rows con"
  shows "displays (draw_char c (x_pos con) (y_pos con) con) (set_cell c s)"
    "same_fb con (draw_char c (x_pos con) (y_pos con) con)"
proof -
  have pos: "x_pos con = 8 * s_col s" "y_pos con = 16 * s_row s" using assms(2) by (simp_all add: displays_def)
  have g: "pixel_color (set_cell c s) (8 * s_col s + j) (16 * s_row s + i) =
      (if drop_bit (7 - j) (get_char_data c ! i) AND 1 \<noteq> 0 then COLOR_WHITE else COLOR_BLACK)"
    if "i < 16" "j < 8" for i j
    using that by (simp add: pixel_color_def set_cell_def)
  have p: "plots con (\<lambda>b. fb (draw_char c (x_pos con) (y_pos con) (con\<lparr>fb := b\<rparr>))) (pixel_color (set_cell c s))
      ({8 * s_col s..<8 * s_col s + 8} \<times> {16 * s_row s..<16 * s_row s + 16})"
    using draw_char_plots [OF assms(1), of "pixel_color (set_cell c s)" "8 * s_col s" "16 * s_row s" c] g
    by (simp add: pos)
  have self: "con\<lparr>fb := fb con\<rparr> = con" by simp
  have "pixel_color (set_cell c s) x y = pixel_color s x y"
    if "\<not> (x div 8 = s_col s \<and> y div 16 = s_row s)" for x y
    using that by (auto simp: pixel_color_def set_cell_def)
  moreover have "cells (set_cell c s) r k = 0x20" if "text_rows con \<le> r" for r k
    using that assms(2,3) by (simp add: set_cell_def displays_def)
  moreover have "fb (draw_char c (x_pos con) (y_pos con) con) (y * pitch con + x * 4 + k) =
      (if x div 8 = s_col s \<and> y div 16 = s_row s then le_bytes 4 (pixel_color (set_cell c s) x y) ! k
       else fb con (y * pitch con + x * 4 + k))"
    if "x < con_width con" "y < con_height con" "k < 4" for x y k
    using p [unfolded plots_def, THEN conjunct1, rule_format, of x y k "fb con"] that
    by (simp only: self mem_Times_iff fst_conv snd_conv cell_position)
  ultimately show "displays (draw_char c (x_pos con) (y_pos con) con) (set_cell c s)"
    using assms(2) unfolding displays_def draw_char_fields by (simp add: set_cell_def)
  show "same_fb con (draw_char c (x_pos con) (y_pos con) con)"
    using p [unfolded plots_def, THEN conjunct2, rule_format, of _ "fb con"] by (simp add: same_fb_def self)
qed

lemma le_bytes_zero: "le_bytes n (0 :: 'a::len word) = replicate n 0"
  by (induction n) simp_all

lemma blank_color: "cells s (y div 16) (x div 8) = 0x20 \<Longrightarrow> pixel_color s x y = COLOR_BLACK"
  by (simp add: pixel_color_def blank_glyph)

lemma displays_roll:
  assumes "fb_ok con" "displays con s" "s_row s \<le> text_rows con"
  shows "\<exists>con'. scroll_if_full con = Some con' \<and> displays con' (roll (text_rows con) s) \<and>
    same_fb con con' \<and> s_row (roll (text_rows con) s) < text_rows con"
proof (cases "s_row s < text_rows con")
  case True
  then have "y_pos con + 16 \<le> con_height con"
    using assms(2) by (simp add: displays_def)
  with True assms(2) show ?thesis by (simp add: scroll_if_full_def roll_def)
next
  case False
  let ?P = "pitch con" and ?h = "con_height con"
  have row: "s_row s = text_rows con" using False assms(3) by simp
  have ok: "16 \<le> ?h" "4 * con_width con \<le> ?P" using assms(1) by (simp_all add: fb_ok_def)
  have y: "y_pos con = 16 * text_rows con" using assms(2) row by (simp add: displays_def)
  have "0 < text_rows con" using ok(1) by (simp add: div_greater_zero_iff)
  then have "?h < 16 * text_rows con + 16" "16 \<le> 16 * text_rows con" by linarith+
  moreover have "\<not> ?h * ?P < ?P * 16" using ok(1) by (auto simp: mult.commute [of ?P] not_less)
  ultimately obtain con' where con': "scroll_if_full con = Some con'" and
    c: "con' = con\<lparr>fb := (\<lambda>p. if p < ?h * ?P - ?P * 16 then fb con (?P * 16 + p)
          else if p < ?h * ?P then 0 else fb con p), y_pos := y_pos con - 16\<rparr>"
    using y by (simp add: scroll_if_full_def scroll_def Let_def)
  have sub: "?h * ?P - ?P * 16 = (?h - 16) * ?P" by (simp add: algebra_simps)
  have "fb con' (yy * ?P + x * 4 + k) = le_bytes 4 (pixel_color (roll (text_rows con) s) x yy) ! k"
    if a: "x < con_width con" "yy < ?h" "k < 4" for x yy k
  proof (cases "yy + 16 < ?h")
    case True
    then have "yy * ?P + x * 4 + k < (?h - 16) * ?P"
      using pixel_offset_below [of x "con_width con" yy "?h - 16" k ?P] a ok by simp
    then have "fb con' (yy * ?P + x * 4 + k) = fb con (?P * 16 + (yy * ?P + x * 4 + k))"
      by (simp add: c sub)
    also have "?P * 16 + (yy * ?P + x * 4 + k) = (yy + 16) * ?P + x * 4 + k"
      by (simp add: add_mult_distrib)
    also have "fb con ((yy + 16) * ?P + x * 4 + k) = le_bytes 4 (pixel_color s x (yy + 16)) ! k"
      using assms(2) True a unfolding displays_def by blast
    also have "pixel_color s x (yy + 16) = pixel_color (roll (text_rows con) s) x yy"
      using row by (simp add: pixel_color_def roll_def div_add_self2)
    finally show ?thesis .
  next
    case no: False
    have "(?h - 16) * ?P \<le> yy * ?P" using no by (intro mult_le_mono1) simp
    then have "\<not> yy * ?P + x * 4 + k < (?h - 16) * ?P" by linarith
    then have z: "fb con' (yy * ?P + x * 4 + k) = 0"
      using pixel_offset_below [of x "con_width con" yy ?h k ?P] a ok by (simp add: c sub)
    have "text_rows con \<le> Suc (yy div 16)" using no by linarith
    then have "pixel_color (roll (text_rows con) s) x yy = COLOR_BLACK"
      using assms(2) row by (intro blank_color) (simp add: roll_def displays_def)
    then show ?thesis using a(3) z by (simp add: le_bytes_zero)
  qed
  moreover have "same_fb con con'" by (auto simp: same_fb_def c)
  moreover have "displays con' (roll (text_rows con) s) \<longleftrightarrow>
      (\<forall>x yy k. x < con_width con \<longrightarrow> yy < ?h \<longrightarrow> k < 4 \<longrightarrow>
        fb con' (yy * ?P + x * 4 + k) = le_bytes 4 (pixel_color (roll (text_rows con) s) x yy) ! k)"
    using assms(2) row \<open>0 < text_rows con\<close> by (auto simp: displays_def roll_def c)
  ultimately show ?thesis using con' row ok(1) by (auto simp: roll_def)
qed

subsection \<open>Writing a character\<close>

lemma displays_move:
  "displays con s \<Longrightarrow> displays (con\<lparr>x_pos := 8 * c, y_pos := 16 * r\<rparr>) (s\<lparr>s_col := c, s_row := r\<rparr>)"
  by (simp add: displays_def pixel_color_def)

lemma same_fb_move [simp]: "same_fb con (con\<lparr>x_pos := x, y_pos := y\<rparr>)"
  by (simp add: same_fb_def)

lemma text_rows_same: "same_fb con con' \<Longrightarrow> text_rows con' = text_rows con \<and> text_cols con' = text_cols con"
  by (simp add: same_fb_def)

lemma backspace_refines:
  assumes "fb_ok con" "displays con s" "s_row s < text_rows con"
  shows "\<exists>con'. backspace con = Some con' \<and> displays con' (set_cell 0x20 (step_back (text_cols con) s)) \<and>
    same_fb con con' \<and> s_row (step_back (text_cols con) s) < text_rows con"
proof -
  let ?s = "step_back (text_cols con) s"
  let ?con = "con\<lparr>x_pos := 8 * s_col ?s, y_pos := 16 * s_row ?s\<rparr>"
  have pos: "x_pos con = 8 * s_col s" "y_pos con = 16 * s_row s" using assms(2) by (simp_all add: displays_def)
  have w: "8 * (text_cols con - 1) = con_width con - 8" "8 \<le> con_width con"
    using assms(1) by (auto simp: fb_ok_def right_diff_distrib')
  have "?s = s\<lparr>s_col := s_col ?s, s_row := s_row ?s\<rparr>" by (simp add: step_back_def)
  then have d: "displays ?con ?s"
    using displays_move [OF assms(2), where c = "s_col ?s" and r = "s_row ?s"] by metis
  have r: "s_row ?s < text_rows con" using assms(3) by (auto simp: step_back_def)
  have "backspace con = Some (draw_char 0x20 (x_pos ?con) (y_pos ?con) ?con)"
    using w pos by (cases "s_col s > 0"; cases "s_row s > 0"; cases con) (simp_all add: backspace_def step_back_def diff_mult_distrib2)
  moreover have ok: "fb_ok ?con" using assms(1) by (simp add: fb_ok_def)
  ultimately show ?thesis
    using displays_set_cell [OF ok d] r by (auto intro: same_fb_trans [OF same_fb_move])
qed

lemma put_char_refines:
  assumes "fb_ok con" "displays con s" "s_row s < text_rows con"
  shows "\<exists>con' s'. put_char c con = Some con' \<and>
    s' = set_cell c (roll (text_rows con) (if s_col s < text_cols con then s else next_line s)) \<and>
    displays con' (s'\<lparr>s_col := Suc (s_col s')\<rparr>) \<and> same_fb con con' \<and> s_row s' < text_rows con"
proof -
  define u where "u = (if s_col s < text_cols con then s else next_line s)"
  let ?con = "con\<lparr>x_pos := 8 * s_col u, y_pos := 16 * s_row u\<rparr>"
  have pos: "x_pos con = 8 * s_col s" "y_pos con = 16 * s_row s" using assms(2) by (simp_all add: displays_def)
  have w: "con_width con = 8 * text_cols con" using assms(1) by (auto simp: fb_ok_def)
  have wrap: "x_pos con + 8 > con_width con \<longleftrightarrow> \<not> s_col s < text_cols con" using w pos by linarith
  have "u = s\<lparr>s_col := s_col u, s_row := s_row u\<rparr>" by (simp add: u_def next_line_def)
  then have d: "displays ?con u"
    using displays_move [OF assms(2), where c = "s_col u" and r = "s_row u"] by metis
  have ok: "fb_ok ?con" using assms(1) by (simp add: fb_ok_def)
  have "s_row u \<le> text_rows ?con" using assms(3) by (simp add: u_def next_line_def)
  from displays_roll [OF ok d this] obtain con1 where
    c1: "scroll_if_full ?con = Some con1" "displays con1 (roll (text_rows con) u)" "same_fb ?con con1"
      "s_row (roll (text_rows con) u) < text_rows con"
    by auto
  have ok1: "fb_ok con1" "text_rows con1 = text_rows con"
    using fb_ok_same [OF c1(3) ok] text_rows_same [OF c1(3)] by simp_all
  let ?t = "roll (text_rows con) u"
  let ?con2 = "draw_char c (x_pos con1) (y_pos con1) con1"
  have d2: "displays ?con2 (set_cell c ?t)" "same_fb con1 ?con2"
    using displays_set_cell [OF ok1(1) c1(2)] c1(4) ok1(2) by simp_all
  have p2: "x_pos con1 = 8 * s_col ?t" "y_pos ?con2 = 16 * s_row (set_cell c ?t)"
    using c1(2) d2(1) by (simp_all add: displays_def)
  have "?con2\<lparr>x_pos := x_pos con1 + 8\<rparr> =
      ?con2\<lparr>x_pos := 8 * Suc (s_col (set_cell c ?t)), y_pos := 16 * s_row (set_cell c ?t)\<rparr>"
    using p2 by (simp add: set_cell_def)
  moreover have "set_cell c ?t\<lparr>s_col := Suc (s_col (set_cell c ?t))\<rparr> =
      set_cell c ?t\<lparr>s_col := Suc (s_col (set_cell c ?t)), s_row := s_row (set_cell c ?t)\<rparr>"
    by simp
  ultimately have d3: "displays (?con2\<lparr>x_pos := x_pos con1 + 8\<rparr>) (set_cell c ?t\<lparr>s_col := Suc (s_col (set_cell c ?t))\<rparr>)"
    using displays_move [OF d2(1)] by metis
  have "put_char c con = Some (?con2\<lparr>x_pos := x_pos con1 + 8\<rparr>)"
  proof -
    have "(if x_pos con + 8 > con_width con then con\<lparr>x_pos := 0, y_pos := y_pos con + 16\<rparr> else con) = ?con"
      using wrap pos by (cases con) (simp add: u_def next_line_def)
    then show ?thesis using c1(1) by (simp add: put_char_def)
  qed
  moreover have "same_fb con (?con2\<lparr>x_pos := x_pos con1 + 8\<rparr>)"
    using c1(3) d2(2) by (simp add: same_fb_def)
  moreover have "s_row (set_cell c ?t) < text_rows con" using c1(4) by (simp add: set_cell_def)
  ultimately show ?thesis using d3 unfolding u_def by blast
qed

lemma write_char_refines:
  assumes "fb_ok con" "displays con s" "s_row s < text_rows con"
  shows "\<exists>con'. write_char c con = Some con' \<and> displays con' (screen_write (text_rows con) (text_cols con) c s) \<and>
    same_fb con con' \<and> s_row (screen_write (text_rows con) (text_cols con) c s) < text_rows con"
proof -
  define m where "m = (if c = 0x0A then Some (con\<lparr>x_pos := 0, y_pos := y_pos con + FONT_HEIGHT\<rparr>)
        else if c = 0x08 then backspace con
        else if c = 0x09 then Some (con\<lparr>x_pos := x_pos con + FONT_WIDTH * TAB_SIZE\<rparr>)
        else put_char c con)"
  define t where "t = (if c = 0x0A then next_line s
        else if c = 0x08 then set_cell 0x20 (step_back (text_cols con) s)
        else if c = 0x09 then s\<lparr>s_col := s_col s + TAB_SIZE\<rparr>
        else let s' = set_cell c (roll (text_rows con) (if s_col s < text_cols con then s else next_line s))
             in s'\<lparr>s_col := Suc (s_col s')\<rparr>)"
  have pos: "x_pos con = 8 * s_col s" "y_pos con = 16 * s_row s" using assms(2) by (simp_all add: displays_def)
  have "\<exists>con1. m = Some con1 \<and> displays con1 t \<and> same_fb con con1 \<and> s_row t \<le> text_rows con"
  proof -
    consider "c = 0x0A" | "c = 0x08" | "c = 0x09" | "c \<noteq> 0x0A" "c \<noteq> 0x08" "c \<noteq> 0x09" by blast
    then show ?thesis
    proof cases
      case 1
      with assms(3) pos displays_move [OF assms(2), where c = 0 and r = "Suc (s_row s)"] show ?thesis
        by (simp add: m_def t_def next_line_def same_fb_def add.commute)
    next
      case 2
      then have "m = backspace con" "t = set_cell 0x20 (step_back (text_cols con) s)"
        by (simp_all add: m_def t_def)
      with backspace_refines [OF assms] show ?thesis by (auto simp: set_cell_def)
    next
      case 3
      have "con\<lparr>x_pos := x_pos con + 32\<rparr> = con\<lparr>x_pos := 8 * (s_col s + 4), y_pos := 16 * s_row s\<rparr>"
        "s\<lparr>s_col := s_col s + 4\<rparr> = s\<lparr>s_col := s_col s + 4, s_row := s_row s\<rparr>"
        using pos by simp_all
      with 3 assms(3) displays_move [OF assms(2), where c = "s_col s + 4" and r = "s_row s"] show ?thesis
        by (simp add: m_def t_def same_fb_def)
    next
      case 4
      then have "m = put_char c con" by (simp add: m_def)
      with 4 put_char_refines [OF assms, of c] show ?thesis by (auto simp: t_def Let_def)
    qed
  qed
  then obtain con1 where c1: "m = Some con1" "displays con1 t" "same_fb con con1" "s_row t \<le> text_rows con" by blast
  have ok1: "fb_ok con1" "text_rows con1 = text_rows con"
    using fb_ok_same [OF c1(3) assms(1)] text_rows_same [OF c1(3)] by simp_all
  from displays_roll [OF ok1(1) c1(2)] c1(4) ok1(2) obtain con' where
    "scroll_if_full con1 = Some con'" "displays con' (roll (text_rows con) t)" "same_fb con1 con'"
    "s_row (roll (text_rows con) t) < text_rows con"
    by auto
  with c1(1,3) show ?thesis
    unfolding write_char_def screen_write_def m_def [symmetric] t_def [symmetric]
    by (auto intro: same_fb_trans)
qed

lemma displays_clear:
  assumes "fb_ok con"
  shows "displays (console_clear con) blank_screen" "same_fb con (console_clear con)"
proof -
  have "plots con (fold (\<lambda>y. fold (\<lambda>x. plot_pixel con x y (bg_color con)) [0..<con_width con]) [0..<con_height con])
      (\<lambda>_ _. COLOR_BLACK) (\<Union>y \<in> set [0..<con_height con]. \<Union>x \<in> set [0..<con_width con]. {(x, y)})"
    using assms by (intro plots_fold plots_plot_pixel) (simp_all add: fb_ok_def)
  then have p: "plots con (\<lambda>b. fb (console_clear (con\<lparr>fb := b\<rparr>))) (\<lambda>_ _. COLOR_BLACK)
      ({0..<con_width con} \<times> {0..<con_height con})"
  proof -
    have same: "plot_pixel (con\<lparr>fb := b\<rparr>) = plot_pixel con" for b
      by (intro ext) (simp add: plot_pixel_def)
    have "(\<Union>y \<in> set [0..<con_height con]. \<Union>x \<in> set [0..<con_width con]. {(x, y)}) =
        {0..<con_width con} \<times> {0..<con_height con}" by auto
    with \<open>plots con _ _ _\<close> show ?thesis by (simp add: console_clear_def same)
  qed
  have self: "con\<lparr>fb := fb con\<rparr> = con" by simp
  have c: "con_width (console_clear con) = con_width con" "con_height (console_clear con) = con_height con"
    "pitch (console_clear con) = pitch con" "x_pos (console_clear con) = 0" "y_pos (console_clear con) = 0"
    "bpp (console_clear con) = bpp con" "fg_color (console_clear con) = fg_color con" "bg_color (console_clear con) = bg_color con"
    by (simp_all add: console_clear_def)
  show "displays (console_clear con) blank_screen"
    using p [unfolded plots_def, THEN conjunct1, rule_format, of _ _ _ "fb con"]
    by (simp add: displays_def c self blank_screen_def blank_color)
  show "same_fb con (console_clear con)"
    using p [unfolded plots_def, THEN conjunct2, rule_format, of _ "fb con"] by (simp add: same_fb_def self c)
qed

lemma write_text_refines:
  "fb_ok con \<Longrightarrow> displays con s \<Longrightarrow> s_row s < text_rows con \<Longrightarrow>
   \<exists>con'. write_text cs con = Some con' \<and> displays con' (fold (screen_write (text_rows con) (text_cols con)) cs s) \<and>
     same_fb con con' \<and> s_row (fold (screen_write (text_rows con) (text_cols con)) cs s) < text_rows con"
proof (induction cs arbitrary: con s)
  case (Cons c cs)
  from write_char_refines [OF Cons.prems, of c] obtain con1 where
    c1: "write_char c con = Some con1" "displays con1 (screen_write (text_rows con) (text_cols con) c s)"
      "same_fb con con1" "s_row (screen_write (text_rows con) (text_cols con) c s) < text_rows con"
    by blast
  have d: "text_rows con1 = text_rows con" "text_cols con1 = text_cols con" using text_rows_same [OF c1(3)] by simp_all
  from Cons.IH [OF fb_ok_same [OF c1(3) Cons.prems(1)] c1(2)] c1(4) d obtain con' where
    "write_text cs con1 = Some con'"
    "displays con' (fold (screen_write (text_rows con) (text_cols con)) (c # cs) s)" "same_fb con1 con'"
    "s_row (fold (screen_write (text_rows con) (text_cols con)) (c # cs) s) < text_rows con"
    by auto
  with c1(1,3) show ?case by (auto intro: same_fb_trans)
qed auto

definition welcome_text :: bytes where
  "welcome_text = ascii ''[Console Driver] Started successfully in Ring 3!'' @ newline"

lemma write_text_append: "write_text (cs @ ds) con = Option.bind (write_text cs con) (write_text ds)"
  by (induction cs arbitrary: con) (auto split: bind_splits)

text \<open>
  C16: The console driver implements a text screen. Started on a 32-bit frame buffer of at least one
  character cell, it handles every sequence of bytes without a panic, and the frame buffer then
  shows, pixel for pixel in the driver's font, the grid of characters that a text terminal of
  that size holds after the welcome message and these bytes: line breaks, backspace, tabulators,
  wrapping at the right edge and scrolling included. It never writes behind the frame buffer.
\<close>
theorem console_is_text_screen:
  assumes "lib_fb_info L w = ((paddr, wd, h, p, 4), w1)" "lib_map_physical L FB_VIRT paddr (p * h) w1 = (True, w2)"
    and "wd mod 8 = 0" "8 \<le> wd" "16 \<le> h" "4 * wd \<le> p"
  shows "\<exists>con con'. console_start L mem w = Some (con, w2) \<and> write_text text con = Some con' \<and>
    displays con' (fold (screen_write (h div 16) (wd div 8)) (welcome_text @ text) blank_screen) \<and>
    (\<forall>q. h * p \<le> q \<longrightarrow> fb con' q = mem q)"
proof -
  let ?con = "console_new mem\<lparr>con_width := wd, con_height := h, pitch := p, bpp := 4\<rparr>"
  have ok: "fb_ok ?con" using assms by (simp add: fb_ok_def console_new_def)
  note c = displays_clear [OF ok]
  have init: "console_init L (console_new mem, w) = Some (console_clear ?con, w2)"
    using assms(1,2) by (simp add: console_init_def)
  have dims: "text_rows (console_clear ?con) = h div 16" "text_cols (console_clear ?con) = wd div 8"
    using text_rows_same [OF c(2)] by simp_all
  have row: "s_row blank_screen < text_rows (console_clear ?con)"
    using assms(5) by (simp add: dims blank_screen_def div_greater_zero_iff)
  from write_text_refines [OF fb_ok_same [OF c(2) ok] c(1) row, of "welcome_text @ text"] obtain con' where
    r: "write_text (welcome_text @ text) (console_clear ?con) = Some con'"
      "displays con' (fold (screen_write (h div 16) (wd div 8)) (welcome_text @ text) blank_screen)"
      "same_fb (console_clear ?con) con'"
    unfolding dims by blast
  then obtain con1 where "write_text welcome_text (console_clear ?con) = Some con1" "write_text text con1 = Some con'"
    by (auto simp: write_text_append bind_eq_Some_conv)
  moreover have "\<forall>q. h * p \<le> q \<longrightarrow> fb con' q = mem q"
    using same_fb_trans [OF c(2) r(3)] by (simp add: same_fb_def console_new_def)
  ultimately show ?thesis using r(2) init by (auto simp: console_start_def welcome_text_def)
qed

lemma console_is_text_screen_witness:
  "\<exists>con con'. console_start demo_lib (\<lambda>_. 0xCC) () = Some (con, ()) \<and> write_text [0x41, 0x0A, 0x42] con = Some con' \<and>
    displays con' (fold (screen_write (768 div 16) (1024 div 8)) (welcome_text @ [0x41, 0x0A, 0x42]) blank_screen) \<and>
    (\<forall>q. 768 * 4096 \<le> q \<longrightarrow> fb con' q = 0xCC)"
proof (rule console_is_text_screen)
  show "lib_fb_info demo_lib () = ((0xFD000000, 1024, 768, 4096, 4), ())" by (simp add: demo_lib_def)
  show "lib_map_physical demo_lib FB_VIRT 0xFD000000 (4096 * 768) () = (True, ())" by (simp add: demo_lib_def)
qed simp_all

end
