(* ===== verification/Render.thy ===== *)
theory Render
  imports Compositor Terminal_Font Canvas Userlib
begin

text \<open>
  The drawing of the compositor, \<^verbatim>\<open>userland/compositor\<close>: the background, the bar, the decorations and
  the contents of the windows, the cursor, and the copy of the finished image to the frame buffer.
  Images are pixel functions (theory Canvas) of a screen of \<open>w\<close> by \<open>h\<close> pixels. Coordinates are
  natural numbers below \<open>2 ^ 64\<close> whose sums wrap around, as those of \<^verbatim>\<open>usize\<close> do.
\<close>

section \<open>Font and cursor\<close>

definition compositor_font :: "(u8 \<times> u8 list) list" where
  "compositor_font =
    [(0x41, [0b011100, 0b100010, 0b100010, 0b111110, 0b100010, 0b100010, 0b100010, 0]),
     (0x42, [0b111100, 0b100010, 0b111100, 0b100010, 0b100010, 0b100010, 0b111100, 0]),
     (0x43, [0b011100, 0b100010, 0b100000, 0b100000, 0b100000, 0b100010, 0b011100, 0]),
     (0x44, [0b111100, 0b100010, 0b100010, 0b100010, 0b100010, 0b100010, 0b111100, 0]),
     (0x45, [0b111110, 0b100000, 0b111100, 0b100000, 0b100000, 0b100000, 0b111110, 0]),
     (0x46, [0b111110, 0b100000, 0b111100, 0b100000, 0b100000, 0b100000, 0b100000, 0]),
     (0x47, [0b011100, 0b100010, 0b100000, 0b101110, 0b100010, 0b100010, 0b011100, 0]),
     (0x48, [0b100010, 0b100010, 0b100010, 0b111110, 0b100010, 0b100010, 0b100010, 0]),
     (0x49, [0b011100, 0b001000, 0b001000, 0b001000, 0b001000, 0b001000, 0b011100, 0]),
     (0x4A, [0b001110, 0b000100, 0b000100, 0b000100, 0b100100, 0b100100, 0b011000, 0]),
     (0x4B, [0b100010, 0b100100, 0b101000, 0b110000, 0b101000, 0b100100, 0b100010, 0]),
     (0x4C, [0b100000, 0b100000, 0b100000, 0b100000, 0b100000, 0b100000, 0b111110, 0]),
     (0x4D, [0b100010, 0b110110, 0b101010, 0b101010, 0b100010, 0b100010, 0b100010, 0]),
     (0x4E, [0b100010, 0b110010, 0b101010, 0b100110, 0b100010, 0b100010, 0b100010, 0]),
     (0x4F, [0b011100, 0b100010, 0b100010, 0b100010, 0b100010, 0b100010, 0b011100, 0]),
     (0x50, [0b111100, 0b100010, 0b100010, 0b111100, 0b100000, 0b100000, 0b100000, 0]),
     (0x51, [0b011100, 0b100010, 0b100010, 0b100010, 0b101010, 0b100100, 0b011010, 0]),
     (0x52, [0b111100, 0b100010, 0b100010, 0b111100, 0b101000, 0b100100, 0b100010, 0]),
     (0x53, [0b011100, 0b100010, 0b100000, 0b011100, 0b000010, 0b100010, 0b011100, 0]),
     (0x54, [0b111110, 0b001000, 0b001000, 0b001000, 0b001000, 0b001000, 0b001000, 0]),
     (0x55, [0b100010, 0b100010, 0b100010, 0b100010, 0b100010, 0b100010, 0b011100, 0]),
     (0x56, [0b100010, 0b100010, 0b100010, 0b100010, 0b010100, 0b010100, 0b001000, 0]),
     (0x57, [0b100010, 0b100010, 0b100010, 0b101010, 0b101010, 0b110110, 0b100010, 0]),
     (0x58, [0b100010, 0b100010, 0b010100, 0b001000, 0b010100, 0b100010, 0b100010, 0]),
     (0x59, [0b100010, 0b100010, 0b010100, 0b001000, 0b001000, 0b001000, 0b001000, 0]),
     (0x5A, [0b111110, 0b000010, 0b000100, 0b001000, 0b010000, 0b100000, 0b111110, 0]),
     (0x61, [0, 0, 0b011100, 0b000010, 0b011110, 0b100010, 0b011110, 0]),
     (0x62, [0b100000, 0b100000, 0b111100, 0b100010, 0b100010, 0b100010, 0b111100, 0]),
     (0x63, [0, 0, 0b011100, 0b100010, 0b100000, 0b100010, 0b011100, 0]),
     (0x64, [0b000010, 0b000010, 0b011110, 0b100010, 0b100010, 0b100010, 0b011110, 0]),
     (0x65, [0, 0, 0b011100, 0b100010, 0b111110, 0b100000, 0b011100, 0]),
     (0x66, [0b001100, 0b010010, 0b010000, 0b111000, 0b010000, 0b010000, 0b010000, 0]),
     (0x67, [0, 0, 0b011110, 0b100010, 0b100010, 0b011110, 0b000010, 0b011100]),
     (0x68, [0b100000, 0b100000, 0b111100, 0b100010, 0b100010, 0b100010, 0b100010, 0]),
     (0x69, [0b001000, 0, 0b011000, 0b001000, 0b001000, 0b001000, 0b011100, 0]),
     (0x6A, [0b000100, 0, 0b001100, 0b000100, 0b000100, 0b100100, 0b011000, 0]),
     (0x6B, [0b100000, 0b100000, 0b100100, 0b101000, 0b110000, 0b101000, 0b100100, 0]),
     (0x6C, [0b011000, 0b001000, 0b001000, 0b001000, 0b001000, 0b001000, 0b011100, 0]),
     (0x6D, [0, 0, 0b110100, 0b101010, 0b101010, 0b100010, 0b100010, 0]),
     (0x6E, [0, 0, 0b111100, 0b100010, 0b100010, 0b100010, 0b100010, 0]),
     (0x6F, [0, 0, 0b011100, 0b100010, 0b100010, 0b100010, 0b011100, 0]),
     (0x70, [0, 0, 0b111100, 0b100010, 0b100010, 0b111100, 0b100000, 0b100000]),
     (0x71, [0, 0, 0b011110, 0b100010, 0b100010, 0b011110, 0b000010, 0b000010]),
     (0x72, [0, 0, 0b101100, 0b110010, 0b100000, 0b100000, 0b100000, 0]),
     (0x73, [0, 0, 0b011110, 0b100000, 0b011100, 0b000010, 0b111100, 0]),
     (0x74, [0b010000, 0b010000, 0b111100, 0b010000, 0b010000, 0b010010, 0b001100, 0]),
     (0x75, [0, 0, 0b100010, 0b100010, 0b100010, 0b100010, 0b011110, 0]),
     (0x76, [0, 0, 0b100010, 0b100010, 0b100010, 0b010100, 0b001000, 0]),
     (0x77, [0, 0, 0b100010, 0b100010, 0b101010, 0b110110, 0b100010, 0]),
     (0x78, [0, 0, 0b100010, 0b010100, 0b001000, 0b010100, 0b100010, 0]),
     (0x79, [0, 0, 0b100010, 0b100010, 0b100010, 0b011110, 0b000010, 0b011100]),
     (0x7A, [0, 0, 0b111110, 0b000100, 0b001000, 0b010000, 0b111110, 0]),
     (0x30, [0b011100, 0b100010, 0b100110, 0b101010, 0b110010, 0b100010, 0b011100, 0]),
     (0x31, [0b001000, 0b011000, 0b001000, 0b001000, 0b001000, 0b001000, 0b011100, 0]),
     (0x32, [0b011100, 0b100010, 0b000010, 0b000100, 0b001000, 0b010000, 0b111110, 0]),
     (0x33, [0b011100, 0b100010, 0b000010, 0b001100, 0b000010, 0b100010, 0b011100, 0]),
     (0x34, [0b000100, 0b001100, 0b010100, 0b100100, 0b111110, 0b000100, 0b000100, 0]),
     (0x35, [0b111110, 0b100000, 0b111100, 0b000010, 0b000010, 0b100010, 0b011100, 0]),
     (0x36, [0b011100, 0b100000, 0b111100, 0b100010, 0b100010, 0b100010, 0b011100, 0]),
     (0x37, [0b111110, 0b000010, 0b000100, 0b001000, 0b010000, 0b010000, 0b010000, 0]),
     (0x38, [0b011100, 0b100010, 0b100010, 0b011100, 0b100010, 0b100010, 0b011100, 0]),
     (0x39, [0b011100, 0b100010, 0b100010, 0b011110, 0b000010, 0b000010, 0b011100, 0]),
     (0x20, [0, 0, 0, 0, 0, 0, 0, 0]),
     (0x2E, [0, 0, 0, 0, 0, 0b001000, 0b001000, 0]),
     (0x2C, [0, 0, 0, 0, 0, 0b001000, 0b001000, 0b010000]),
     (0x3A, [0, 0b001000, 0b001000, 0, 0b001000, 0b001000, 0, 0]),
     (0x3B, [0, 0b001000, 0b001000, 0, 0b001000, 0b001000, 0b010000, 0]),
     (0x2D, [0, 0, 0, 0b111110, 0, 0, 0, 0]),
     (0x5F, [0, 0, 0, 0, 0, 0, 0b111110, 0]),
     (0x2B, [0, 0b001000, 0b001000, 0b111110, 0b001000, 0b001000, 0, 0]),
     (0x3D, [0, 0, 0b111110, 0, 0b111110, 0, 0, 0]),
     (0x2F, [0b000010, 0b000100, 0b000100, 0b001000, 0b010000, 0b010000, 0b100000, 0]),
     (0x5C, [0b100000, 0b010000, 0b010000, 0b001000, 0b000100, 0b000100, 0b000010, 0]),
     (0x7C, [0b001000, 0b001000, 0b001000, 0b001000, 0b001000, 0b001000, 0b001000, 0]),
     (0x5B, [0b011100, 0b010000, 0b010000, 0b010000, 0b010000, 0b010000, 0b011100, 0]),
     (0x5D, [0b011100, 0b000100, 0b000100, 0b000100, 0b000100, 0b000100, 0b011100, 0]),
     (0x28, [0b000100, 0b001000, 0b010000, 0b010000, 0b010000, 0b001000, 0b000100, 0]),
     (0x29, [0b010000, 0b001000, 0b000100, 0b000100, 0b000100, 0b001000, 0b010000, 0]),
     (0x3C, [0b000100, 0b001000, 0b010000, 0b100000, 0b010000, 0b001000, 0b000100, 0]),
     (0x3E, [0b100000, 0b010000, 0b001000, 0b000100, 0b001000, 0b010000, 0b100000, 0]),
     (0x7E, [0, 0, 0b010000, 0b101010, 0b000100, 0, 0, 0]),
     (0x24, [0b001000, 0b011110, 0b101000, 0b011100, 0b001010, 0b111100, 0b001000, 0]),
     (0x40, [0b011100, 0b100010, 0b101110, 0b101010, 0b101110, 0b100000, 0b011100, 0]),
     (0x21, [0b001000, 0b001000, 0b001000, 0b001000, 0b001000, 0, 0b001000, 0]),
     (0x3F, [0b011100, 0b100010, 0b000100, 0b001000, 0b001000, 0, 0b001000, 0]),
     (0x2A, [0, 0b101010, 0b011100, 0b111110, 0b011100, 0b101010, 0, 0]),
     (0x23, [0b010100, 0b111110, 0b010100, 0b010100, 0b111110, 0b010100, 0, 0]),
     (0x22, [0b010100, 0b010100, 0, 0, 0, 0, 0, 0]),
     (0x27, [0b001000, 0b001000, 0, 0, 0, 0, 0, 0])]"

definition comp_font_glyph :: "u8 \<Rightarrow> u8 list" where
  "comp_font_glyph ch = (case map_of compositor_font ch of Some g \<Rightarrow> g | None \<Rightarrow> [0b111110, 0b100010, 0b100010, 0b100010, 0b100010, 0b100010, 0b111110, 0])"

definition CURSOR_BITMAP :: "u8 list list" where
  "CURSOR_BITMAP =
    [[3, 3, 3, 2, 0, 0, 0, 0, 0, 0, 0, 0, 0, 0, 0, 0],
     [3, 1, 1, 3, 2, 0, 0, 0, 0, 0, 0, 0, 0, 0, 0, 0],
     [3, 1, 1, 1, 3, 2, 0, 0, 0, 0, 0, 0, 0, 0, 0, 0],
     [2, 3, 1, 1, 1, 3, 2, 0, 0, 0, 0, 0, 0, 0, 0, 0],
     [0, 2, 3, 1, 1, 1, 3, 2, 0, 0, 0, 0, 0, 0, 0, 0],
     [0, 0, 2, 3, 1, 1, 1, 3, 2, 0, 0, 0, 0, 0, 0, 0],
     [0, 0, 0, 2, 3, 1, 1, 1, 3, 2, 0, 0, 0, 0, 0, 0],
     [0, 0, 0, 0, 2, 3, 1, 1, 1, 3, 2, 0, 0, 0, 0, 0],
     [0, 0, 0, 0, 0, 2, 3, 1, 1, 3, 2, 0, 0, 0, 0, 0],
     [0, 0, 0, 0, 0, 0, 2, 3, 1, 2, 0, 0, 0, 0, 0, 0],
     [0, 0, 0, 0, 0, 0, 0, 2, 3, 0, 3, 0, 0, 0, 0, 0],
     [0, 0, 0, 0, 0, 0, 0, 0, 0, 0, 0, 3, 0, 0, 0, 0],
     [0, 0, 0, 0, 0, 0, 0, 0, 0, 0, 0, 0, 0, 0, 0, 0],
     [0, 0, 0, 0, 0, 0, 0, 0, 0, 0, 0, 0, 0, 0, 0, 0],
     [0, 0, 0, 0, 0, 0, 0, 0, 0, 0, 0, 0, 0, 0, 0, 0],
     [0, 0, 0, 0, 0, 0, 0, 0, 0, 0, 0, 0, 0, 0, 0, 0]]"

text \<open>The two programs have a copy each of the same font.\<close>

lemma same_font: "comp_font_glyph = get_font_glyph"
proof -
  have "compositor_font = terminal_font" by (simp only: compositor_font_def terminal_font_def)
  then show ?thesis by (intro ext) (simp add: comp_font_glyph_def get_font_glyph_def missing_glyph_def split: option.split)
qed

section \<open>Drawing\<close>

abbreviation COLOR_BG_OBSIDIAN :: u32 where "COLOR_BG_OBSIDIAN \<equiv> 0xFF080A0F"
abbreviation COLOR_BG_GRID_DOT :: u32 where "COLOR_BG_GRID_DOT \<equiv> 0xFF161D2A"
abbreviation COLOR_BG_CROSSHAIR :: u32 where "COLOR_BG_CROSSHAIR \<equiv> 0xFF1F293A"
abbreviation COLOR_TOPBAR_BG :: u32 where "COLOR_TOPBAR_BG \<equiv> 0xFF0C1017"
abbreviation COLOR_TOPBAR_LINE :: u32 where "COLOR_TOPBAR_LINE \<equiv> 0xFF1E293B"
abbreviation COLOR_ACCENT_CYAN :: u32 where "COLOR_ACCENT_CYAN \<equiv> 0xFF00E5FF"
abbreviation COLOR_ACCENT_AMBER :: u32 where "COLOR_ACCENT_AMBER \<equiv> 0xFFFFB000"
abbreviation COLOR_PILL_BG :: u32 where "COLOR_PILL_BG \<equiv> 0xFF131B26"
abbreviation COLOR_PILL_BORDER :: u32 where "COLOR_PILL_BORDER \<equiv> 0xFF26354A"
abbreviation COLOR_POWER_BG :: u32 where "COLOR_POWER_BG \<equiv> 0xFF2A1215"
abbreviation COLOR_POWER_BORDER :: u32 where "COLOR_POWER_BORDER \<equiv> 0xFFFF3355"
abbreviation COLOR_WIN_HEADER_ACTIVE :: u32 where "COLOR_WIN_HEADER_ACTIVE \<equiv> 0xFF0F1722"
abbreviation COLOR_BORDER_ACTIVE :: u32 where "COLOR_BORDER_ACTIVE \<equiv> 0xFF00E5FF"
abbreviation COLOR_TITLE_ACTIVE :: u32 where "COLOR_TITLE_ACTIVE \<equiv> 0xFFE2E8F0"
abbreviation COLOR_WIN_HEADER_INACT :: u32 where "COLOR_WIN_HEADER_INACT \<equiv> 0xFF0B0E14"
abbreviation COLOR_BORDER_INACTIVE :: u32 where "COLOR_BORDER_INACTIVE \<equiv> 0xFF222D3D"
abbreviation COLOR_TITLE_INACTIVE :: u32 where "COLOR_TITLE_INACTIVE \<equiv> 0xFF64748B"
abbreviation COLOR_TEXT_BRIGHT :: u32 where "COLOR_TEXT_BRIGHT \<equiv> 0xFFF1F5F9"
abbreviation COLOR_TEXT_MUTED :: u32 where "COLOR_TEXT_MUTED \<equiv> 0xFF94A3B8"
abbreviation COLOR_CLOSE_FG :: u32 where "COLOR_CLOSE_FG \<equiv> 0xFFFF4466"
abbreviation COLOR_CURSOR_MAIN :: u32 where "COLOR_CURSOR_MAIN \<equiv> 0xFF00E5FF"
abbreviation COLOR_CURSOR_CORE :: u32 where "COLOR_CURSOR_CORE \<equiv> 0xFFFFFFFF"
abbreviation COLOR_CURSOR_OUTLINE :: u32 where "COLOR_CURSOR_OUTLINE \<equiv> 0xFF05070A"

definition wplus :: "nat \<Rightarrow> nat \<Rightarrow> nat" where
  "wplus a b = (a + b) mod 2 ^ 64"

definition wpred :: "nat \<Rightarrow> nat" where
  "wpred a = (if a = 0 then 2 ^ 64 - 1 else a - 1)"

definition comp_set_pixel :: "nat \<Rightarrow> nat \<Rightarrow> nat \<Rightarrow> nat \<Rightarrow> u32 \<Rightarrow> pixels \<Rightarrow> pixels" where
  "comp_set_pixel w h x y color b = (if x < w \<and> y < h then b(y * w + x := color) else b)"

definition comp_fill_rect :: "nat \<Rightarrow> nat \<Rightarrow> nat \<Rightarrow> nat \<Rightarrow> nat \<Rightarrow> nat \<Rightarrow> u32 \<Rightarrow> pixels \<Rightarrow> pixels" where
  "comp_fill_rect w h x y rw rh color =
     fold (\<lambda>dy. fold (\<lambda>dx b. b(wplus y dy * w + wplus x dx := color)) (takeWhile (\<lambda>dx. wplus x dx < w) [0..<rw]))
       (takeWhile (\<lambda>dy. wplus y dy < h) [0..<rh])"

definition stroke_rect :: "nat \<Rightarrow> nat \<Rightarrow> nat \<Rightarrow> nat \<Rightarrow> nat \<Rightarrow> nat \<Rightarrow> u32 \<Rightarrow> pixels \<Rightarrow> pixels" where
  "stroke_rect w h x y rw rh color b =
     (if rw = 0 \<or> rh = 0 then b
      else comp_fill_rect w h (wpred (wplus x rw)) y 1 rh color
        (comp_fill_rect w h x y 1 rh color
          (comp_fill_rect w h x (wpred (wplus y rh)) rw 1 color
            (comp_fill_rect w h x y rw 1 color b))))"

definition comp_draw_char :: "nat \<Rightarrow> nat \<Rightarrow> nat \<Rightarrow> nat \<Rightarrow> u8 \<Rightarrow> u32 \<Rightarrow> pixels \<Rightarrow> pixels" where
  "comp_draw_char w h x y ch color =
     fold (\<lambda>(row, bits). fold (\<lambda>col b.
         if drop_bit (5 - col) bits AND 1 \<noteq> 0 then comp_set_pixel w h (wplus x col) (wplus y row) color b else b) [0..<6])
       (enumerate 0 (comp_font_glyph ch))"

fun comp_draw_text :: "nat \<Rightarrow> nat \<Rightarrow> nat \<Rightarrow> nat \<Rightarrow> bytes \<Rightarrow> u32 \<Rightarrow> pixels \<Rightarrow> pixels" where
  "comp_draw_text w h x y [] color b = b"
| "comp_draw_text w h x y (ch # text) color b =
     comp_draw_text w h (wplus x 7) y text color (comp_draw_char w h x y ch color b)"

text \<open>The same into another image: a row below the screen is skipped.\<close>

fun draw_text_into :: "nat \<Rightarrow> nat \<Rightarrow> nat \<Rightarrow> nat \<Rightarrow> bytes \<Rightarrow> u32 \<Rightarrow> pixels \<Rightarrow> pixels" where
  "draw_text_into w h x y [] color b = b"
| "draw_text_into w h x y (ch # text) color b =
     draw_text_into w h (wplus x 7) y text color
       (fold (\<lambda>(row, bits) b.
           if wplus y row \<ge> h then b
           else fold (\<lambda>col b.
             if drop_bit (5 - col) bits AND 1 \<noteq> 0 \<and> wplus x col < w then b(wplus y row * w + wplus x col := color) else b)
             [0..<6] b)
         (enumerate 0 (comp_font_glyph ch)) b)"

section \<open>The background\<close>

text \<open>An index of a vector is checked: a store past its \<open>len\<close> elements panics.\<close>

definition vec_set :: "nat \<Rightarrow> nat \<Rightarrow> u32 \<Rightarrow> pixels option \<Rightarrow> pixels option" where
  "vec_set len i color ob = (case ob of None \<Rightarrow> None | Some b \<Rightarrow> if i < len then Some (b(i := color)) else None)"

definition step_by :: "nat \<Rightarrow> nat \<Rightarrow> nat \<Rightarrow> nat list" where
  "step_by a b s = filter (\<lambda>i. (i - a) mod s = 0) [a..<b]"

definition grid_dots :: "nat \<Rightarrow> nat \<Rightarrow> pixels option \<Rightarrow> pixels option" where
  "grid_dots w h = fold (\<lambda>y. fold (\<lambda>x. vec_set (w * h) (y * w + x) COLOR_BG_GRID_DOT) (step_by 16 w 24)) (step_by (24 + 16) h 24)"

definition crosshairs :: "nat \<Rightarrow> nat \<Rightarrow> pixels option \<Rightarrow> pixels option" where
  "crosshairs w h =
     fold (\<lambda>y. fold (\<lambda>x. fold (\<lambda>d ob.
         let cx = x + d - 2; cy = y + d - 2;
             ob1 = (if cx < w \<and> y < h then vec_set (w * h) (y * w + cx) COLOR_BG_CROSSHAIR ob else ob)
         in if x < w \<and> cy < h then vec_set (w * h) (cy * w + x) COLOR_BG_CROSSHAIR ob1 else ob1) [0..<5])
       (step_by 64 (w - 32) 120)) (step_by (24 + 64) (h - 32) 120)"

definition top_strip :: "nat \<Rightarrow> nat \<Rightarrow> pixels option \<Rightarrow> pixels option" where
  "top_strip w h ob0 =
     (let set = vec_set (w * h);
          ob1 = fold (\<lambda>y. fold (\<lambda>x. set (y * w + x) COLOR_TOPBAR_BG) [0..<w]) [0..<24] ob0;
          ob2 = (if 24 < h then fold (\<lambda>x. set (23 * w + x) COLOR_ACCENT_CYAN) [0..<min 96 w]
                   (fold (\<lambda>x. set (23 * w + x) COLOR_TOPBAR_LINE) [0..<w] ob1) else ob1)
      in fold (\<lambda>y. fold (\<lambda>x. set (y * w + x) COLOR_ACCENT_CYAN) [8..<11]) [4..<20] ob2)"

definition prerender_background :: "nat \<Rightarrow> nat \<Rightarrow> pixels \<Rightarrow> pixels option" where
  "prerender_background w h b =
     map_option (\<lambda>b.
         let b1 = draw_text_into w h 92 8 (ascii ''v1.0-MONOLITH'') COLOR_TEXT_MUTED
                    (draw_text_into w h 16 8 (ascii ''HUSEYN//OS'') COLOR_TEXT_BRIGHT b)
         in if h > 24 then draw_text_into w h 12 (h - 14) (ascii ''MICROKERNEL // X86_64 // ZERO-RING3-ISOLATION'') COLOR_BG_CROSSHAIR b1
            else b1)
       (top_strip w h (crosshairs w h (grid_dots w h
          (fold (\<lambda>i. vec_set (w * h) i COLOR_BG_OBSIDIAN) [0..<w * h] (Some b)))))"

section \<open>The frame\<close>

definition digit_pair :: "u8 \<Rightarrow> bytes" where
  "digit_pair v = [0x30 + v div 10, 0x30 + v mod 10]"

definition text_if_valid :: "nat \<Rightarrow> nat \<Rightarrow> nat \<Rightarrow> nat \<Rightarrow> bytes \<Rightarrow> u32 \<Rightarrow> pixels \<Rightarrow> pixels" where
  "text_if_valid w h x y text color b = (if valid_utf8 text then comp_draw_text w h x y text color b else b)"

text \<open>The bar: buttons, number of windows, clock. \<open>count\<close> windows are open and it is the time \<open>dt\<close>.\<close>

definition draw_topbar_dynamic :: "nat \<Rightarrow> nat \<Rightarrow> bool \<Rightarrow> nat \<Rightarrow> datetime \<Rightarrow> pixels \<Rightarrow> pixels" where
  "draw_topbar_dynamic w h tile count dt b =
     (let b1 = comp_draw_text w h 207 8 (ascii ''+TERM'') COLOR_ACCENT_CYAN
                 (stroke_rect w h 200 4 56 16 COLOR_PILL_BORDER (comp_fill_rect w h 200 4 56 16 COLOR_PILL_BG b));
          b2 = stroke_rect w h 264 4 64 16 (if tile then COLOR_ACCENT_AMBER else COLOR_PILL_BORDER)
                 (comp_fill_rect w h 264 4 64 16 COLOR_PILL_BG b1);
          b3 = (if tile then comp_draw_text w h 273 8 (ascii ''M:TILE'') COLOR_ACCENT_AMBER b2
                else comp_draw_text w h 270 8 (ascii ''M:FLOAT'') COLOR_TEXT_MUTED b2);
          b4 = text_if_valid w h 340 8 (ascii ''TASKS:'' @ [0x30 + of_nat (min count 9)]) COLOR_TEXT_MUTED b3;
          b5 = text_if_valid w h (w - 114) 8
                 (digit_pair (hour dt) @ ascii '':'' @ digit_pair (minute dt) @ ascii '':'' @ digit_pair (second dt))
                 COLOR_TEXT_BRIGHT b4;
          pw_x = w - 46
      in comp_draw_text w h (pw_x + 9) 8 (ascii ''PWR'') COLOR_CLOSE_FG
           (stroke_rect w h pw_x 4 38 16 COLOR_POWER_BORDER (comp_fill_rect w h pw_x 4 38 16 COLOR_POWER_BG b5)))"

definition pid_tag :: "nat \<Rightarrow> bytes" where
  "pid_tag pid =
     (let d1 = of_nat (pid div 10) :: u8; d0 = of_nat (pid mod 10) :: u8
      in if d1 > 0 then ascii ''[PID:'' @ [0x30 + d1, 0x30 + d0] @ ascii '']''
         else ascii ''[PID:'' @ [0x30 + d0] @ ascii '']'')"

definition close_button :: "nat \<Rightarrow> nat \<Rightarrow> nat \<Rightarrow> nat \<Rightarrow> bool \<Rightarrow> pixels \<Rightarrow> pixels" where
  "close_button w h btn_x btn_y is_active b =
     fold (\<lambda>i b. comp_set_pixel w h (wplus btn_x (11 - i)) (wplus btn_y i) COLOR_CLOSE_FG
                   (comp_set_pixel w h (wplus btn_x i) (wplus btn_y i) COLOR_CLOSE_FG b)) [3..<9]
       (stroke_rect w h btn_x btn_y 12 12 (if is_active then COLOR_CLOSE_FG else COLOR_BORDER_INACTIVE) b)"

definition draw_window_decorations :: "nat \<Rightarrow> nat \<Rightarrow> bool \<Rightarrow> window \<Rightarrow> pixels \<Rightarrow> pixels" where
  "draw_window_decorations w h is_active win b =
     (let border_color = (if is_active then COLOR_BORDER_ACTIVE else COLOR_BORDER_INACTIVE);
          header_bg = (if is_active then COLOR_WIN_HEADER_ACTIVE else COLOR_WIN_HEADER_INACT);
          title_color = (if is_active then COLOR_TITLE_ACTIVE else COLOR_TITLE_INACTIVE);
          accent = (if is_active then COLOR_ACCENT_CYAN else COLOR_BORDER_INACTIVE);
          total_w = unat (total_width win); total_h = unat (total_height win);
          tb_x = unat (win_x win + BORDER_WIDTH); tb_y = unat (win_y win + BORDER_WIDTH);
          b1 = stroke_rect w h (unat (win_x win)) (unat (win_y win)) total_w total_h border_color b;
          b2 = comp_fill_rect w h tb_x tb_y (unat (win_width win)) 19 header_bg b1;
          b3 = comp_fill_rect w h tb_x (wplus tb_y 19) (unat (win_width win)) 1 border_color b2;
          b4 = comp_fill_rect w h (wplus tb_x 6) (wplus tb_y 6) 4 7 accent b3;
          text = (if title_len win > 0 then take (title_len win) (win_title win) else ascii ''node'');
          b5 = comp_draw_text w h (wplus tb_x 15) (wplus tb_y 6) text title_color b4;
          b6 = text_if_valid w h (wplus tb_x (15 + (length text + 1) * 7)) (wplus tb_y 6) (pid_tag (owner_pid win)) COLOR_TEXT_MUTED b5
      in close_button w h
           (unat (win_x win + total_width win - BORDER_WIDTH - CLOSE_BTN_MARGIN - CLOSE_BTN_SIZE))
           (unat (win_y win + BORDER_WIDTH + (TITLE_BAR_HEIGHT - CLOSE_BTN_SIZE) div 2)) is_active b6)"

text \<open>The contents: \<open>buf\<close> is what the client has drawn; pixels without opacity are skipped.\<close>

definition client_x :: "window \<Rightarrow> nat" where
  "client_x win = unat (win_x win + BORDER_WIDTH)"

definition client_y :: "window \<Rightarrow> nat" where
  "client_y win = unat (win_y win + TITLE_BAR_HEIGHT + BORDER_WIDTH)"

definition draw_contents :: "nat \<Rightarrow> nat \<Rightarrow> window \<Rightarrow> pixels \<Rightarrow> pixels \<Rightarrow> pixels" where
  "draw_contents w h win buf =
     fold (\<lambda>y. fold (\<lambda>x b.
         let pixel = buf (y * unat (win_width win) + x)
         in if drop_bit 24 pixel \<noteq> 0 then comp_set_pixel w h (wplus (client_x win) x) (wplus (client_y win) y) pixel b else b)
         (takeWhile (\<lambda>x. wplus (client_x win) x < w) [0..<unat (win_width win)]))
       (takeWhile (\<lambda>y. wplus (client_y win) y < h) [0..<unat (win_height win)])"

definition draw_windows :: "nat \<Rightarrow> nat \<Rightarrow> (u64 \<Rightarrow> pixels) \<Rightarrow> window list \<Rightarrow> pixels \<Rightarrow> pixels" where
  "draw_windows w h bufs ws =
     fold (\<lambda>(idx, win) b. draw_contents w h win (bufs (win_buffer win))
             (draw_window_decorations w h (idx = length ws - 1) win b))
       (enumerate 0 ws)"

definition cursor_color :: "u8 \<Rightarrow> u32 option" where
  "cursor_color k =
     (if k = 1 then Some COLOR_CURSOR_CORE else if k = 2 then Some COLOR_CURSOR_OUTLINE
      else if k = 3 then Some COLOR_CURSOR_MAIN else None)"

definition draw_cursor :: "nat \<Rightarrow> nat \<Rightarrow> nat \<Rightarrow> nat \<Rightarrow> pixels \<Rightarrow> pixels" where
  "draw_cursor w h cx cy =
     fold (\<lambda>dy. fold (\<lambda>dx b. case cursor_color (CURSOR_BITMAP ! dy ! dx) of
          None \<Rightarrow> b | Some c \<Rightarrow> comp_set_pixel w h (wplus cx dx) (wplus cy dy) c b) [0..<16]) [0..<16]"

text \<open>The copy to the frame buffer, a row at a time; rows are \<open>stride\<close> pixels apart.\<close>

definition blit :: "nat \<Rightarrow> nat \<Rightarrow> nat \<Rightarrow> pixels \<Rightarrow> pixels \<Rightarrow> pixels" where
  "blit w h stride backbuf =
     fold (\<lambda>y fb p. if y * stride \<le> p \<and> p < y * stride + w then backbuf (y * w + (p - y * stride)) else fb p) [0..<h]"

record display =
  scr_w :: nat
  scr_h :: nat
  scr_pitch :: nat
  bg_cache :: pixels
  framebuf :: pixels

text \<open>
  The image of a frame, and the frame: \<open>bufs\<close> maps the address of a window's memory to its pixels.
  The back buffer is overwritten by the background first, so that it is no state between frames.
\<close>

definition frame_image :: "display \<Rightarrow> (u64 \<Rightarrow> pixels) \<Rightarrow> datetime \<Rightarrow> compositor \<Rightarrow> pixels" where
  "frame_image d bufs dt c =
     (let w = scr_w d; h = scr_h d
      in draw_cursor w h (unat (scast (pointer_x c) :: u64)) (unat (scast (pointer_y c) :: u64))
           (draw_windows w h bufs (windows c)
             (draw_topbar_dynamic w h (tile_mode c) (length (windows c)) dt (bg_cache d))))"

definition render :: "(u64 \<Rightarrow> pixels) \<Rightarrow> datetime \<Rightarrow> compositor \<times> display \<Rightarrow> compositor \<times> display" where
  "render bufs dt = (\<lambda>(c, d).
     (c\<lparr>dirty := False\<rparr>, d\<lparr>framebuf := blit (scr_w d) (scr_h d) (scr_pitch d div 4) (frame_image d bufs dt c) (framebuf d)\<rparr>))"

text \<open>
  One round of the main loop: \<open>ms\<close> are the message waited for and those found behind it, each with
  whether the memory of a new window could be mapped.
\<close>

definition compositor_round ::
  "msg_types \<Rightarrow> (bool \<times> message) list \<Rightarrow> (u64 \<Rightarrow> pixels) \<Rightarrow> datetime \<Rightarrow> compositor \<times> display \<Rightarrow>
   (compositor \<times> display) \<times> effect list" where
  "compositor_round T ms bufs dt = (\<lambda>(c, d).
     case drive (\<lambda>(b, m). handle_message T b m) ms c of (c', es) \<Rightarrow>
       (if dirty c' then render bufs dt (c', d) else (c', d), es))"

definition FB_ADDRESS :: u64 where
  "FB_ADDRESS = 0xA0000000"

definition compositor_init :: "'w lib \<Rightarrow> pixels \<Rightarrow> 'w \<Rightarrow> ((compositor \<times> display) \<times> 'w) option" where
  "compositor_init L mem w0 =
     (case lib_fb_info L w0 of ((paddr, w, h, p, bpp), w1) \<Rightarrow>
      case lib_map_physical L FB_ADDRESS paddr (p * h) w1 of (ok, w2) \<Rightarrow>
        if \<not> ok then None
        else map_option (\<lambda>bg. ((compositor_new (of_nat w) (of_nat h),
               \<lparr>scr_w = w, scr_h = h, scr_pitch = p, bg_cache = bg, framebuf = mem\<rparr>), w2))
             (prerender_background w h (\<lambda>_. 0)))"

section \<open>Where drawing stores\<close>

definition keeps :: "(pixels \<Rightarrow> pixels) \<Rightarrow> nat set \<Rightarrow> bool" where
  "keeps F S \<longleftrightarrow> (\<forall>b p. p \<notin> S \<longrightarrow> F b p = b p)"

lemma keeps_fold: "(\<And>i. i \<in> set xs \<Longrightarrow> keeps (F i) S) \<Longrightarrow> keeps (fold F xs) S"
proof (induction xs)
  case (Cons i xs)
  then have "keeps (F i) S" "keeps (fold F xs) S" by auto
  then show ?case by (simp add: keeps_def)
qed (simp add: keeps_def)

lemma keeps_apply: "keeps F S \<Longrightarrow> p \<notin> S \<Longrightarrow> F b p = b p"
  by (simp add: keeps_def)

named_theorems outside

text \<open>Every operation leaves the memory behind the \<open>w * h\<close> pixels of the image alone.\<close>

lemma outside_set_pixel [outside]: "w * h \<le> p \<Longrightarrow> comp_set_pixel w h x y color b p = b p"
  using offset_below [of x w y h] by (auto simp: comp_set_pixel_def)

lemma outside_fold:
  "(\<And>i b. i \<in> set xs \<Longrightarrow> F i b p = b p) \<Longrightarrow> fold F xs b p = (b :: pixels) p"
  by (induction xs arbitrary: b) auto

lemma outside_fill_rect [outside]: "w * h \<le> p \<Longrightarrow> comp_fill_rect w h x y rw rh color b p = b p"
  unfolding comp_fill_rect_def
proof (intro outside_fold)
  fix dy dx b assume p: "w * h \<le> p" and "dy \<in> set (takeWhile (\<lambda>dy. wplus y dy < h) [0..<rh])"
    "dx \<in> set (takeWhile (\<lambda>dx. wplus x dx < w) [0..<rw])"
  then have "wplus y dy < h" "wplus x dx < w" by (auto dest: set_takeWhileD)
  then show "(b(wplus y dy * w + wplus x dx := color)) p = b p"
    using offset_below [of "wplus x dx" w "wplus y dy" h] p by auto
qed

lemma outside_stroke_rect [outside]: "w * h \<le> p \<Longrightarrow> stroke_rect w h x y rw rh color b p = b p"
  by (simp add: stroke_rect_def outside)

lemma outside_draw_char [outside]: "w * h \<le> p \<Longrightarrow> comp_draw_char w h x y ch color b p = b p"
  unfolding comp_draw_char_def by (intro outside_fold) (auto simp: outside intro!: outside_fold)

lemma outside_draw_text [outside]: "w * h \<le> p \<Longrightarrow> comp_draw_text w h x y cs color b p = b p"
  by (induction cs arbitrary: x b) (simp_all add: outside)

lemma outside_text_if_valid [outside]: "w * h \<le> p \<Longrightarrow> text_if_valid w h x y text color b p = b p"
  by (simp add: text_if_valid_def outside)

lemma outside_topbar [outside]: "w * h \<le> p \<Longrightarrow> draw_topbar_dynamic w h tile n dt b p = b p"
  by (simp add: draw_topbar_dynamic_def Let_def outside)

lemma outside_close_button [outside]: "w * h \<le> p \<Longrightarrow> close_button w h x y act b p = b p"
  unfolding close_button_def by (subst outside_fold) (simp_all add: outside)

lemma outside_decorations [outside]: "w * h \<le> p \<Longrightarrow> draw_window_decorations w h act win b p = b p"
  by (simp add: draw_window_decorations_def Let_def outside)

lemma outside_contents [outside]: "w * h \<le> p \<Longrightarrow> draw_contents w h win buf b p = b p"
  unfolding draw_contents_def Let_def by (intro outside_fold) (simp add: outside)

lemma outside_windows [outside]: "w * h \<le> p \<Longrightarrow> draw_windows w h bufs ws b p = b p"
  unfolding draw_windows_def by (intro outside_fold) (auto simp: outside)

lemma outside_cursor [outside]: "w * h \<le> p \<Longrightarrow> draw_cursor w h cx cy b p = b p"
  unfolding draw_cursor_def by (intro outside_fold) (simp add: outside split: option.split)

subsection \<open>The cursor, the contents of a window, the copy\<close>

definition cursor_box :: "compositor \<Rightarrow> (nat \<times> nat) set" where
  "cursor_box c =
     {(wplus (unat (scast (pointer_x c) :: u64)) dx, wplus (unat (scast (pointer_y c) :: u64)) dy) | dx dy. dx < 16 \<and> dy < 16}"

lemma cursor_outside:
  assumes "\<And>dx dy. dx < 16 \<Longrightarrow> dy < 16 \<Longrightarrow> (x, y) \<noteq> (wplus cx dx, wplus cy dy)" "x < w"
  shows "draw_cursor w h cx cy b (y * w + x) = b (y * w + x)"
proof -
  have "keeps (draw_cursor w h cx cy) (- {y * w + x})"
    unfolding draw_cursor_def
  proof (intro keeps_fold)
    fix dy dx :: nat assume "dy \<in> set [0..<16]" "dx \<in> set [0..<16]"
    then have "(x, y) \<noteq> (wplus cx dx, wplus cy dy)" using assms(1) by simp
    then have "wplus cx dx < w \<Longrightarrow> wplus cy dy * w + wplus cx dx \<noteq> y * w + x"
      using assms(2) by (metis div_mult_self3 div_less add_0_right mod_less mod_mult_self3 less_nat_zero_code)
    then show "keeps (\<lambda>b. case cursor_color (CURSOR_BITMAP ! dy ! dx) of
        None \<Rightarrow> b | Some c \<Rightarrow> comp_set_pixel w h (wplus cx dx) (wplus cy dy) c b) (- {y * w + x})"
      by (auto simp: keeps_def comp_set_pixel_def split: option.split)
  qed
  then show ?thesis by (simp add: keeps_def)
qed

lemma takeWhile_upt:
  assumes "\<And>d. d < k \<Longrightarrow> P d" "\<not> P k"
  shows "takeWhile P [0..<n] = [0..<min n k]"
proof (cases "n \<le> k")
  case True
  then have "\<forall>d \<in> set [0..<n]. P d" using assms(1) by auto
  then have "takeWhile P [0..<n] = [0..<n]" by (simp only: takeWhile_eq_all_conv)
  with True show ?thesis by (simp add: min_absorb1)
next
  case False
  then have "[0..<n] = [0..<k] @ k # [Suc k..<n]"
    by (metis le_add_diff_inverse nat_le_linear not_less upt_add_eq_append upt_conv_Cons zero_le less_or_eq_imp_le)
  moreover have "takeWhile P ([0..<k] @ k # [Suc k..<n]) = [0..<k]"
    using assms by (subst takeWhile_append2) auto
  ultimately show ?thesis using False by (simp add: min_absorb2)
qed

lemma wplus_small: "a + b < 2 ^ 64 \<Longrightarrow> wplus a b = a + b"
  by (simp add: wplus_def)

lemma takeWhile_wplus:
  assumes "w < 2 ^ 64" "x < 2 ^ 64"
  shows "takeWhile (\<lambda>d. wplus x d < w) [0..<n] = [0..<min n (w - x)]"
proof (rule takeWhile_upt)
  show "wplus x d < w" if "d < w - x" for d
    using that assms wplus_small [of x d] by simp
  show "\<not> wplus x (w - x) < w"
    using assms wplus_small [of x "w - x"] by (cases "x < w") simp_all
qed

lemma contents_shown:
  assumes "w < 2 ^ 64" "h < 2 ^ 64"
    and "j < unat (win_width win)" "i < unat (win_height win)" "client_x win + j < w" "client_y win + i < h"
    and "drop_bit 24 (buf (i * unat (win_width win) + j)) \<noteq> 0"
  shows "draw_contents w h win buf b ((client_y win + i) * w + (client_x win + j)) = buf (i * unat (win_width win) + j)"
proof -
  let ?W = "unat (win_width win)" and ?cx = "client_x win" and ?cy = "client_y win"
  let ?g = "\<lambda>p. buf ((p div w - ?cy) * ?W + (p mod w - ?cx))"
  let ?S = "\<lambda>y x. {p. drop_bit 24 (buf (y * ?W + x)) \<noteq> 0 \<and> p = (?cy + y) * w + (?cx + x)}"
  have c: "?cx < 2 ^ 64" "?cy < 2 ^ 64"
    using unat_u64_lt by (simp_all add: client_x_def client_y_def)
  have "painted (draw_contents w h win buf) ?g
      (\<Union>y \<in> set [0..<min (unat (win_height win)) (h - ?cy)]. \<Union>x \<in> set [0..<min ?W (w - ?cx)]. ?S y x)"
    unfolding draw_contents_def Let_def takeWhile_wplus [OF assms(1) c(1)] takeWhile_wplus [OF assms(2) c(2)]
  proof (intro painted_fold)
    fix y x assume "y \<in> set [0..<min (unat (win_height win)) (h - ?cy)]" "x \<in> set [0..<min ?W (w - ?cx)]"
    then have a: "wplus ?cx x = ?cx + x" "wplus ?cy y = ?cy + y" "?cx + x < w" "?cy + y < h"
      using assms(1,2) wplus_small [of ?cx x] wplus_small [of ?cy y] by auto
    then have "((?cy + y) * w + (?cx + x)) div w = ?cy + y" "((?cy + y) * w + (?cx + x)) mod w = ?cx + x"
      by simp_all
    then show "painted (\<lambda>b. if drop_bit 24 (buf (y * ?W + x)) \<noteq> 0
        then comp_set_pixel w h (wplus ?cx x) (wplus ?cy y) (buf (y * ?W + x)) b else b) ?g (?S y x)"
      using a by (simp add: painted_def comp_set_pixel_def)
  qed
  moreover have "(?cy + i) * w + (?cx + j) \<in>
      (\<Union>y \<in> set [0..<min (unat (win_height win)) (h - ?cy)]. \<Union>x \<in> set [0..<min ?W (w - ?cx)]. ?S y x)"
    using assms(3-7) by (intro UN_I [of i] UN_I [of j]) auto
  moreover have "((?cy + i) * w + (?cx + j)) div w = ?cy + i" "((?cy + i) * w + (?cx + j)) mod w = ?cx + j"
    using assms(5) by simp_all
  ultimately show ?thesis by (simp add: painted_apply)
qed

lemma blit_at:
  assumes "w \<le> stride"
  shows "x < w \<Longrightarrow> y < h \<Longrightarrow> blit w h stride img fb (y * stride + x) = img (y * w + x)"
    and "h * stride \<le> p \<Longrightarrow> blit w h stride img fb p = fb p"
proof -
  let ?S = "\<lambda>y. {y * stride..<y * stride + w}"
  have "painted (blit w h stride img) (\<lambda>p. img (p div stride * w + p mod stride)) (\<Union>y \<in> set [0..<h]. ?S y)"
    unfolding blit_def
  proof (rule painted_fold)
    fix y
    have "p div stride = y \<and> p mod stride = p - y * stride" if "p \<in> ?S y" for p
    proof -
      from that obtain k where "p = y * stride + k" "k < stride" using assms by (auto simp: le_iff_add)
      then show ?thesis by simp
    qed
    then show "painted (\<lambda>fb p. if y * stride \<le> p \<and> p < y * stride + w then img (y * w + (p - y * stride)) else fb p)
        (\<lambda>p. img (p div stride * w + p mod stride)) (?S y)"
      by (auto simp: painted_def)
  qed
  note p = painted_apply [OF this]
  show "blit w h stride img fb (y * stride + x) = img (y * w + x)" if "x < w" "y < h"
  proof -
    have "(y * stride + x) div stride = y" "(y * stride + x) mod stride = x" using that assms by simp_all
    moreover have "y * stride + x \<in> (\<Union>y \<in> set [0..<h]. ?S y)" using that by (intro UN_I [of y]) auto
    ultimately show ?thesis by (simp add: p)
  qed
  show "blit w h stride img fb p = fb p" if "h * stride \<le> p"
  proof -
    have "p \<notin> ?S y" if "y < h" for y
    proof -
      have "Suc y * stride \<le> h * stride" using that by (intro mult_le_mono1) simp
      with assms \<open>h * stride \<le> p\<close> show ?thesis by simp
    qed
    note out = this
    have "p \<notin> (\<Union>y \<in> set [0..<h]. ?S y)"
    proof
      assume "p \<in> (\<Union>y \<in> set [0..<h]. ?S y)"
      then obtain y where "y < h" "p \<in> ?S y" by auto
      with out show False by blast
    qed
    then show ?thesis by (simp only: p if_False)
  qed
qed

subsection \<open>The background can be drawn\<close>

definition filled :: "pixels option \<Rightarrow> bool" where
  "filled ob \<longleftrightarrow> ob \<noteq> None"

lemma filled_fold: "filled ob \<Longrightarrow> (\<And>i ob. i \<in> set xs \<Longrightarrow> filled ob \<Longrightarrow> filled (F i ob)) \<Longrightarrow> filled (fold F xs ob)"
  by (induction xs arbitrary: ob) auto

lemma filled_vec_set: "filled ob \<Longrightarrow> i < len \<Longrightarrow> filled (vec_set len i c ob)"
  by (auto simp: filled_def vec_set_def)

lemma filled_row: "filled ob \<Longrightarrow> y < h \<Longrightarrow> x < w \<Longrightarrow> filled (vec_set (w * h) (y * w + x) c ob)"
  by (intro filled_vec_set offset_below)

lemma step_by_below: "i \<in> set (step_by a b s) \<Longrightarrow> i < b"
  by (simp add: step_by_def)

lemma filled_grid: "filled ob \<Longrightarrow> filled (grid_dots w h ob)"
  unfolding grid_dots_def by (intro filled_fold filled_row) (auto dest: step_by_below)

lemma filled_crosshairs: "filled ob \<Longrightarrow> filled (crosshairs w h ob)"
  unfolding crosshairs_def Let_def by (intro filled_fold) (auto intro: filled_row)

lemma filled_strip: "filled ob \<Longrightarrow> 24 \<le> h \<Longrightarrow> 11 \<le> w \<Longrightarrow> filled (top_strip w h ob)"
  unfolding top_strip_def Let_def
  by (intro filled_fold filled_row) (auto intro!: filled_fold filled_row simp del: upt_rec_numeral)

lemma prerender_returns: "24 \<le> h \<Longrightarrow> 11 \<le> w \<Longrightarrow> prerender_background w h b \<noteq> None"
proof -
  assume "24 \<le> h" "11 \<le> w"
  moreover have "filled (fold (\<lambda>i. vec_set (w * h) i COLOR_BG_OBSIDIAN) [0..<w * h] (Some b))"
    by (intro filled_fold filled_vec_set) (auto simp: filled_def)
  ultimately have "filled (top_strip w h (crosshairs w h (grid_dots w h
      (fold (\<lambda>i. vec_set (w * h) i COLOR_BG_OBSIDIAN) [0..<w * h] (Some b)))))"
    by (intro filled_strip filled_crosshairs filled_grid)
  then show ?thesis by (simp add: prerender_background_def filled_def)
qed

section \<open>What the user sees\<close>

text \<open>
  C18: The screen shows the focused window. After a frame is drawn, every opaque pixel of the window
  on top of the stack that lies on the screen and not under the cursor is on the display at the
  window's place, whatever the other windows, the bar and the background are; and nothing is stored
  behind the rows of the frame buffer, even for windows that hang over an edge.
\<close>
theorem focused_window_shown:
  assumes "windows c = ws @ [win]" "j < unat (win_width win)" "i < unat (win_height win)"
    and "client_x win + j < scr_w d" "client_y win + i < scr_h d" "scr_w d < 2 ^ 64" "scr_h d < 2 ^ 64"
    and "scr_w d \<le> scr_pitch d div 4"
    and "drop_bit 24 (bufs (win_buffer win) (i * unat (win_width win) + j)) \<noteq> 0"
    and "(client_x win + j, client_y win + i) \<notin> cursor_box c"
  shows "framebuf (snd (render bufs dt (c, d))) ((client_y win + i) * (scr_pitch d div 4) + (client_x win + j)) =
      bufs (win_buffer win) (i * unat (win_width win) + j) \<and>
    (\<forall>p. scr_h d * (scr_pitch d div 4) \<le> p \<longrightarrow> framebuf (snd (render bufs dt (c, d))) p = framebuf d p)"
proof -
  let ?w = "scr_w d" and ?h = "scr_h d"
  let ?x = "client_x win + j" and ?y = "client_y win + i"
  have "(?x, ?y) \<noteq> (wplus (unat (scast (pointer_x c) :: u64)) dx, wplus (unat (scast (pointer_y c) :: u64)) dy)"
    if "dx < 16" "dy < 16" for dx dy
    using that assms(10) unfolding cursor_box_def by blast
  then have cur: "draw_cursor ?w ?h (unat (scast (pointer_x c) :: u64)) (unat (scast (pointer_y c) :: u64)) b (?y * ?w + ?x) =
      b (?y * ?w + ?x)" for b
    by (intro cursor_outside assms(4))
  have "draw_windows ?w ?h bufs (ws @ [win]) b =
      draw_contents ?w ?h win (bufs (win_buffer win)) (draw_window_decorations ?w ?h True win
        (fold (\<lambda>(idx, win) b. draw_contents ?w ?h win (bufs (win_buffer win))
             (draw_window_decorations ?w ?h (idx = length ws) win b)) (enumerate 0 ws) b))" for b
    by (simp add: draw_windows_def enumerate_append_eq)
  note last = this
  have "frame_image d bufs dt c (?y * ?w + ?x) = bufs (win_buffer win) (i * unat (win_width win) + j)"
    unfolding frame_image_def Let_def cur unfolding assms(1) last
    by (rule contents_shown [where buf = "bufs (win_buffer win)", OF assms(6,7,2,3,4,5,9)])
  then show ?thesis
    using blit_at(1) [OF assms(8,4,5)] blit_at(2) [OF assms(8)] by (simp add: render_def)
qed

definition demo_client :: window where
  "demo_client = \<lparr>win_id = 1, owner_pid = 6, win_x = 100, win_y = 100, float_x = 100, float_y = 100,
     win_width = 520, win_height = 340, shm_id = 1, win_buffer = 0xB0000000, win_title = replicate 32 0, title_len = 0\<rparr>"

definition demo_display :: display where
  "demo_display = \<lparr>scr_w = 1024, scr_h = 768, scr_pitch = 4096, bg_cache = (\<lambda>_. 0), framebuf = (\<lambda>_. 0)\<rparr>"

lemma demo_sizes:
  "client_x demo_client = 101" "client_y demo_client = 121" "unat (win_width demo_client) = 520"
  "unat (win_height demo_client) = 340" "scr_w demo_display = 1024" "scr_h demo_display = 768" "scr_pitch demo_display = 4096"
  by (simp_all add: client_x_def client_y_def demo_client_def demo_display_def)

lemma focused_window_shown_witness:
  "framebuf (snd (render (\<lambda>_ _. 0xFFE2E8F0) \<lparr>second = 0, minute = 0, hour = 0, day = 1, month = 1, year = 2026\<rparr>
     ((compositor_new 1024 768)\<lparr>windows := [demo_client]\<rparr>, demo_display))) (126 * 1024 + 110) = 0xFFE2E8F0"
proof -
  let ?c = "(compositor_new 1024 768)\<lparr>windows := [demo_client]\<rparr>"
  have "cursor_box ?c \<subseteq> {512..} \<times> UNIV"
    by (auto simp: cursor_box_def compositor_new_def wplus_def)
  then have "(client_x demo_client + 9, client_y demo_client + 5) \<notin> cursor_box ?c" by (auto simp: demo_sizes)
  from focused_window_shown [where c = ?c and ws = "[]" and win = demo_client and j = 9 and i = 5 and d = demo_display
      and bufs = "\<lambda>_ _. 0xFFE2E8F0", OF _ _ _ _ _ _ _ _ _ this]
  show ?thesis by (simp add: demo_sizes)
qed

end
