(* ===== verification/Shell.thy ===== *)
theory Shell
  imports Userlib
begin

text \<open>
  The text programs under \<^verbatim>\<open>userland/\<close>: the shell, the first process \<^verbatim>\<open>init\<close> that starts the services,
  and \<^verbatim>\<open>hello_user\<close>. They act on the world only through the library.
\<close>

section \<open>The line of the shell\<close>

text \<open>
  A character of the keyboard is pushed as the UTF-8 text of its code. A push beyond the capacity
  makes the string grow to a capacity that the standard library chooses: \<open>grow\<close>.
\<close>

record shell =
  input_buffer :: bytes
  sh_capacity :: nat

definition char_bytes :: "u8 \<Rightarrow> bytes" where
  "char_bytes c = (if c < 0x80 then [c] else [0xC0 OR drop_bit 6 c, 0x80 OR (c AND 0x3F)])"

definition push_char :: "(nat \<Rightarrow> nat \<Rightarrow> nat) \<Rightarrow> u8 \<Rightarrow> shell \<Rightarrow> shell" where
  "push_char grow c sh =
     (let text = input_buffer sh @ char_bytes c
      in sh\<lparr>input_buffer := text,
            sh_capacity := (if length text \<le> sh_capacity sh then sh_capacity sh else grow (sh_capacity sh) (length text))\<rparr>)"

text \<open>\<^verbatim>\<open>pop\<close> removes the last character with all its bytes.\<close>

definition pop_char :: "bytes \<Rightarrow> bytes" where
  "pop_char bs = butlast (rev (dropWhile cont_byte (rev bs)))"

definition prompt :: bytes where
  "prompt = ascii ''root@huseynos:~$ ''"

definition shell_key :: "'w lib \<Rightarrow> (nat \<Rightarrow> nat \<Rightarrow> nat) \<Rightarrow> u8 \<Rightarrow> shell \<times> 'w \<Rightarrow> bool \<times> shell \<times> 'w" where
  "shell_key L grow c = (\<lambda>(sh, w).
     if c = 0x0A then (True, sh, lib_print L newline w)
     else if c = 0x08 then
       (False, if input_buffer sh = [] then (sh, w)
               else (sh\<lparr>input_buffer := pop_char (input_buffer sh)\<rparr>, lib_print L [0x08] w))
     else (False, if length (input_buffer sh) < sh_capacity sh then (push_char grow c sh, lib_print L (char_bytes c) w)
                  else (sh, w)))"

text \<open>One message; the result tells whether the line is complete.\<close>

definition shell_message :: "'w lib \<Rightarrow> (nat \<Rightarrow> nat \<Rightarrow> nat) \<Rightarrow> message \<Rightarrow> shell \<times> 'w \<Rightarrow> bool \<times> shell \<times> 'w" where
  "shell_message L grow msg = (\<lambda>(sh, w).
     if msg_type msg = 0x20 then shell_key L grow (ucast (arg1 msg)) (sh, w)
     else if msg_type msg = 0xAA then
       (False, sh, lib_print L (prompt @ input_buffer sh)
          (snd (lib_send L (sender msg) (message_empty\<lparr>msg_type := 0xBB\<rparr>)
             (lib_print L (newline @ ascii ''[IPC] Shell received PING from PID '' @ decimal (sender msg) @ ascii '': arg1='' @
                hex_prefixed 0 (unat (arg1 msg)) @ newline) w))))
     else
       (False, sh, lib_print L (prompt @ input_buffer sh)
          (lib_print L (newline @ ascii ''[IPC] Unexpected message from '' @ decimal (sender msg) @ ascii '': '' @
             hex_prefixed 0 (unat (msg_type msg)) @ newline) w)))"

section \<open>Commands\<close>

definition shell_help :: "bytes list" where
  "shell_help =
     [ascii ''HuseynOS Shell Commands:'',
      ascii ''  help        - Show this message'',
      ascii ''  clear       - Clear the screen'',
      ascii ''  ls          - List files in root directory'',
      ascii ''  cat <file>  - Print file contents'',
      ascii ''  run <file>  - Execute an ELF program'']"

definition println_all :: "'w lib \<Rightarrow> bytes list \<Rightarrow> 'w \<Rightarrow> 'w" where
  "println_all L = fold (\<lambda>l. lib_print L (l @ newline))"

definition shell_row :: "bytes \<Rightarrow> bytes list" where
  "shell_row line = (case rsplit_space line of
     None \<Rightarrow> [] | Some (size_str, name) \<Rightarrow> [ascii ''  '' @ pad_chars 12 name @ ascii ''  '' @ size_str @ ascii '' bytes''])"

definition shell_ls :: "'w lib \<Rightarrow> 'w \<Rightarrow> 'w option" where
  "shell_ls L w0 =
     (case lib_listdir L 2048 w0 of (n, buf, w) \<Rightarrow>
        if n = 0 then Some (println_all L [ascii ''(empty directory)''] w)
        else map_option (\<lambda>s. if valid_utf8 s then println_all L (concat (map shell_row (lines s))) w else w) (slice_to n buf))"

text \<open>The loop around \<^verbatim>\<open>read\<close>; it ends only when a read returns nothing.\<close>

partial_function (option) cat_loop :: "'w lib \<Rightarrow> nat \<Rightarrow> 'w \<Rightarrow> 'w option" where
  "cat_loop L fd w0 =
     (case lib_read L fd 4096 w0 of (n, buf, w) \<Rightarrow>
        if n = 0 then Some w
        else Option.bind (slice_to n buf) (\<lambda>s. cat_loop L fd (if valid_utf8 s then lib_print L s w else w)))"

definition shell_cat :: "'w lib \<Rightarrow> bytes list \<Rightarrow> 'w \<Rightarrow> 'w option" where
  "shell_cat L args w0 =
     (case args of [] \<Rightarrow> Some (println_all L [ascii ''Usage: cat <filename>''] w0)
      | filename # _ \<Rightarrow>
         (case lib_open L filename 0 w0 of
            (None, w) \<Rightarrow> Some (println_all L [ascii ''cat: '' @ filename @ ascii '': No such file''] w)
          | (Some fd, w) \<Rightarrow> map_option (lib_close L fd) (cat_loop L fd w)))"

definition shell_run :: "'w lib \<Rightarrow> bytes list \<Rightarrow> 'w \<Rightarrow> 'w" where
  "shell_run L args w0 =
     (case args of [] \<Rightarrow> println_all L [ascii ''Usage: run <filename>''] w0
      | filename # _ \<Rightarrow>
         (case lib_spawn L filename w0 of
            (None, w) \<Rightarrow> println_all L [ascii ''[ERROR] Failed to spawn '' @ quoted filename] w
          | (Some pid, w) \<Rightarrow>
             (case lib_waitpid L pid (println_all L [ascii ''[OK] Spawned '' @ filename @ ascii '' (PID '' @ decimal pid @ ascii '')''] w) of
                (Some code, w) \<Rightarrow> println_all L [ascii ''[Shell] Process '' @ decimal pid @ ascii '' exited with code '' @ decimal code] w
              | (None, w) \<Rightarrow> println_all L [ascii ''[Shell] Error waiting for PID '' @ decimal pid] w)))"

definition shell_command :: "'w lib \<Rightarrow> bytes \<Rightarrow> bytes list \<Rightarrow> 'w \<Rightarrow> 'w option" where
  "shell_command L cmd args w =
     (if cmd = ascii ''help'' then Some (println_all L shell_help w)
      else if cmd = ascii ''ls'' then shell_ls L w
      else if cmd = ascii ''cat'' then shell_cat L args w
      else if cmd = ascii ''run'' then Some (shell_run L args w)
      else if cmd = ascii ''clear'' then Some (lib_print L ([0x1B] @ ascii ''[2J'' @ [0x1B] @ ascii ''[1;1H'') w)
      else Some (println_all L [ascii ''Command not found: '' @ cmd] w))"

definition shell_execute :: "'w lib \<Rightarrow> bytes \<Rightarrow> 'w \<Rightarrow> 'w option" where
  "shell_execute L cmd_line w =
     (case split_whitespace cmd_line of [] \<Rightarrow> shell_command L [] [] w | cmd # args \<Rightarrow> shell_command L cmd args w)"

text \<open>
  The main loop over the messages that arrive: a complete line is executed unless it is blank, and
  the next prompt is printed.
\<close>

definition shell_new :: "nat \<Rightarrow> shell" where
  "shell_new cap = \<lparr>input_buffer = [], sh_capacity = cap\<rparr>"

definition end_of_line :: "'w lib \<Rightarrow> shell \<times> 'w \<Rightarrow> (shell \<times> 'w) option" where
  "end_of_line L = (\<lambda>(sh, w).
     map_option (\<lambda>w'. (sh\<lparr>input_buffer := []\<rparr>, lib_print L prompt w'))
       (let cmd = trim (input_buffer sh) in if cmd = [] then Some w else shell_execute L cmd w))"

fun shell_loop :: "'w lib \<Rightarrow> (nat \<Rightarrow> nat \<Rightarrow> nat) \<Rightarrow> message list \<Rightarrow> shell \<times> 'w \<Rightarrow> (shell \<times> 'w) option" where
  "shell_loop L grow [] s = Some s"
| "shell_loop L grow (msg # msgs) s =
     (case shell_message L grow msg s of (complete, s') \<Rightarrow>
        Option.bind (if complete then end_of_line L s' else Some s') (shell_loop L grow msgs))"

definition shell_start :: "'w lib \<Rightarrow> nat \<Rightarrow> 'w \<Rightarrow> shell \<times> 'w" where
  "shell_start L cap w =
     (shell_new cap, lib_print L prompt (println_all L [ascii ''[Shell] Started in Userland!''] w))"

section \<open>The first process\<close>

definition say :: "'w lib \<Rightarrow> bytes \<Rightarrow> 'w \<Rightarrow> 'w" where
  "say L s = lib_print L (s @ newline)"

definition start_service :: "'w lib \<Rightarrow> bytes \<Rightarrow> bytes \<Rightarrow> 'w \<Rightarrow> 'w" where
  "start_service L file pid w =
     (case lib_spawn L file (say L (ascii ''[init] Spawning '' @ file @ ascii '' (PID '' @ pid @ ascii '')...'') w) of
        (Some _, w') \<Rightarrow> say L (ascii ''[init]  -> Success'') w'
      | (None, w') \<Rightarrow> say L (ascii ''[init]  -> Failed to spawn '' @ file) w')"

definition init_start :: "'w lib \<Rightarrow> 'w \<Rightarrow> 'w" where
  "init_start L w =
     say L (ascii ''[init] All userland services online. Entering low-power sleep.'')
      (start_service L (ascii ''term.elf'') (ascii ''6'')
      (start_service L (ascii ''comp.elf'') (ascii ''5'')
      (start_service L (ascii ''mouse.elf'') (ascii ''4'')
      (start_service L (ascii ''keyboard.elf'') (ascii ''3'')
      (say L (ascii ''[init] console.elf started (PID 2).'')
      (lib_yield L (lib_yield L (lib_yield L
        (snd (lib_spawn L (ascii ''console.elf'') w))))))))))"

section \<open>The greeting program\<close>

definition hello_start :: "'w lib \<Rightarrow> 'w \<Rightarrow> 'w" where
  "hello_start L w0 =
     (case lib_getpid L w0 of (my_pid, w) \<Rightarrow>
        say L (ascii ''[hello.elf] Finished execution. Gracefully exiting...'')
          (fold (\<lambda>i w. (lib_yield L ^^ 10)
              (say L (ascii ''[hello.elf] Hello from fully isolated Ring 3 Userspace! (PID '' @ decimal my_pid @
                 ascii '') Loop '' @ decimal i) w)) [0..<5] w))"

end
