(* ===== verification/Spec2Isabelle.thy ===== *)
theory Spec2Isabelle
  imports Address_Space Vma Ipc Vfs Disk Nvme Fat32 Shm Process Scheduler Elf Loader Rtc Syscall
    Kernel_Inv User_Memory Loader_Image Exit_Wait Interrupts Faults User_Access Heap Kernel Boot Stubs Serial Input Compositor Desktop Pci
    Terminal Console Render Acpi Ata Ahci Xhci Shell
begin

text \<open>
  HuseynOS is a small operating system in Rust for x86_64: a kernel (\<^verbatim>\<open>kernel/src\<close>) that schedules
  processes, maps memory, passes messages, stores files and drives the devices, and the programs
  that run on it (\<^verbatim>\<open>userland/\<close>): the first process, the drivers of keyboard, mouse and console, the
  compositor of the windows, a graphical terminal and a shell. This library models both, and proves
  what the parts promise to each other.

  \<^bold>\<open>Conventions.\<close> A structure of the code is a record, an enumeration a datatype, an operation of the
  code a definition with the name it has there (with a prefix where two files use one name). Machine
  integers are words, so that sums wrap as in the release build; \<^verbatim>\<open>usize\<close> indices that cannot wrap
  are natural numbers, and a definition says so where they can. A panic is \<^verbatim>\<open>None\<close>, an error value of
  the code stays a value (\<^verbatim>\<open>option\<close>, a Boolean, a status word, the datatypes \<^verbatim>\<open>elf_error\<close> and
  \<^verbatim>\<open>result\<close>). Global variables behind locks are fields of the record \<^verbatim>\<open>kernel\<close> or of the record of
  their driver; interrupts are disabled in the kernel, so that operations do not interleave.
\<close>

section \<open>The parts and where they are\<close>

text \<open>
  Memory. The theory Machine has the record \<^verbatim>\<open>machine\<close>: the frame allocator (Frame,
  \<^verbatim>\<open>memory/frame.rs\<close>), the physical memory as 64-bit cells and the root of the page tables. Paging is
  \<^verbatim>\<open>memory/paging.rs\<close>, Address_Space the proof that address spaces are disjoint trees of tables, User_Memory
  the memory that a process sees. Vma is \<^verbatim>\<open>vma.rs\<close> and Shm is \<^verbatim>\<open>shm.rs\<close>. Heap is the start of the
  memory (\<^verbatim>\<open>memory/heap.rs\<close> and the set-up of paging).

  Processes. Process has the record \<^verbatim>\<open>kernel\<close>, whose fields are the process table, the saved contexts by
  address, the scheduler's variables, the mailboxes, the shared regions and the storage (\<^verbatim>\<open>process.rs\<close>);
  Ipc is the ring of \<^verbatim>\<open>ipc.rs\<close>; Scheduler is \<^verbatim>\<open>scheduler.rs\<close> with the rest of \<^verbatim>\<open>ipc.rs\<close>; Elf is \<^verbatim>\<open>elf.rs\<close>;
  Loader and Loader_Image are \<^verbatim>\<open>load_elf\<close> and \<^verbatim>\<open>exit_process\<close> of \<^verbatim>\<open>process.rs\<close> with the image that a
  loaded program finds. Syscall has the 29 calls of \<^verbatim>\<open>syscall.rs\<close> and their dispatch; Exit_Wait and
  User_Access follow the calls that wait, end a process or move bytes to it. Interrupts
  (\<^verbatim>\<open>gdt.rs\<close>, \<^verbatim>\<open>idt.rs\<close>, \<^verbatim>\<open>pic.rs\<close>, \<^verbatim>\<open>pit.rs\<close>) has the tables and the handler; Stubs has the assembly
  around the handler, on registers and stack; Faults decodes the tables and follows page faults.
  Kernel_Inv and Kernel put the calls, the faults and the interrupts together: a step relation
  from the state that \<^verbatim>\<open>kmain\<close> (\<^verbatim>\<open>main.rs\<close>) leaves.

  Storage. Vfs is \<^verbatim>\<open>vfs.rs\<close>, Fat32 is \<^verbatim>\<open>fat32.rs\<close>, Disk is the block layer and the partition table
  (\<^verbatim>\<open>gpt.rs\<close>), and Nvme, Ahci and Ata are the three drivers below it.

  Devices. Acpi (\<^verbatim>\<open>acpi.rs\<close>), Apic (\<^verbatim>\<open>apic.rs\<close>), Pci (\<^verbatim>\<open>pci.rs\<close>), Xhci (\<^verbatim>\<open>xhci.rs\<close>), Rtc (\<^verbatim>\<open>rtc.rs\<close>) and Serial
  (\<^verbatim>\<open>serial.rs\<close>). Boot runs the probes in the order of \<^verbatim>\<open>kmain\<close>. Format has the text formats of the reports.

  Programs. Userlib is the interface to the library \<^verbatim>\<open>libhuseyn\<close>; Input has the keyboard and the mouse
  driver; Compositor and Render the compositor, its state and its drawing; Desktop follows a
  key from the interrupt to the window; Terminal and Terminal_Font, Console and Vga_Font, and Shell (with
  the first process and the greeting) are the other programs. Canvas has the pixel buffers.

  A process reaches the kernel through Syscall, which calls every component on one \<^verbatim>\<open>kernel\<close>; a device
  reaches it through \<^verbatim>\<open>interrupt\<close>, which sends a message to the driver process, whose step sends one
  to the compositor, whose step sends one to a program.
\<close>

section \<open>What is shown\<close>

text \<open>
  Every state: \<^verbatim>\<open>kernel_inv\<close> (Kernel_Inv, Kernel) is kept by every call, fault and interrupt, by one lemma per
  operation in the collection \<^verbatim>\<open>inv\<close>, so that it holds in every reachable state.

  Refinement. The frame allocator is a set of free frames (Frame; interface \<^verbatim>\<open>frame_provider\<close>, which Machine
  interprets for plain and for cleared frames, and on which Shm and the loader rest). The ring is a
  bounded queue with coalescing (Ipc, interface \<^verbatim>\<open>mailbox\<close>, interpreted as \<^verbatim>\<open>ring\<close>). Descriptors use storage
  through the interface \<^verbatim>\<open>file_storage\<close>, which Fat32 interprets as \<^verbatim>\<open>fat\<close>. A disk is a \<^verbatim>\<open>sector_store\<close>; Ata
  and Ahci prove its laws for their drivers on any device that follows the documented protocol, Disk
  for a disk in memory; Nvme proves that its driver breaks them. The page tables are partial functions
  from addresses to bytes (User_Memory), and a loaded program is the image its file describes. The console
  shows a grid of characters; the window on top is on the screen; the assembly of Stubs is a record of
  registers.

  Progress. No ready process waits for more than 64 decisions (Scheduler); the search for a gap
  returns (Vma); the set-up of the heap and of the devices returns with enough frames (Heap, Boot).

  Errors. A fault outside the regions ends the process; a late \<^verbatim>\<open>waitpid\<close> blocks; and where the code does
  not do what it means to, the theorem says what it does: \<^verbatim>\<open>user_bytes_stride\<close>, \<^verbatim>\<open>clicks_never_act\<close>,
  \<^verbatim>\<open>nvme_sectors_alias\<close>, \<^verbatim>\<open>shm_owner_exit_frees_mapped_frame\<close>, \<^verbatim>\<open>waitpid_after_exit_blocks\<close>,
  \<^verbatim>\<open>deleted_character_stays\<close>, and the two segment registers that \<^verbatim>\<open>interrupt_transparent\<close> shows exchanged.
\<close>

section \<open>Bounds\<close>

text \<open>
  The sizes are those of the code: 64 slots of the process table and 64 mailboxes of 64 messages, 16
  descriptors, 32 shared regions, 256 gates, 2^20 frames. A loop of the code with a bound is a
  recursion on it: 100 000 polls of a disk (500 000 in the AHCI driver), 48 capabilities of a PCI function, 32 ports.
  Decimal text uses 20 digits and hexadecimal text 16, which hold every 64-bit number (\<^verbatim>\<open>decimal\<close>,
  \<^verbatim>\<open>hex_digits\<close>). The heap takes 259 frames, 256 pages and three tables; the devices take at most 45:
  6 for the interrupt controllers, 15 for USB, 17 for NVMe and 7 for AHCI, mappings included. Loops without a bound
  are partial functions: the wait of the clock (Rtc), the gap search (Vma) and the repeated
  sends of the programs (Userlib), each with a theorem on when they return.
\<close>

section \<open>Parameters\<close>

text \<open>
  What is not in the repository is an argument: the ports, the memory-mapped registers, the configuration space
  and the chip of the clock; the answers of the boot loader (memory map, modules, direct map,
  root pointer, frame buffer); the library \<^verbatim>\<open>libhuseyn\<close> of the programs, with its message numbers; the
  kernel heap behind the stack of a new process; the bytes around a file image, which an ELF header can
  reach; the capacity to which a string grows; the crate of the serial port. The laws on them that a
  theorem needs are its hypotheses, and each has a witness with a concrete device.
\<close>

section \<open>Not modelled\<close>

text \<open>
  The text of the boot log and of the panic message: nothing reads it back. The check of the revision of
  the boot protocol, which halts. The TLB: \<^verbatim>\<open>invlpg\<close> has no effect here, and no theorem
  depends on stale entries. The free-list inside the heap: the crate \<^verbatim>\<open>linked_list_allocator\<close>. The NVMe command
  structures and the USB transfer block, which no code uses. \<^verbatim>\<open>memory/mod.rs\<close>, which declares modules,
  and \<^verbatim>\<open>fat32-builder\<close>, a tool of the build host around the crate \<^verbatim>\<open>fatfs\<close>. Unicode beyond ASCII in the
  upper-casing of names. Other processors: the kernel starts none.
\<close>

end
